(* ===== verification/Prelude.thy ===== *)
theory Prelude
  imports Complex_Main "HOL-Library.AList" "HOL-Library.Sublist" "HOL-Library.Multiset"
begin

text \<open>
  Shared ground of the development: the result type every modelled Go function returns, the
  Go built-in operations the program relies on (wrapping 64-bit arithmetic, truncated remainder,
  maps, checked indexing), and the generic lemmas on lists and association lists that the
  component theories use.

  A Go function that returns \<open>(T, error)\<close> becomes a function into \<open>'a result\<close>: \<open>Inr x\<close> is the
  value, \<open>Inl (Error e)\<close> the returned error and \<open>Inl (Panic m)\<close> a run-time panic (nil dereference,
  index out of range, failed type assertion, division by zero).
\<close>

section \<open>Collections of facts\<close>

named_theorems run_simps \<open>evaluation of the operation combinators\<close>
named_theorems keeps_intros \<open>preservation of a state predicate by an operation\<close>

section \<open>Errors and results\<close>

text \<open>
  \<open>models.ValidationError\<close>, \<open>models.NotFoundError\<close> and every other error value, which carry
  only a message (\<open>pkg/models/errors.go\<close>).
\<close>

datatype go_error =
    ValidationError string
  | NotFoundError string
  | OtherError string

datatype fault =
    Error go_error
  | Panic string

type_synonym 'a result = "fault + 'a"

definition bind_res :: "'a result \<Rightarrow> ('a \<Rightarrow> 'b result) \<Rightarrow> 'b result" where
  "bind_res r f = (case r of Inl e \<Rightarrow> Inl e | Inr x \<Rightarrow> f x)"

lemma bind_res_simps [simp]:
  "bind_res (Inl e) f = Inl e"
  "bind_res (Inr x) f = f x"
  by (simp_all add: bind_res_def)

lemma bind_res_Inr_iff:
  "bind_res r f = Inr y \<longleftrightarrow> (\<exists>x. r = Inr x \<and> f x = Inr y)"
  by (cases r) auto

definition is_ok :: "'a result \<Rightarrow> bool" where
  "is_ok r = (case r of Inl _ \<Rightarrow> False | Inr _ \<Rightarrow> True)"

lemma is_ok_simps [simp]: "is_ok (Inr x)" "\<not> is_ok (Inl e)"
  by (simp_all add: is_ok_def)

lemma is_ok_bind: "is_ok (bind_res r f) \<longleftrightarrow> (\<exists>x. r = Inr x \<and> is_ok (f x))"
  by (cases r) auto

section \<open>Go integers\<close>

text \<open>
  Ids, counters and unix times are \<open>int\<close>; where the code multiplies in \<open>int64\<close> the result is
  wrapped explicitly. Go's \<open>%\<close> truncates towards zero and panics on a zero divisor.
\<close>

definition wrap64 :: "int \<Rightarrow> int" where
  "wrap64 x = (x + 2 ^ 63) mod 2 ^ 64 - 2 ^ 63"

definition max_int64 :: int where
  "max_int64 = 2 ^ 63 - 1"

definition min_int64 :: int where
  "min_int64 = - (2 ^ 63)"

lemma wrap64_range: "min_int64 \<le> wrap64 x \<and> wrap64 x \<le> max_int64"
proof -
  have "0 \<le> (x + 2 ^ 63) mod 2 ^ 64" and "(x + 2 ^ 63) mod 2 ^ 64 < (2 ^ 64 :: int)"
    by simp_all
  then show ?thesis by (simp add: wrap64_def min_int64_def max_int64_def)
qed

lemma wrap64_id: "min_int64 \<le> x \<Longrightarrow> x \<le> max_int64 \<Longrightarrow> wrap64 x = x"
  by (simp add: wrap64_def min_int64_def max_int64_def)

definition go_rem :: "int \<Rightarrow> int \<Rightarrow> int result" where
  "go_rem a b =
     (if b = 0 then Inl (Panic ''integer divide by zero'')
      else Inr (sgn a * (\<bar>a\<bar> mod \<bar>b\<bar>)))"

lemma go_rem_pos: "0 \<le> a \<Longrightarrow> 0 < b \<Longrightarrow> go_rem a b = Inr (a mod b)"
  by (cases "a = 0") (simp_all add: go_rem_def)

definition go_index :: "'a list \<Rightarrow> int \<Rightarrow> 'a result" where
  "go_index xs i =
     (if 0 \<le> i \<and> i < int (length xs) then Inr (xs ! nat i)
      else Inl (Panic ''index out of range''))"

section \<open>Go maps\<close>

text \<open>
  A Go map is an association list with distinct keys: \<open>map_of\<close> is the lookup,
  \<^const>\<open>AList.update\<close> the assignment, \<^const>\<open>AList.delete\<close> the built-in \<open>delete\<close>, \<open>length\<close>
  the built-in \<open>len\<close>. A \<open>range\<close> loop visits the entries in list order; Go leaves that order open,
  so a property about a loop over a map is stated for every order or on sets.
\<close>

type_synonym ('k, 'v) gomap = "('k \<times> 'v) list"

definition gomap_ok :: "('k, 'v) gomap \<Rightarrow> bool" where
  "gomap_ok m \<longleftrightarrow> distinct (map fst m)"

lemma gomap_ok_update [simp]: "gomap_ok m \<Longrightarrow> gomap_ok (AList.update k v m)"
  by (simp add: gomap_ok_def distinct_update)

lemma gomap_ok_delete [simp]: "gomap_ok m \<Longrightarrow> gomap_ok (AList.delete k m)"
  by (simp add: gomap_ok_def distinct_delete)

lemma gomap_ok_Nil [simp]: "gomap_ok []"
  by (simp add: gomap_ok_def)

section \<open>Generic lemmas\<close>

lemma filter_filter_conj: "filter P (filter Q xs) = filter (\<lambda>x. Q x \<and> P x) xs"
  by (simp add: conj_commute)

lemma distinct_map_unique:
  "distinct (map f xs) \<Longrightarrow> x \<in> set xs \<Longrightarrow> y \<in> set xs \<Longrightarrow> f x = f y \<Longrightarrow> x = y"
  by (auto simp: distinct_map inj_on_def)

lemma find_Some_in: "List.find P xs = Some x \<Longrightarrow> x \<in> set xs \<and> P x"
  by (auto simp: find_Some_iff)

lemma find_None_all: "List.find P xs = None \<Longrightarrow> x \<in> set xs \<Longrightarrow> \<not> P x"
  by (auto simp: find_None_iff)

end
