(* ===== verification/GoText.thy ===== *)
theory GoText
  imports Prelude
begin

text \<open>
  The parts of Go's \<open>strings\<close>, \<open>strconv\<close> and \<open>fmt\<close> packages that the program uses, on byte
  strings: splitting, joining, trimming, lower-casing, and printing and parsing of decimal
  integers. Letters are ASCII; the program's identifiers, header names and size suffixes are.
\<close>

section \<open>Characters\<close>

definition is_digit :: "char \<Rightarrow> bool" where
  "is_digit c \<longleftrightarrow> 48 \<le> (of_char c :: nat) \<and> (of_char c :: nat) \<le> 57"

definition is_upper :: "char \<Rightarrow> bool" where
  "is_upper c \<longleftrightarrow> 65 \<le> (of_char c :: nat) \<and> (of_char c :: nat) \<le> 90"

definition is_lower :: "char \<Rightarrow> bool" where
  "is_lower c \<longleftrightarrow> 97 \<le> (of_char c :: nat) \<and> (of_char c :: nat) \<le> 122"

text \<open>The regular expression class \<open>\\w\<close> of Go's RE2: ASCII letters, digits and the underscore.\<close>

definition is_word :: "char \<Rightarrow> bool" where
  "is_word c \<longleftrightarrow> is_digit c \<or> is_upper c \<or> is_lower c \<or> c = CHR ''_''"

text \<open>ASCII white space: tab, newline, vertical tab, form feed, carriage return, space.\<close>

definition is_space :: "char \<Rightarrow> bool" where
  "is_space c \<longleftrightarrow> (of_char c :: nat) \<in> {9, 10, 11, 12, 13, 32}"

definition lower_char :: "char \<Rightarrow> char" where
  "lower_char c = (if is_upper c then char_of ((of_char c :: nat) + 32) else c)"

definition to_lower :: "string \<Rightarrow> string" where
  "to_lower s = map lower_char s"

lemma lower_char_not_upper: "\<not> is_upper (lower_char c)"
proof (cases "is_upper c")
  case True
  then have "(of_char c :: nat) + 32 < 256" and "97 \<le> (of_char c :: nat) + 32"
    by (simp_all add: is_upper_def)
  with True show ?thesis by (simp add: lower_char_def is_upper_def)
next
  case False
  then show ?thesis by (simp add: lower_char_def)
qed

lemma to_lower_idem [simp]: "to_lower (to_lower s) = to_lower s"
  using lower_char_not_upper by (simp add: to_lower_def lower_char_def[of "lower_char _"])

section \<open>Splitting, joining and trimming\<close>

fun split_char :: "char \<Rightarrow> string \<Rightarrow> string list" where
  "split_char c [] = [[]]"
| "split_char c (x # xs) =
     (if x = c then [] # split_char c xs
      else (case split_char c xs of [] \<Rightarrow> [[x]] | p # ps \<Rightarrow> (x # p) # ps))"

text \<open>\<open>strings.SplitN(s, sep, 2)\<close> with a one-byte separator.\<close>

definition split2 :: "char \<Rightarrow> string \<Rightarrow> string list" where
  "split2 c s =
     (case dropWhile (\<lambda>x. x \<noteq> c) s of
        [] \<Rightarrow> [s]
      | _ # rest \<Rightarrow> [takeWhile (\<lambda>x. x \<noteq> c) s, rest])"

fun join :: "string \<Rightarrow> string list \<Rightarrow> string" where
  "join sep [] = []"
| "join sep [x] = x"
| "join sep (x # y # zs) = x @ sep @ join sep (y # zs)"

definition trim_space :: "string \<Rightarrow> string" where
  "trim_space s = rev (dropWhile is_space (rev (dropWhile is_space s)))"

definition has_prefix :: "string \<Rightarrow> string \<Rightarrow> bool" where
  "has_prefix s p \<longleftrightarrow> take (length p) s = p"

definition trim_prefix :: "string \<Rightarrow> string \<Rightarrow> string" where
  "trim_prefix s p = (if has_prefix s p then drop (length p) s else s)"

definition has_suffix :: "string \<Rightarrow> string \<Rightarrow> bool" where
  "has_suffix s p \<longleftrightarrow> has_prefix (rev s) (rev p)"

definition trim_suffix :: "string \<Rightarrow> string \<Rightarrow> string" where
  "trim_suffix s p = (if has_suffix s p then take (length s - length p) s else s)"

lemma split_char_not_Nil [simp]: "split_char c s \<noteq> []"
  by (induction s) (auto split: list.splits)

lemma join_Cons: "xs \<noteq> [] \<Longrightarrow> join sep (x # xs) = x @ sep @ join sep xs"
  by (cases xs) simp_all

lemma join_split_char: "join [c] (split_char c s) = s"
proof (induction s)
  case Nil
  then show ?case by simp
next
  case (Cons x xs)
  obtain p ps where p: "split_char c xs = p # ps"
    by (meson list.exhaust split_char_not_Nil)
  show ?case
  proof (cases "x = c")
    case True
    then show ?thesis using Cons p by (simp add: join_Cons)
  next
    case False
    then show ?thesis using Cons p by (cases ps) simp_all
  qed
qed

lemma split_char_parts: "p \<in> set (split_char c s) \<Longrightarrow> c \<notin> set p"
proof (induction s arbitrary: p)
  case Nil
  then show ?case by simp
next
  case (Cons x xs)
  then show ?case by (cases "split_char c xs") (auto split: if_splits)
qed

lemma split_char_append:
  "c \<notin> set p \<Longrightarrow> split_char c (p @ c # s) = p # split_char c s"
  by (induction p) auto

lemma split_char_none: "c \<notin> set p \<Longrightarrow> split_char c p = [p]"
  by (induction p) auto

lemma split_char_join:
  "xs \<noteq> [] \<Longrightarrow> \<forall>x\<in>set xs. c \<notin> set x \<Longrightarrow> split_char c (join [c] xs) = xs"
proof (induction xs)
  case Nil
  then show ?case by simp
next
  case (Cons x xs)
  then show ?case
    by (cases xs) (simp_all add: split_char_none split_char_append)
qed

lemma dropWhile_hd: "dropWhile P xs = y # ys \<Longrightarrow> \<not> P y"
  by (metis hd_dropWhile list.discI list.sel(1))

lemma dropWhile_id: "xs = [] \<or> \<not> P (hd xs) \<Longrightarrow> dropWhile P xs = xs"
  by (cases xs) auto

text \<open>A trimmed string has no white space at either end.\<close>

lemma trim_space_ends:
  assumes "trim_space s \<noteq> []"
  shows "\<not> is_space (hd (trim_space s)) \<and> \<not> is_space (last (trim_space s))"
proof -
  let ?a = "dropWhile is_space s" and ?b = "dropWhile is_space (rev (dropWhile is_space s))"
  have ne: "?b \<noteq> []" using assms by (simp add: trim_space_def)
  then have "\<not> is_space (hd ?b)" by (rule hd_dropWhile)
  then have last: "\<not> is_space (last (rev ?b))" using ne by (simp add: last_rev)
  obtain u where u: "rev ?a = u @ ?b"
    by (metis takeWhile_dropWhile_id)
  then have a: "?a = rev ?b @ rev u"
    by (metis rev_append rev_rev_ident)
  then have "?a \<noteq> []" by (metis append_is_Nil_conv ne rev_is_Nil_conv)
  then have "\<not> is_space (hd ?a)" by (rule hd_dropWhile)
  then have "\<not> is_space (hd (rev ?b))" by (metis a hd_append2 ne rev_is_Nil_conv)
  with last show ?thesis by (simp add: trim_space_def)
qed

lemma trim_space_idem [simp]: "trim_space (trim_space s) = trim_space s"
proof (cases "trim_space s = []")
  case True
  moreover have "trim_space [] = []" by (simp add: trim_space_def)
  ultimately show ?thesis by simp
next
  case False
  then have "dropWhile is_space (trim_space s) = trim_space s"
    and "dropWhile is_space (rev (trim_space s)) = rev (trim_space s)"
    using trim_space_ends[OF False] by (auto intro!: dropWhile_id simp: hd_rev)
  then show ?thesis by (simp add: trim_space_def[of "trim_space s"])
qed

section \<open>Decimal integers\<close>

definition digit_char :: "nat \<Rightarrow> char" where
  "digit_char d = char_of (48 + d)"

definition digit_val :: "char \<Rightarrow> nat" where
  "digit_val c = of_char c - 48"

fun show_nat :: "nat \<Rightarrow> string" where
  "show_nat n = (if n < 10 then [digit_char n] else show_nat (n div 10) @ [digit_char (n mod 10)])"

declare show_nat.simps [simp del]

definition show_int :: "int \<Rightarrow> string" where
  "show_int i = (if i < 0 then ''-'' @ show_nat (nat (- i)) else show_nat (nat i))"

text \<open>The same digits computed on \<open>int\<close>, which evaluates fast on large numbers.\<close>

function show_digits :: "int \<Rightarrow> string" where
  "show_digits i =
     (if i < 10 then [digit_char (nat i)] else show_digits (i div 10) @ [digit_char (nat (i mod 10))])"
  by pat_completeness auto

termination by (relation "measure nat") auto

declare show_digits.simps [simp del]

lemma show_digits_nat: "0 \<le> i \<Longrightarrow> show_digits i = show_nat (nat i)"
proof (induction i rule: show_digits.induct)
  case (1 i)
  then show ?case
    by (simp add: show_digits.simps[of i] show_nat.simps[of "nat i"] nat_div_distrib nat_mod_distrib)
qed

lemma show_int_code [code]:
  "show_int i = (if i < 0 then ''-'' @ show_digits (- i) else show_digits i)"
  by (simp add: show_int_def show_digits_nat)

definition digits_val :: "string \<Rightarrow> nat" where
  "digits_val s = foldl (\<lambda>a c. a * 10 + digit_val c) 0 s"

lemma of_char_digit: "d < 10 \<Longrightarrow> (of_char (digit_char d) :: nat) = 48 + d"
  by (simp add: digit_char_def)

lemma is_digit_digit_char: "d < 10 \<Longrightarrow> is_digit (digit_char d)"
  by (simp add: is_digit_def of_char_digit)

lemma digit_val_digit_char: "d < 10 \<Longrightarrow> digit_val (digit_char d) = d"
  by (simp add: digit_val_def of_char_digit)

lemma show_nat_digits: "\<forall>c\<in>set (show_nat n). is_digit c"
proof (induction n rule: show_nat.induct)
  case (1 n)
  then show ?case
    by (cases "n < 10") (auto simp: show_nat.simps[of n] is_digit_digit_char)
qed

lemma show_nat_not_Nil [simp]: "show_nat n \<noteq> []"
  by (subst show_nat.simps) simp

lemma digits_val_snoc: "digits_val (s @ [c]) = digits_val s * 10 + digit_val c"
  by (simp add: digits_val_def)

lemma digits_val_show_nat: "digits_val (show_nat n) = n"
proof (induction n rule: show_nat.induct)
  case (1 n)
  show ?case
  proof (cases "n < 10")
    case True
    then show ?thesis
      by (simp add: show_nat.simps[of n] digits_val_def digit_val_digit_char)
  next
    case False
    with 1 have "digits_val (show_nat (n div 10)) = n div 10" by simp
    with False show ?thesis
      by (simp add: show_nat.simps[of n] digits_val_snoc digit_val_digit_char)
  qed
qed

text \<open>
  \<open>strconv.ParseInt(s, 10, 64)\<close>: the value and the error. A syntax error gives 0; a value out of
  range gives the nearest \<open>int64\<close>, with an error in both cases.
\<close>

definition parse_int64 :: "string \<Rightarrow> int \<times> string option" where
  "parse_int64 s =
     (let neg = has_prefix s ''-'';
          ds = (if neg \<or> has_prefix s ''+'' then tl s else s)
      in if ds = [] \<or> \<not> list_all is_digit ds then (0, Some ''invalid syntax'')
         else let v = (if neg then - int (digits_val ds) else int (digits_val ds))
              in if v > max_int64 then (max_int64, Some ''value out of range'')
                 else if v < min_int64 then (min_int64, Some ''value out of range'')
                 else (v, None))"

lemma has_prefix_digit:
  "is_digit c \<Longrightarrow> \<not> has_prefix (c # s) ''-'' \<and> \<not> has_prefix (c # s) ''+''"
  by (auto simp: has_prefix_def is_digit_def)

lemma parse_show_int:
  assumes "min_int64 \<le> i" and "i \<le> max_int64"
  shows "parse_int64 (show_int i) = (i, None)"
proof (cases "i < 0")
  case True
  have "list_all is_digit (show_nat (nat (- i)))"
    using show_nat_digits by (simp add: list_all_iff)
  with True assms show ?thesis
    by (simp add: parse_int64_def show_int_def has_prefix_def digits_val_show_nat Let_def)
next
  case False
  have ds: "list_all is_digit (show_nat (nat i))"
    using show_nat_digits by (simp add: list_all_iff)
  obtain c s where cs: "show_nat (nat i) = c # s"
    by (meson list.exhaust show_nat_not_Nil)
  with ds have np: "\<not> has_prefix (show_nat (nat i)) ''-'' \<and> \<not> has_prefix (show_nat (nat i)) ''+''"
    using has_prefix_digit by simp
  have "int (digits_val (show_nat (nat i))) = i"
    using False by (simp add: digits_val_show_nat)
  with False ds np assms show ?thesis
    by (simp add: parse_int64_def show_int_def Let_def)
qed

lemma show_int_inj: "show_int i = show_int j \<Longrightarrow> i = j"
proof -
  assume eq: "show_int i = show_int j"
  have hd: "is_digit (hd (show_nat n))" for n
    using show_nat_digits[of n] by (metis hd_in_set show_nat_not_Nil)
  have dash: "\<not> is_digit (CHR ''-'')" by (simp add: is_digit_def)
  have sgn: "i < 0 \<longleftrightarrow> j < 0"
  proof (rule ccontr)
    assume "(i < 0) \<noteq> (j < 0)"
    then have "\<exists>m n. show_nat m = CHR ''-'' # show_nat n"
      using eq by (cases "i < 0"; cases "j < 0"; simp add: show_int_def) metis+
    then obtain m n where "show_nat m = CHR ''-'' # show_nat n" by blast
    then show False using hd[of m] dash by simp
  qed
  with eq have "show_nat (nat \<bar>i\<bar>) = show_nat (nat \<bar>j\<bar>)"
    by (auto simp: show_int_def split: if_splits)
  then have "nat \<bar>i\<bar> = nat \<bar>j\<bar>"
    by (metis digits_val_show_nat)
  with sgn show "i = j" by auto
qed

lemma show_int_chars: "c \<in> set (show_int i) \<Longrightarrow> is_digit c \<or> c = CHR ''-''"
  using show_nat_digits by (auto simp: show_int_def split: if_splits)

end
