(* ===== verification/Models.thy ===== *)
theory Models
  imports GoText
begin

text \<open>
  The data model of \<open>pkg/models\<close>: endpoints, checks, routes, probes, sessions, quotas, monitors
  and the errors the API maps to status codes. Record fields carry a short prefix and the Go
  field name (\<open>c_Frequency\<close> is \<open>Check.Frequency\<close>). Times are nanoseconds as \<open>int\<close>.
\<close>

type_synonym time = int

definition second :: int where "second = 1000000000"

section \<open>Errors (errors.go)\<close>

text \<open>\<open>AppError.Code\<close>: only validation and not-found errors are \<open>AppError\<close>s.\<close>

fun app_code :: "go_error \<Rightarrow> int option" where
  "app_code (ValidationError m) = Some 400"
| "app_code (NotFoundError m) = Some 404"
| "app_code (OtherError m) = None"

fun app_message :: "go_error \<Rightarrow> string" where
  "app_message (ValidationError m) = m"
| "app_message (NotFoundError m) = m"
| "app_message (OtherError m) = m"

text \<open>The \<open>Error()\<close> method of each error type.\<close>

fun error_string :: "go_error \<Rightarrow> string" where
  "error_string (ValidationError m) = show_int 400 @ '': '' @ m"
| "error_string (NotFoundError m) = show_int 404 @ '': '' @ m"
| "error_string (OtherError m) = m"

section \<open>Dynamic values\<close>

text \<open>
  The dynamic types that occur under \<open>interface{}\<close> in a settings map. A \<open>float64\<close> that comes
  from JSON or from the code's own constants is finite, so it is a rational.
\<close>

datatype iface =
    INil
  | IBool bool
  | IStr string
  | IFloat rat
  | IInt int
  | IInt64 int
  | IList "iface list"
  | IObj "(string \<times> iface) list"

type_synonym settings = "(string, iface) gomap"

section \<open>Endpoints, checks and routes (endpoint.go)\<close>

record Endpoint =
  e_Id :: int
  e_OrgId :: int
  e_Name :: string
  e_Slug :: string
  e_Created :: time
  e_Updated :: time

record EndpointTag =
  et_OrgId :: int
  et_EndpointId :: int
  et_Tag :: string
  et_Created :: time

text \<open>\<open>CheckType\<close> is a string type; a request may carry any string.\<close>

type_synonym CheckType = string

definition HTTP_CHECK :: CheckType where "HTTP_CHECK = ''http''"
definition HTTPS_CHECK :: CheckType where "HTTPS_CHECK = ''https''"
definition DNS_CHECK :: CheckType where "DNS_CHECK = ''dns''"
definition PING_CHECK :: CheckType where "PING_CHECK = ''ping''"

type_synonym RouteType = string

definition RouteByTags :: RouteType where "RouteByTags = ''byTags''"
definition RouteByIds :: RouteType where "RouteByIds = ''byIds''"

lemmas check_types = HTTP_CHECK_def HTTPS_CHECK_def DNS_CHECK_def PING_CHECK_def
lemmas route_types = RouteByTags_def RouteByIds_def

lemma route_types_distinct [simp]: "RouteByTags \<noteq> RouteByIds" "RouteByIds \<noteq> RouteByTags"
  by (simp_all add: route_types)

text \<open>A route configuration holds \<open>[]string\<close> or \<open>[]int64\<close> values only.\<close>

datatype cfg_value =
    CStrings "string list"
  | CInts "int list"

record CheckRoute =
  r_Type :: RouteType
  r_Config :: "(string, cfg_value) gomap"

record CheckNotificationSetting =
  n_Enabled :: bool
  n_Addresses :: string

record CheckHealthSettings =
  h_NumProbes :: int
  h_Steps :: int
  h_Notifications :: CheckNotificationSetting

type_synonym CheckEvalResult = int

definition EvalResultOK :: CheckEvalResult where "EvalResultOK = 0"
definition EvalResultWarn :: CheckEvalResult where "EvalResultWarn = 1"
definition EvalResultCrit :: CheckEvalResult where "EvalResultCrit = 2"
definition EvalResultUnknown :: CheckEvalResult where "EvalResultUnknown = -1"

lemmas eval_results =
  EvalResultOK_def EvalResultWarn_def EvalResultCrit_def EvalResultUnknown_def

text \<open>\<open>CheckEvalResult.String\<close> (monitor.go) panics on any other value.\<close>

definition eval_result_string :: "CheckEvalResult \<Rightarrow> string result" where
  "eval_result_string c =
     (if c = EvalResultOK then Inr ''OK''
      else if c = EvalResultWarn then Inr ''Warning''
      else if c = EvalResultCrit then Inr ''Critical''
      else if c = EvalResultUnknown then Inr ''Unknown''
      else Inl (Panic (''Invalid CheckEvalResult value '' @ show_int c)))"

text \<open>\<open>Route\<close> and \<open>HealthSettings\<close> are pointers: \<open>None\<close> is nil.\<close>

record Check =
  c_Id :: int
  c_OrgId :: int
  c_EndpointId :: int
  c_Route :: "CheckRoute option"
  c_Type :: CheckType
  c_Frequency :: int
  c_Offset :: int
  c_Enabled :: bool
  c_State :: CheckEvalResult
  c_StateChange :: time
  c_StateCheck :: time
  c_Settings :: settings
  c_HealthSettings :: "CheckHealthSettings option"
  c_Created :: time
  c_Updated :: time

record CheckWithSlug =
  cs_Check :: Check
  cs_Slug :: string

record EndpointDTO =
  ed_Id :: int
  ed_OrgId :: int
  ed_Name :: string
  ed_Slug :: string
  ed_Checks :: "Check list"
  ed_Tags :: "string list"
  ed_Created :: time
  ed_Updated :: time

record RouteByIdIndex =
  ri_ProbeId :: int
  ri_CheckId :: int
  ri_Created :: time

record RouteByTagIndex =
  rt_OrgId :: int
  rt_CheckId :: int
  rt_Tag :: string
  rt_Created :: time

record CheckForAlertDTO =
  a_Id :: int
  a_OrgId :: int
  a_EndpointId :: int
  a_Slug :: string
  a_Name :: string
  a_Type :: string
  a_Offset :: int
  a_Frequency :: int
  a_Enabled :: bool
  a_State :: CheckEvalResult
  a_StateChange :: time
  a_StateCheck :: time
  a_Settings :: settings
  a_HealthSettings :: "CheckHealthSettings option"
  a_Created :: time
  a_Updated :: time

text \<open>\<open>AlertingJob\<close> embeds the check (alerting.go).\<close>

record AlertingJob = CheckForAlertDTO +
  j_GeneratedAt :: time
  j_LastPointTs :: time
  j_NewState :: CheckEvalResult
  j_TimeExec :: time

record GetEndpointsQuery =
  qe_OrgId :: int
  qe_Name :: string
  qe_Tag :: string
  qe_OrderBy :: string

subsection \<open>Slugs\<close>

text \<open>
  \<open>Regexp.ReplaceAllString(name, r)\<close> for a class repeated once or more: every maximal run of
  characters of the class becomes one \<open>r\<close>. The flag says whether the scan is inside a run.
\<close>

fun replace_runs :: "(char \<Rightarrow> bool) \<Rightarrow> string \<Rightarrow> bool \<Rightarrow> string \<Rightarrow> string" where
  "replace_runs P r inrun [] = []"
| "replace_runs P r inrun (c # cs) =
     (if P c then (if inrun then replace_runs P r True cs else r @ replace_runs P r True cs)
      else c # replace_runs P r False cs)"

definition not_word_or_blank :: "char \<Rightarrow> bool" where
  "not_word_or_blank c \<longleftrightarrow> \<not> is_word c \<and> c \<noteq> CHR '' ''"

definition dash_spaces :: "string \<Rightarrow> string" where
  "dash_spaces s = map (\<lambda>c. if is_space c then CHR ''-'' else c) s"

definition endpoint_slug :: "string \<Rightarrow> string" where
  "endpoint_slug name = dash_spaces (replace_runs not_word_or_blank ''_'' False (to_lower name))"

definition probe_slug :: "string \<Rightarrow> string" where
  "probe_slug name = dash_spaces (replace_runs not_word_or_blank [] False (to_lower name))"

definition Endpoint_UpdateSlug :: "Endpoint \<Rightarrow> Endpoint" where
  "Endpoint_UpdateSlug e = e\<lparr>e_Slug := endpoint_slug (e_Name e)\<rparr>"

definition slug_char :: "char \<Rightarrow> bool" where
  "slug_char c \<longleftrightarrow> is_digit c \<or> is_lower c \<or> c = CHR ''_'' \<or> c = CHR ''-''"

lemma set_replace_runs:
  "c \<in> set (replace_runs P r b s) \<Longrightarrow> (c \<in> set s \<and> \<not> P c) \<or> c \<in> set r"
  by (induction P r b s rule: replace_runs.induct) (auto split: if_splits)

lemma set_to_lower: "c \<in> set (to_lower s) \<Longrightarrow> \<not> is_upper c"
  using lower_char_not_upper by (auto simp: to_lower_def)

lemma dashed_slug_chars:
  assumes "set r \<subseteq> {CHR ''_''}"
    and "c \<in> set (dash_spaces (replace_runs not_word_or_blank r False (to_lower name)))"
  shows "slug_char c"
proof -
  from assms(2) obtain d where d: "d \<in> set (replace_runs not_word_or_blank r False (to_lower name))"
    and c: "c = (if is_space d then CHR ''-'' else d)"
    by (auto simp: dash_spaces_def)
  from set_replace_runs[OF d] assms(1)
  have "(\<not> is_upper d \<and> (is_word d \<or> d = CHR '' '')) \<or> d = CHR ''_''"
    using set_to_lower by (auto simp: not_word_or_blank_def)
  with c show ?thesis
    by (auto simp: slug_char_def is_word_def is_space_def)
qed

subsection \<open>Decoding and validating a route\<close>

text \<open>
  A decoded JSON document. \<open>JInt\<close> is a number written without fraction and exponent, \<open>JFloat\<close> any
  other: \<open>encoding/json\<close> decodes only the former into an integer field.
\<close>

datatype json =
    JNull
  | JBool bool
  | JInt int
  | JFloat rat
  | JStr string
  | JArr "json list"
  | JObj "(string \<times> json) list"

text \<open>
  \<open>json.Unmarshal\<close> of an object into a struct: field names match regardless of case, and the last
  matching member wins.
\<close>

definition json_field :: "string \<Rightarrow> (string \<times> json) list \<Rightarrow> json option" where
  "json_field name ms =
     map_option snd (List.find (\<lambda>kv. to_lower (fst kv) = to_lower name) (rev ms))"

fun json_string :: "json \<Rightarrow> string option" where
  "json_string (JStr s) = Some s"
| "json_string JNull = Some []"
| "json_string _ = None"


fun json_int64 :: "json \<Rightarrow> int option" where
  "json_int64 (JInt i) = (if min_int64 \<le> i \<and> i \<le> max_int64 then Some i else None)"
| "json_int64 JNull = Some 0"
| "json_int64 _ = None"

fun decode_list :: "(json \<Rightarrow> 'a option) \<Rightarrow> json \<Rightarrow> 'a list option" where
  "decode_list f (JArr xs) = those (map f xs)"
| "decode_list f JNull = Some []"
| "decode_list f _ = None"

text \<open>\<open>json.Unmarshal\<close> into \<open>map[string][]T\<close>; duplicate members overwrite.\<close>

fun decode_members ::
  "(json \<Rightarrow> 'a option) \<Rightarrow> ('a list \<Rightarrow> cfg_value) \<Rightarrow> (string \<times> json) list
     \<Rightarrow> (string, cfg_value) gomap \<Rightarrow> (string, cfg_value) gomap option" where
  "decode_members f C [] acc = Some acc"
| "decode_members f C ((k, v) # ms) acc =
     (case decode_list f v of
        None \<Rightarrow> None
      | Some xs \<Rightarrow> decode_members f C ms (AList.update k (C xs) acc))"

fun decode_config ::
  "(json \<Rightarrow> 'a option) \<Rightarrow> ('a list \<Rightarrow> cfg_value) \<Rightarrow> json option
     \<Rightarrow> (string, cfg_value) gomap option" where
  "decode_config f C (Some (JObj ms)) = decode_members f C ms []"
| "decode_config f C (Some JNull) = Some []"
| "decode_config f C _ = None"

definition InvalidRouteConfig :: fault where
  "InvalidRouteConfig = Error (ValidationError ''Invalid route config'')"

definition UnknownRouteType :: fault where
  "UnknownRouteType = Error (ValidationError ''unknown route type'')"

definition json_error :: fault where
  "json_error = Error (OtherError ''json: cannot unmarshal'')"

text \<open>
  \<open>CheckRoute.UnmarshalJSON\<close>: the type decides how the configuration is decoded. \<open>None\<close> is a body
  that is not JSON.
\<close>

definition CheckRoute_UnmarshalJSON :: "json option \<Rightarrow> CheckRoute result" where
  "CheckRoute_UnmarshalJSON body =
     (let fields = (case body of Some (JObj ms) \<Rightarrow> Some ms | Some JNull \<Rightarrow> Some [] | _ \<Rightarrow> None)
      in case fields of
           None \<Rightarrow> Inl json_error
         | Some ms \<Rightarrow>
             (case (case json_field ''type'' ms of None \<Rightarrow> Some [] | Some v \<Rightarrow> json_string v) of
                None \<Rightarrow> Inl json_error
              | Some ty \<Rightarrow>
                  if ty = RouteByTags then
                    (case decode_config json_string CStrings (json_field ''config'' ms) of
                       None \<Rightarrow> Inl json_error
                     | Some cfg \<Rightarrow> Inr \<lparr>r_Type = ty, r_Config = cfg\<rparr>)
                  else if ty = RouteByIds then
                    (case decode_config json_int64 CInts (json_field ''config'' ms) of
                       None \<Rightarrow> Inl json_error
                     | Some cfg \<Rightarrow> Inr \<lparr>r_Type = ty, r_Config = cfg\<rparr>)
                  else Inl UnknownRouteType))"

text \<open>\<open>CheckRoute.Validate\<close>; reading a field of a nil route panics.\<close>

definition CheckRoute_Validate :: "CheckRoute option \<Rightarrow> unit result" where
  "CheckRoute_Validate r =
     (case r of
        None \<Rightarrow> Inl (Panic ''nil pointer dereference'')
      | Some rt \<Rightarrow>
          if r_Type rt = RouteByTags then
            (if length (r_Config rt) \<noteq> 1 then Inl InvalidRouteConfig
             else if map_of (r_Config rt) ''tags'' = None then Inl InvalidRouteConfig
             else Inr ())
          else if r_Type rt = RouteByIds then
            (if length (r_Config rt) \<noteq> 1 then Inl InvalidRouteConfig
             else if map_of (r_Config rt) ''ids'' = None then Inl InvalidRouteConfig
             else Inr ())
          else Inl UnknownRouteType)"

text \<open>The type assertions \<open>Config["tags"].([]string)\<close> and \<open>Config["ids"].([]int64)\<close>.\<close>

definition config_tags :: "CheckRoute \<Rightarrow> string list result" where
  "config_tags r =
     (case map_of (r_Config r) ''tags'' of
        Some (CStrings ts) \<Rightarrow> Inr ts
      | _ \<Rightarrow> Inl (Panic ''interface conversion: not []string''))"

definition config_ids :: "CheckRoute \<Rightarrow> int list result" where
  "config_ids r =
     (case map_of (r_Config r) ''ids'' of
        Some (CInts is) \<Rightarrow> Inr is
      | _ \<Rightarrow> Inl (Panic ''interface conversion: not []int64''))"

text \<open>
  A route is well typed when the assertion its type calls for succeeds: the contract every
  consumer of a route relies on.
\<close>

definition route_ok :: "CheckRoute \<Rightarrow> bool" where
  "route_ok r \<longleftrightarrow>
     (r_Type r = RouteByTags \<and> is_ok (config_tags r)) \<or>
     (r_Type r = RouteByIds \<and> is_ok (config_ids r))"

lemma those_map_Some: "those (map f xs) = Some ys \<Longrightarrow> length ys = length xs"
  by (induction xs arbitrary: ys) (auto split: option.splits)

lemma decode_members_values:
  "decode_members f C ms acc = Some m \<Longrightarrow> \<forall>v\<in>ran (map_of acc). v \<in> range C \<Longrightarrow>
   \<forall>v\<in>ran (map_of m). v \<in> range C"
proof (induction f C ms acc rule: decode_members.induct)
  case (1 f C acc)
  then show ?case by simp
next
  case (2 f C k v ms acc)
  then obtain xs where xs: "decode_list f v = Some xs"
    and rest: "decode_members f C ms (AList.update k (C xs) acc) = Some m"
    by (auto split: option.splits)
  have "\<forall>u\<in>ran (map_of (AList.update k (C xs) acc)). u \<in> range C"
    using "2.prems"(2) by (auto simp: update_conv' ran_def split: if_splits)
  then show ?case using "2.IH"[OF xs rest] by blast
qed

lemma decode_config_values:
  "decode_config f C j = Some m \<Longrightarrow> map_of m k = Some v \<Longrightarrow> v \<in> range C"
proof -
  assume a: "decode_config f C j = Some m" and b: "map_of m k = Some v"
  show ?thesis
  proof (cases "j = Some JNull")
    case True
    then show ?thesis using a b by simp
  next
    case False
    then obtain ms where "decode_members f C ms [] = Some m"
      using a by (cases "(f, C, j)" rule: decode_config.cases) auto
    then have "\<forall>u\<in>ran (map_of m). u \<in> range C" by (rule decode_members_values) simp
    with b show ?thesis by (auto simp: ran_def)
  qed
qed

section \<open>Probes (probe.go)\<close>

record Probe =
  p_Id :: int
  p_OrgId :: int
  p_Slug :: string
  p_Name :: string
  p_Public :: bool
  p_Latitude :: rat
  p_Longitude :: rat
  p_Created :: time
  p_Updated :: time
  p_Online :: bool
  p_OnlineChange :: time
  p_Enabled :: bool
  p_EnabledChange :: time

record ProbeTag =
  pt_OrgId :: int
  pt_ProbeId :: int
  pt_Tag :: string
  pt_Created :: time

record ProbeSession =
  s_Id :: int
  s_OrgId :: int
  s_ProbeId :: int
  s_SocketId :: string
  s_Version :: string
  s_InstanceId :: string
  s_RemoteIp :: string
  s_Updated :: time

record ProbeDTO =
  pd_Id :: int
  pd_OrgId :: int
  pd_Slug :: string
  pd_Name :: string
  pd_Tags :: "string list"
  pd_Public :: bool
  pd_Latitude :: rat
  pd_Longitude :: rat
  pd_Online :: bool
  pd_OnlineChange :: time
  pd_Enabled :: bool
  pd_EnabledChange :: time
  pd_Created :: time
  pd_Updated :: time
  pd_RemoteIp :: "string list"

definition Probe_UpdateSlug :: "Probe \<Rightarrow> Probe" where
  "Probe_UpdateSlug p = p\<lparr>p_Slug := probe_slug (p_Name p)\<rparr>"

section \<open>Quotas (quotas.go)\<close>

record Quota =
  q_Id :: int
  q_OrgId :: int
  q_Target :: string
  q_Limit :: int
  q_Created :: time
  q_Updated :: time

record OrgQuotaDTO =
  oq_OrgId :: int
  oq_Target :: string
  oq_Limit :: int
  oq_Used :: int

record GlobalQuotaDTO =
  gq_Target :: string
  gq_Limit :: int
  gq_Used :: int

record QuotaScope =
  qs_Name :: string
  qs_Target :: string
  qs_DefaultLimit :: int

text \<open>\<open>setting.QuotaSettings\<close> (setting/setting_quota.go).\<close>

record OrgQuota =
  oqs_Endpoint :: int
  oqs_Probe :: int
  oqs_DownloadLimit :: int

record GlobalQuota =
  gqs_Endpoint :: int
  gqs_Probe :: int

record QuotaSettings =
  qset_Enabled :: bool
  qset_Org :: OrgQuota
  qset_Global :: GlobalQuota

text \<open>\<open>ToMap\<close> reflects over the struct's \<open>target\<close> tags.\<close>

definition OrgQuota_ToMap :: "OrgQuota \<Rightarrow> (string, int) gomap" where
  "OrgQuota_ToMap q =
     [(''endpoint'', oqs_Endpoint q), (''probe'', oqs_Probe q),
      (''downloadLimit'', oqs_DownloadLimit q)]"

definition GlobalQuota_ToMap :: "GlobalQuota \<Rightarrow> (string, int) gomap" where
  "GlobalQuota_ToMap q = [(''endpoint'', gqs_Endpoint q), (''probe'', gqs_Probe q)]"

definition ErrInvalidQuotaTarget :: fault where
  "ErrInvalidQuotaTarget = Error (OtherError ''Invalid quota target'')"

definition GetQuotaScopes :: "QuotaSettings \<Rightarrow> string \<Rightarrow> QuotaScope list result" where
  "GetQuotaScopes st target =
     (if target = ''endpoint'' then
        Inr [\<lparr>qs_Name = ''global'', qs_Target = target,
              qs_DefaultLimit = gqs_Endpoint (qset_Global st)\<rparr>,
             \<lparr>qs_Name = ''org'', qs_Target = target,
              qs_DefaultLimit = oqs_Endpoint (qset_Org st)\<rparr>]
      else if target = ''probe'' then
        Inr [\<lparr>qs_Name = ''global'', qs_Target = target,
              qs_DefaultLimit = gqs_Probe (qset_Global st)\<rparr>,
             \<lparr>qs_Name = ''org'', qs_Target = target,
              qs_DefaultLimit = oqs_Probe (qset_Org st)\<rparr>]
      else if target = ''downloadLimit'' then
        Inr [\<lparr>qs_Name = ''org'', qs_Target = target,
              qs_DefaultLimit = oqs_DownloadLimit (qset_Org st)\<rparr>]
      else Inl ErrInvalidQuotaTarget)"

end
