(* ===== verification/CheckValidation.thy ===== *)
theory CheckValidation
  imports Models
begin

text \<open>
  \<open>Check.Validate\<close> and the four settings validators of \<open>pkg/models/endpoint.go\<close>.

  Each validator walks two Go maps, the required and the optional fields of its check type, and
  stops at the first error. Go leaves the order of such a walk open, so every validator takes the
  order as the argument \<open>ord\<close>, and the lemmas show that acceptance and the resulting settings do
  not depend on it. Validation changes the settings it accepts: a port is replaced by its integer
  part and an empty size string is removed; the validators return the settings they leave.
\<close>

text \<open>
  The float operations the language leaves open or that only feed messages: the conversion
  \<open>int64(f)\<close> of a value outside the \<open>int64\<close> range, and the verbs \<open>%.2f\<close> and \<open>%v\<close>.
\<close>

record floats =
  f2i :: "rat \<Rightarrow> int"
  fmt2 :: "rat \<Rightarrow> string"
  fmtv :: "rat \<Rightarrow> string"

definition float_int64 :: "floats \<Rightarrow> rat \<Rightarrow> int" where
  "float_int64 fl q =
     (let t = (if 0 \<le> q then \<lfloor>q\<rfloor> else \<lceil>q\<rceil>)
      in if min_int64 \<le> t \<and> t \<le> max_int64 then t else f2i fl q)"

definition formatSize :: "floats \<Rightarrow> int \<Rightarrow> string" where
  "formatSize fl sz =
     (if sz > 1024 * 1024 then fmt2 fl (of_int sz / 1024 / 1024) @ '' MB''
      else if sz > 1024 then fmt2 fl (of_int sz / 1024) @ '' KB''
      else show_int sz)"

definition verr :: "string \<Rightarrow> 'a result" where
  "verr m = Inl (Error (ValidationError m))"

lemma not_ok_verr [simp]: "\<not> is_ok (verr m)" "verr m \<noteq> Inr x"
  by (simp_all add: verr_def)

section \<open>Fields and their data types\<close>

type_synonym fields = "(string \<times> string) list"

definition http_required :: fields where
  "http_required = [(''host'', ''string''), (''path'', ''string'')]"

definition http_optional :: fields where
  "http_optional =
     [(''port'', ''number''), (''method'', ''string''), (''headers'', ''string''),
      (''expectRegex'', ''string''), (''body'', ''string''), (''timeout'', ''number''),
      (''downloadLimit'', ''size''), (''ipversion'', ''ipversion'')]"

definition https_optional :: fields where
  "https_optional =
     [(''port'', ''number''), (''method'', ''string''), (''headers'', ''string''),
      (''expectRegex'', ''string''), (''validateCert'', ''bool''), (''body'', ''string''),
      (''timeout'', ''number''), (''downloadLimit'', ''size''), (''ipversion'', ''ipversion'')]"

definition ping_required :: fields where
  "ping_required = [(''hostname'', ''string'')]"

definition ping_optional :: fields where
  "ping_optional = [(''timeout'', ''number''), (''ipversion'', ''ipversion'')]"

definition dns_required :: fields where
  "dns_required = [(''name'', ''string''), (''type'', ''string''), (''server'', ''string'')]"

definition dns_optional :: fields where
  "dns_optional =
     [(''timeout'', ''float''), (''protocol'', ''string''), (''port'', ''integer''),
      (''expectRegex'', ''string'')]"

definition validRecordTypes :: "string list" where
  "validRecordTypes = [''A'', ''AAAA'', ''CNAME'', ''MX'', ''NS'', ''PTR'', ''SOA'', ''SRV'', ''TXT'']"

section \<open>One field at a time\<close>

text \<open>A required field: present, a string, not empty; \<open>label\<close> is the check type in the message.\<close>

definition required_field :: "string \<Rightarrow> settings \<Rightarrow> string \<times> string \<Rightarrow> string result" where
  "required_field label s fd =
     (case map_of s (fst fd) of
        None \<Rightarrow> verr (fst fd @ '' field missing from '' @ label @ '' check'')
      | Some raw \<Rightarrow>
          if snd fd = ''string'' then
            (case raw of
               IStr v \<Rightarrow>
                 if v = [] then verr (fst fd @ '' field missing from '' @ label @ '' check'') else Inr v
             | _ \<Rightarrow> verr (fst fd @ '' field is invalid type. Expected string''))
          else Inr [])"

text \<open>The submatches of the size expression: a run of digits, then k or m, then b, in any case.\<close>

definition match_size :: "string \<Rightarrow> (string \<times> string) option" where
  "match_size s =
     (let ds = takeWhile is_digit s; rest = dropWhile is_digit s; low = to_lower rest
      in if ds = [] then None
         else if low = [] \<or> low = ''b'' then Some (ds, [])
         else if low = ''k'' \<or> low = ''kb'' \<or> low = ''m'' \<or> low = ''mb'' then Some (ds, take 1 rest)
         else None)"

text \<open>The size in bytes: \<open>ParseInt\<close>'s error is dropped and the product wraps.\<close>

definition size_bytes :: "string \<times> string \<Rightarrow> int" where
  "size_bytes m =
     (let value = fst (parse_int64 (fst m)); suffix = to_lower (snd m)
      in if suffix = ''m'' then wrap64 (wrap64 (value * 1024) * 1024)
         else if suffix = ''k'' then wrap64 (value * 1024)
         else value)"

fun over_limit :: "floats \<Rightarrow> string \<Rightarrow> OrgQuotaDTO list \<Rightarrow> int \<Rightarrow> unit result" where
  "over_limit fl field [] value = Inr ()"
| "over_limit fl field (quota # qs) value =
     (if oq_Target quota = ''downloadLimit'' \<and> value > oq_Limit quota
      then verr (field @ '' field is invalid. '' @ formatSize fl value @ '' is over limit of '' @
                 formatSize fl (oq_Limit quota))
      else over_limit fl field qs value)"

definition limit_value :: "floats \<Rightarrow> OrgQuotaDTO list \<Rightarrow> string \<Rightarrow> int \<Rightarrow> unit result" where
  "limit_value fl quotas field value =
     (if field = ''downloadLimit'' then over_limit fl field quotas value else Inr ())"

text \<open>
  The value an optional field has after its check: \<open>Inr None\<close> removes it. This is the body of the
  second loop of the HTTP and HTTPS validators; the HTTP field table has no \<open>bool\<close> entry and the
  ping table neither \<open>string\<close> nor \<open>size\<close>.
\<close>

definition optional_field ::
  "floats \<Rightarrow> OrgQuotaDTO list \<Rightarrow> string \<times> string \<Rightarrow> iface \<Rightarrow> iface option result" where
  "optional_field fl quotas fd raw =
     (let field = fst fd; dataType = snd fd in
      if dataType = ''string'' then
        (case raw of IStr _ \<Rightarrow> Inr (Some raw)
         | _ \<Rightarrow> verr (field @ '' field is invalid type. Expected string''))
      else if dataType = ''number'' then
        (case raw of
           IFloat value \<Rightarrow>
             if field = ''timeout'' then
               (if value \<le> 0 \<or> value > 10
                then verr (field @ '' field is invalid. must be between 1 and 10'')
                else Inr (Some raw))
             else if field = ''port'' then
               (if value < 1 \<or> value > 65535
                then verr (field @ '' field is invalid. must be between 1 and 65535'')
                else Inr (Some (IInt (float_int64 fl value))))
             else Inr (Some raw)
         | _ \<Rightarrow> verr (field @ '' field is invalid type. Expected number''))
      else if dataType = ''bool'' then
        (case raw of IBool _ \<Rightarrow> Inr (Some raw)
         | _ \<Rightarrow> verr (field @ '' field is invalid type. Expected boolean''))
      else if dataType = ''size'' then
        (case raw of
           IFloat q \<Rightarrow> bind_res (limit_value fl quotas field (float_int64 fl q)) (\<lambda>_. Inr (Some raw))
         | IInt64 i \<Rightarrow> bind_res (limit_value fl quotas field i) (\<lambda>_. Inr (Some raw))
         | IStr str \<Rightarrow>
             if str = [] then Inr None
             else (case match_size str of
                     None \<Rightarrow> verr (field @ '' field is invalid. must be number or size string'')
                   | Some m \<Rightarrow>
                       bind_res (limit_value fl quotas field (size_bytes m)) (\<lambda>_. Inr (Some raw)))
         | _ \<Rightarrow> verr (field @ '' field is invalid. must be number or size string''))
      else if dataType = ''ipversion'' then
        (case raw of
           IStr version \<Rightarrow>
             if version = ''v4'' \<or> version = ''v6'' \<or> version = ''any'' then Inr (Some raw)
             else verr (field @ '' field is invalid. Expected v4, v6 or any'')
         | _ \<Rightarrow> verr (field @ '' field is invalid type. Expected ip version''))
      else Inr (Some raw))"

text \<open>The second loop of the DNS validator: it has cases for \<open>string\<close> and \<open>number\<close> only.\<close>

definition optional_dns_field :: "floats \<Rightarrow> string \<times> string \<Rightarrow> iface \<Rightarrow> iface option result" where
  "optional_dns_field fl fd raw =
     (let field = fst fd; dataType = snd fd in
      if dataType = ''string'' then
        (case raw of
           IStr value \<Rightarrow>
             if field = ''protocol'' \<and> to_lower value \<noteq> ''udp'' \<and> to_lower value \<noteq> ''tcp''
             then verr ''protocol field is invalid must be tcp or udp''
             else Inr (Some raw)
         | _ \<Rightarrow> verr (field @ '' field is invalid type. Expected string''))
      else if dataType = ''number'' then
        (case raw of
           IFloat value \<Rightarrow>
             if field = ''timeout'' then
               (if value \<le> 0 \<or> value > 10
                then verr (field @ '' field is invalid. must be between 1 and 10'')
                else Inr (Some raw))
             else if field = ''port'' then
               (if value < 1 \<or> value > 65535
                then verr (field @ '' field is invalid. must be between 1 and 65535'')
                else Inr (Some (IInt (float_int64 fl value))))
             else Inr (Some raw)
         | _ \<Rightarrow> verr (field @ '' field is invalid type. Expected number''))
      else Inr (Some raw))"

definition required_dns_field :: "settings \<Rightarrow> string \<times> string \<Rightarrow> string result" where
  "required_dns_field s fd =
     bind_res (required_field ''DNS'' s fd) (\<lambda>value.
       if snd fd = ''string'' \<and> fst fd = ''type'' \<and> value \<notin> set validRecordTypes
       then verr (''unknown dns record type: '' @ value)
       else Inr value)"

section \<open>The loops\<close>

fun required_loop :: "(string \<times> string \<Rightarrow> string result) \<Rightarrow> fields \<Rightarrow> unit result" where
  "required_loop chk [] = Inr ()"
| "required_loop chk (fd # fds) = bind_res (chk fd) (\<lambda>_. required_loop chk fds)"

definition put_setting :: "string \<Rightarrow> iface option \<Rightarrow> settings \<Rightarrow> settings" where
  "put_setting field nv s =
     (case nv of None \<Rightarrow> AList.delete field s | Some v \<Rightarrow> AList.update field v s)"

fun optional_loop ::
  "(string \<times> string \<Rightarrow> iface \<Rightarrow> iface option result) \<Rightarrow> fields \<Rightarrow> settings \<Rightarrow> settings result" where
  "optional_loop chk [] s = Inr s"
| "optional_loop chk (fd # fds) s =
     (case map_of s (fst fd) of
        None \<Rightarrow> optional_loop chk fds s
      | Some raw \<Rightarrow>
          bind_res (chk fd raw) (\<lambda>nv. optional_loop chk fds (put_setting (fst fd) nv s)))"

type_synonym order = "fields \<Rightarrow> fields"

definition validateHTTPSettings ::
  "floats \<Rightarrow> order \<Rightarrow> OrgQuotaDTO list \<Rightarrow> settings \<Rightarrow> settings result" where
  "validateHTTPSettings fl ord quotas s =
     bind_res (required_loop (required_field ''HTTP'' s) (ord http_required)) (\<lambda>_.
       optional_loop (optional_field fl quotas) (ord http_optional) s)"

definition validateHTTPSSettings ::
  "floats \<Rightarrow> order \<Rightarrow> OrgQuotaDTO list \<Rightarrow> settings \<Rightarrow> settings result" where
  "validateHTTPSSettings fl ord quotas s =
     bind_res (required_loop (required_field ''HTTPS'' s) (ord http_required)) (\<lambda>_.
       optional_loop (optional_field fl quotas) (ord https_optional) s)"

definition validatePINGSettings :: "floats \<Rightarrow> order \<Rightarrow> settings \<Rightarrow> settings result" where
  "validatePINGSettings fl ord s =
     bind_res (required_loop (required_field ''Ping'' s) (ord ping_required)) (\<lambda>_.
       optional_loop (optional_field fl []) (ord ping_optional) s)"

definition validateDNSSettings :: "floats \<Rightarrow> order \<Rightarrow> settings \<Rightarrow> settings result" where
  "validateDNSSettings fl ord s =
     bind_res (required_loop (required_dns_field s) (ord dns_required)) (\<lambda>_.
       optional_loop (optional_dns_field fl) (ord dns_optional) s)"

definition validFreq :: "int list" where
  "validFreq = [10, 30, 60, 120, 300, 600]"

text \<open>\<open>Check.Validate\<close>: the route, the frequency, then the settings of the check type.\<close>

definition Check_Validate ::
  "floats \<Rightarrow> order \<Rightarrow> OrgQuotaDTO list \<Rightarrow> Check \<Rightarrow> settings result" where
  "Check_Validate fl ord quotas c =
     bind_res (CheckRoute_Validate (c_Route c)) (\<lambda>_.
       if c_Frequency c \<notin> set validFreq then verr ''Invalid frequency specified.''
       else if c_Type c = HTTP_CHECK then validateHTTPSettings fl ord quotas (c_Settings c)
       else if c_Type c = HTTPS_CHECK then validateHTTPSSettings fl ord quotas (c_Settings c)
       else if c_Type c = PING_CHECK then validatePINGSettings fl ord (c_Settings c)
       else if c_Type c = DNS_CHECK then validateDNSSettings fl ord (c_Settings c)
       else verr (''unknown check type. '' @ c_Type c))"


section \<open>Lemmas on the loops\<close>

lemma is_ok_required_loop: "is_ok (required_loop chk fds) \<longleftrightarrow> (\<forall>fd\<in>set fds. is_ok (chk fd))"
proof (induction fds)
  case Nil
  then show ?case by simp
next
  case (Cons fd fds)
  then show ?case by (cases "chk fd") auto
qed

lemma map_of_put_setting:
  "map_of (put_setting f nv s) k = (if k = f then nv else map_of s k)"
  by (cases nv) (auto simp: put_setting_def update_conv' delete_conv')

text \<open>
  What the second loop leaves: every listed field is present only with the value its check gives,
  every other field is unchanged.
\<close>

lemma optional_loop_result:
  assumes "distinct (map fst fds)" and "optional_loop chk fds s = Inr s'"
  shows "map_of s' k =
    (case map_of fds k of
       None \<Rightarrow> map_of s k
     | Some d \<Rightarrow> (case map_of s k of None \<Rightarrow> None
                  | Some raw \<Rightarrow> (case chk (k, d) raw of Inr nv \<Rightarrow> nv | Inl _ \<Rightarrow> None)))"
  using assms
proof (induction fds arbitrary: s)
  case Nil
  then show ?case by simp
next
  case (Cons fd fds)
  obtain f d where fd: "fd = (f, d)" by (cases fd)
  show ?case
  proof (cases "map_of s f")
    case None
    with Cons fd show ?thesis by (auto split: option.splits)
  next
    case (Some raw)
    with Cons.prems fd obtain nv where nv: "chk (f, d) raw = Inr nv"
      and rest: "optional_loop chk fds (put_setting f nv s) = Inr s'"
      by (cases "chk (f, d) raw") auto
    have "map_of fds f = None"
      using Cons.prems(1) fd by (simp add: map_of_eq_None_iff)
    with Cons.IH[OF _ rest] Cons.prems(1) fd nv Some show ?thesis
      by (auto simp: map_of_put_setting split: option.splits)
  qed
qed

lemma is_ok_optional_loop:
  assumes "distinct (map fst fds)"
  shows "is_ok (optional_loop chk fds s) \<longleftrightarrow>
    (\<forall>f d raw. (f, d) \<in> set fds \<longrightarrow> map_of s f = Some raw \<longrightarrow> is_ok (chk (f, d) raw))"
  using assms
proof (induction fds arbitrary: s)
  case Nil
  then show ?case by simp
next
  case (Cons fd fds)
  obtain f d where fd: "fd = (f, d)" by (cases fd)
  have other: "g \<noteq> f" if "(g, e) \<in> set fds" for g e
    using Cons.prems that fd by (force simp: image_iff)
  show ?case
  proof (cases "map_of s f")
    case None
    with Cons fd show ?thesis by auto
  next
    case (Some raw)
    show ?thesis
    proof (cases "chk (f, d) raw")
      case (Inl e)
      with Some fd show ?thesis by force
    next
      case (Inr nv)
      have "is_ok (optional_loop chk fds (put_setting f nv s)) \<longleftrightarrow>
        (\<forall>g e r. (g, e) \<in> set fds \<longrightarrow> map_of s g = Some r \<longrightarrow> is_ok (chk (g, e) r))"
        using Cons.IH[of "put_setting f nv s"] Cons.prems other
        by (auto simp: map_of_put_setting)
      with Some Inr fd show ?thesis by auto
    qed
  qed
qed

text \<open>The loops under two orders of the same fields.\<close>

lemma required_loop_order:
  "mset fds = mset fds' \<Longrightarrow> is_ok (required_loop chk fds) = is_ok (required_loop chk fds')"
  unfolding is_ok_required_loop by (drule mset_eq_setD) simp

lemma distinct_map_mset: "mset xs = mset ys \<Longrightarrow> distinct (map f xs) \<Longrightarrow> distinct (map f ys)"
  by (drule arg_cong[where f = "image_mset f"]) (metis mset_eq_imp_distinct_iff mset_map)

lemma map_of_same_set:
  "distinct (map fst xs) \<Longrightarrow> distinct (map fst ys) \<Longrightarrow> set xs = set ys \<Longrightarrow> map_of xs = map_of ys"
  by (rule ext) (metis map_of_eq_Some_iff not_Some_eq)

lemma optional_loop_order:
  assumes "mset fds = mset fds'" and "distinct (map fst fds)"
  shows "is_ok (optional_loop chk fds s) = is_ok (optional_loop chk fds' s)"
    and "optional_loop chk fds s = Inr t \<Longrightarrow> optional_loop chk fds' s = Inr t' \<Longrightarrow> map_of t = map_of t'"
proof -
  have d': "distinct (map fst fds')"
    using assms by (rule distinct_map_mset)
  have sets: "set fds = set fds'" using assms(1) by (rule mset_eq_setD)
  have m: "map_of fds = map_of fds'"
    using assms(2) d' sets by (rule map_of_same_set)
  show "is_ok (optional_loop chk fds s) = is_ok (optional_loop chk fds' s)"
    unfolding is_ok_optional_loop[OF assms(2)] is_ok_optional_loop[OF d'] sets ..
  show "map_of t = map_of t'"
    if "optional_loop chk fds s = Inr t" and "optional_loop chk fds' s = Inr t'"
    by (rule ext)
       (simp only: optional_loop_result[OF assms(2) that(1)] optional_loop_result[OF d' that(2)] m)
qed

lemma fields_distinct [simp]:
  "distinct (map fst http_optional)" "distinct (map fst https_optional)"
  "distinct (map fst ping_optional)" "distinct (map fst dns_optional)"
  by (simp_all add: http_optional_def https_optional_def ping_optional_def dns_optional_def)

definition any_order :: "order \<Rightarrow> bool" where
  "any_order ord \<longleftrightarrow> (\<forall>fds. mset (ord fds) = mset fds)"

lemma any_order_set [simp]: "any_order ord \<Longrightarrow> set (ord fds) = set fds"
  unfolding any_order_def by (metis mset_eq_setD)

lemma any_order_distinct: "any_order ord \<Longrightarrow> distinct (map fst fds) \<Longrightarrow> distinct (map fst (ord fds))"
  unfolding any_order_def by (blast intro: distinct_map_mset sym)

lemma any_order_mset: "any_order ord \<Longrightarrow> any_order ord' \<Longrightarrow> mset (ord fds) = mset (ord' fds)"
  unfolding any_order_def by metis

text \<open>Two results agree when both fail, or both succeed with the same settings map.\<close>

definition same_outcome :: "settings result \<Rightarrow> settings result \<Rightarrow> bool" where
  "same_outcome r r' \<longleftrightarrow>
     (case (r, r') of
        (Inr s, Inr s') \<Rightarrow> map_of s = map_of s'
      | (Inl _, Inl _) \<Rightarrow> True
      | _ \<Rightarrow> False)"

lemma same_outcome_Inl [simp]: "same_outcome (Inl e) (Inl e')"
  by (simp add: same_outcome_def)

lemma same_outcome_refl [simp]: "same_outcome r r"
  by (auto simp: same_outcome_def split: sum.splits)

lemma is_ok_iff: "is_ok r \<longleftrightarrow> (\<exists>x. r = Inr x)"
  by (cases r) auto

lemma same_outcome_bind:
  assumes "is_ok r = is_ok r'" and "is_ok a = is_ok a'"
    and "\<And>t t'. a = Inr t \<Longrightarrow> a' = Inr t' \<Longrightarrow> map_of t = map_of t'"
  shows "same_outcome (bind_res r (\<lambda>_. a)) (bind_res r' (\<lambda>_. a'))"
  using assms(1,2) assms(3)[of "projr a" "projr a'"]
  by (cases r; cases r'; cases a; cases a') (simp_all add: same_outcome_def)

lemma validator_order:
  assumes "any_order ord" and "any_order ord'" and "distinct (map fst opt)"
  shows "same_outcome
    (bind_res (required_loop rchk (ord req)) (\<lambda>_. optional_loop ochk (ord opt) s))
    (bind_res (required_loop rchk (ord' req)) (\<lambda>_. optional_loop ochk (ord' opt) s))"
proof (rule same_outcome_bind)
  note m = any_order_mset[OF assms(1,2)]
  have d: "distinct (map fst (ord opt))" by (rule any_order_distinct[OF assms(1,3)])
  show "is_ok (required_loop rchk (ord req)) = is_ok (required_loop rchk (ord' req))"
    by (rule required_loop_order[OF m])
  show "is_ok (optional_loop ochk (ord opt) s) = is_ok (optional_loop ochk (ord' opt) s)"
    by (rule optional_loop_order(1)[OF m d])
  show "map_of t = map_of t'"
    if "optional_loop ochk (ord opt) s = Inr t" and "optional_loop ochk (ord' opt) s = Inr t'" for t t'
    by (rule optional_loop_order(2)[OF m d that])
qed

lemma any_order_id [simp]: "any_order (\<lambda>fds. fds)" "any_order rev"
  by (simp_all add: any_order_def)

section \<open>What the validators accept\<close>

text \<open>The conditions on a settings map, stated without the loops.\<close>

definition has_string :: "settings \<Rightarrow> string \<Rightarrow> bool" where
  "has_string s f \<longleftrightarrow> (\<exists>v. map_of s f = Some (IStr v) \<and> v \<noteq> [])"

definition string_or_absent :: "settings \<Rightarrow> string \<Rightarrow> bool" where
  "string_or_absent s f \<longleftrightarrow> (\<forall>raw. map_of s f = Some raw \<longrightarrow> (\<exists>v. raw = IStr v))"

definition bool_or_absent :: "settings \<Rightarrow> string \<Rightarrow> bool" where
  "bool_or_absent s f \<longleftrightarrow> (\<forall>raw. map_of s f = Some raw \<longrightarrow> (\<exists>v. raw = IBool v))"

definition timeout_or_absent :: "settings \<Rightarrow> bool" where
  "timeout_or_absent s \<longleftrightarrow>
     (\<forall>raw. map_of s ''timeout'' = Some raw \<longrightarrow> (\<exists>q. raw = IFloat q \<and> 0 < q \<and> q \<le> 10))"

definition port_or_absent :: "settings \<Rightarrow> bool" where
  "port_or_absent s \<longleftrightarrow>
     (\<forall>raw. map_of s ''port'' = Some raw \<longrightarrow> (\<exists>q. raw = IFloat q \<and> 1 \<le> q \<and> q \<le> 65535))"

definition ipversion_or_absent :: "settings \<Rightarrow> bool" where
  "ipversion_or_absent s \<longleftrightarrow>
     (\<forall>raw. map_of s ''ipversion'' = Some raw \<longrightarrow>
        (\<exists>v. raw = IStr v \<and> (v = ''v4'' \<or> v = ''v6'' \<or> v = ''any'')))"

text \<open>The number of bytes a size setting stands for, as the code computes it.\<close>

fun size_value :: "floats \<Rightarrow> iface \<Rightarrow> int option" where
  "size_value fl (IFloat q) = Some (float_int64 fl q)"
| "size_value fl (IInt64 i) = Some i"
| "size_value fl (IStr str) = map_option size_bytes (match_size str)"
| "size_value fl _ = None"

definition within_limits :: "OrgQuotaDTO list \<Rightarrow> int \<Rightarrow> bool" where
  "within_limits quotas n \<longleftrightarrow>
     (\<forall>q\<in>set quotas. oq_Target q = ''downloadLimit'' \<longrightarrow> n \<le> oq_Limit q)"

definition limit_or_absent :: "floats \<Rightarrow> OrgQuotaDTO list \<Rightarrow> settings \<Rightarrow> bool" where
  "limit_or_absent fl quotas s \<longleftrightarrow>
     (\<forall>raw. map_of s ''downloadLimit'' = Some raw \<longrightarrow>
        raw = IStr [] \<or> (\<exists>n. size_value fl raw = Some n \<and> within_limits quotas n))"

lemma is_ok_over_limit: "is_ok (over_limit fl f quotas n) \<longleftrightarrow> within_limits quotas n"
  by (induction quotas) (auto simp: within_limits_def)

lemma is_ok_required_field:
  "is_ok (required_field label s (f, ''string'')) \<longleftrightarrow> has_string s f"
  by (auto simp: required_field_def has_string_def split: option.splits iface.splits)

lemma is_ok_required_dns_field:
  "is_ok (required_dns_field s (f, ''string'')) \<longleftrightarrow>
     has_string s f \<and>
     (f = ''type'' \<longrightarrow> (\<exists>v\<in>set validRecordTypes. map_of s ''type'' = Some (IStr v)))"
  by (auto simp: required_dns_field_def required_field_def has_string_def is_ok_bind
      split: option.splits iface.splits if_splits)

lemma is_ok_optional_string:
  "is_ok (optional_field fl quotas (f, ''string'') raw) \<longleftrightarrow> (\<exists>v. raw = IStr v)"
  by (cases raw) (simp_all add: optional_field_def)

lemma is_ok_optional_bool:
  "is_ok (optional_field fl quotas (f, ''bool'') raw) \<longleftrightarrow> (\<exists>v. raw = IBool v)"
  by (cases raw) (simp_all add: optional_field_def)

lemma is_ok_optional_timeout:
  "is_ok (optional_field fl quotas (''timeout'', ''number'') raw) \<longleftrightarrow>
     (\<exists>q. raw = IFloat q \<and> 0 < q \<and> q \<le> 10)"
  by (cases raw) (auto simp: optional_field_def not_le not_less)

lemma is_ok_optional_port:
  "is_ok (optional_field fl quotas (''port'', ''number'') raw) \<longleftrightarrow>
     (\<exists>q. raw = IFloat q \<and> 1 \<le> q \<and> q \<le> 65535)"
  by (cases raw) (auto simp: optional_field_def not_le not_less)

lemma is_ok_optional_ipversion:
  "is_ok (optional_field fl quotas (f, ''ipversion'') raw) \<longleftrightarrow>
     (\<exists>v. raw = IStr v \<and> (v = ''v4'' \<or> v = ''v6'' \<or> v = ''any''))"
  by (cases raw) (simp_all add: optional_field_def)

lemma is_ok_limit_value:
  "is_ok (bind_res (limit_value fl quotas ''downloadLimit'' n) (\<lambda>_. Inr x)) \<longleftrightarrow> within_limits quotas n"
  by (simp add: limit_value_def is_ok_bind flip: is_ok_over_limit[where fl = fl and f = "''downloadLimit''"])
     (simp add: is_ok_iff)

lemma is_ok_optional_limit:
  "is_ok (optional_field fl quotas (''downloadLimit'', ''size'') raw) \<longleftrightarrow>
     raw = IStr [] \<or> (\<exists>n. size_value fl raw = Some n \<and> within_limits quotas n)"
proof (cases raw)
  case (IStr str)
  have "match_size [] = None" by (simp add: match_size_def)
  with IStr show ?thesis
    by (cases "match_size str"; cases "str = []")
       (simp_all add: optional_field_def is_ok_limit_value)
qed (simp_all add: optional_field_def is_ok_limit_value)

lemma is_ok_seq: "is_ok (bind_res r (\<lambda>_. r')) \<longleftrightarrow> is_ok r \<and> is_ok r'"
  by (cases r) auto

lemmas is_ok_optional =
  is_ok_optional_string is_ok_optional_bool is_ok_optional_timeout is_ok_optional_port
  is_ok_optional_ipversion is_ok_optional_limit

lemma validator_accepts:
  assumes "any_order ord" and "distinct (map fst opt)"
  shows "is_ok (bind_res (required_loop rchk (ord req)) (\<lambda>_. optional_loop ochk (ord opt) s)) \<longleftrightarrow>
    (\<forall>fd\<in>set req. is_ok (rchk fd)) \<and>
    (\<forall>(f, d)\<in>set opt. \<forall>raw. map_of s f = Some raw \<longrightarrow> is_ok (ochk (f, d) raw))"
  unfolding is_ok_seq is_ok_required_loop is_ok_optional_loop[OF any_order_distinct[OF assms]]
    any_order_set[OF assms(1)] by auto

lemmas spec_defs =
  string_or_absent_def bool_or_absent_def timeout_or_absent_def port_or_absent_def
  ipversion_or_absent_def limit_or_absent_def

lemma validateHTTPSettings_accepts:
  assumes "any_order ord"
  shows "is_ok (validateHTTPSettings fl ord quotas s) \<longleftrightarrow>
    has_string s ''host'' \<and> has_string s ''path'' \<and> port_or_absent s \<and> timeout_or_absent s \<and>
    string_or_absent s ''method'' \<and> string_or_absent s ''headers'' \<and>
    string_or_absent s ''expectRegex'' \<and> string_or_absent s ''body'' \<and>
    limit_or_absent fl quotas s \<and> ipversion_or_absent s"
  unfolding validateHTTPSettings_def validator_accepts[OF assms fields_distinct(1)]
  by (simp add: http_required_def http_optional_def is_ok_required_field is_ok_optional spec_defs)
     blast

lemma validateHTTPSSettings_accepts:
  assumes "any_order ord"
  shows "is_ok (validateHTTPSSettings fl ord quotas s) \<longleftrightarrow>
    has_string s ''host'' \<and> has_string s ''path'' \<and> port_or_absent s \<and> timeout_or_absent s \<and>
    string_or_absent s ''method'' \<and> string_or_absent s ''headers'' \<and>
    string_or_absent s ''expectRegex'' \<and> bool_or_absent s ''validateCert'' \<and>
    string_or_absent s ''body'' \<and> limit_or_absent fl quotas s \<and> ipversion_or_absent s"
  unfolding validateHTTPSSettings_def validator_accepts[OF assms fields_distinct(2)]
  by (simp add: http_required_def https_optional_def is_ok_required_field is_ok_optional spec_defs)
     blast

lemma validatePINGSettings_accepts:
  assumes "any_order ord"
  shows "is_ok (validatePINGSettings fl ord s) \<longleftrightarrow>
    has_string s ''hostname'' \<and> timeout_or_absent s \<and> ipversion_or_absent s"
  unfolding validatePINGSettings_def validator_accepts[OF assms fields_distinct(3)]
  by (simp add: ping_required_def ping_optional_def is_ok_required_field is_ok_optional spec_defs)

lemma is_ok_dns_string:
  "f \<noteq> ''protocol'' \<Longrightarrow>
   is_ok (optional_dns_field fl (f, ''string'') raw) \<longleftrightarrow> (\<exists>v. raw = IStr v)"
  by (cases raw) (simp_all add: optional_dns_field_def)

lemma is_ok_dns_protocol:
  "is_ok (optional_dns_field fl (''protocol'', ''string'') raw) \<longleftrightarrow>
     (\<exists>v. raw = IStr v \<and> (to_lower v = ''udp'' \<or> to_lower v = ''tcp''))"
  by (cases raw) (simp_all add: optional_dns_field_def)

lemma is_ok_dns_other:
  "is_ok (optional_dns_field fl (f, ''float'') raw)" "is_ok (optional_dns_field fl (f, ''integer'') raw)"
  by (simp_all add: optional_dns_field_def)

lemma validateDNSSettings_accepts:
  assumes "any_order ord"
  shows "is_ok (validateDNSSettings fl ord s) \<longleftrightarrow>
    has_string s ''name'' \<and> has_string s ''server'' \<and>
    (\<exists>v\<in>set validRecordTypes. map_of s ''type'' = Some (IStr v)) \<and>
    (\<forall>raw. map_of s ''protocol'' = Some raw \<longrightarrow>
       (\<exists>v. raw = IStr v \<and> (to_lower v = ''udp'' \<or> to_lower v = ''tcp''))) \<and>
    string_or_absent s ''expectRegex''"
proof -
  have t: "has_string s ''type''" if "v \<in> set validRecordTypes" "map_of s ''type'' = Some (IStr v)" for v
    using that by (auto simp: has_string_def validRecordTypes_def)
  show ?thesis
    unfolding validateDNSSettings_def validator_accepts[OF assms fields_distinct(4)]
    using t
    by (auto simp: dns_required_def dns_optional_def is_ok_required_dns_field is_ok_dns_string
        is_ok_dns_protocol is_ok_dns_other string_or_absent_def)
qed

lemma CheckRoute_Validate_ok:
  "is_ok (CheckRoute_Validate r) \<longleftrightarrow>
    (\<exists>rt. r = Some rt \<and> length (r_Config rt) = 1 \<and>
       (r_Type rt = RouteByTags \<and> map_of (r_Config rt) ''tags'' \<noteq> None \<or>
        r_Type rt = RouteByIds \<and> map_of (r_Config rt) ''ids'' \<noteq> None))"
  by (auto simp: CheckRoute_Validate_def InvalidRouteConfig_def UnknownRouteType_def
      split: option.splits if_splits)

section \<open>Properties\<close>


text \<open>A concrete HTTP check, used by the witnesses below.\<close>

definition plain_floats :: floats where
  "plain_floats = \<lparr>f2i = (\<lambda>q. min_int64), fmt2 = (\<lambda>q. ''0.00''), fmtv = (\<lambda>q. ''0'')\<rparr>"

definition sample_route :: CheckRoute where
  "sample_route = \<lparr>r_Type = RouteByTags, r_Config = [(''tags'', CStrings [''eu''])]\<rparr>"

definition sample_check :: Check where
  "sample_check =
     \<lparr>c_Id = 0, c_OrgId = 1, c_EndpointId = 0, c_Route = Some sample_route, c_Type = HTTP_CHECK,
      c_Frequency = 60, c_Offset = 0, c_Enabled = True, c_State = 0, c_StateChange = 0,
      c_StateCheck = 0,
      c_Settings = [(''host'', IStr ''a.io''), (''path'', IStr ''/''), (''port'', IFloat 80),
                    (''timeout'', IFloat 5), (''downloadLimit'', IStr ''8k'')],
      c_HealthSettings = None, c_Created = 0, c_Updated = 0\<rparr>"

definition sample_quota :: OrgQuotaDTO where
  "sample_quota =
     \<lparr>oq_OrgId = 1, oq_Target = ''downloadLimit'', oq_Limit = 102400, oq_Used = 0\<rparr>"




text \<open>
  The port of an accepted HTTP check is stored as an integer between 1 and 65535, whatever the
  runtime does with out-of-range float conversions: the range test makes the conversion safe.
\<close>

theorem accepted_http_port:
  assumes "any_order ord" and "validateHTTPSettings fl ord quotas s = Inr s'"
    and "map_of s ''port'' = Some raw"
  shows "\<exists>q. raw = IFloat q \<and> map_of s' ''port'' = Some (IInt \<lfloor>q\<rfloor>) \<and> 1 \<le> \<lfloor>q\<rfloor> \<and> \<lfloor>q\<rfloor> \<le> 65535"
proof -
  have ok: "is_ok (validateHTTPSettings fl ord quotas s)" using assms(2) by simp
  then obtain q where q: "raw = IFloat q" "1 \<le> q" "q \<le> 65535"
    using assms(3) unfolding validateHTTPSettings_accepts[OF assms(1)] port_or_absent_def by blast
  then have bounds: "1 \<le> \<lfloor>q\<rfloor>" "\<lfloor>q\<rfloor> \<le> 65535"
    by (simp_all add: le_floor_iff floor_le_iff)
  have loop: "optional_loop (optional_field fl quotas) (ord http_optional) s = Inr s'"
    using assms(2) unfolding validateHTTPSettings_def bind_res_Inr_iff by blast
  have "map_of (ord http_optional) ''port'' = Some ''number''"
    by (rule map_of_is_SomeI)
       (simp_all add: any_order_distinct assms(1) any_order_set[OF assms(1)], simp add: http_optional_def)
  with optional_loop_result[OF any_order_distinct[OF assms(1) fields_distinct(1)] loop, of "''port''"]
    assms(3) q bounds
  have "map_of s' ''port'' = Some (IInt \<lfloor>q\<rfloor>)"
    by (simp add: optional_field_def float_int64_def min_int64_def max_int64_def)
  with q bounds show ?thesis by simp
qed

theorem accepted_http_port_witness:
  "\<exists>s'. validateHTTPSettings plain_floats rev [sample_quota] (c_Settings sample_check) = Inr s' \<and>
     map_of s' ''port'' = Some (IInt 80)"
proof -
  let ?s = "c_Settings sample_check"
  have "is_ok (validateHTTPSettings plain_floats rev [sample_quota] ?s)"
    unfolding validateHTTPSettings_accepts[OF any_order_id(2)]
    by (simp add: sample_check_def has_string_def spec_defs match_size_def size_bytes_def
        within_limits_def sample_quota_def to_lower_def lower_char_def is_upper_def is_digit_def
        parse_int64_def has_prefix_def digits_val_def digit_val_def Let_def max_int64_def
        min_int64_def wrap64_def)
  then obtain s' where s': "validateHTTPSettings plain_floats rev [sample_quota] ?s = Inr s'"
    by (auto simp: is_ok_iff)
  have "map_of ?s ''port'' = Some (IFloat 80)" by (simp add: sample_check_def)
  from accepted_http_port[OF any_order_id(2) s' this] s' show ?thesis by auto
qed

text \<open>
  The timeout and the port of a DNS check are never validated: whatever value they carry, the
  DNS validator gives the same verdict. The field table names the data types \<open>float\<close> and \<open>integer\<close>,
  for which the loop has no case, although it holds the range tests for both fields.
\<close>

theorem dns_timeout_port_unchecked:
  assumes "any_order ord"
  shows "is_ok (validateDNSSettings fl ord (AList.update ''timeout'' t (AList.update ''port'' p s)))
     = is_ok (validateDNSSettings fl ord s)"
  unfolding validateDNSSettings_accepts[OF assms] has_string_def string_or_absent_def
  by (simp add: update_conv')

theorem dns_timeout_port_unchecked_witness:
  "is_ok (validateDNSSettings plain_floats rev
     (AList.update ''timeout'' (IStr ''soon'') (AList.update ''port'' (IFloat 70000)
       [(''name'', IStr ''a.io''), (''type'', IStr ''A''), (''server'', IStr ''8.8.8.8'')])))"
  by (rule iffD2[OF dns_timeout_port_unchecked[OF any_order_id(2)]])
     (simp add: validateDNSSettings_accepts has_string_def string_or_absent_def validRecordTypes_def)

definition suffix_factor :: "string \<Rightarrow> int" where
  "suffix_factor sfx =
     (if to_lower sfx = ''m'' then 1024 * 1024 else if to_lower sfx = ''k'' then 1024 else 1)"

lemma size_bytes_exact:
  assumes "list_all is_digit ds" and "ds \<noteq> []"
    and "int (digits_val ds) * suffix_factor sfx \<le> max_int64"
  shows "size_bytes (ds, sfx) = int (digits_val ds) * suffix_factor sfx"
proof -
  obtain c cs where ds: "ds = c # cs" using assms(2) by (cases ds) auto
  with assms(1) have np: "\<not> has_prefix ds ''-'' \<and> \<not> has_prefix ds ''+''"
    using has_prefix_digit by simp
  have "int (digits_val ds) \<le> max_int64"
    using assms(3) by (auto simp: suffix_factor_def split: if_splits)
  then have "fst (parse_int64 ds) = int (digits_val ds)"
    using np assms(1,2) by (simp add: parse_int64_def Let_def min_int64_def)
  moreover have "wrap64 (wrap64 (int n * 1024) * 1024) = int n * (1024 * 1024)"
    if "int n * (1024 * 1024) \<le> max_int64" for n
  proof -
    have "wrap64 (int n * 1024) = int n * 1024"
      using that by (intro wrap64_id) (simp_all add: max_int64_def min_int64_def)
    then show ?thesis
      using that wrap64_id[of "int n * (1024 * 1024)"] by (simp add: min_int64_def mult.commute)
  qed
  moreover have "wrap64 (int n * 1024) = int n * 1024" if "int n * 1024 \<le> max_int64" for n
    using that by (intro wrap64_id) (simp_all add: min_int64_def)
  ultimately show ?thesis
    using assms(3) by (simp add: size_bytes_def suffix_factor_def Let_def split: if_splits)
qed



text \<open>
  Beyond \<open>int64\<close> the quota can be passed: under a download quota of 100 KB an HTTP check asking
  for \<open>9007199254740992k\<close> (2^63 bytes) is accepted, because the product wraps to a negative number.
\<close>

theorem download_limit_bypass:
  "is_ok (validateHTTPSettings fl (\<lambda>fds. fds) [sample_quota]
     [(''host'', IStr ''a.io''), (''path'', IStr ''/''), (''downloadLimit'', IStr ''9007199254740992k'')])
   \<and> int (digits_val ''9007199254740992'') * suffix_factor ''k'' = 2 ^ 63"
proof
  show "is_ok (validateHTTPSettings fl (\<lambda>fds. fds) [sample_quota]
     [(''host'', IStr ''a.io''), (''path'', IStr ''/''), (''downloadLimit'', IStr ''9007199254740992k'')])"
    unfolding validateHTTPSettings_accepts[OF any_order_id(1)]
    by (simp add: has_string_def spec_defs match_size_def size_bytes_def within_limits_def
        sample_quota_def to_lower_def lower_char_def is_upper_def is_digit_def parse_int64_def
        has_prefix_def digits_val_def digit_val_def Let_def max_int64_def min_int64_def wrap64_def)
  show "int (digits_val ''9007199254740992'') * suffix_factor ''k'' = 2 ^ 63"
    by (simp add: suffix_factor_def digits_val_def digit_val_def to_lower_def lower_char_def
        is_upper_def)
qed

text \<open>
  C16. Type safety of routes: a route decoded from JSON that passes \<open>CheckRoute.Validate\<close> holds a
  configuration of the shape its type promises, so the unchecked type assertions
  \<open>Config["tags"].([]string)\<close> and \<open>Config["ids"].([]int64)\<close> of the store cannot panic.
\<close>

theorem decoded_route_assertions_safe:
  assumes "CheckRoute_UnmarshalJSON body = Inr r" and "is_ok (CheckRoute_Validate (Some r))"
  shows "route_ok r"
proof -
  from assms(2) consider
      (tags) "r_Type r = RouteByTags" "map_of (r_Config r) ''tags'' \<noteq> None"
    | (ids) "r_Type r = RouteByIds" "map_of (r_Config r) ''ids'' \<noteq> None"
    by (auto simp: CheckRoute_Validate_ok)
  then show ?thesis
  proof cases
    case tags
    then obtain j where "decode_config json_string CStrings j = Some (r_Config r)"
      using assms(1) by (auto simp: CheckRoute_UnmarshalJSON_def Let_def split: option.splits if_splits)
    with tags show ?thesis
      using decode_config_values by (fastforce simp: route_ok_def config_tags_def)
  next
    case ids
    then obtain j where "decode_config json_int64 CInts j = Some (r_Config r)"
      using assms(1) by (auto simp: CheckRoute_UnmarshalJSON_def Let_def split: option.splits if_splits)
    with ids show ?thesis
      using decode_config_values by (fastforce simp: route_ok_def config_ids_def)
  qed
qed

definition sample_route_json :: json where
  "sample_route_json =
     JObj [(''type'', JStr ''byIds''), (''config'', JObj [(''ids'', JArr [JInt 4, JInt 7])])]"

theorem decoded_route_assertions_safe_witness:
  "\<exists>r. CheckRoute_UnmarshalJSON (Some sample_route_json) = Inr r \<and> config_ids r = Inr [4, 7] \<and> route_ok r"
proof -
  let ?r = "\<lparr>r_Type = RouteByIds, r_Config = [(''ids'', CInts [4, 7])]\<rparr>"
  have u: "CheckRoute_UnmarshalJSON (Some sample_route_json) = Inr ?r"
    by (simp add: CheckRoute_UnmarshalJSON_def sample_route_json_def json_field_def to_lower_def
        lower_char_def is_upper_def route_types min_int64_def max_int64_def)
  have "is_ok (CheckRoute_Validate (Some ?r))" by (simp add: CheckRoute_Validate_ok)
  from decoded_route_assertions_safe[OF u this] u show ?thesis by (simp add: config_ids_def)
qed

text \<open>
  A slug is a safe path component: it holds only lower-case letters, digits, underscores and
  dashes, so the dots, wildcards and slashes of a name cannot reach the Graphite targets and
  metric names that the slug is spliced into.
\<close>

theorem slug_characters:
  "set (endpoint_slug name) \<union> set (probe_slug name) \<subseteq> {c. slug_char c}"
  unfolding endpoint_slug_def probe_slug_def
  using dashed_slug_chars[of "''_''"] dashed_slug_chars[of "[]"] by auto

end
