(* ===== verification/Codec.thy ===== *)
theory Codec
  imports Models "HOL-Library.List_Lexorder" "HOL-Library.Char_ord"
begin

text \<open>
  The JSON encoding of the model's values: what \<open>json.Marshal\<close> writes for a check, an endpoint, a
  probe and a session, with the field names of the struct tags in \<open>pkg/models\<close>. The store compares
  checks by their encoding, the \<open>JSON\<close> columns hold it, and events carry it as their body.
  \<open>ft\<close> is the text of a time (RFC 3339 with nanoseconds). The main result is that a well-formed
  route survives encoding and \<open>CheckRoute.UnmarshalJSON\<close>.
\<close>

section \<open>Encoders\<close>

text \<open>A whole number below \<open>10\<^sup>2\<^sup>1\<close> is written without fraction and exponent.\<close>

definition json_number :: "rat \<Rightarrow> json" where
  "json_number q =
     (if of_int \<lfloor>q\<rfloor> = q \<and> \<bar>q\<bar> < 10 ^ 21 then JInt \<lfloor>q\<rfloor> else JFloat q)"

fun iface_json :: "iface \<Rightarrow> json" where
  "iface_json INil = JNull"
| "iface_json (IBool b) = JBool b"
| "iface_json (IStr s) = JStr s"
| "iface_json (IFloat q) = json_number q"
| "iface_json (IInt i) = JInt i"
| "iface_json (IInt64 i) = JInt i"
| "iface_json (IList xs) = JArr (map iface_json xs)"
| "iface_json (IObj kvs) = JObj (sort_key fst (map (\<lambda>(k, v). (k, iface_json v)) kvs))"

text \<open>Map members are written in key order.\<close>

definition settings_json :: "settings \<Rightarrow> json" where
  "settings_json s = JObj (sort_key fst (map (\<lambda>(k, v). (k, iface_json v)) s))"

fun cfg_json :: "cfg_value \<Rightarrow> json" where
  "cfg_json (CStrings ss) = JArr (map JStr ss)"
| "cfg_json (CInts is) = JArr (map JInt is)"

definition route_json :: "CheckRoute \<Rightarrow> json" where
  "route_json r =
     JObj [(''type'', JStr (r_Type r)),
           (''config'', JObj (sort_key fst (map (\<lambda>(k, v). (k, cfg_json v)) (r_Config r))))]"

fun opt_json :: "('a \<Rightarrow> json) \<Rightarrow> 'a option \<Rightarrow> json" where
  "opt_json f None = JNull"
| "opt_json f (Some x) = f x"

definition health_json :: "CheckHealthSettings \<Rightarrow> json" where
  "health_json h =
     JObj [(''num_collectors'', JInt (h_NumProbes h)), (''steps'', JInt (h_Steps h)),
           (''notifications'',
            JObj [(''enabled'', JBool (n_Enabled (h_Notifications h))),
                  (''addresses'', JStr (n_Addresses (h_Notifications h)))])]"

definition check_json :: "(time \<Rightarrow> string) \<Rightarrow> Check \<Rightarrow> json" where
  "check_json ft c =
     JObj [(''id'', JInt (c_Id c)), (''orgId'', JInt (c_OrgId c)),
           (''endpointId'', JInt (c_EndpointId c)), (''route'', opt_json route_json (c_Route c)),
           (''type'', JStr (c_Type c)), (''frequency'', JInt (c_Frequency c)),
           (''offset'', JInt (c_Offset c)), (''enabled'', JBool (c_Enabled c)),
           (''state'', JInt (c_State c)), (''stateChange'', JStr (ft (c_StateChange c))),
           (''stateCheck'', JStr (ft (c_StateCheck c))), (''settings'', settings_json (c_Settings c)),
           (''healthSettings'', opt_json health_json (c_HealthSettings c)),
           (''created'', JStr (ft (c_Created c))), (''updated'', JStr (ft (c_Updated c)))]"

definition endpoint_json :: "(time \<Rightarrow> string) \<Rightarrow> EndpointDTO \<Rightarrow> json" where
  "endpoint_json ft e =
     JObj [(''id'', JInt (ed_Id e)), (''orgId'', JInt (ed_OrgId e)), (''name'', JStr (ed_Name e)),
           (''slug'', JStr (ed_Slug e)), (''checks'', JArr (map (check_json ft) (ed_Checks e))),
           (''tags'', JArr (map JStr (ed_Tags e))), (''created'', JStr (ft (ed_Created e))),
           (''updated'', JStr (ft (ed_Updated e)))]"

definition probe_json :: "(time \<Rightarrow> string) \<Rightarrow> ProbeDTO \<Rightarrow> json" where
  "probe_json ft p =
     JObj [(''id'', JInt (pd_Id p)), (''org_id'', JInt (pd_OrgId p)), (''slug'', JStr (pd_Slug p)),
           (''name'', JStr (pd_Name p)), (''tags'', JArr (map JStr (pd_Tags p))),
           (''public'', JBool (pd_Public p)), (''latitude'', json_number (pd_Latitude p)),
           (''longitude'', json_number (pd_Longitude p)), (''online'', JBool (pd_Online p)),
           (''online_change'', JStr (ft (pd_OnlineChange p))), (''enabled'', JBool (pd_Enabled p)),
           (''enabled_change'', JStr (ft (pd_EnabledChange p))),
           (''created'', JStr (ft (pd_Created p))), (''updated'', JStr (ft (pd_Updated p))),
           (''remoteIp'', JArr (map JStr (pd_RemoteIp p)))]"

text \<open>A session has no struct tags: the field names are the Go names.\<close>

definition session_json :: "(time \<Rightarrow> string) \<Rightarrow> ProbeSession \<Rightarrow> json" where
  "session_json ft s =
     JObj [(''Id'', JInt (s_Id s)), (''OrgId'', JInt (s_OrgId s)), (''ProbeId'', JInt (s_ProbeId s)),
           (''SocketId'', JStr (s_SocketId s)), (''Version'', JStr (s_Version s)),
           (''InstanceId'', JStr (s_InstanceId s)), (''RemoteIp'', JStr (s_RemoteIp s)),
           (''Updated'', JStr (ft (s_Updated s)))]"

section \<open>Columns\<close>

text \<open>
  A settings map read back from its column: every number has become a \<open>float64\<close>. \<open>f64\<close> is the
  nearest \<open>float64\<close> of a whole number.
\<close>

fun column_value :: "(int \<Rightarrow> rat) \<Rightarrow> iface \<Rightarrow> iface" where
  "column_value f64 (IInt i) = IFloat (f64 i)"
| "column_value f64 (IInt64 i) = IFloat (f64 i)"
| "column_value f64 (IList xs) = IList (map (column_value f64) xs)"
| "column_value f64 (IObj kvs) = IObj (map (\<lambda>(k, v). (k, column_value f64 v)) kvs)"
| "column_value f64 v = v"

definition column_settings :: "(int \<Rightarrow> rat) \<Rightarrow> settings \<Rightarrow> settings" where
  "column_settings f64 s = map (\<lambda>(k, v). (k, column_value f64 v)) s"

lemma column_value_idem: "column_value f64 (column_value f64 v) = column_value f64 v"
  by (induction f64 v rule: column_value.induct) auto

lemma column_settings_idem [simp]:
  "column_settings f64 (column_settings f64 s) = column_settings f64 s"
  by (auto simp: column_settings_def column_value_idem)

lemma map_of_column_settings:
  "map_of (column_settings f64 s) k = map_option (column_value f64) (map_of s k)"
  by (induction s) (auto simp: column_settings_def)

section \<open>Round trip of a route\<close>

definition int64_range :: "int \<Rightarrow> bool" where
  "int64_range i \<longleftrightarrow> min_int64 \<le> i \<and> i \<le> max_int64"

text \<open>A route as the decoder builds it: one configuration kind, distinct keys, 64-bit ids.\<close>

definition route_wf :: "CheckRoute \<Rightarrow> bool" where
  "route_wf r \<longleftrightarrow> gomap_ok (r_Config r) \<and>
     (r_Type r = RouteByTags \<and> (\<forall>(k, v)\<in>set (r_Config r). \<exists>ss. v = CStrings ss) \<or>
      r_Type r = RouteByIds \<and>
        (\<forall>(k, v)\<in>set (r_Config r). \<exists>is. v = CInts is \<and> (\<forall>i\<in>set is. int64_range i)))"

lemma those_map_all: "(\<And>x. x \<in> set xs \<Longrightarrow> f (g x) = Some x) \<Longrightarrow> those (map f (map g xs)) = Some xs"
  by (induction xs) auto

lemma decode_cfg_strings: "decode_list json_string (cfg_json (CStrings ss)) = Some ss"
  by (simp add: those_map_all del: map_map)

lemma decode_cfg_ints:
  "\<forall>i\<in>set is. int64_range i \<Longrightarrow> decode_list json_int64 (cfg_json (CInts is)) = Some is"
  by (simp add: those_map_all int64_range_def del: map_map)

lemma decode_members_fresh:
  assumes "\<And>k v. (k, v) \<in> set kvs \<Longrightarrow> \<exists>xs. v = C xs \<and> decode_list f (cfg_json v) = Some xs"
    and "distinct (map fst acc @ map fst kvs)"
  shows "decode_members f C (map (\<lambda>(k, v). (k, cfg_json v)) kvs) acc = Some (acc @ kvs)"
  using assms
proof (induction kvs arbitrary: acc)
  case Nil
  then show ?case by simp
next
  case (Cons kv kvs)
  obtain k v where kv: "kv = (k, v)" by (cases kv)
  from Cons.prems(1)[of k v] kv obtain xs where xs: "v = C xs" "decode_list f (cfg_json v) = Some xs"
    by auto
  have "k \<notin> set (map fst acc)" using Cons.prems(2) kv by auto
  then have upd: "AList.update k v acc = acc @ [(k, v)]"
    by (induction acc) auto
  have "decode_members f C (map (\<lambda>(k, v). (k, cfg_json v)) kvs) (acc @ [(k, v)])
      = Some ((acc @ [(k, v)]) @ kvs)"
    using Cons.prems kv by (intro Cons.IH) auto
  then show ?case using kv xs upd by simp
qed

lemma sort_key_map_fst:
  "sort_key fst (map (\<lambda>(k, v). (k, g v)) m) = map (\<lambda>(k, v). (k, g v)) (sort_key fst m)"
proof -
  have ins: "insort_key fst (k, g v) (map (\<lambda>(k, v). (k, g v)) xs)
      = map (\<lambda>(k, v). (k, g v)) (insort_key fst (k, v) xs)" for k v xs
    by (induction xs) auto
  show ?thesis by (induction m) (auto simp: ins)
qed

text \<open>
  C17. A well-formed route survives the \<open>JSON\<close> column: decoding its encoding with
  \<open>CheckRoute.UnmarshalJSON\<close> gives back the type and the same configuration map.
\<close>

theorem route_roundtrip:
  assumes "route_wf r"
  shows "\<exists>r'. CheckRoute_UnmarshalJSON (Some (route_json r)) = Inr r' \<and> r_Type r' = r_Type r \<and>
    map_of (r_Config r') = map_of (r_Config r) \<and> route_wf r'"
proof -
  let ?m = "sort_key fst (r_Config r)"
  have d: "distinct (map fst ?m)" and s: "set ?m = set (r_Config r)"
    using assms by (auto simp: route_wf_def gomap_ok_def distinct_map)
  have mo: "map_of ?m = map_of (r_Config r)"
    using d assms s by (intro map_of_inject_set[THEN iffD2]) (auto simp: route_wf_def gomap_ok_def)
  have j: "json_field ''type'' [(''type'', t), (''config'', x)] = Some t"
    "json_field ''config'' [(''type'', t), (''config'', x)] = Some x" for t x
    by (simp_all add: json_field_def to_lower_def lower_char_def is_upper_def)
  show ?thesis
  proof (cases "r_Type r = RouteByTags")
    case True
    then have "decode_members json_string CStrings (map (\<lambda>(k, v). (k, cfg_json v)) ?m) [] = Some ([] @ ?m)"
      using assms s d by (intro decode_members_fresh) (fastforce simp: route_wf_def decode_cfg_strings simp del: cfg_json.simps, simp)
    with True mo assms s d show ?thesis
      by (auto simp: CheckRoute_UnmarshalJSON_def route_json_def j sort_key_map_fst route_wf_def
          gomap_ok_def)
  next
    case False
    then have ids: "r_Type r = RouteByIds" using assms by (simp add: route_wf_def)
    then have "decode_members json_int64 CInts (map (\<lambda>(k, v). (k, cfg_json v)) ?m) [] = Some ([] @ ?m)"
      using assms s d by (intro decode_members_fresh) (fastforce simp: route_wf_def decode_cfg_ints simp del: cfg_json.simps, simp)
    with ids mo assms s d show ?thesis
      by (auto simp: CheckRoute_UnmarshalJSON_def route_json_def j sort_key_map_fst route_wf_def
          gomap_ok_def)
  qed
qed

theorem route_roundtrip_witness:
  "\<exists>r'. CheckRoute_UnmarshalJSON
      (Some (route_json \<lparr>r_Type = RouteByIds, r_Config = [(''ids'', CInts [3, 5])]\<rparr>)) = Inr r' \<and>
    map_of (r_Config r') ''ids'' = Some (CInts [3, 5])"
proof -
  have "route_wf \<lparr>r_Type = RouteByIds, r_Config = [(''ids'', CInts [3, 5])]\<rparr>"
    by (simp add: route_wf_def gomap_ok_def int64_range_def min_int64_def max_int64_def)
  from route_roundtrip[OF this] show ?thesis by auto
qed

section \<open>Equal encodings\<close>

lemma cfg_json_inj: "cfg_json a = cfg_json b \<Longrightarrow> a = b \<or> (a = CStrings [] \<and> b = CInts []) \<or> (a = CInts [] \<and> b = CStrings [])"
proof (cases a; cases b)
  fix x y assume "cfg_json a = cfg_json b" "a = CStrings x" "b = CInts y"
  then show ?thesis by (cases x; cases y) auto
next
  fix x y assume "cfg_json a = cfg_json b" "a = CInts x" "b = CStrings y"
  then show ?thesis by (cases x; cases y) auto
next
  fix x y assume "cfg_json a = cfg_json b" "a = CStrings x" "b = CStrings y"
  then show ?thesis by (auto simp: inj_map_eq_map[of JStr] inj_def)
next
  fix x y assume "cfg_json a = cfg_json b" "a = CInts x" "b = CInts y"
  then show ?thesis by (auto simp: inj_map_eq_map[of JInt] inj_def)
qed

lemma route_json_type: "route_json a = route_json b \<Longrightarrow> r_Type a = r_Type b"
  by (simp add: route_json_def)

lemma route_json_config:
  fixes a b :: CheckRoute
  assumes "route_json a = route_json b" "gomap_ok (r_Config a)" "gomap_ok (r_Config b)"
  shows "map_option cfg_json (map_of (r_Config a) k) = map_option cfg_json (map_of (r_Config b) k)"
proof -
  have m: "map_of (sort_key fst (r_Config r)) = map_of (r_Config r)"
    if "gomap_ok (r_Config r)" for r :: CheckRoute
    using that by (intro map_of_inject_set[THEN iffD2]) (auto simp: gomap_ok_def distinct_map)
  have "map (\<lambda>(k, v). (k, cfg_json v)) (sort_key fst (r_Config a))
      = map (\<lambda>(k, v). (k, cfg_json v)) (sort_key fst (r_Config b))"
    using assms(1) by (simp add: route_json_def sort_key_map_fst)
  then have "map_of (map (\<lambda>(k, v). (k, cfg_json v)) (sort_key fst (r_Config a))) k
      = map_of (map (\<lambda>(k, v). (k, cfg_json v)) (sort_key fst (r_Config b))) k"
    by simp
  then show ?thesis by (simp add: map_of_map m[OF assms(2)] m[OF assms(3)])
qed

end
