(* ===== verification/Events.thy ===== *)
theory Events
  imports Codec
begin

text \<open>
  \<open>pkg/events\<close>: the event types, their raw form, the handler registry, \<open>Publish\<close> and the
  dispatch loop \<open>handleMessages\<close> in the mode without Kafka. The publish channel is a queue of
  capacity 100, each message is handled by a goroutine of its own, which sends the event to every
  listener in turn; the step relation interleaves them.
\<close>

section \<open>Event types (endpoint.go, probe.go)\<close>

datatype event =
    EndpointCreated time EndpointDTO
  | EndpointDeleted time EndpointDTO
  | EndpointUpdated time EndpointDTO EndpointDTO \<comment> \<open>last, current\<close>
  | ProbeCreated time ProbeDTO
  | ProbeDeleted time ProbeDTO
  | ProbeUpdated time ProbeDTO ProbeDTO \<comment> \<open>last, current\<close>
  | ProbeOnline time ProbeDTO
  | ProbeOffline time ProbeDTO
  | ProbeSessionCreated time ProbeSession
  | ProbeSessionDeleted time ProbeSession

fun event_Id :: "event \<Rightarrow> string" where
  "event_Id (EndpointCreated ts e) = show_int (ed_Id e)"
| "event_Id (EndpointDeleted ts e) = show_int (ed_Id e)"
| "event_Id (EndpointUpdated ts l e) = show_int (ed_Id e)"
| "event_Id (ProbeCreated ts p) = show_int (pd_Id p)"
| "event_Id (ProbeDeleted ts p) = show_int (pd_Id p)"
| "event_Id (ProbeUpdated ts l p) = show_int (pd_Id p)"
| "event_Id (ProbeOnline ts p) = show_int (pd_Id p)"
| "event_Id (ProbeOffline ts p) = show_int (pd_Id p)"
| "event_Id (ProbeSessionCreated ts s) = show_int (s_Id s)"
| "event_Id (ProbeSessionDeleted ts s) = show_int (s_Id s)"

fun event_Type :: "event \<Rightarrow> string" where
  "event_Type (EndpointCreated ts e) = ''Endpoint.created''"
| "event_Type (EndpointDeleted ts e) = ''Endpoint.deleted''"
| "event_Type (EndpointUpdated ts l e) = ''Endpoint.updated''"
| "event_Type (ProbeCreated ts p) = ''Probe.created''"
| "event_Type (ProbeDeleted ts p) = ''Probe.deleted''"
| "event_Type (ProbeUpdated ts l p) = ''Probe.updated''"
| "event_Type (ProbeOnline ts p) = ''Probe.online''"
| "event_Type (ProbeOffline ts p) = ''Probe.offline''"
| "event_Type (ProbeSessionCreated ts s) = ''ProbeSession.created''"
| "event_Type (ProbeSessionDeleted ts s) = ''ProbeSession.deleted''"

fun event_Timestamp :: "event \<Rightarrow> time" where
  "event_Timestamp (EndpointCreated ts e) = ts"
| "event_Timestamp (EndpointDeleted ts e) = ts"
| "event_Timestamp (EndpointUpdated ts l e) = ts"
| "event_Timestamp (ProbeCreated ts p) = ts"
| "event_Timestamp (ProbeDeleted ts p) = ts"
| "event_Timestamp (ProbeUpdated ts l p) = ts"
| "event_Timestamp (ProbeOnline ts p) = ts"
| "event_Timestamp (ProbeOffline ts p) = ts"
| "event_Timestamp (ProbeSessionCreated ts s) = ts"
| "event_Timestamp (ProbeSessionDeleted ts s) = ts"

fun event_Body :: "(time \<Rightarrow> string) \<Rightarrow> event \<Rightarrow> json" where
  "event_Body ft (EndpointCreated ts e) = endpoint_json ft e"
| "event_Body ft (EndpointDeleted ts e) = endpoint_json ft e"
| "event_Body ft (EndpointUpdated ts l e) =
     JObj [(''last'', endpoint_json ft l), (''current'', endpoint_json ft e)]"
| "event_Body ft (ProbeCreated ts p) = probe_json ft p"
| "event_Body ft (ProbeDeleted ts p) = probe_json ft p"
| "event_Body ft (ProbeUpdated ts l p) =
     JObj [(''last'', probe_json ft l), (''current'', probe_json ft p)]"
| "event_Body ft (ProbeOnline ts p) = probe_json ft p"
| "event_Body ft (ProbeOffline ts p) = probe_json ft p"
| "event_Body ft (ProbeSessionCreated ts s) = session_json ft s"
| "event_Body ft (ProbeSessionDeleted ts s) = session_json ft s"

record RawEvent =
  re_Id :: string
  re_Type :: string
  re_Timestamp :: time
  re_Body :: json
  re_Source :: string
  re_Attempts :: int

definition NewRawEventFromEvent :: "(time \<Rightarrow> string) \<Rightarrow> string \<Rightarrow> event \<Rightarrow> RawEvent" where
  "NewRawEventFromEvent ft hostname e =
     \<lparr>re_Id = event_Id e, re_Type = event_Type e, re_Timestamp = event_Timestamp e,
      re_Body = event_Body ft e, re_Source = hostname, re_Attempts = 0\<rparr>"

end
