(* ===== verification/Store.thy ===== *)
theory Store
  imports Events
begin

text \<open>
  The ground of \<open>pkg/services/sqlstore\<close>: the tables, the environment the store runs in, the session
  of \<open>shared.go\<close> as a state-and-error monad, transactions, and the rules by which the component
  theories prove what an operation leaves in the database.

  A SQL statement is one atomic step on the tables that the driver may refuse; the statement
  counter decides which ones fail, so a property that holds for every environment holds for every
  pattern of driver failures. The uniqueness constraints are those of the migrations.
\<close>

section \<open>Tables\<close>

record db =
  t_endpoint :: "Endpoint list"
  t_endpoint_tag :: "EndpointTag list"
  t_check :: "Check list"
  t_route_id :: "RouteByIdIndex list"
  t_route_tag :: "RouteByTagIndex list"
  t_probe :: "Probe list"
  t_probe_tag :: "ProbeTag list"
  t_probe_session :: "ProbeSession list"
  t_quota :: "Quota list"
  t_scheduler :: "(string \<times> string) list"

definition empty_db :: db where
  "empty_db =
     \<lparr>t_endpoint = [], t_endpoint_tag = [], t_check = [], t_route_id = [], t_route_tag = [],
      t_probe = [], t_probe_tag = [], t_probe_session = [], t_quota = [], t_scheduler = []\<rparr>"

section \<open>The environment\<close>

text \<open>
  What the store relies on outside the repository: the driver (\<open>faults\<close> says which statements it
  refuses), the clock, the key generator of an auto-increment column, the collation's \<open>LIKE\<close>, the
  text of a time, the conversion of a whole number to \<open>float64\<close>, whether the ORM accepts an insert
  of no rows, what the ORM's \<open>Find\<close> makes of a slice that is not empty, and the ORM's \<open>Update\<close>,
  which merges a bean into a stored row.
\<close>

record env =
  faults :: "nat \<Rightarrow> bool"
  now :: "nat \<Rightarrow> time"
  auto_id :: "int list \<Rightarrow> int"
  sql_like :: "string \<Rightarrow> string \<Rightarrow> bool"
  time_text :: "time \<Rightarrow> string"
  f64 :: "int \<Rightarrow> rat"
  insert_none_ok :: bool
  find_onto :: "CheckForAlertDTO list \<Rightarrow> CheckForAlertDTO list \<Rightarrow> CheckForAlertDTO list"
  upd_endpoint :: "Endpoint \<Rightarrow> Endpoint \<Rightarrow> Endpoint"
  upd_check :: "Check \<Rightarrow> Check \<Rightarrow> Check"
  upd_probe :: "Probe \<Rightarrow> Probe \<Rightarrow> Probe"
  upd_quota :: "Quota \<Rightarrow> Quota \<Rightarrow> Quota"
  upd_session :: "ProbeSession \<Rightarrow> ProbeSession \<Rightarrow> ProbeSession"
  upd_scheduler :: "string \<times> string \<Rightarrow> (string \<times> string) list \<Rightarrow> (string \<times> string) list \<times> int"

text \<open>\<open>time.Time{}\<close>, the first of January of the year 1.\<close>

definition zero_time :: time where
  "zero_time = - 62135596800 * second"

section \<open>The session monad\<close>

record world =
  w_db :: db
  w_calls :: nat
  w_clock :: nat
  w_events :: "event list"

type_synonym 'a op = "env \<Rightarrow> world \<Rightarrow> 'a result \<times> world"

definition returnS :: "'a \<Rightarrow> 'a op" where
  "returnS x = (\<lambda>env w. (Inr x, w))"

definition failS :: "fault \<Rightarrow> 'a op" where
  "failS e = (\<lambda>env w. (Inl e, w))"

definition liftS :: "'a result \<Rightarrow> 'a op" where
  "liftS r = (\<lambda>env w. (r, w))"

definition bindS :: "'a op \<Rightarrow> ('a \<Rightarrow> 'b op) \<Rightarrow> 'b op" where
  "bindS m f = (\<lambda>env w. case m env w of (Inl e, w') \<Rightarrow> (Inl e, w') | (Inr x, w') \<Rightarrow> f x env w')"

definition thenS :: "'a op \<Rightarrow> 'b op \<Rightarrow> 'b op" where
  "thenS m n = bindS m (\<lambda>_. n)"

text \<open>The body of a \<open>for\<close> loop that returns on the first error, and the same collecting values.\<close>

fun for_each :: "('a \<Rightarrow> unit op) \<Rightarrow> 'a list \<Rightarrow> unit op" where
  "for_each f [] = returnS ()"
| "for_each f (x # xs) = thenS (f x) (for_each f xs)"

fun map_each :: "('a \<Rightarrow> 'b op) \<Rightarrow> 'a list \<Rightarrow> 'b list op" where
  "map_each f [] = returnS []"
| "map_each f (x # xs) = bindS (f x) (\<lambda>y. bindS (map_each f xs) (\<lambda>ys. returnS (y # ys)))"

definition time_Now :: "time op" where
  "time_Now = (\<lambda>env w. (Inr (now env (w_clock w)), w\<lparr>w_clock := Suc (w_clock w)\<rparr>))"

definition askS :: "(env \<Rightarrow> 'a) \<Rightarrow> 'a op" where
  "askS f = (\<lambda>env w. (Inr (f env), w))"

definition events_Publish :: "event \<Rightarrow> unit op" where
  "events_Publish e = (\<lambda>env w. (Inr (), w\<lparr>w_events := w_events w @ [e]\<rparr>))"

definition driver_error :: fault where
  "driver_error = Error (OtherError ''driver: bad connection'')"

definition duplicate_error :: fault where
  "duplicate_error = Error (OtherError ''UNIQUE constraint failed'')"

text \<open>One statement: refused by the driver, rejected by a constraint, or applied as a whole.\<close>

definition stmt :: "(env \<Rightarrow> db \<Rightarrow> ('a \<times> db) result) \<Rightarrow> 'a op" where
  "stmt f = (\<lambda>env w.
     let w1 = w\<lparr>w_calls := Suc (w_calls w)\<rparr>
     in if faults env (w_calls w) then (Inl driver_error, w1)
        else case f env (w_db w) of
               Inl e \<Rightarrow> (Inl e, w1)
             | Inr (x, d) \<Rightarrow> (Inr x, w1\<lparr>w_db := d\<rparr>))"

definition query :: "(env \<Rightarrow> db \<Rightarrow> 'a) \<Rightarrow> 'a op" where
  "query f = stmt (\<lambda>env d. Inr (f env d, d))"

definition exec :: "(env \<Rightarrow> db \<Rightarrow> db) \<Rightarrow> unit op" where
  "exec f = stmt (\<lambda>env d. Inr ((), f env d))"

text \<open>
  A transaction as every exported writer runs it: \<open>newSession(true, _)\<close> begins, the deferred
  \<open>Cleanup\<close> rolls back unless \<open>Complete\<close> has committed. \<open>Complete\<close> drops the error of \<open>Commit\<close>,
  so a refused commit rolls back and still returns the body's result.
\<close>

definition transact :: "'a op \<Rightarrow> 'a op" where
  "transact body = (\<lambda>env w.
     let w1 = w\<lparr>w_calls := Suc (w_calls w)\<rparr>
     in if faults env (w_calls w) then (Inl driver_error, w1)
        else case body env w1 of
               (Inl e, w2) \<Rightarrow> (Inl e, w2\<lparr>w_db := w_db w\<rparr>)
             | (Inr x, w2) \<Rightarrow>
                 let w3 = w2\<lparr>w_calls := Suc (w_calls w2)\<rparr>
                 in (Inr x, if faults env (w_calls w2) then w3\<lparr>w_db := w_db w\<rparr> else w3))"

section \<open>Rules for transactions\<close>

lemma transact_error_restores:
  "transact body env w = (Inl e, w') \<Longrightarrow> w_db w' = w_db w"
  by (auto simp: transact_def Let_def split: if_splits prod.splits sum.splits)

lemma transact_InrE:
  assumes "transact body env w = (Inr x, w')"
  obtains w1 w2 where "w_db w1 = w_db w" "w_events w1 = w_events w" "body env w1 = (Inr x, w2)"
    "w_events w' = w_events w2" "w_db w' = w_db w2 \<or> w_db w' = w_db w"
proof -
  let ?w1 = "w\<lparr>w_calls := Suc (w_calls w)\<rparr>"
  obtain r w2 where b: "body env ?w1 = (r, w2)" by fastforce
  with assms have r: "r = Inr x" and w': "w_events w' = w_events w2 \<and> (w_db w' = w_db w2 \<or> w_db w' = w_db w)"
    by (auto simp: transact_def Let_def split: if_splits sum.splits)
  show thesis by (rule that[of ?w1 w2]) (use b r w' in auto)
qed

text \<open>
  The commit the environment refuses, the commit it accepts: \<open>commits env body w\<close> holds when
  neither \<open>Begin\<close> nor \<open>Commit\<close> is refused.
\<close>

definition commits :: "'a op \<Rightarrow> env \<Rightarrow> world \<Rightarrow> bool" where
  "commits body env w \<longleftrightarrow>
     \<not> faults env (w_calls w) \<and>
     \<not> faults env (w_calls (snd (body env (w\<lparr>w_calls := Suc (w_calls w)\<rparr>))))"

lemma transact_committed:
  assumes "transact body env w = (Inr x, w')" and "commits body env w"
  obtains w1 w2 where "w_db w1 = w_db w" "w_events w1 = w_events w" "body env w1 = (Inr x, w2)"
    "w_events w' = w_events w2" "w_db w' = w_db w2"
proof -
  let ?w1 = "w\<lparr>w_calls := Suc (w_calls w)\<rparr>"
  obtain r w2 where b: "body env ?w1 = (r, w2)" by fastforce
  with assms have r: "r = Inr x" and w': "w_events w' = w_events w2 \<and> w_db w' = w_db w2"
    by (auto simp: transact_def Let_def commits_def split: if_splits sum.splits)
  show thesis by (rule that[of ?w1 w2]) (use b r w' in auto)
qed

section \<open>Postconditions\<close>

text \<open>
  \<open>post env P m Q\<close>: started in a database with \<open>P\<close>, a successful run of \<open>m\<close> returns \<open>x\<close> in a
  database with \<open>Q x\<close>. A failed run needs no postcondition: its transaction is rolled back.
\<close>

definition post :: "env \<Rightarrow> (db \<Rightarrow> bool) \<Rightarrow> 'a op \<Rightarrow> ('a \<Rightarrow> db \<Rightarrow> bool) \<Rightarrow> bool" where
  "post env P m Q \<longleftrightarrow>
     (\<forall>w x w'. P (w_db w) \<longrightarrow> m env w = (Inr x, w') \<longrightarrow> Q x (w_db w'))"

lemma postI: "(\<And>w x w'. P (w_db w) \<Longrightarrow> m env w = (Inr x, w') \<Longrightarrow> Q x (w_db w')) \<Longrightarrow> post env P m Q"
  by (simp add: post_def)

lemma postD: "post env P m Q \<Longrightarrow> P (w_db w) \<Longrightarrow> m env w = (Inr x, w') \<Longrightarrow> Q x (w_db w')"
  by (simp add: post_def)

lemma post_weaken:
  "post env P m Q \<Longrightarrow> (\<And>d. P' d \<Longrightarrow> P d) \<Longrightarrow> (\<And>x d. Q x d \<Longrightarrow> Q' x d) \<Longrightarrow> post env P' m Q'"
  unfolding post_def by blast

lemma post_pre: "post env P m Q \<Longrightarrow> (\<And>d. P' d \<Longrightarrow> P d) \<Longrightarrow> post env P' m Q"
  unfolding post_def by blast

lemma post_return: "(\<And>d. P d \<Longrightarrow> Q x d) \<Longrightarrow> post env P (returnS x) Q"
  by (simp add: post_def returnS_def)

lemma post_fail: "post env P (failS e) Q"
  by (simp add: post_def failS_def)

lemma post_lift: "(\<And>x d. r = Inr x \<Longrightarrow> P d \<Longrightarrow> Q x d) \<Longrightarrow> post env P (liftS r) Q"
  by (auto simp: post_def liftS_def)

lemma post_bind:
  "post env P m R \<Longrightarrow> (\<And>x. post env (R x) (f x) Q) \<Longrightarrow> post env P (bindS m f) Q"
  unfolding post_def bindS_def by (fastforce split: prod.splits sum.splits)

lemma post_then:
  "post env P m (\<lambda>_. R) \<Longrightarrow> post env R n Q \<Longrightarrow> post env P (thenS m n) Q"
  unfolding thenS_def by (rule post_bind)

lemma post_for_each:
  assumes "\<And>x ys. x \<in> set xs \<Longrightarrow> post env I (f x) (\<lambda>_. I)"
  shows "post env I (for_each f xs) (\<lambda>_. I)"
  using assms
proof (induction xs)
  case Nil
  then show ?case by (simp add: post_return)
next
  case (Cons x xs)
  then show ?case by (simp, intro post_then[where R = I]) auto
qed

text \<open>A loop whose invariant depends on the elements done so far.\<close>

lemma post_for_each_done:
  assumes "\<And>ys x zs. xs = ys @ x # zs \<Longrightarrow> post env (I ys) (f x) (\<lambda>_. I (ys @ [x]))"
  shows "post env (I []) (for_each f xs) (\<lambda>_. I xs)"
proof -
  have "xs = ys @ zs \<Longrightarrow> post env (I ys) (for_each f zs) (\<lambda>_. I xs)" for ys zs
  proof (induction zs arbitrary: ys)
    case Nil
    then show ?case by (simp add: post_return)
  next
    case (Cons z zs)
    have "post env (I ys) (f z) (\<lambda>_. I (ys @ [z]))" using assms Cons.prems by blast
    moreover have "post env (I (ys @ [z])) (for_each f zs) (\<lambda>_. I xs)"
      using Cons.IH[of "ys @ [z]"] Cons.prems by simp
    ultimately show ?case by (simp add: post_then)
  qed
  from this[of "[]" xs] show ?thesis by simp
qed

lemma post_map_each_done:
  assumes "\<And>ys x zs rs. xs = ys @ x # zs \<Longrightarrow>
     post env (I ys rs) (f x) (\<lambda>r. I (ys @ [x]) (rs @ [r]))"
  shows "post env (I [] []) (map_each f xs) (\<lambda>rs. I xs rs)"
proof -
  have "xs = ys @ zs \<Longrightarrow> post env (I ys rs) (map_each f zs) (\<lambda>qs. I xs (rs @ qs))" for ys zs rs
  proof (induction zs arbitrary: ys rs)
    case Nil
    then show ?case by (simp add: post_return)
  next
    case (Cons z zs)
    have a: "post env (I ys rs) (f z) (\<lambda>r. I (ys @ [z]) (rs @ [r]))" using assms Cons.prems by blast
    have b: "post env (I (ys @ [z]) (rs @ [r])) (map_each f zs) (\<lambda>qs. I xs ((rs @ [r]) @ qs))" for r
      using Cons.IH[of "ys @ [z]" "rs @ [r]"] Cons.prems by simp
    show ?case
      by (simp, rule post_bind[OF a], rule post_bind[OF b]) (simp add: post_return)
  qed
  from this[of "[]" xs "[]"] show ?thesis by simp
qed

lemma post_now: "post env P time_Now (\<lambda>_. P)"
  by (auto simp: post_def time_Now_def)

lemma post_ask: "(\<And>d. P d \<Longrightarrow> Q (f env) d) \<Longrightarrow> post env P (askS f) Q"
  by (auto simp: post_def askS_def)

lemma post_publish: "post env P (events_Publish e) (\<lambda>_. P)"
  by (auto simp: post_def events_Publish_def)

lemma post_stmt:
  "(\<And>d x d'. P d \<Longrightarrow> f env d = Inr (x, d') \<Longrightarrow> Q x d') \<Longrightarrow> post env P (stmt f) Q"
  by (fastforce simp: post_def stmt_def Let_def split: if_splits sum.splits prod.splits)

lemma post_query: "(\<And>d. P d \<Longrightarrow> Q (f env d) d) \<Longrightarrow> post env P (query f) Q"
  unfolding query_def by (rule post_stmt) auto

lemma post_exec: "(\<And>d. P d \<Longrightarrow> Q () (f env d)) \<Longrightarrow> post env P (exec f) Q"
  unfolding exec_def by (rule post_stmt) auto

lemmas post_basic = post_return post_fail post_now post_publish

lemma post_if:
  "(b \<Longrightarrow> post env P m Q) \<Longrightarrow> (\<not> b \<Longrightarrow> post env P n Q) \<Longrightarrow> post env P (if b then m else n) Q"
  by simp

text \<open>A fact that does not mention the database can be moved out of the precondition.\<close>

lemma post_assume: "(c \<Longrightarrow> post env P m Q) \<Longrightarrow> post env (\<lambda>d. c \<and> P d) m Q"
  by (auto simp: post_def)

text \<open>Every outcome of a transaction keeps what its body establishes on success.\<close>

lemma transact_keeps:
  assumes "post env P body (\<lambda>_. P)" and "P (w_db w)"
  shows "P (w_db (snd (transact body env w)))"
proof (cases "transact body env w")
  case (Pair r w')
  show ?thesis
  proof (cases r)
    case (Inl e)
    with Pair assms(2) show ?thesis using transact_error_restores by fastforce
  next
    case (Inr x)
    with Pair have t: "transact body env w = (Inr x, w')" by simp
    show ?thesis
    proof (rule transact_InrE[OF t])
      fix w1 w2
      assume w: "w_db w1 = w_db w" "body env w1 = (Inr x, w2)"
        "w_db w' = w_db w2 \<or> w_db w' = w_db w"
      then have "P (w_db w2)" using assms(2) postD[OF assms(1), of w1] by simp
      with w assms(2) Pair show ?thesis by auto
    qed
  qed
qed

section \<open>Events\<close>

text \<open>\<open>quiet m\<close>: a run of \<open>m\<close> publishes nothing.\<close>

definition quiet :: "'a op \<Rightarrow> bool" where
  "quiet m \<longleftrightarrow> (\<forall>env w. w_events (snd (m env w)) = w_events w)"

named_theorems quiet_intros \<open>operations that publish no event\<close>

lemma quiet_basic [quiet_intros]:
  "quiet (returnS x)" "quiet (failS e)" "quiet (liftS r)" "quiet time_Now"
  "quiet (askS g)"
  by (simp_all add: quiet_def returnS_def failS_def liftS_def time_Now_def askS_def)

lemma quiet_stmt [quiet_intros]: "quiet (stmt f)" "quiet (query g)" "quiet (exec h)"
  by (auto simp: quiet_def stmt_def query_def exec_def Let_def split: sum.splits)

lemma quiet_bind [quiet_intros]: "quiet m \<Longrightarrow> (\<And>x. quiet (f x)) \<Longrightarrow> quiet (bindS m f)"
  by (auto simp: quiet_def bindS_def split: prod.splits sum.splits) (metis snd_conv)+

lemma quiet_then [quiet_intros]: "quiet m \<Longrightarrow> quiet n \<Longrightarrow> quiet (thenS m n)"
  unfolding thenS_def by (rule quiet_bind)

lemma quiet_for_each [quiet_intros]: "(\<And>x. quiet (f x)) \<Longrightarrow> quiet (for_each f xs)"
  by (induction xs) (auto intro: quiet_intros)

lemma quiet_map_each [quiet_intros]: "(\<And>x. quiet (f x)) \<Longrightarrow> quiet (map_each f xs)"
  by (induction xs) (auto intro!: quiet_intros)

lemma quiet_if [quiet_intros]: "quiet m \<Longrightarrow> quiet n \<Longrightarrow> quiet (if b then m else n)"
  by simp

section \<open>Rows\<close>

text \<open>A statement that stores rows: it fails when a unique index of the table would be violated.\<close>

definition unique_on :: "('a \<Rightarrow> 'k) \<Rightarrow> 'a list \<Rightarrow> bool" where
  "unique_on key rows \<longleftrightarrow> distinct (map key rows)"

definition checked :: "bool \<Rightarrow> 'a \<Rightarrow> 'a result" where
  "checked ok x = (if ok then Inr x else Inl duplicate_error)"

lemma checked_Inr [simp]: "checked ok x = Inr y \<longleftrightarrow> ok \<and> y = x"
  by (auto simp: checked_def)

text \<open>An insert of no rows, which the ORM accepts or refuses.\<close>

definition no_rows_error :: fault where
  "no_rows_error = Error (OtherError ''could not insert a empty slice'')"

definition insert_rows ::
  "'a list \<Rightarrow> (db \<Rightarrow> 'a list) \<Rightarrow> (('a list \<Rightarrow> 'a list) \<Rightarrow> db \<Rightarrow> db) \<Rightarrow> ('a list \<Rightarrow> bool) \<Rightarrow> unit op" where
  "insert_rows rows get upd ok =
     (if rows = [] then (\<lambda>env w. (if insert_none_ok env then Inr () else Inl no_rows_error, w))
      else stmt (\<lambda>env d. checked (ok (get d @ rows)) ((), upd (\<lambda>t. t @ rows) d)))"

lemma post_insert_rows:
  assumes "\<And>d. P d \<Longrightarrow> rows \<noteq> [] \<Longrightarrow> ok (get d @ rows) \<Longrightarrow> Q () (upd (\<lambda>t. t @ rows) d)"
    and "\<And>d. P d \<Longrightarrow> rows = [] \<Longrightarrow> Q () d"
  shows "post env P (insert_rows rows get upd ok) Q"
proof (cases "rows = []")
  case True
  with assms(2) show ?thesis by (auto simp: post_def insert_rows_def split: if_splits)
next
  case False
  with assms(1) show ?thesis unfolding insert_rows_def by (auto intro!: post_stmt)
qed

lemma quiet_insert_rows [quiet_intros]: "quiet (insert_rows rows get upd ok)"
  by (simp add: insert_rows_def quiet_stmt) (simp add: quiet_def)

lemma unique_on_append:
  "unique_on key (xs @ ys) \<longleftrightarrow>
     unique_on key xs \<and> unique_on key ys \<and> key ` set xs \<inter> key ` set ys = {}"
  by (auto simp: unique_on_def)

lemma unique_on_filter: "unique_on key xs \<Longrightarrow> unique_on key (filter P xs)"
  by (auto simp: unique_on_def distinct_map inj_on_def)

lemma unique_onD: "unique_on key xs \<Longrightarrow> x \<in> set xs \<Longrightarrow> y \<in> set xs \<Longrightarrow> key x = key y \<Longrightarrow> x = y"
  unfolding unique_on_def by (rule distinct_map_unique)

text \<open>The primary key of a new row: the caller's when it is set, else a generated one.\<close>

definition new_id :: "env \<Rightarrow> int \<Rightarrow> int list \<Rightarrow> int" where
  "new_id env given used = (if given \<noteq> 0 then given else auto_id env used)"

section \<open>Updating a row\<close>

text \<open>
  What the ORM documents for \<open>Update\<close>: it writes the columns whose bean field is not the zero value,
  and the boolean columns named by \<open>UseBool\<close>. The merge functions state it per table; a property
  that relies on it has \<open>orm_documented env\<close> as a hypothesis.
\<close>

definition nz :: "'a \<Rightarrow> 'a \<Rightarrow> 'a \<Rightarrow> 'a" where
  "nz zero new old = (if new = zero then old else new)"

definition merge_endpoint :: "Endpoint \<Rightarrow> Endpoint \<Rightarrow> Endpoint" where
  "merge_endpoint b r =
     r\<lparr>e_OrgId := nz 0 (e_OrgId b) (e_OrgId r), e_Name := nz [] (e_Name b) (e_Name r),
       e_Slug := nz [] (e_Slug b) (e_Slug r), e_Created := nz zero_time (e_Created b) (e_Created r),
       e_Updated := nz zero_time (e_Updated b) (e_Updated r)\<rparr>"

definition merge_check :: "Check \<Rightarrow> Check \<Rightarrow> Check" where
  "merge_check b r =
     r\<lparr>c_OrgId := nz 0 (c_OrgId b) (c_OrgId r), c_EndpointId := nz 0 (c_EndpointId b) (c_EndpointId r),
       c_Route := nz None (c_Route b) (c_Route r), c_Type := nz [] (c_Type b) (c_Type r),
       c_Frequency := nz 0 (c_Frequency b) (c_Frequency r), c_Offset := nz 0 (c_Offset b) (c_Offset r),
       c_Enabled := c_Enabled b, c_State := nz 0 (c_State b) (c_State r),
       c_StateChange := nz zero_time (c_StateChange b) (c_StateChange r),
       c_StateCheck := nz zero_time (c_StateCheck b) (c_StateCheck r),
       c_Settings := nz [] (c_Settings b) (c_Settings r),
       c_HealthSettings := nz None (c_HealthSettings b) (c_HealthSettings r),
       c_Created := nz zero_time (c_Created b) (c_Created r),
       c_Updated := nz zero_time (c_Updated b) (c_Updated r)\<rparr>"

definition merge_probe :: "Probe \<Rightarrow> Probe \<Rightarrow> Probe" where
  "merge_probe b r =
     r\<lparr>p_OrgId := nz 0 (p_OrgId b) (p_OrgId r), p_Slug := nz [] (p_Slug b) (p_Slug r),
       p_Name := nz [] (p_Name b) (p_Name r), p_Public := p_Public b,
       p_Latitude := nz 0 (p_Latitude b) (p_Latitude r),
       p_Longitude := nz 0 (p_Longitude b) (p_Longitude r),
       p_Created := nz zero_time (p_Created b) (p_Created r),
       p_Updated := nz zero_time (p_Updated b) (p_Updated r),
       p_OnlineChange := nz zero_time (p_OnlineChange b) (p_OnlineChange r),
       p_Enabled := p_Enabled b,
       p_EnabledChange := nz zero_time (p_EnabledChange b) (p_EnabledChange r)\<rparr>"

definition merge_quota :: "Quota \<Rightarrow> Quota \<Rightarrow> Quota" where
  "merge_quota b r =
     r\<lparr>q_OrgId := nz 0 (q_OrgId b) (q_OrgId r), q_Target := nz [] (q_Target b) (q_Target r),
       q_Limit := nz 0 (q_Limit b) (q_Limit r), q_Created := nz zero_time (q_Created b) (q_Created r),
       q_Updated := nz zero_time (q_Updated b) (q_Updated r)\<rparr>"

definition merge_session :: "ProbeSession \<Rightarrow> ProbeSession \<Rightarrow> ProbeSession" where
  "merge_session b r =
     r\<lparr>s_OrgId := nz 0 (s_OrgId b) (s_OrgId r), s_ProbeId := nz 0 (s_ProbeId b) (s_ProbeId r),
       s_SocketId := nz [] (s_SocketId b) (s_SocketId r), s_Version := nz [] (s_Version b) (s_Version r),
       s_InstanceId := nz [] (s_InstanceId b) (s_InstanceId r),
       s_RemoteIp := nz [] (s_RemoteIp b) (s_RemoteIp r),
       s_Updated := nz zero_time (s_Updated b) (s_Updated r)\<rparr>"

definition orm_documented :: "env \<Rightarrow> bool" where
  "orm_documented env \<longleftrightarrow>
     upd_endpoint env = merge_endpoint \<and> upd_check env = merge_check \<and>
     upd_probe env = merge_probe \<and> upd_quota env = merge_quota \<and>
     upd_session env = merge_session \<and> find_onto env = (@) \<and> inj (time_text env) \<and>
     (\<forall>ids. auto_id env ids \<notin> set ids \<and> auto_id env ids \<noteq> 0)"

text \<open>An environment as documented, without faults; the witnesses run in it.\<close>

definition plain_env :: env where
  "plain_env =
     \<lparr>faults = (\<lambda>n. False), now = (\<lambda>n. 1000 * second + int n), auto_id = (\<lambda>ids. fold max ids 0 + 1),
      sql_like = (\<lambda>s p. s = p), time_text = show_int, f64 = of_int, insert_none_ok = True,
      find_onto = (@), upd_endpoint = merge_endpoint, upd_check = merge_check,
      upd_probe = merge_probe, upd_quota = merge_quota, upd_session = merge_session,
      upd_scheduler = (\<lambda>(i, v) t. (map (\<lambda>(k, u). (k, v)) t, int (length t)))\<rparr>"

lemma fold_max_bound: "x \<in> set xs \<Longrightarrow> x \<le> fold max xs (m :: int)" "m \<le> fold max xs m"
proof (induction xs arbitrary: m)
  case (Cons y ys)
  { case 1 then show ?case using Cons.IH(1) Cons.IH(2)[of "max y m"] by auto
  next
    case 2 then show ?case using Cons.IH(2)[of "max y m"] by simp }
qed simp_all

lemma plain_env_documented: "orm_documented plain_env"
proof -
  have "fold max ids 0 + 1 \<notin> set ids \<and> fold max ids 0 + 1 \<noteq> (0 :: int)" for ids
    using fold_max_bound(1)[of "fold max ids 0 + 1" ids 0] fold_max_bound(2)[of 0 ids] by auto
  then show ?thesis
    by (simp add: orm_documented_def plain_env_def inj_def show_int_inj)
qed

end
