(* ===== verification/EndpointRead.thy ===== *)
theory EndpointRead
  imports Store
begin

text \<open>
  The readers of \<open>pkg/services/sqlstore/endpoint.go\<close>: the joined rows of an endpoint, their fold into
  \<open>EndpointDTO\<close>s (\<open>ToDTO\<close>), the freshness test of a stored state (\<open>scrutinizeState\<close>) and the queries
  \<open>GetEndpoints\<close>, \<open>GetEndpointById\<close>, \<open>GetCheckById\<close>, \<open>GetEndpointTags\<close>. The lemmas say which
  rows a returned endpoint is made of.
\<close>

section \<open>Stale states\<close>

text \<open>
  \<open>now.Add(-3 * freq)\<close>: \<open>Duration\<close> arithmetic wraps at 64 bits.
\<close>

definition scrutinizeState :: "time \<Rightarrow> Check \<Rightarrow> Check" where
  "scrutinizeState t c =
     (if c_State c = EvalResultUnknown then c
      else let freq = wrap64 (c_Frequency c * second);
               oldest = t + wrap64 (-3 * freq)
           in if c_StateCheck c < oldest
              then c\<lparr>c_State := EvalResultUnknown, c_StateChange := c_StateCheck c\<rparr>
              else c)"

lemma scrutinizeState_fields [simp]:
  "c_Id (scrutinizeState t c) = c_Id c" "c_OrgId (scrutinizeState t c) = c_OrgId c"
  "c_EndpointId (scrutinizeState t c) = c_EndpointId c" "c_Route (scrutinizeState t c) = c_Route c"
  "c_Type (scrutinizeState t c) = c_Type c" "c_Frequency (scrutinizeState t c) = c_Frequency c"
  "c_Settings (scrutinizeState t c) = c_Settings c" "c_Enabled (scrutinizeState t c) = c_Enabled c"
  "c_HealthSettings (scrutinizeState t c) = c_HealthSettings c"
  "c_Created (scrutinizeState t c) = c_Created c" "c_StateCheck (scrutinizeState t c) = c_StateCheck c"
  by (simp_all add: scrutinizeState_def Let_def)

section \<open>Joined rows\<close>

record endpointRow =
  er_Endpoint :: Endpoint
  er_Check :: Check
  er_EndpointTag :: EndpointTag

text \<open>The columns of a \<open>LEFT JOIN\<close> without a partner are NULL, which scan as zero values.\<close>

definition zero_check :: Check where
  "zero_check =
     \<lparr>c_Id = 0, c_OrgId = 0, c_EndpointId = 0, c_Route = None, c_Type = [], c_Frequency = 0,
      c_Offset = 0, c_Enabled = False, c_State = 0, c_StateChange = zero_time,
      c_StateCheck = zero_time, c_Settings = [], c_HealthSettings = None, c_Created = zero_time,
      c_Updated = zero_time\<rparr>"

definition zero_endpoint_tag :: EndpointTag where
  "zero_endpoint_tag = \<lparr>et_OrgId = 0, et_EndpointId = 0, et_Tag = [], et_Created = zero_time\<rparr>"

definition or_null :: "'a \<Rightarrow> 'a list \<Rightarrow> 'a list" where
  "or_null z xs = (if xs = [] then [z] else xs)"

definition checks_of :: "db \<Rightarrow> int \<Rightarrow> Check list" where
  "checks_of d eid = filter (\<lambda>c. c_EndpointId c = eid) (t_check d)"

definition tags_of :: "db \<Rightarrow> int \<Rightarrow> EndpointTag list" where
  "tags_of d eid = filter (\<lambda>t. et_EndpointId t = eid) (t_endpoint_tag d)"

definition joined_rows :: "db \<Rightarrow> Endpoint list \<Rightarrow> endpointRow list" where
  "joined_rows d es =
     [\<lparr>er_Endpoint = e, er_Check = c, er_EndpointTag = t\<rparr>.
        e \<leftarrow> es, c \<leftarrow> or_null zero_check (checks_of d (e_Id e)),
        t \<leftarrow> or_null zero_endpoint_tag (tags_of d (e_Id e))]"

section \<open>ToDTO\<close>

record dto_maps =
  m_endpoints :: "(int, EndpointDTO) gomap"
  m_checks :: "(int, (int, Check) gomap) gomap"
  m_tags :: "(int, string list) gomap"

definition lookup_list :: "('k, 'v list) gomap \<Rightarrow> 'k \<Rightarrow> 'v list" where
  "lookup_list m k = (case map_of m k of None \<Rightarrow> [] | Some v \<Rightarrow> v)"

text \<open>A \<open>map[T]struct{}\<close> is a list without duplicates.\<close>

definition set_add :: "'a \<Rightarrow> 'a list \<Rightarrow> 'a list" where
  "set_add x xs = (if x \<in> set xs then xs else xs @ [x])"

definition bare_dto :: "Endpoint \<Rightarrow> EndpointDTO" where
  "bare_dto e =
     \<lparr>ed_Id = e_Id e, ed_OrgId = e_OrgId e, ed_Name = e_Name e, ed_Slug = e_Slug e, ed_Checks = [],
      ed_Tags = [], ed_Created = e_Created e, ed_Updated = e_Updated e\<rparr>"

definition add_row :: "endpointRow \<Rightarrow> dto_maps \<Rightarrow> dto_maps" where
  "add_row r m =
     (let eid = e_Id (er_Endpoint r); c = er_Check r; t = et_Tag (er_EndpointTag r)
      in case map_of (m_endpoints m) eid of
           None \<Rightarrow>
             \<lparr>m_endpoints = AList.update eid (bare_dto (er_Endpoint r)) (m_endpoints m),
              m_checks = AList.update eid (if c_Id c \<noteq> 0 then [(c_Id c, c)] else []) (m_checks m),
              m_tags = AList.update eid (if t \<noteq> [] then [t] else []) (m_tags m)\<rparr>
         | Some _ \<Rightarrow>
             let cs = lookup_list (m_checks m) eid
             in m\<lparr>m_checks :=
                    (if c_Id c \<noteq> 0 \<and> map_of cs (c_Id c) = None
                     then AList.update eid (AList.update (c_Id c) c cs) (m_checks m)
                     else m_checks m),
                  m_tags :=
                    (if t \<noteq> [] then AList.update eid (set_add t (lookup_list (m_tags m) eid)) (m_tags m)
                     else m_tags m)\<rparr>)"

definition fresh_check :: "int \<times> Check \<Rightarrow> Check op" where
  "fresh_check kc = bindS time_Now (\<lambda>t. returnS (scrutinizeState t (snd kc)))"

definition ToDTO :: "endpointRow list \<Rightarrow> EndpointDTO list op" where
  "ToDTO rows =
     (let m = fold add_row rows \<lparr>m_endpoints = [], m_checks = [], m_tags = []\<rparr>
      in map_each
           (\<lambda>(eid, e). bindS (map_each fresh_check (lookup_list (m_checks m) eid))
              (\<lambda>cs. returnS (e\<lparr>ed_Checks := cs, ed_Tags := lookup_list (m_tags m) eid\<rparr>)))
           (m_endpoints m))"

section \<open>Queries\<close>

text \<open>
  \<open>getEndpoints\<close>. The rows come ordered by \<open>query.OrderBy\<close>, but \<open>ToDTO\<close> collects them in a map,
  so the order of the result is that of the map.
\<close>

definition matching_endpoints :: "env \<Rightarrow> GetEndpointsQuery \<Rightarrow> db \<Rightarrow> Endpoint list" where
  "matching_endpoints env q d =
     [e. e \<leftarrow> t_endpoint d,
         (qe_OrgId q = 0 \<or> e_OrgId e = qe_OrgId q) \<and>
         (qe_Name q = [] \<or> sql_like env (e_Name e) (qe_Name q)),
         _ \<leftarrow> (if qe_Tag q = [] then [()]
               else [(). et \<leftarrow> tags_of d (e_Id e), et_Tag et = qe_Tag q])]"

definition getEndpoints :: "GetEndpointsQuery \<Rightarrow> EndpointDTO list op" where
  "getEndpoints q =
     bindS (query (\<lambda>env d. joined_rows d (matching_endpoints env q d))) ToDTO"

definition GetEndpoints :: "GetEndpointsQuery \<Rightarrow> EndpointDTO list op" where
  "GetEndpoints q = getEndpoints q"

definition endpoint_not_found :: fault where
  "endpoint_not_found = Error (NotFoundError ''endpoint not found'')"

definition getEndpointById :: "int \<Rightarrow> int \<Rightarrow> EndpointDTO op" where
  "getEndpointById org eid =
     bindS (query (\<lambda>env d. joined_rows d (filter (\<lambda>e. e_Id e = eid \<and> e_OrgId e = org) (t_endpoint d))))
       (\<lambda>rows. if rows = [] then failS endpoint_not_found
               else bindS (ToDTO rows) (\<lambda>es. liftS (go_index es 0)))"

definition GetEndpointById :: "int \<Rightarrow> int \<Rightarrow> EndpointDTO op" where
  "GetEndpointById org eid = getEndpointById org eid"

definition check_not_found :: fault where
  "check_not_found = Error (NotFoundError ''check not found'')"

definition getCheckById :: "int \<Rightarrow> int \<Rightarrow> Check op" where
  "getCheckById org cid =
     bindS (query (\<lambda>env d. List.find (\<lambda>c. c_OrgId c = org \<and> c_Id c = cid) (t_check d)))
       (\<lambda>r. case r of None \<Rightarrow> failS check_not_found | Some c \<Rightarrow> returnS c)"

definition GetCheckById :: "int \<Rightarrow> int \<Rightarrow> Check op" where
  "GetCheckById org cid = getCheckById org cid"

definition getEndpointTags :: "int \<Rightarrow> string list op" where
  "getEndpointTags org =
     query (\<lambda>env d. remdups (map et_Tag (filter (\<lambda>t. et_OrgId t = org) (t_endpoint_tag d))))"

definition GetEndpointTags :: "int \<Rightarrow> string list op" where
  "GetEndpointTags org = getEndpointTags org"

section \<open>What a returned endpoint is made of\<close>

lemma lookup_list_update:
  "lookup_list (AList.update k v m) k' = (if k' = k then v else lookup_list m k')"
  by (simp add: lookup_list_def update_conv')

lemma set_set_add [simp]: "set (set_add x xs) = insert x (set xs)"
  by (auto simp: set_add_def)

lemma distinct_set_add [simp]: "distinct xs \<Longrightarrow> distinct (set_add x xs)"
  by (simp add: set_add_def)

text \<open>The rows of one endpoint, and the checks and tags among them.\<close>

definition row_checks :: "int \<Rightarrow> endpointRow list \<Rightarrow> Check set" where
  "row_checks eid rows = {er_Check r | r. r \<in> set rows \<and> e_Id (er_Endpoint r) = eid \<and> c_Id (er_Check r) \<noteq> 0}"

definition row_tags :: "int \<Rightarrow> endpointRow list \<Rightarrow> string set" where
  "row_tags eid rows =
     {et_Tag (er_EndpointTag r) | r. r \<in> set rows \<and> e_Id (er_Endpoint r) = eid} - {[]}"

text \<open>What the three maps hold after the rows \<open>rows\<close>.\<close>

definition maps_inv :: "endpointRow list \<Rightarrow> dto_maps \<Rightarrow> bool" where
  "maps_inv rows m \<longleftrightarrow>
     distinct (map fst (m_endpoints m)) \<and>
     (\<forall>eid. map_of (m_endpoints m) eid = None \<longleftrightarrow> (\<forall>r\<in>set rows. e_Id (er_Endpoint r) \<noteq> eid)) \<and>
     (\<forall>eid e. map_of (m_endpoints m) eid = Some e \<longrightarrow>
        (\<exists>r\<in>set rows. e_Id (er_Endpoint r) = eid \<and> e = bare_dto (er_Endpoint r))) \<and>
     (\<forall>eid. distinct (map fst (lookup_list (m_checks m) eid)) \<and>
        (\<forall>(k, c)\<in>set (lookup_list (m_checks m) eid). k = c_Id c \<and> c \<in> row_checks eid rows) \<and>
        c_Id ` row_checks eid rows = fst ` set (lookup_list (m_checks m) eid)) \<and>
     (\<forall>eid. distinct (lookup_list (m_tags m) eid) \<and> set (lookup_list (m_tags m) eid) = row_tags eid rows)"

lemma row_checks_snoc:
  "row_checks eid (rows @ [r]) =
     (if e_Id (er_Endpoint r) = eid \<and> c_Id (er_Check r) \<noteq> 0 then insert (er_Check r) (row_checks eid rows)
      else row_checks eid rows)"
  by (auto simp: row_checks_def)

lemma row_tags_snoc:
  "row_tags eid (rows @ [r]) =
     (if e_Id (er_Endpoint r) = eid \<and> et_Tag (er_EndpointTag r) \<noteq> []
      then insert (et_Tag (er_EndpointTag r)) (row_tags eid rows) else row_tags eid rows)"
  by (auto simp: row_tags_def)

lemma no_rows_empty:
  "\<forall>r\<in>set rows. e_Id (er_Endpoint r) \<noteq> eid \<Longrightarrow> row_checks eid rows = {} \<and> row_tags eid rows = {}"
  by (auto simp: row_checks_def row_tags_def)

text \<open>The three parts of the invariant.\<close>

definition endpoints_inv :: "endpointRow list \<Rightarrow> (int, EndpointDTO) gomap \<Rightarrow> bool" where
  "endpoints_inv rows m \<longleftrightarrow> distinct (map fst m) \<and>
     (\<forall>eid. map_of m eid = None \<longleftrightarrow> (\<forall>r\<in>set rows. e_Id (er_Endpoint r) \<noteq> eid)) \<and>
     (\<forall>eid e. map_of m eid = Some e \<longrightarrow>
        (\<exists>r\<in>set rows. e_Id (er_Endpoint r) = eid \<and> e = bare_dto (er_Endpoint r)))"

definition checks_inv :: "Check set \<Rightarrow> (int, Check) gomap \<Rightarrow> bool" where
  "checks_inv cs m \<longleftrightarrow> distinct (map fst m) \<and> (\<forall>(k, c)\<in>set m. k = c_Id c \<and> c \<in> cs) \<and>
     c_Id ` cs = fst ` set m"

definition tags_inv :: "string set \<Rightarrow> string list \<Rightarrow> bool" where
  "tags_inv ts m \<longleftrightarrow> distinct m \<and> set m = ts"

lemma checks_inv_add:
  assumes "checks_inv cs m"
  shows "checks_inv (insert c cs) (if map_of m (c_Id c) = None then AList.update (c_Id c) c m else m)"
proof (cases "map_of m (c_Id c)")
  case None
  then have "c_Id c \<notin> fst ` set m" by (simp add: map_of_eq_None_iff)
  then have "AList.update (c_Id c) c m = m @ [(c_Id c, c)]"
    by (induction m) auto
  with None assms show ?thesis
    by (auto simp: checks_inv_def map_of_eq_None_iff)
next
  case (Some c')
  then have "c_Id c \<in> fst ` set m" by (metis map_of_eq_None_iff option.distinct(1))
  with Some assms show ?thesis by (auto simp: checks_inv_def)
qed

lemma endpoints_inv_add:
  assumes "endpoints_inv rows m"
  shows "endpoints_inv (rows @ [r])
     (case map_of m (e_Id (er_Endpoint r)) of
        None \<Rightarrow> AList.update (e_Id (er_Endpoint r)) (bare_dto (er_Endpoint r)) m | Some _ \<Rightarrow> m)"
proof (cases "map_of m (e_Id (er_Endpoint r))")
  case None
  let ?k = "e_Id (er_Endpoint r)"
  have old: "distinct (map fst m)"
    "\<And>eid. map_of m eid = None \<longleftrightarrow> (\<forall>r\<in>set rows. e_Id (er_Endpoint r) \<noteq> eid)"
    "\<And>eid e. map_of m eid = Some e \<Longrightarrow>
        \<exists>r\<in>set rows. e_Id (er_Endpoint r) = eid \<and> e = bare_dto (er_Endpoint r)"
    using assms unfolding endpoints_inv_def by blast+
  have "endpoints_inv (rows @ [r]) (AList.update ?k (bare_dto (er_Endpoint r)) m)"
    unfolding endpoints_inv_def
  proof (intro conjI allI impI)
    show "distinct (map fst (AList.update ?k (bare_dto (er_Endpoint r)) m))"
      by (rule distinct_update[OF old(1)])
    show "map_of (AList.update ?k (bare_dto (er_Endpoint r)) m) eid = None \<longleftrightarrow>
        (\<forall>r\<in>set (rows @ [r]). e_Id (er_Endpoint r) \<noteq> eid)" for eid
      using old(2)[of eid] by (auto simp: update_conv')
    show "\<exists>r\<in>set (rows @ [r]). e_Id (er_Endpoint r) = eid \<and> e = bare_dto (er_Endpoint r)"
      if "map_of (AList.update ?k (bare_dto (er_Endpoint r)) m) eid = Some e" for eid e
      using that old(3)[of eid e] by (auto simp: update_conv' split: if_splits)
  qed
  with None show ?thesis by simp
next
  case (Some e)
  then have "\<exists>r'\<in>set rows. e_Id (er_Endpoint r') = e_Id (er_Endpoint r)"
    using assms unfolding endpoints_inv_def by blast
  then have "endpoints_inv (rows @ [r]) m"
    using assms unfolding endpoints_inv_def by (simp; blast)
  with Some show ?thesis by simp
qed

lemma maps_inv_parts:
  "maps_inv rows m \<longleftrightarrow> endpoints_inv rows (m_endpoints m) \<and>
     (\<forall>eid. checks_inv (row_checks eid rows) (lookup_list (m_checks m) eid)) \<and>
     (\<forall>eid. tags_inv (row_tags eid rows) (lookup_list (m_tags m) eid))"
  by (auto simp: maps_inv_def endpoints_inv_def checks_inv_def tags_inv_def)

lemma checks_inv_empty [simp]: "checks_inv {} []" "c_Id c \<noteq> 0 \<Longrightarrow> checks_inv {c} [(c_Id c, c)]"
  by (simp_all add: checks_inv_def)

lemma add_row_fields:
  fixes r m
  defines "eid \<equiv> e_Id (er_Endpoint r)" and "c \<equiv> er_Check r" and "t \<equiv> et_Tag (er_EndpointTag r)"
  shows "m_endpoints (add_row r m) =
      (case map_of (m_endpoints m) eid of
         None \<Rightarrow> AList.update eid (bare_dto (er_Endpoint r)) (m_endpoints m) | Some _ \<Rightarrow> m_endpoints m)"
    and "(\<forall>k. map_of (m_endpoints m) k = None \<longrightarrow> lookup_list (m_checks m) k = []) \<Longrightarrow>
      lookup_list (m_checks (add_row r m)) k =
       (let cs = lookup_list (m_checks m) k
        in if k = eid \<and> c_Id c \<noteq> 0
           then (if map_of cs (c_Id c) = None then AList.update (c_Id c) c cs else cs) else cs)"
    and "(\<forall>k. map_of (m_endpoints m) k = None \<longrightarrow> lookup_list (m_tags m) k = []) \<Longrightarrow>
      lookup_list (m_tags (add_row r m)) k =
       (let ts = lookup_list (m_tags m) k in if k = eid \<and> t \<noteq> [] then set_add t ts else ts)"
  by (auto simp: add_row_def Let_def lookup_list_update set_add_def eid_def c_def t_def
      split: option.splits)

lemma maps_inv_add_row:
  assumes "maps_inv rows m"
  shows "maps_inv (rows @ [r]) (add_row r m)"
proof -
  have e: "endpoints_inv rows (m_endpoints m)"
    and c: "\<And>k. checks_inv (row_checks k rows) (lookup_list (m_checks m) k)"
    and t: "\<And>k. tags_inv (row_tags k rows) (lookup_list (m_tags m) k)"
    using assms by (auto simp: maps_inv_parts)
  have none: "lookup_list (m_checks m) k = [] \<and> lookup_list (m_tags m) k = []"
    if "map_of (m_endpoints m) k = None" for k
  proof -
    have "row_checks k rows = {} \<and> row_tags k rows = {}"
      using e that by (intro no_rows_empty) (auto simp: endpoints_inv_def)
    with c[of k] t[of k] show ?thesis by (simp add: checks_inv_def tags_inv_def)
  qed
  have "endpoints_inv (rows @ [r]) (m_endpoints (add_row r m))"
    using endpoints_inv_add[OF e, of r] by (simp add: add_row_fields(1))
  moreover have "checks_inv (row_checks k (rows @ [r])) (lookup_list (m_checks (add_row r m)) k)" for k
    using c[of k] checks_inv_add[OF c[of k], of "er_Check r"]
    by (subst add_row_fields(2)) (auto simp: none row_checks_snoc Let_def)
  moreover have "tags_inv (row_tags k (rows @ [r])) (lookup_list (m_tags (add_row r m)) k)" for k
    using t[of k] by (subst add_row_fields(3)) (auto simp: none row_tags_snoc Let_def tags_inv_def)
  ultimately show ?thesis by (simp add: maps_inv_parts)
qed

lemma maps_inv_fold:
  "maps_inv rows (fold add_row rows \<lparr>m_endpoints = [], m_checks = [], m_tags = []\<rparr>)"
proof (induction rows rule: rev_induct)
  case Nil
  show ?case
    by (simp add: maps_inv_def row_checks_def row_tags_def lookup_list_def)
next
  case (snoc r rows)
  then show ?case by (simp add: maps_inv_add_row)
qed

text \<open>\<open>assembled rows e\<close>: the endpoint \<open>e\<close> is made of the rows that carry its id.\<close>

definition scrutinized :: "Check \<Rightarrow> Check \<Rightarrow> bool" where
  "scrutinized c c' \<longleftrightarrow> (\<exists>t. c' = scrutinizeState t c)"

definition assembled :: "endpointRow list \<Rightarrow> EndpointDTO \<Rightarrow> bool" where
  "assembled rows e \<longleftrightarrow>
     (\<exists>r\<in>set rows. e_Id (er_Endpoint r) = ed_Id e \<and>
        bare_dto (er_Endpoint r) = e\<lparr>ed_Checks := [], ed_Tags := []\<rparr>) \<and>
     distinct (ed_Tags e) \<and> set (ed_Tags e) = row_tags (ed_Id e) rows \<and>
     (\<exists>cs. list_all2 scrutinized cs (ed_Checks e) \<and> distinct (map c_Id cs) \<and>
        set cs \<subseteq> row_checks (ed_Id e) rows \<and> c_Id ` set cs = c_Id ` row_checks (ed_Id e) rows)"

lemma post_fresh_checks:
  "post env P (map_each fresh_check kcs) (\<lambda>cs d. P d \<and> list_all2 scrutinized (map snd kcs) cs)"
proof -
  let ?I = "\<lambda>(kcs :: (int \<times> Check) list) cs d. P d \<and> list_all2 scrutinized (map snd kcs) cs"
  have "post env (?I [] []) (map_each fresh_check kcs) (\<lambda>cs. ?I kcs cs)"
  proof (rule post_map_each_done[where I = ?I])
    show "post env (?I ys rs) (fresh_check x) (\<lambda>r. ?I (ys @ [x]) (rs @ [r]))" for ys x rs
      unfolding fresh_check_def
      by (rule post_bind[OF post_now], rule post_return)
         (auto intro!: list_all2_appendI simp: scrutinized_def)
  qed
  then show ?thesis by (rule post_pre) simp
qed

lemma post_ToDTO:
  "post env P (ToDTO rows)
     (\<lambda>es d. P d \<and> distinct (map ed_Id es) \<and> list_all (assembled rows) es \<and>
        ed_Id ` set es = e_Id ` er_Endpoint ` set rows)"
proof -
  let ?m = "fold add_row rows \<lparr>m_endpoints = [], m_checks = [], m_tags = []\<rparr>"
  have inv: "endpoints_inv rows (m_endpoints ?m)"
    "\<And>k. checks_inv (row_checks k rows) (lookup_list (m_checks ?m) k)"
    "\<And>k. tags_inv (row_tags k rows) (lookup_list (m_tags ?m) k)"
    using maps_inv_fold[of rows] by (simp_all add: maps_inv_parts)
  define made where "made = (\<lambda>(k, e :: EndpointDTO) x. ed_Id x = k \<and> assembled rows x)"
  let ?f = "\<lambda>(eid, e). bindS (map_each fresh_check (lookup_list (m_checks ?m) eid))
     (\<lambda>cs. returnS (e\<lparr>ed_Checks := cs, ed_Tags := lookup_list (m_tags ?m) eid\<rparr>))"
  have step: "post env Q (?f (k, e)) (\<lambda>x d. Q d \<and> made (k, e) x)"
    if "(k, e) \<in> set (m_endpoints ?m)" for k e Q
  proof -
    have "map_of (m_endpoints ?m) k = Some e"
      using that inv(1) by (simp add: endpoints_inv_def)
    then obtain r where r: "r \<in> set rows" "e_Id (er_Endpoint r) = k" "e = bare_dto (er_Endpoint r)"
      using inv(1) unfolding endpoints_inv_def by blast
    then have k: "ed_Id e = k" by (simp add: bare_dto_def)
    have "made (k, e) (e\<lparr>ed_Checks := cs, ed_Tags := lookup_list (m_tags ?m) k\<rparr>)"
      if "list_all2 scrutinized (map snd (lookup_list (m_checks ?m) k)) cs" for cs
    proof -
      let ?cs = "map snd (lookup_list (m_checks ?m) k)"
      have key: "map c_Id ?cs = map fst (lookup_list (m_checks ?m) k)"
        using inv(2)[of k] by (auto simp: checks_inv_def)
      have d: "distinct (map c_Id ?cs)"
        unfolding key using inv(2)[of k] by (simp add: checks_inv_def)
      have sub: "set ?cs \<subseteq> row_checks k rows"
        using inv(2)[of k] by (auto simp: checks_inv_def)
      have "c_Id ` set ?cs = set (map c_Id ?cs)" by (simp only: set_map)
      also have "\<dots> = c_Id ` row_checks k rows"
        unfolding key using inv(2)[of k] by (simp add: checks_inv_def)
      finally have cover: "c_Id ` set ?cs = c_Id ` row_checks k rows" .
      have cs: "\<exists>cs'. list_all2 scrutinized cs' cs \<and> distinct (map c_Id cs') \<and>
          set cs' \<subseteq> row_checks k rows \<and> c_Id ` set cs' = c_Id ` row_checks k rows"
        by (intro exI[of _ ?cs] conjI that d sub cover)
      have "\<exists>r\<in>set rows. e_Id (er_Endpoint r) = k \<and> bare_dto (er_Endpoint r) = e\<lparr>ed_Checks := [], ed_Tags := []\<rparr>"
        using r by (intro bexI[of _ r]) (simp_all add: bare_dto_def)
      with cs k inv(3)[of k] show ?thesis
        by (simp add: made_def assembled_def tags_inv_def)
    qed
    then show ?thesis
      by (simp, intro post_bind[OF post_fresh_checks] post_return) auto
  qed
  let ?I = "\<lambda>ys rs d. P d \<and> list_all2 made ys rs"
  have "post env (?I [] []) (map_each ?f (m_endpoints ?m)) (\<lambda>es. ?I (m_endpoints ?m) es)"
  proof (rule post_map_each_done[where I = ?I])
    fix ys x zs rs
    assume m: "m_endpoints ?m = ys @ x # zs"
    obtain k e where x: "x = (k, e)" by (cases x)
    with m have "(k, e) \<in> set (m_endpoints ?m)" by simp
    from step[OF this, of "\<lambda>d. P d \<and> list_all2 made ys rs"]
    show "post env (\<lambda>d. P d \<and> list_all2 made ys rs) (?f x)
        (\<lambda>r d. P d \<and> list_all2 made (ys @ [x]) (rs @ [r]))"
      unfolding x by (rule post_weaken) (auto intro!: list_all2_appendI)
  qed
  then have "post env P (ToDTO rows) (\<lambda>es d. P d \<and> list_all2 made (m_endpoints ?m) es)"
    unfolding ToDTO_def Let_def by (rule post_pre) simp
  then show ?thesis
  proof (rule post_weaken)
    fix es d
    assume a: "P d \<and> list_all2 made (m_endpoints ?m) es"
    then have l2: "list_all2 made (m_endpoints ?m) es" by simp
    then have ids: "map ed_Id es = map fst (m_endpoints ?m)"
      by (induction rule: list_all2_induct) (auto simp: made_def)
    from l2 have all: "list_all (assembled rows) es"
      by (induction rule: list_all2_induct) (auto simp: made_def)
    have "fst ` set (m_endpoints ?m) = e_Id ` er_Endpoint ` set rows"
      using inv(1) unfolding endpoints_inv_def by (force simp: map_of_eq_None_iff)
    moreover have "ed_Id ` set es = set (map ed_Id es)" by simp
    ultimately have "ed_Id ` set es = e_Id ` er_Endpoint ` set rows" by (simp add: ids)
    moreover have "distinct (map ed_Id es)"
      using inv(1) by (simp add: ids endpoints_inv_def)
    ultimately show "P d \<and> distinct (map ed_Id es) \<and> list_all (assembled rows) es \<and>
        ed_Id ` set es = e_Id ` er_Endpoint ` set rows"
      using a all by blast
  qed auto
qed

section \<open>A returned endpoint represents the stored one\<close>

text \<open>
  \<open>represents d x\<close>: the endpoint \<open>x\<close> carries the columns of a stored endpoint, exactly its non-empty
  tags and exactly its checks, each with its state scrutinized.
\<close>

definition represents :: "db \<Rightarrow> EndpointDTO \<Rightarrow> bool" where
  "represents d x \<longleftrightarrow>
     (\<exists>e\<in>set (t_endpoint d). bare_dto e = x\<lparr>ed_Checks := [], ed_Tags := []\<rparr>) \<and>
     distinct (ed_Tags x) \<and> set (ed_Tags x) = et_Tag ` set (tags_of d (ed_Id x)) - {[]} \<and>
     (\<exists>cs. list_all2 scrutinized cs (ed_Checks x) \<and> distinct (map c_Id cs) \<and>
        set cs \<subseteq> {c \<in> set (checks_of d (ed_Id x)). c_Id c \<noteq> 0} \<and>
        c_Id ` set cs = c_Id ` set (checks_of d (ed_Id x)) - {0})"

lemma set_or_null: "set (or_null z xs) = (if xs = [] then {z} else set xs)"
  by (simp add: or_null_def)

lemma in_joined_rows:
  "r \<in> set (joined_rows d es) \<longleftrightarrow>
     er_Endpoint r \<in> set es \<and>
     er_Check r \<in> set (or_null zero_check (checks_of d (e_Id (er_Endpoint r)))) \<and>
     er_EndpointTag r \<in> set (or_null zero_endpoint_tag (tags_of d (e_Id (er_Endpoint r))))"
proof -
  obtain e c t where r: "r = \<lparr>er_Endpoint = e, er_Check = c, er_EndpointTag = t\<rparr>" by (cases r)
  show ?thesis unfolding r by (simp add: joined_rows_def image_iff)
qed

lemma or_null_ne: "\<exists>x. x \<in> set (or_null z xs)"
  by (cases xs) (auto simp: or_null_def)

lemma joined_rows_endpoints: "er_Endpoint ` set (joined_rows d es) = set es"
proof
  show "er_Endpoint ` set (joined_rows d es) \<subseteq> set es" by (auto simp: in_joined_rows)
  show "set es \<subseteq> er_Endpoint ` set (joined_rows d es)"
  proof
    fix e
    assume e: "e \<in> set es"
    obtain c t where ct: "c \<in> set (or_null zero_check (checks_of d (e_Id e)))"
      "t \<in> set (or_null zero_endpoint_tag (tags_of d (e_Id e)))"
      using or_null_ne by metis
    show "e \<in> er_Endpoint ` set (joined_rows d es)"
      by (rule image_eqI[where x = "\<lparr>er_Endpoint = e, er_Check = c, er_EndpointTag = t\<rparr>"])
         (simp_all add: in_joined_rows e ct)
  qed
qed

lemma joined_rows_row_checks:
  assumes "e \<in> set es" "e_Id e = eid"
  shows "row_checks eid (joined_rows d es) = {c \<in> set (checks_of d eid). c_Id c \<noteq> 0}"
proof
  show "row_checks eid (joined_rows d es) \<subseteq> {c \<in> set (checks_of d eid). c_Id c \<noteq> 0}"
    by (auto simp: row_checks_def in_joined_rows set_or_null zero_check_def split: if_splits)
  show "{c \<in> set (checks_of d eid). c_Id c \<noteq> 0} \<subseteq> row_checks eid (joined_rows d es)"
  proof
    fix c
    assume c: "c \<in> {c \<in> set (checks_of d eid). c_Id c \<noteq> 0}"
    obtain t where t: "t \<in> set (or_null zero_endpoint_tag (tags_of d eid))" using or_null_ne by metis
    have "\<lparr>er_Endpoint = e, er_Check = c, er_EndpointTag = t\<rparr> \<in> set (joined_rows d es)"
      using c t assms by (auto simp: in_joined_rows set_or_null)
    with c assms(2) show "c \<in> row_checks eid (joined_rows d es)"
      unfolding row_checks_def by force
  qed
qed

lemma joined_rows_row_tags:
  assumes "e \<in> set es" "e_Id e = eid"
  shows "row_tags eid (joined_rows d es) = et_Tag ` set (tags_of d eid) - {[]}"
proof
  show "row_tags eid (joined_rows d es) \<subseteq> et_Tag ` set (tags_of d eid) - {[]}"
    by (auto simp: row_tags_def in_joined_rows set_or_null zero_endpoint_tag_def split: if_splits)
  show "et_Tag ` set (tags_of d eid) - {[]} \<subseteq> row_tags eid (joined_rows d es)"
  proof
    fix x
    assume "x \<in> et_Tag ` set (tags_of d eid) - {[]}"
    then obtain t where t: "t \<in> set (tags_of d eid)" "x = et_Tag t" "x \<noteq> []" by auto
    obtain c where c: "c \<in> set (or_null zero_check (checks_of d eid))" using or_null_ne by metis
    have "\<lparr>er_Endpoint = e, er_Check = c, er_EndpointTag = t\<rparr> \<in> set (joined_rows d es)"
      using c t assms by (auto simp: in_joined_rows set_or_null)
    with t assms(2) show "x \<in> row_tags eid (joined_rows d es)"
      unfolding row_tags_def by force
  qed
qed

lemma assembled_represents:
  assumes "assembled (joined_rows d es) x" and "set es \<subseteq> set (t_endpoint d)"
  shows "represents d x \<and> ed_Id x \<in> e_Id ` set es"
proof -
  from assms(1) obtain r where r: "r \<in> set (joined_rows d es)" "e_Id (er_Endpoint r) = ed_Id x"
    "bare_dto (er_Endpoint r) = x\<lparr>ed_Checks := [], ed_Tags := []\<rparr>"
    by (auto simp: assembled_def)
  then have e: "er_Endpoint r \<in> set es" using joined_rows_endpoints by blast
  note rows = joined_rows_row_checks[OF e r(2)] joined_rows_row_tags[OF e r(2)]
  have ids: "c_Id ` {c \<in> set (checks_of d (ed_Id x)). c_Id c \<noteq> 0}
      = c_Id ` set (checks_of d (ed_Id x)) - {0}"
    by auto
  have "represents d x"
    unfolding represents_def
    using assms r e unfolding assembled_def rows ids by blast
  with e r(2) show ?thesis by force
qed

lemma post_getEndpoints:
  "post env P (getEndpoints q)
     (\<lambda>xs d. P d \<and> distinct (map ed_Id xs) \<and> (\<forall>x\<in>set xs. represents d x) \<and>
        ed_Id ` set xs = e_Id ` set (matching_endpoints env q d))"
proof -
  have sub: "set (matching_endpoints env q d) \<subseteq> set (t_endpoint d)" for d
    by (auto simp: matching_endpoints_def)
  show ?thesis
    unfolding getEndpoints_def
  proof (rule post_bind[where R = "\<lambda>rows d. P d \<and> rows = joined_rows d (matching_endpoints env q d)"])
    show "post env P (query (\<lambda>env d. joined_rows d (matching_endpoints env q d)))
        (\<lambda>rows d. P d \<and> rows = joined_rows d (matching_endpoints env q d))"
      by (rule post_query) simp
    fix rows
    show "post env (\<lambda>d. P d \<and> rows = joined_rows d (matching_endpoints env q d)) (ToDTO rows)
        (\<lambda>xs d. P d \<and> distinct (map ed_Id xs) \<and> (\<forall>x\<in>set xs. represents d x) \<and>
           ed_Id ` set xs = e_Id ` set (matching_endpoints env q d))"
    proof (rule post_weaken[OF post_ToDTO])
      fix xs d
      let ?es = "matching_endpoints env q d"
      assume a: "(P d \<and> rows = joined_rows d ?es) \<and> distinct (map ed_Id xs) \<and>
        list_all (assembled rows) xs \<and> ed_Id ` set xs = e_Id ` er_Endpoint ` set rows"
      then have rows: "rows = joined_rows d ?es" by blast
      have "\<forall>x\<in>set xs. represents d x"
        using a assembled_represents[OF _ sub] unfolding rows list_all_iff by blast
      moreover have "ed_Id ` set xs = e_Id ` set ?es"
        using a unfolding rows joined_rows_endpoints by blast
      ultimately show "P d \<and> distinct (map ed_Id xs) \<and> (\<forall>x\<in>set xs. represents d x) \<and>
          ed_Id ` set xs = e_Id ` set ?es"
        using a by blast
    qed blast
  qed
qed

lemma post_getEndpointById:
  "post env P (getEndpointById org eid)
     (\<lambda>x d. P d \<and> represents d x \<and> ed_Id x = eid \<and>
        (\<exists>e\<in>set (t_endpoint d). e_Id e = eid \<and> e_OrgId e = org))"
proof -
  let ?es = "\<lambda>d. filter (\<lambda>e. e_Id e = eid \<and> e_OrgId e = org) (t_endpoint d)"
  let ?R = "\<lambda>rows d. P d \<and> rows = joined_rows d (?es d)"
  show ?thesis
    unfolding getEndpointById_def
  proof (rule post_bind[where R = ?R])
    show "post env P (query (\<lambda>env d. joined_rows d (?es d))) ?R"
      by (rule post_query) simp
    fix rows
    show "post env (?R rows)
        (if rows = [] then failS endpoint_not_found
         else bindS (ToDTO rows) (\<lambda>es. liftS (go_index es 0)))
        (\<lambda>x d. P d \<and> represents d x \<and> ed_Id x = eid \<and>
           (\<exists>e\<in>set (t_endpoint d). e_Id e = eid \<and> e_OrgId e = org))"
    proof (intro post_if post_fail post_bind[OF post_ToDTO] post_lift)
      fix xs x d
      assume go: "go_index xs 0 = Inr x"
        and a: "?R rows d \<and> distinct (map ed_Id xs) \<and> list_all (assembled rows) xs \<and>
          ed_Id ` set xs = e_Id ` er_Endpoint ` set rows"
      have "x \<in> set xs" using go by (auto simp: go_index_def split: if_splits)
      with a have "assembled (joined_rows d (?es d)) x" by (auto simp: list_all_iff)
      from assembled_represents[OF this] have "represents d x \<and> ed_Id x \<in> e_Id ` set (?es d)" by auto
      with a show "P d \<and> represents d x \<and> ed_Id x = eid \<and>
          (\<exists>e\<in>set (t_endpoint d). e_Id e = eid \<and> e_OrgId e = org)"
        by auto
    qed
  qed
qed

lemma post_getCheckById:
  "post env P (getCheckById org cid)
     (\<lambda>c d. P d \<and> c \<in> set (t_check d) \<and> c_OrgId c = org \<and> c_Id c = cid)"
  unfolding getCheckById_def
proof (rule post_bind[where R = "\<lambda>r d. P d \<and> (\<forall>c. r = Some c \<longrightarrow> c \<in> set (t_check d) \<and> c_OrgId c = org \<and> c_Id c = cid)"])
  show "post env P (query (\<lambda>env d. List.find (\<lambda>c. c_OrgId c = org \<and> c_Id c = cid) (t_check d)))
      (\<lambda>r d. P d \<and> (\<forall>c. r = Some c \<longrightarrow> c \<in> set (t_check d) \<and> c_OrgId c = org \<and> c_Id c = cid))"
    by (rule post_query) (auto dest: find_Some_in)
qed (auto split: option.split intro: post_fail post_return)

lemma quiet_ToDTO [quiet_intros]: "quiet (ToDTO rows)"
  unfolding ToDTO_def fresh_check_def Let_def
  by (auto intro!: quiet_intros split: prod.split)

lemma quiet_getEndpointById [quiet_intros]: "quiet (getEndpointById org eid)"
  unfolding getEndpointById_def by (intro quiet_intros)

lemma quiet_getEndpoints [quiet_intros]: "quiet (getEndpoints q)"
  unfolding getEndpoints_def by (intro quiet_intros)

lemma quiet_getCheckById [quiet_intros]: "quiet (getCheckById org cid)"
  unfolding getCheckById_def by (auto intro!: quiet_intros split: option.split)

end
