(* ===== verification/EndpointStore.thy ===== *)
theory EndpointStore
  imports EndpointRead
begin

text \<open>
  The writers of \<open>pkg/services/sqlstore/endpoint.go\<close>: \<open>AddEndpoint\<close>, \<open>UpdateEndpoint\<close>,
  \<open>DeleteEndpoint\<close>, the checks below them and their route index, the state updates of the alert
  executor and the queries of the alert scheduler and of the probes. A pointer argument the Go
  function changes is a result here.
\<close>

section \<open>Statements\<close>

definition insert_endpoint :: "Endpoint \<Rightarrow> Endpoint op" where
  "insert_endpoint e = stmt (\<lambda>env d.
     let e' = e\<lparr>e_Id := new_id env (e_Id e) (map e_Id (t_endpoint d))\<rparr>;
         t = t_endpoint d @ [e']
     in checked (unique_on e_Id t \<and> unique_on (\<lambda>r. (e_OrgId r, e_Name r)) t)
          (e', d\<lparr>t_endpoint := t\<rparr>))"

definition insert_endpoint_tags :: "EndpointTag list \<Rightarrow> unit op" where
  "insert_endpoint_tags rows =
     insert_rows rows t_endpoint_tag t_endpoint_tag_update
       (unique_on (\<lambda>r. (et_EndpointId r, et_Tag r)))"

definition stored_check :: "env \<Rightarrow> Check \<Rightarrow> Check" where
  "stored_check env c = c\<lparr>c_Settings := column_settings (f64 env) (c_Settings c)\<rparr>"

definition check_keys_ok :: "Check list \<Rightarrow> bool" where
  "check_keys_ok t \<longleftrightarrow>
     unique_on c_Id t \<and> unique_on (\<lambda>r. (c_OrgId r, c_EndpointId r, c_Type r)) t"

definition insert_check :: "Check \<Rightarrow> Check op" where
  "insert_check c = stmt (\<lambda>env d.
     let c' = c\<lparr>c_Id := new_id env (c_Id c) (map c_Id (t_check d))\<rparr>;
         t = t_check d @ [stored_check env c']
     in checked (check_keys_ok t) (c', d\<lparr>t_check := t\<rparr>))"

definition insert_route_tags :: "RouteByTagIndex list \<Rightarrow> unit op" where
  "insert_route_tags rows =
     insert_rows rows t_route_tag t_route_tag_update (unique_on (\<lambda>r. (rt_CheckId r, rt_Tag r)))"

definition insert_route_ids :: "RouteByIdIndex list \<Rightarrow> unit op" where
  "insert_route_ids rows =
     insert_rows rows t_route_id t_route_id_update (unique_on (\<lambda>r. (ri_CheckId r, ri_ProbeId r)))"

definition update_endpoint_row :: "Endpoint \<Rightarrow> unit op" where
  "update_endpoint_row e = stmt (\<lambda>env d.
     let t = map (\<lambda>r. if e_Id r = e_Id e then upd_endpoint env e r else r) (t_endpoint d)
     in checked (unique_on e_Id t \<and> unique_on (\<lambda>r. (e_OrgId r, e_Name r)) t)
          ((), d\<lparr>t_endpoint := t\<rparr>))"

definition update_check_row :: "Check \<Rightarrow> unit op" where
  "update_check_row c = stmt (\<lambda>env d.
     let t = map (\<lambda>r. if c_Id r = c_Id c then stored_check env (upd_check env c r) else r) (t_check d)
     in checked (check_keys_ok t) ((), d\<lparr>t_check := t\<rparr>))"

section \<open>Checks and their routes\<close>

definition nil_route :: fault where
  "nil_route = Panic ''nil pointer dereference''"

definition unknown_route :: fault where
  "unknown_route = Error (ValidationError ''unknown route type'')"

definition route_of :: "Check \<Rightarrow> CheckRoute result" where
  "route_of c = (case c_Route c of None \<Rightarrow> Inl nil_route | Some r \<Rightarrow> Inr r)"

definition tag_index_rows :: "Check \<Rightarrow> string list \<Rightarrow> RouteByTagIndex list op" where
  "tag_index_rows c tags =
     map_each (\<lambda>tag. bindS time_Now (\<lambda>t. returnS
       \<lparr>rt_OrgId = c_OrgId c, rt_CheckId = c_Id c, rt_Tag = tag, rt_Created = t\<rparr>)) tags"

definition id_index_rows :: "Check \<Rightarrow> int list \<Rightarrow> RouteByIdIndex list op" where
  "id_index_rows c ids =
     map_each (\<lambda>pid. bindS time_Now (\<lambda>t. returnS
       \<lparr>ri_ProbeId = pid, ri_CheckId = c_Id c, ri_Created = t\<rparr>)) ids"

definition addCheckRoutes :: "Check \<Rightarrow> unit op" where
  "addCheckRoutes c =
     bindS (liftS (route_of c)) (\<lambda>r.
       if r_Type r = RouteByTags then
         bindS (liftS (config_tags r)) (\<lambda>tags. bindS (tag_index_rows c tags) insert_route_tags)
       else if r_Type r = RouteByIds then
         bindS (liftS (config_ids r)) (\<lambda>ids. bindS (id_index_rows c ids) insert_route_ids)
       else failS unknown_route)"

definition deleteCheckRoutes :: "Check \<Rightarrow> unit op" where
  "deleteCheckRoutes c =
     thenS (exec (\<lambda>env d. d\<lparr>t_route_id := filter (\<lambda>r. ri_CheckId r \<noteq> c_Id c) (t_route_id d)\<rparr>))
       (exec (\<lambda>env d. d\<lparr>t_route_tag := filter (\<lambda>r. rt_CheckId r \<noteq> c_Id c) (t_route_tag d)\<rparr>))"

definition addCheck :: "Check \<Rightarrow> Check op" where
  "addCheck c =
     bindS time_Now (\<lambda>t1. bindS time_Now (\<lambda>t2.
     bindS (liftS (go_rem (c_EndpointId c) (c_Frequency c))) (\<lambda>off.
     bindS time_Now (\<lambda>t3. bindS time_Now (\<lambda>t4.
     bindS (insert_check
         (c\<lparr>c_State := -1, c_StateCheck := t1, c_StateChange := t2, c_Offset := off,
            c_Created := t3, c_Updated := t4\<rparr>)) (\<lambda>c'.
     thenS (addCheckRoutes c') (returnS c')))))))"

definition deleteCheck :: "Check \<Rightarrow> unit op" where
  "deleteCheck c =
     thenS (exec (\<lambda>env d. d\<lparr>t_check := filter (\<lambda>r. c_Id r \<noteq> c_Id c) (t_check d)\<rparr>))
       (deleteCheckRoutes c)"

text \<open>
  The lists \<open>tagsToAdd\<close>/\<open>idsToAdd\<close> and \<open>tagsToDel\<close>/\<open>idsToDel\<close> of \<open>updateCheck\<close>, from the existing
  and the new values of the route.
\<close>

definition route_adds :: "'a list \<Rightarrow> 'a list \<Rightarrow> 'a list" where
  "route_adds old new = filter (\<lambda>x. x \<notin> set old) new"

definition route_dels :: "'a list \<Rightarrow> 'a list \<Rightarrow> 'a list" where
  "route_dels old new = filter (\<lambda>x. x \<notin> set new) (remdups old)"

definition sync_tag_routes :: "CheckRoute \<Rightarrow> CheckRoute \<Rightarrow> Check \<Rightarrow> unit op" where
  "sync_tag_routes er r c =
     bindS (liftS (config_tags er)) (\<lambda>old. bindS (liftS (config_tags r)) (\<lambda>new.
       thenS (for_each (\<lambda>tag. exec (\<lambda>env d.
           d\<lparr>t_route_tag := filter (\<lambda>x. \<not> (rt_CheckId x = c_Id c \<and> rt_Tag x = tag)) (t_route_tag d)\<rparr>))
         (route_dels old new))
       (if route_adds old new \<noteq> []
        then bindS (tag_index_rows c (route_adds old new)) insert_route_tags
        else returnS ())))"

definition sync_id_routes :: "CheckRoute \<Rightarrow> CheckRoute \<Rightarrow> Check \<Rightarrow> unit op" where
  "sync_id_routes er r c =
     bindS (liftS (config_ids er)) (\<lambda>old. bindS (liftS (config_ids r)) (\<lambda>new.
       thenS (for_each (\<lambda>pid. exec (\<lambda>env d.
           d\<lparr>t_route_id := filter (\<lambda>x. \<not> (ri_CheckId x = c_Id c \<and> ri_ProbeId x = pid)) (t_route_id d)\<rparr>))
         (route_dels old new))
       (if route_adds old new \<noteq> []
        then bindS (id_index_rows c (route_adds old new)) insert_route_ids
        else returnS ())))"

definition update_routes :: "Check \<Rightarrow> Check \<Rightarrow> unit op" where
  "update_routes existing c =
     bindS (liftS (route_of existing)) (\<lambda>er. bindS (liftS (route_of c)) (\<lambda>r.
       if r_Type er \<noteq> r_Type r then thenS (deleteCheckRoutes existing) (addCheckRoutes c)
       else if r_Type r = RouteByTags then sync_tag_routes er r c
       else if r_Type r = RouteByIds then sync_id_routes er r c
       else failS (Error (ValidationError ''400: unknown route type''))))"

definition updateCheck :: "Check \<Rightarrow> Check op" where
  "updateCheck c =
     bindS (getCheckById (c_OrgId c) (c_Id c)) (\<lambda>existing.
     bindS time_Now (\<lambda>t.
     bindS (liftS (go_rem (c_EndpointId c) (c_Frequency c))) (\<lambda>off.
     bindS (if \<not> c_Enabled c \<and> c_Enabled existing
            then bindS time_Now (\<lambda>t'. returnS
              (c\<lparr>c_Updated := t, c_Offset := off, c_StateChange := t', c_State := -1\<rparr>))
            else returnS (c\<lparr>c_Updated := t, c_Offset := off\<rparr>)) (\<lambda>c'.
     thenS (update_check_row c')
       (thenS (update_routes existing c') (returnS c'))))))"

section \<open>Adding an endpoint\<close>

definition endpoint_tag_rows :: "int \<Rightarrow> int \<Rightarrow> string list \<Rightarrow> EndpointTag list op" where
  "endpoint_tag_rows org eid tags =
     map_each (\<lambda>tag. bindS time_Now (\<lambda>t. returnS
       \<lparr>et_OrgId = org, et_EndpointId = eid, et_Tag = tag, et_Created = t\<rparr>)) tags"

definition addEndpoint :: "EndpointDTO \<Rightarrow> EndpointDTO op" where
  "addEndpoint e =
     bindS time_Now (\<lambda>t1. bindS time_Now (\<lambda>t2.
     bindS (insert_endpoint (Endpoint_UpdateSlug
         \<lparr>e_Id = 0, e_OrgId = ed_OrgId e, e_Name = ed_Name e, e_Slug = [], e_Created = t1,
          e_Updated = t2\<rparr>)) (\<lambda>ep.
     let e1 = e\<lparr>ed_Id := e_Id ep, ed_Created := e_Created ep, ed_Updated := e_Updated ep,
                ed_Slug := e_Slug ep\<rparr>
     in bindS (endpoint_tag_rows (ed_OrgId e1) (e_Id ep) (ed_Tags e1)) (\<lambda>rows.
        thenS (if rows \<noteq> [] then insert_endpoint_tags rows else returnS ())
        (bindS (map_each (\<lambda>c. addCheck (c\<lparr>c_OrgId := ed_OrgId e1, c_EndpointId := ed_Id e1\<rparr>))
            (ed_Checks e1)) (\<lambda>cs.
         let e2 = e1\<lparr>ed_Checks := cs\<rparr>
         in thenS (events_Publish (EndpointCreated (ed_Created e2) e2)) (returnS e2)))))))"

definition AddEndpoint :: "EndpointDTO \<Rightarrow> EndpointDTO op" where
  "AddEndpoint e = transact (addEndpoint e)"

section \<open>Updating an endpoint\<close>

text \<open>
  The tag bookkeeping of \<open>updateEndpoint\<close> and \<open>updateProbe\<close>: \<open>tagMap\<close> holds the existing tags and
  whether the request names them, \<open>tagsToAddMap\<close> the request's tags that are not in it.
\<close>

definition tag_maps :: "string list \<Rightarrow> string list \<Rightarrow> (string, bool) gomap \<times> (string, bool) gomap" where
  "tag_maps old new =
     fold (\<lambda>t (tm, am).
        (AList.update t True tm, if map_of tm t = None then AList.update t True am else am))
       new (fold (\<lambda>t tm. AList.update t False tm) old [], [])"

definition tags_to_delete :: "string list \<Rightarrow> string list \<Rightarrow> string list" where
  "tags_to_delete old new = [t. (t, seen) \<leftarrow> fst (tag_maps old new), \<not> seen]"

definition tags_to_add :: "string list \<Rightarrow> string list \<Rightarrow> string list" where
  "tags_to_add old new = map fst (snd (tag_maps old new))"

text \<open>What the loop over the request's checks decides for each of them.\<close>

datatype check_step =
    ToAdd Check
  | ToUpdate Check
  | Settled Check

fun step_check :: "check_step \<Rightarrow> Check" where
  "step_check (ToAdd c) = c"
| "step_check (ToUpdate c) = c"
| "step_check (Settled c) = c"

definition existing_check_error :: "CheckType \<Rightarrow> fault" where
  "existing_check_error ty =
     Error (ValidationError (''an existing '' @ ty @ '' check is already defined for this endpoint.''))"

fun sort_checks ::
  "(Check \<Rightarrow> json) \<Rightarrow> bool \<Rightarrow> (CheckType, Check) gomap \<Rightarrow> Check list \<Rightarrow> check_step list result" where
  "sort_checks enc slug_changed checkMap [] = Inr []"
| "sort_checks enc slug_changed checkMap (c # cs) =
     (case map_of checkMap (c_Type c) of
        None \<Rightarrow> bind_res (sort_checks enc slug_changed checkMap cs) (\<lambda>ss. Inr (ToAdd c # ss))
      | Some ec \<Rightarrow>
          if c_Id c = c_Id ec then
            bind_res (sort_checks enc slug_changed checkMap cs) (\<lambda>ss.
              Inr ((if enc ec \<noteq> enc c \<or> slug_changed
                    then ToUpdate (c\<lparr>c_Created := c_Created ec\<rparr>) else Settled c) # ss))
          else Inl (existing_check_error (c_Type c)))"

fun run_add :: "check_step \<Rightarrow> check_step op" where
  "run_add (ToAdd c) = bindS (addCheck c) (\<lambda>c'. returnS (Settled c'))"
| "run_add s = returnS s"

fun run_update :: "check_step \<Rightarrow> Check op" where
  "run_update (ToUpdate c) = updateCheck c"
| "run_update s = returnS (step_check s)"

definition type_map :: "Check list \<Rightarrow> (CheckType, Check) gomap" where
  "type_map cs = fold (\<lambda>c m. AList.update (c_Type c) c m) cs []"

definition update_tags :: "EndpointDTO \<Rightarrow> EndpointDTO \<Rightarrow> unit op" where
  "update_tags existing e =
     (let dels = tags_to_delete (ed_Tags existing) (ed_Tags e);
          adds = tags_to_add (ed_Tags existing) (ed_Tags e)
      in thenS
           (if dels \<noteq> [] then exec (\<lambda>env d. d\<lparr>t_endpoint_tag := filter (\<lambda>t. \<not>
                (et_EndpointId t = ed_Id e \<and> et_OrgId t = ed_OrgId e \<and> et_Tag t \<in> set dels))
                (t_endpoint_tag d)\<rparr>)
            else returnS ())
           (if adds \<noteq> [] then bindS (endpoint_tag_rows (ed_OrgId e) (ed_Id e) adds) insert_endpoint_tags
            else returnS ()))"

definition update_checks :: "EndpointDTO \<Rightarrow> bool \<Rightarrow> EndpointDTO \<Rightarrow> Check list op" where
  "update_checks existing slug_changed e =
     (let checkMap = type_map (ed_Checks existing);
          own = map (\<lambda>c. c\<lparr>c_EndpointId := ed_Id e, c_OrgId := ed_OrgId e\<rparr>) (ed_Checks e)
      in bindS (askS time_text) (\<lambda>ft.
         bindS (liftS (sort_checks (check_json ft) slug_changed checkMap own)) (\<lambda>steps.
         let gone = [ec. (ty, ec) \<leftarrow> checkMap, ty \<notin> c_Type ` set own]
         in thenS (for_each deleteCheck gone)
            (bindS (map_each run_add steps) (\<lambda>steps'. map_each run_update steps')))))"

definition updateEndpoint :: "EndpointDTO \<Rightarrow> EndpointDTO op" where
  "updateEndpoint e =
     bindS (getEndpointById (ed_OrgId e) (ed_Id e)) (\<lambda>existing.
     bindS time_Now (\<lambda>t.
     let ep = Endpoint_UpdateSlug
           \<lparr>e_Id = ed_Id e, e_OrgId = ed_OrgId e, e_Name = ed_Name e, e_Slug = [],
            e_Created = ed_Created existing, e_Updated = t\<rparr>
     in thenS (update_endpoint_row ep)
        (let e1 = e\<lparr>ed_Slug := e_Slug ep, ed_Updated := e_Updated ep\<rparr>
         in thenS (update_tags existing e1)
            (bindS (update_checks existing (ed_Slug existing \<noteq> e_Slug ep) e1) (\<lambda>cs.
             let e2 = e1\<lparr>ed_Checks := cs\<rparr>
             in thenS (events_Publish (EndpointUpdated (ed_Updated e2) existing e2)) (returnS e2))))))"

definition UpdateEndpoint :: "EndpointDTO \<Rightarrow> EndpointDTO op" where
  "UpdateEndpoint e = transact (updateEndpoint e)"

section \<open>Deleting an endpoint\<close>

definition deleteEndpoint :: "int \<Rightarrow> int \<Rightarrow> unit op" where
  "deleteEndpoint org eid =
     bindS (getEndpointById org eid) (\<lambda>existing.
     thenS (exec (\<lambda>env d. d\<lparr>t_endpoint :=
         filter (\<lambda>e. \<not> (e_Id e = eid \<and> e_OrgId e = org)) (t_endpoint d)\<rparr>))
     (thenS (exec (\<lambda>env d. d\<lparr>t_endpoint_tag :=
         filter (\<lambda>t. \<not> (et_EndpointId t = eid \<and> et_OrgId t = org)) (t_endpoint_tag d)\<rparr>))
     (thenS (for_each deleteCheck (ed_Checks existing))
     (bindS time_Now (\<lambda>t. events_Publish (EndpointDeleted t existing))))))"

definition DeleteEndpoint :: "int \<Rightarrow> int \<Rightarrow> unit op" where
  "DeleteEndpoint org eid = transact (deleteEndpoint org eid)"

section \<open>Sync plans\<close>

text \<open>
  Three pieces of the code turn the stored values of a relation and the requested ones into rows to
  delete and rows to add. The contract they share: the additions are the new values, the deletions
  the abandoned ones. Whoever applies such a plan to a stored set that agrees with the old values,
  up to values \<open>gone\<close> that other code removed, ends with the new values up to \<open>gone\<close>.
\<close>

locale sync_plan =
  fixes adds dels :: "'a list \<Rightarrow> 'a list \<Rightarrow> 'a list"
  assumes set_adds: "set (adds old new) = set new - set old"
    and set_dels: "set (dels old new) = set old - set new"
begin

lemma apply_plan:
  assumes "stored \<subseteq> set old" and "set old - gone \<subseteq> stored"
  shows "(stored - set (dels old new)) \<union> set (adds old new) \<subseteq> set new"
    and "set new - gone \<subseteq> (stored - set (dels old new)) \<union> set (adds old new)"
  using assms by (auto simp: set_adds set_dels)

lemma apply_plan_exact:
  "(set old - set (dels old new)) \<union> set (adds old new) = set new"
  using apply_plan[of "set old" old "{}" new] by auto

lemma idle: "set new = set old \<Longrightarrow> adds old new = [] \<and> dels old new = []"
  using set_adds[of old new] set_dels[of old new] by simp

end

interpretation route_plan: sync_plan route_adds route_dels
  by unfold_locales (auto simp: route_adds_def route_dels_def)

lemma map_of_fold_unseen:
  "map_of (fold (\<lambda>t tm. AList.update t False tm) old m) t =
     (if t \<in> set old then Some False else map_of m t)"
  by (induction old arbitrary: m) (auto simp: update_conv')

lemma distinct_fold_unseen:
  "distinct (map fst m) \<Longrightarrow> distinct (map fst (fold (\<lambda>t tm. AList.update t False tm) old m))"
  by (induction old arbitrary: m) (auto simp: distinct_update)

lemma tag_maps_inv:
  "distinct (map fst (fst (tag_maps old new))) \<and> distinct (map fst (snd (tag_maps old new))) \<and>
   (\<forall>t. map_of (fst (tag_maps old new)) t =
      (if t \<in> set new then Some True else if t \<in> set old then Some False else None)) \<and>
   fst ` set (snd (tag_maps old new)) = set new - set old"
proof (induction new rule: rev_induct)
  case Nil
  show ?case by (simp add: tag_maps_def map_of_fold_unseen distinct_fold_unseen)
next
  case (snoc t new)
  obtain tm am where tm: "tag_maps old new = (tm, am)" by fastforce
  have step: "tag_maps old (new @ [t]) =
      (AList.update t True tm, if map_of tm t = None then AList.update t True am else am)"
    using tm by (simp add: tag_maps_def)
  from snoc have IH: "distinct (map fst tm)" "distinct (map fst am)"
    "\<And>u. map_of tm u = (if u \<in> set new then Some True else if u \<in> set old then Some False else None)"
    "fst ` set am = set new - set old"
    by (simp_all add: tm)
  have keys: "fst ` set (AList.update t True am) = insert t (fst ` set am)"
    using dom_update[of t True am] by (simp add: dom_map_of_conv_image_fst[symmetric])
  show ?case
    unfolding step using IH keys
    by (auto simp: distinct_update update_conv')
qed

interpretation tag_plan: sync_plan tags_to_add tags_to_delete
proof unfold_locales
  fix old new
  note inv = tag_maps_inv[of old new]
  show "set (tags_to_add old new) = set new - set old"
    using inv by (simp add: tags_to_add_def)
  have "t \<in> set (tags_to_delete old new) \<longleftrightarrow> (t, False) \<in> set (fst (tag_maps old new))" for t
    by (force simp: tags_to_delete_def)
  then have "t \<in> set (tags_to_delete old new) \<longleftrightarrow> map_of (fst (tag_maps old new)) t = Some False" for t
    using inv by (metis map_of_eq_Some_iff)
  then show "set (tags_to_delete old new) = set old - set new"
    using inv by (auto split: if_splits)
qed

section \<open>The route index invariant\<close>

text \<open>
  The index must agree with the route of every check. \<open>gone\<close> are the probes that were deleted: their
  rows have left the index, while the routes that name them stay.
\<close>

definition tag_index :: "db \<Rightarrow> int \<Rightarrow> string set" where
  "tag_index d cid = rt_Tag ` {r \<in> set (t_route_tag d). rt_CheckId r = cid}"

definition id_index :: "db \<Rightarrow> int \<Rightarrow> int set" where
  "id_index d cid = ri_ProbeId ` {r \<in> set (t_route_id d). ri_CheckId r = cid}"

definition route_matches ::
  "int set \<Rightarrow> CheckRoute option \<Rightarrow> string set \<Rightarrow> int set \<Rightarrow> bool" where
  "route_matches gone ro ti ii \<longleftrightarrow>
     (\<exists>r. ro = Some r \<and>
        (r_Type r = RouteByTags \<and> (\<exists>ts. config_tags r = Inr ts \<and> ti = set ts) \<and> ii = {} \<or>
         r_Type r = RouteByIds \<and>
           (\<exists>is. config_ids r = Inr is \<and> ii \<subseteq> set is \<and> set is - gone \<subseteq> ii) \<and> ti = {}))"

text \<open>
  \<open>route_inv X gone own org d\<close>: unique keys, every check owned by a pair of \<open>own\<close> (endpoint id, org),
  every index row with a check of its org, every index in agreement with its route; the checks in
  \<open>X\<close>, which belong to \<open>org\<close>, are being worked on and exempt from the last two.
\<close>

definition check_ok ::
  "int set \<Rightarrow> int set \<Rightarrow> (int \<times> int) set \<Rightarrow> int \<Rightarrow> db \<Rightarrow> Check \<Rightarrow> bool" where
  "check_ok X gone own org d c \<longleftrightarrow>
     c_Id c \<noteq> 0 \<and> (c_EndpointId c, c_OrgId c) \<in> own \<and>
     (if c_Id c \<in> X then c_OrgId c = org
      else route_matches gone (c_Route c) (tag_index d (c_Id c)) (id_index d (c_Id c)))"

definition tag_row_ok :: "int set \<Rightarrow> int \<Rightarrow> Check list \<Rightarrow> RouteByTagIndex \<Rightarrow> bool" where
  "tag_row_ok X org cs r \<longleftrightarrow>
     (if rt_CheckId r \<in> X then rt_OrgId r = org
      else \<exists>c\<in>set cs. c_Id c = rt_CheckId r \<and> c_OrgId c = rt_OrgId r)"

definition id_row_ok :: "int set \<Rightarrow> Check list \<Rightarrow> RouteByIdIndex \<Rightarrow> bool" where
  "id_row_ok X cs r \<longleftrightarrow> ri_CheckId r \<in> X \<or> ri_CheckId r \<in> c_Id ` set cs"

definition route_inv ::
  "int set \<Rightarrow> int set \<Rightarrow> (int \<times> int) set \<Rightarrow> int \<Rightarrow> db \<Rightarrow> bool" where
  "route_inv X gone own org d \<longleftrightarrow>
     check_keys_ok (t_check d) \<and> (\<forall>c\<in>set (t_check d). check_ok X gone own org d c) \<and>
     (\<forall>r\<in>set (t_route_tag d). tag_row_ok X org (t_check d) r) \<and>
     (\<forall>r\<in>set (t_route_id d). id_row_ok X (t_check d) r)"

definition others :: "db \<Rightarrow> db" where
  "others d = d\<lparr>t_check := [], t_route_id := [], t_route_tag := []\<rparr>"

text \<open>What another organisation sees of the three tables.\<close>

definition org_ids :: "int \<Rightarrow> Check list \<Rightarrow> int set" where
  "org_ids k cs = c_Id ` {c \<in> set cs. c_OrgId c = k}"

definition check_view :: "int \<Rightarrow> db \<Rightarrow> Check list \<times> RouteByTagIndex list \<times> RouteByIdIndex list" where
  "check_view k d =
     (filter (\<lambda>c. c_OrgId c = k) (t_check d), filter (\<lambda>r. rt_OrgId r = k) (t_route_tag d),
      filter (\<lambda>r. ri_CheckId r \<in> org_ids k (t_check d)) (t_route_id d))"

definition sound ::
  "int set \<Rightarrow> int set \<Rightarrow> (int \<times> int) set \<Rightarrow> int \<Rightarrow> db \<Rightarrow> db \<Rightarrow> bool" where
  "sound X gone own org d0 d \<longleftrightarrow>
     route_inv X gone own org d \<and> others d = others d0 \<and>
     (\<forall>k. k \<noteq> org \<longrightarrow> check_view k d = check_view k d0)"

lemma others_simps [simp]:
  "others (d\<lparr>t_check := x\<rparr>) = others d" "others (d\<lparr>t_route_id := y\<rparr>) = others d"
  "others (d\<lparr>t_route_tag := z\<rparr>) = others d"
  by (cases d; simp add: others_def)+

lemma check_idD: "check_keys_ok t \<Longrightarrow> x \<in> set t \<Longrightarrow> y \<in> set t \<Longrightarrow> c_Id x = c_Id y \<Longrightarrow> x = y"
  by (meson check_keys_ok_def unique_onD)

lemma check_keys_filter: "check_keys_ok t \<Longrightarrow> check_keys_ok (filter P t)"
  by (simp add: check_keys_ok_def unique_on_filter)

lemma index_of_route_tag:
  "tag_index (d\<lparr>t_check := x\<rparr>) = tag_index d" "id_index (d\<lparr>t_check := x\<rparr>) = id_index d"
  "tag_index (d\<lparr>t_route_id := y\<rparr>) = tag_index d" "id_index (d\<lparr>t_route_tag := z\<rparr>) = id_index d"
  by (simp_all add: tag_index_def id_index_def fun_eq_iff)

lemma tag_index_append:
  "tag_index (d\<lparr>t_route_tag := t_route_tag d @ rows\<rparr>) cid =
     tag_index d cid \<union> rt_Tag ` {r \<in> set rows. rt_CheckId r = cid}"
  by (auto simp: tag_index_def)

lemma id_index_append:
  "id_index (d\<lparr>t_route_id := t_route_id d @ rows\<rparr>) cid =
     id_index d cid \<union> ri_ProbeId ` {r \<in> set rows. ri_CheckId r = cid}"
  by (auto simp: id_index_def)

subsection \<open>One statement at a time\<close>

lemma route_invI:
  "check_keys_ok (t_check d) \<Longrightarrow> (\<And>c. c \<in> set (t_check d) \<Longrightarrow> check_ok X gone own org d c) \<Longrightarrow>
   (\<And>r. r \<in> set (t_route_tag d) \<Longrightarrow> tag_row_ok X org (t_check d) r) \<Longrightarrow>
   (\<And>r. r \<in> set (t_route_id d) \<Longrightarrow> id_row_ok X (t_check d) r) \<Longrightarrow> route_inv X gone own org d"
  by (simp add: route_inv_def)

lemma route_invD:
  assumes "route_inv X gone own org d"
  shows "check_keys_ok (t_check d)" and "c \<in> set (t_check d) \<Longrightarrow> check_ok X gone own org d c"
    and "r \<in> set (t_route_tag d) \<Longrightarrow> tag_row_ok X org (t_check d) r"
    and "i \<in> set (t_route_id d) \<Longrightarrow> id_row_ok X (t_check d) i"
  using assms by (simp_all add: route_inv_def)

lemma soundI:
  "sound X gone own org d0 d \<Longrightarrow> route_inv Y gone' own' org d' \<Longrightarrow> others d' = others d \<Longrightarrow>
   (\<And>k. k \<noteq> org \<Longrightarrow> check_view k d' = check_view k d) \<Longrightarrow> sound Y gone' own' org d0 d'"
  by (simp add: sound_def)

lemma sound_inv: "sound X gone own org d0 d \<Longrightarrow> route_inv X gone own org d"
  by (simp add: sound_def)

lemma check_view_eq:
  assumes "filter (\<lambda>c. c_OrgId c = k) (t_check d') = filter (\<lambda>c. c_OrgId c = k) (t_check d)"
    and "filter (\<lambda>r. rt_OrgId r = k) (t_route_tag d') = filter (\<lambda>r. rt_OrgId r = k) (t_route_tag d)"
    and "filter (\<lambda>r. ri_CheckId r \<in> org_ids k (t_check d)) (t_route_id d')
       = filter (\<lambda>r. ri_CheckId r \<in> org_ids k (t_check d)) (t_route_id d)"
  shows "check_view k d' = check_view k d"
proof -
  have "org_ids k (t_check d') = org_ids k (t_check d)"
    unfolding org_ids_def using assms(1) by (metis set_filter)
  with assms show ?thesis by (simp add: check_view_def)
qed

lemma filter_keep: "(\<And>x. x \<in> set xs \<Longrightarrow> P x \<Longrightarrow> Q x) \<Longrightarrow> filter P (filter Q xs) = filter P xs"
  by (induction xs) auto

lemma filter_none: "(\<And>x. x \<in> set xs \<Longrightarrow> \<not> P x) \<Longrightarrow> filter P xs = []"
  by (induction xs) auto

lemma check_ok_other:
  "check_ok X gone own org d c \<Longrightarrow> c_Id c \<notin> Y \<Longrightarrow> c_Id c \<notin> X \<Longrightarrow>
   tag_index d' (c_Id c) = tag_index d (c_Id c) \<Longrightarrow> id_index d' (c_Id c) = id_index d (c_Id c) \<Longrightarrow>
   check_ok Y gone own org d' c"
  by (simp add: check_ok_def)

lemma check_ok_working:
  "check_ok {cid} gone own org d c \<Longrightarrow>
   (c_Id c \<noteq> cid \<Longrightarrow> tag_index d' (c_Id c) = tag_index d (c_Id c) \<and> id_index d' (c_Id c) = id_index d (c_Id c)) \<Longrightarrow>
   check_ok {cid} gone own org d' c"
  by (cases "c_Id c = cid") (auto simp: check_ok_def)

lemma sound_insert_check:
  assumes s: "sound {} gone own org d0 d" and keys: "check_keys_ok (t_check d @ [c])"
    and c: "c_Id c \<noteq> 0" "(c_EndpointId c, c_OrgId c) \<in> own" "c_OrgId c = org"
  shows "sound {c_Id c} gone own org d0 (d\<lparr>t_check := t_check d @ [c]\<rparr>)"
    and "tag_index (d\<lparr>t_check := t_check d @ [c]\<rparr>) (c_Id c) = {}"
    and "id_index (d\<lparr>t_check := t_check d @ [c]\<rparr>) (c_Id c) = {}"
proof -
  let ?d = "d\<lparr>t_check := t_check d @ [c]\<rparr>"
  have fresh: "c_Id c \<notin> c_Id ` set (t_check d)"
    using keys by (auto simp: check_keys_ok_def unique_on_append)
  note inv = route_invD[OF sound_inv[OF s]]
  have notag: "rt_CheckId r \<noteq> c_Id c" if "r \<in> set (t_route_tag d)" for r
  proof
    assume "rt_CheckId r = c_Id c"
    with inv(3)[OF that] obtain x where "x \<in> set (t_check d)" "c_Id x = c_Id c"
      by (auto simp: tag_row_ok_def)
    with fresh show False by (metis imageI)
  qed
  have noid: "ri_CheckId r \<noteq> c_Id c" if "r \<in> set (t_route_id d)" for r
    using inv(4)[OF that] fresh by (auto simp: id_row_ok_def)
  show "tag_index ?d (c_Id c) = {}" and "id_index ?d (c_Id c) = {}"
    using notag noid by (auto simp: tag_index_def id_index_def)
  show "sound {c_Id c} gone own org d0 ?d"
  proof (rule soundI[OF s])
    show "route_inv {c_Id c} gone own org ?d"
    proof (rule route_invI)
      show "check_keys_ok (t_check ?d)" using keys by simp
      show "check_ok {c_Id c} gone own org ?d x" if "x \<in> set (t_check ?d)" for x
      proof (cases "x = c")
        case True
        then show ?thesis using c by (simp add: check_ok_def)
      next
        case False
        then have x: "x \<in> set (t_check d)" using that by simp
        then have "c_Id x \<noteq> c_Id c" using fresh by (metis imageI)
        then show ?thesis
          by (intro check_ok_other[OF inv(2)[OF x]]) (simp_all add: index_of_route_tag)
      qed
      show "tag_row_ok {c_Id c} org (t_check ?d) r" if "r \<in> set (t_route_tag ?d)" for r
        using inv(3)[of r] notag[of r] that unfolding tag_row_ok_def by auto
      show "id_row_ok {c_Id c} (t_check ?d) r" if "r \<in> set (t_route_id ?d)" for r
        using inv(4)[of r] that by (auto simp: id_row_ok_def)
    qed
    show "check_view k ?d = check_view k d" if "k \<noteq> org" for k
      using c that by (intro check_view_eq) simp_all
  qed simp
qed

lemma sound_insert_route_tags:
  assumes s: "sound {cid} gone own org d0 d"
    and rows: "\<forall>r\<in>set rows. rt_CheckId r = cid \<and> rt_OrgId r = org"
  shows "sound {cid} gone own org d0 (d\<lparr>t_route_tag := t_route_tag d @ rows\<rparr>)"
proof (rule soundI[OF s])
  let ?d = "d\<lparr>t_route_tag := t_route_tag d @ rows\<rparr>"
  note inv = route_invD[OF sound_inv[OF s]]
  have ix: "tag_index ?d x = tag_index d x" if "x \<noteq> cid" for x
    using rows that by (auto simp: tag_index_append)
  show "route_inv {cid} gone own org ?d"
  proof (rule route_invI)
    show "check_ok {cid} gone own org ?d x" if "x \<in> set (t_check ?d)" for x
      by (rule check_ok_working[OF inv(2)]) (use that in \<open>simp_all add: index_of_route_tag ix\<close>)
    show "tag_row_ok {cid} org (t_check ?d) r" if "r \<in> set (t_route_tag ?d)" for r
      using inv(3)[of r] that rows by (auto simp: tag_row_ok_def)
  qed (use inv in simp_all)
  show "check_view k ?d = check_view k d" if "k \<noteq> org" for k
    using rows that by (intro check_view_eq) (auto intro: filter_none)
qed simp

lemma view_of_worked_check:
  assumes "route_inv {cid} gone own org d" "k \<noteq> org" shows "cid \<notin> org_ids k (t_check d)"
proof
  assume "cid \<in> org_ids k (t_check d)"
  then obtain c where "c \<in> set (t_check d)" "c_Id c = cid" "c_OrgId c = k" by (auto simp: org_ids_def)
  with route_invD(2)[OF assms(1), of c] assms(2) show False by (simp add: check_ok_def)
qed

lemma sound_insert_route_ids:
  assumes s: "sound {cid} gone own org d0 d" and rows: "\<forall>r\<in>set rows. ri_CheckId r = cid"
  shows "sound {cid} gone own org d0 (d\<lparr>t_route_id := t_route_id d @ rows\<rparr>)"
proof (rule soundI[OF s])
  let ?d = "d\<lparr>t_route_id := t_route_id d @ rows\<rparr>"
  note inv = route_invD[OF sound_inv[OF s]]
  have ix: "id_index ?d x = id_index d x" if "x \<noteq> cid" for x
    using rows that by (auto simp: id_index_append)
  show "route_inv {cid} gone own org ?d"
  proof (rule route_invI)
    show "check_ok {cid} gone own org ?d x" if "x \<in> set (t_check ?d)" for x
      by (rule check_ok_working[OF inv(2)]) (use that in \<open>simp_all add: index_of_route_tag ix\<close>)
    show "id_row_ok {cid} (t_check ?d) r" if "r \<in> set (t_route_id ?d)" for r
      using inv(4)[of r] that rows by (auto simp: id_row_ok_def)
  qed (use inv in simp_all)
  show "check_view k ?d = check_view k d" if "k \<noteq> org" for k
    using rows view_of_worked_check[OF sound_inv[OF s] that]
    by (intro check_view_eq) (auto intro: filter_none)
qed simp

text \<open>Deleting index rows of the check being worked on, all of them or those of one value.\<close>

lemma sound_delete_route_tags:
  assumes s: "sound {cid} gone own org d0 d"
  shows "sound {cid} gone own org d0
     (d\<lparr>t_route_tag := filter (\<lambda>r. \<not> (rt_CheckId r = cid \<and> P r)) (t_route_tag d)\<rparr>)"
proof (rule soundI[OF s])
  let ?d = "d\<lparr>t_route_tag := filter (\<lambda>r. \<not> (rt_CheckId r = cid \<and> P r)) (t_route_tag d)\<rparr>"
  note inv = route_invD[OF sound_inv[OF s]]
  have ix: "tag_index ?d x = tag_index d x" if "x \<noteq> cid" for x
    using that by (auto simp: tag_index_def)
  note ix = ix[simplified]
  show "route_inv {cid} gone own org ?d"
  proof (rule route_invI)
    show "check_ok {cid} gone own org ?d x" if "x \<in> set (t_check ?d)" for x
      by (rule check_ok_working[OF inv(2)]) (use that in \<open>simp_all add: index_of_route_tag ix\<close>)
  qed (use inv in auto)
  have org: "rt_OrgId r = org" if "r \<in> set (t_route_tag d)" "rt_CheckId r = cid" for r
    using inv(3)[OF that(1)] that(2) by (simp add: tag_row_ok_def)
  show "check_view k ?d = check_view k d" if "k \<noteq> org" for k
    using that org by (intro check_view_eq) (auto simp del: filter_filter intro!: filter_keep)
qed simp

lemma sound_delete_route_ids:
  assumes s: "sound {cid} gone own org d0 d"
  shows "sound {cid} gone own org d0
     (d\<lparr>t_route_id := filter (\<lambda>r. \<not> (ri_CheckId r = cid \<and> P r)) (t_route_id d)\<rparr>)"
proof (rule soundI[OF s])
  let ?d = "d\<lparr>t_route_id := filter (\<lambda>r. \<not> (ri_CheckId r = cid \<and> P r)) (t_route_id d)\<rparr>"
  note inv = route_invD[OF sound_inv[OF s]]
  have ix: "id_index ?d x = id_index d x" if "x \<noteq> cid" for x
    using that by (auto simp: id_index_def)
  note ix = ix[simplified]
  show "route_inv {cid} gone own org ?d"
  proof (rule route_invI)
    show "check_ok {cid} gone own org ?d x" if "x \<in> set (t_check ?d)" for x
      by (rule check_ok_working[OF inv(2)]) (use that in \<open>simp_all add: index_of_route_tag ix\<close>)
  qed (use inv in auto)
  show "check_view k ?d = check_view k d" if "k \<noteq> org" for k
    using view_of_worked_check[OF sound_inv[OF s] that]
    by (intro check_view_eq) (auto simp del: filter_filter intro!: filter_keep)
qed simp

lemma sound_delete_check:
  assumes s: "sound {} gone own org d0 d" and c: "c \<in> set (t_check d)" "c_Id c = cid" "c_OrgId c = org"
  shows "sound {cid} gone own org d0 (d\<lparr>t_check := filter (\<lambda>r. c_Id r \<noteq> cid) (t_check d)\<rparr>)"
proof (rule soundI[OF s])
  let ?d = "d\<lparr>t_check := filter (\<lambda>r. c_Id r \<noteq> cid) (t_check d)\<rparr>"
  note inv = route_invD[OF sound_inv[OF s]]
  have only: "x = c" if "x \<in> set (t_check d)" "c_Id x = cid" for x
    using check_idD[OF inv(1) that(1) c(1)] that(2) c(2) by simp
  show "route_inv {cid} gone own org ?d"
  proof (rule route_invI)
    show "check_keys_ok (t_check ?d)" using inv(1) by (simp add: check_keys_filter)
    show "check_ok {cid} gone own org ?d x" if "x \<in> set (t_check ?d)" for x
      by (rule check_ok_other[OF inv(2)]) (use that in \<open>simp_all add: index_of_route_tag\<close>)
    show "tag_row_ok {cid} org (t_check ?d) r" if "r \<in> set (t_route_tag ?d)" for r
    proof -
      from inv(3)[of r] that obtain x where x: "x \<in> set (t_check d)" "c_Id x = rt_CheckId r"
        "c_OrgId x = rt_OrgId r"
        by (auto simp: tag_row_ok_def)
      show ?thesis
      proof (cases "rt_CheckId r = cid")
        case True
        then have "x = c" using only[OF x(1)] x(2) by simp
        with True x(3) c(3) show ?thesis by (simp add: tag_row_ok_def)
      next
        case False
        with x show ?thesis unfolding tag_row_ok_def by auto
      qed
    qed
    show "id_row_ok {cid} (t_check ?d) r" if "r \<in> set (t_route_id ?d)" for r
      using inv(4)[of r] that unfolding id_row_ok_def by auto
  qed
  show "check_view k ?d = check_view k d" if "k \<noteq> org" for k
  proof -
    have "c_Id x \<noteq> cid" if "x \<in> set (t_check d)" "c_OrgId x = k" for x
      using only[OF that(1)] that(2) c(3) \<open>k \<noteq> org\<close> by metis
    then show ?thesis by (intro check_view_eq) (auto simp del: filter_filter intro!: filter_keep)
  qed
qed simp

text \<open>The work on a check is done when its index agrees with its route, or when nothing of it is left.\<close>

lemma sound_done:
  assumes s: "sound {cid} gone own org d0 d"
    and c: "c \<in> set (t_check d)" "c_Id c = cid"
    and m: "route_matches gone (c_Route c) (tag_index d cid) (id_index d cid)"
  shows "sound {} gone own org d0 d"
proof (rule soundI[OF s])
  note inv = route_invD[OF sound_inv[OF s]]
  show "route_inv {} gone own org d"
  proof (rule route_invI)
    show "check_ok {} gone own org d x" if "x \<in> set (t_check d)" for x
    proof (cases "c_Id x = cid")
      case True
      then have "x = c" using check_idD[OF inv(1) that c(1)] c(2) by simp
      with inv(2)[OF that] m c(2) show ?thesis by (auto simp: check_ok_def)
    next
      case False
      with inv(2)[OF that] show ?thesis by (simp add: check_ok_def)
    qed
    have c_org: "c_OrgId c = org" using inv(2)[OF c(1)] c(2) by (simp add: check_ok_def)
    show "tag_row_ok {} org (t_check d) r" if "r \<in> set (t_route_tag d)" for r
      using inv(3)[OF that] c c_org by (auto simp: tag_row_ok_def split: if_splits)
    show "id_row_ok {} (t_check d) r" if "r \<in> set (t_route_id d)" for r
      using inv(4)[OF that] c by (auto simp: id_row_ok_def)
  qed (rule inv(1))
qed simp_all

lemma sound_forgotten:
  assumes s: "sound {cid} gone own org d0 d" and "cid \<notin> c_Id ` set (t_check d)"
    and "tag_index d cid = {}" and "id_index d cid = {}"
  shows "sound {} gone own org d0 d"
proof (rule soundI[OF s])
  note inv = route_invD[OF sound_inv[OF s]]
  have none: "\<And>r. r \<in> set (t_route_tag d) \<Longrightarrow> rt_CheckId r \<noteq> cid"
    "\<And>r. r \<in> set (t_route_id d) \<Longrightarrow> ri_CheckId r \<noteq> cid"
    using assms(3,4) by (auto simp: tag_index_def id_index_def)
  show "route_inv {} gone own org d"
  proof (rule route_invI)
    show "check_ok {} gone own org d x" if "x \<in> set (t_check d)" for x
    proof -
      have "c_Id x \<noteq> cid" using assms(2) that by blast
      with inv(2)[OF that] show ?thesis by (simp add: check_ok_def)
    qed
    show "tag_row_ok {} org (t_check d) r" if "r \<in> set (t_route_tag d)" for r
      using inv(3)[OF that] none(1)[OF that] by (simp add: tag_row_ok_def)
    show "id_row_ok {} (t_check d) r" if "r \<in> set (t_route_id d)" for r
      using inv(4)[OF that] none(2)[OF that] by (simp add: id_row_ok_def)
  qed (rule inv(1))
qed simp_all

subsection \<open>The operations on a check\<close>

lemma new_id_nonzero: "orm_documented env \<Longrightarrow> new_id env i used \<noteq> 0"
  by (simp add: new_id_def orm_documented_def)

lemma stored_check_fields [simp]:
  "c_Id (stored_check env c) = c_Id c" "c_OrgId (stored_check env c) = c_OrgId c"
  "c_EndpointId (stored_check env c) = c_EndpointId c" "c_Route (stored_check env c) = c_Route c"
  "c_Type (stored_check env c) = c_Type c" "c_Frequency (stored_check env c) = c_Frequency c"
  "c_Enabled (stored_check env c) = c_Enabled c" "c_Offset (stored_check env c) = c_Offset c"
  "c_State (stored_check env c) = c_State c" "c_HealthSettings (stored_check env c) = c_HealthSettings c"
  by (simp_all add: stored_check_def)

text \<open>
  \<open>working gone own org d0 c d\<close>: the check \<open>c\<close> is stored with its route and is the only one whose
  index may disagree with it.
\<close>

definition working :: "int set \<Rightarrow> (int \<times> int) set \<Rightarrow> int \<Rightarrow> db \<Rightarrow> Check \<Rightarrow> db \<Rightarrow> bool" where
  "working gone own org d0 c d \<longleftrightarrow>
     sound {c_Id c} gone own org d0 d \<and> c_OrgId c = org \<and>
     (\<exists>x\<in>set (t_check d). c_Id x = c_Id c \<and> c_Route x = c_Route c)"

lemma working_done:
  assumes "working gone own org d0 c d"
    and "route_matches gone (c_Route c) (tag_index d (c_Id c)) (id_index d (c_Id c))"
  shows "sound {} gone own org d0 d"
  using assms sound_done unfolding working_def by metis

lemma working_insert_route_tags:
  "working gone own org d0 c d \<Longrightarrow> \<forall>r\<in>set rows. rt_CheckId r = c_Id c \<and> rt_OrgId r = c_OrgId c \<Longrightarrow>
   working gone own org d0 c (d\<lparr>t_route_tag := t_route_tag d @ rows\<rparr>)"
  unfolding working_def using sound_insert_route_tags by auto

lemma working_insert_route_ids:
  "working gone own org d0 c d \<Longrightarrow> \<forall>r\<in>set rows. ri_CheckId r = c_Id c \<Longrightarrow>
   working gone own org d0 c (d\<lparr>t_route_id := t_route_id d @ rows\<rparr>)"
  unfolding working_def using sound_insert_route_ids by auto

lemma working_delete_route_tags:
  "working gone own org d0 c d \<Longrightarrow> working gone own org d0 c
     (d\<lparr>t_route_tag := filter (\<lambda>r. \<not> (rt_CheckId r = c_Id c \<and> P r)) (t_route_tag d)\<rparr>)"
  unfolding working_def using sound_delete_route_tags by simp

lemma working_delete_route_ids:
  "working gone own org d0 c d \<Longrightarrow> working gone own org d0 c
     (d\<lparr>t_route_id := filter (\<lambda>r. \<not> (ri_CheckId r = c_Id c \<and> P r)) (t_route_id d)\<rparr>)"
  unfolding working_def using sound_delete_route_ids by simp

lemma post_insert_check:
  assumes "orm_documented env" and "(c_EndpointId c, c_OrgId c) \<in> own" and "c_OrgId c = org"
  shows "post env (sound {} gone own org d0) (insert_check c)
     (\<lambda>c' d. c' = c\<lparr>c_Id := c_Id c'\<rparr> \<and> working gone own org d0 c' d \<and>
        tag_index d (c_Id c') = {} \<and> id_index d (c_Id c') = {})"
  unfolding insert_check_def
proof (rule post_stmt)
  fix d :: db and c' d'
  let ?c = "c\<lparr>c_Id := new_id env (c_Id c) (map c_Id (t_check d))\<rparr>"
  assume s: "sound {} gone own org d0 d"
    and "(let c' = ?c; t = t_check d @ [stored_check env c']
          in checked (check_keys_ok t) (c', d\<lparr>t_check := t\<rparr>)) = Inr (c', d')"
  then have c': "c' = ?c" and d': "d' = d\<lparr>t_check := t_check d @ [stored_check env c']\<rparr>"
    and keys: "check_keys_ok (t_check d @ [stored_check env c'])"
    by (auto simp: Let_def)
  have "c_Id c' \<noteq> 0" unfolding c' using new_id_nonzero[OF assms(1)] by simp
  with sound_insert_check[OF s keys, unfolded stored_check_fields] assms(2,3)
  have "sound {c_Id c'} gone own org d0 d'" "tag_index d' (c_Id c') = {}" "id_index d' (c_Id c') = {}"
    unfolding d' by (auto simp: c')
  moreover have "\<exists>x\<in>set (t_check d'). c_Id x = c_Id c' \<and> c_Route x = c_Route c'"
    unfolding d' by simp
  ultimately show "c' = c\<lparr>c_Id := c_Id c'\<rparr> \<and> working gone own org d0 c' d' \<and>
      tag_index d' (c_Id c') = {} \<and> id_index d' (c_Id c') = {}"
    using assms(3) by (simp add: working_def c')
qed

lemma post_rows:
  assumes "\<And>x t. g (mk x t) = x" and "\<And>x t. ok (mk x t)"
  shows "post env P (map_each (\<lambda>x. bindS time_Now (\<lambda>t. returnS (mk x t))) xs)
     (\<lambda>rows d. P d \<and> map g rows = xs \<and> (\<forall>r\<in>set rows. ok r))"
proof -
  let ?I = "\<lambda>ys rows d. P d \<and> map g rows = ys \<and> (\<forall>r\<in>set rows. ok r)"
  have "post env (?I [] []) (map_each (\<lambda>x. bindS time_Now (\<lambda>t. returnS (mk x t))) xs) (\<lambda>rows. ?I xs rows)"
    by (rule post_map_each_done[where I = ?I], rule post_bind[OF post_now], rule post_return)
       (auto simp: assms)
  then show ?thesis by (rule post_pre) simp
qed

lemma post_tag_index_rows:
  "post env P (tag_index_rows c tags)
     (\<lambda>rows d. P d \<and> map rt_Tag rows = tags \<and>
        (\<forall>r\<in>set rows. rt_CheckId r = c_Id c \<and> rt_OrgId r = c_OrgId c))"
  unfolding tag_index_rows_def by (rule post_rows) simp_all

lemma post_id_index_rows:
  "post env P (id_index_rows c ids)
     (\<lambda>rows d. P d \<and> map ri_ProbeId rows = ids \<and> (\<forall>r\<in>set rows. ri_CheckId r = c_Id c))"
  unfolding id_index_rows_def by (rule post_rows) simp_all

lemma update_as_assignment:
  "t_route_tag_update f d = d\<lparr>t_route_tag := f (t_route_tag d)\<rparr>"
  "t_route_id_update g d = d\<lparr>t_route_id := g (t_route_id d)\<rparr>"
  "t_endpoint_tag_update h d = d\<lparr>t_endpoint_tag := h (t_endpoint_tag d)\<rparr>"
  by (cases d; simp)+

text \<open>Adding index rows: from the values \<open>S\<close> in the index to \<open>S\<close> and the new ones.\<close>

lemma post_add_tag_rows:
  "post env (\<lambda>d. working gone own org d0 c d \<and> tag_index d (c_Id c) = S \<and> id_index d (c_Id c) = T)
     (bindS (tag_index_rows c tags) insert_route_tags)
     (\<lambda>_ d. working gone own org d0 c d \<and> tag_index d (c_Id c) = S \<union> set tags \<and> id_index d (c_Id c) = T)"
proof (rule post_bind[OF post_tag_index_rows], unfold insert_route_tags_def, rule post_insert_rows)
  fix rows :: "RouteByTagIndex list" and d :: db
  assume a: "(working gone own org d0 c d \<and> tag_index d (c_Id c) = S \<and> id_index d (c_Id c) = T) \<and>
    map rt_Tag rows = tags \<and> (\<forall>r\<in>set rows. rt_CheckId r = c_Id c \<and> rt_OrgId r = c_OrgId c)"
  then have "rt_Tag ` {r \<in> set rows. rt_CheckId r = c_Id c} = set tags" by force
  with a show "working gone own org d0 c (t_route_tag_update (\<lambda>t. t @ rows) d) \<and>
      tag_index (t_route_tag_update (\<lambda>t. t @ rows) d) (c_Id c) = S \<union> set tags \<and>
      id_index (t_route_tag_update (\<lambda>t. t @ rows) d) (c_Id c) = T"
    unfolding update_as_assignment(1)[of "\<lambda>t. t @ rows"]
    using working_insert_route_tags by (simp add: tag_index_append index_of_route_tag)
qed auto

lemma post_add_id_rows:
  "post env (\<lambda>d. working gone own org d0 c d \<and> tag_index d (c_Id c) = S \<and> id_index d (c_Id c) = T)
     (bindS (id_index_rows c ids) insert_route_ids)
     (\<lambda>_ d. working gone own org d0 c d \<and> tag_index d (c_Id c) = S \<and> id_index d (c_Id c) = T \<union> set ids)"
proof (rule post_bind[OF post_id_index_rows], unfold insert_route_ids_def, rule post_insert_rows)
  fix rows :: "RouteByIdIndex list" and d :: db
  assume a: "(working gone own org d0 c d \<and> tag_index d (c_Id c) = S \<and> id_index d (c_Id c) = T) \<and>
    map ri_ProbeId rows = ids \<and> (\<forall>r\<in>set rows. ri_CheckId r = c_Id c)"
  then have "ri_ProbeId ` {r \<in> set rows. ri_CheckId r = c_Id c} = set ids" by force
  with a show "working gone own org d0 c (t_route_id_update (\<lambda>t. t @ rows) d) \<and>
      tag_index (t_route_id_update (\<lambda>t. t @ rows) d) (c_Id c) = S \<and>
      id_index (t_route_id_update (\<lambda>t. t @ rows) d) (c_Id c) = T \<union> set ids"
    unfolding update_as_assignment(2)[of "\<lambda>t. t @ rows"]
    using working_insert_route_ids by (simp add: id_index_append index_of_route_tag)
qed auto

lemma route_of_Inr [simp]: "route_of c = Inr r \<longleftrightarrow> c_Route c = Some r"
  by (auto simp: route_of_def split: option.splits)

lemma post_addCheckRoutes:
  "post env (\<lambda>d. working gone own org d0 c d \<and> tag_index d (c_Id c) = {} \<and> id_index d (c_Id c) = {})
     (addCheckRoutes c) (\<lambda>_. sound {} gone own org d0)"
proof -
  let ?P = "\<lambda>d. working gone own org d0 c d \<and> tag_index d (c_Id c) = {} \<and> id_index d (c_Id c) = {}"
  have tags: "post env ?P
      (bindS (liftS (config_tags r)) (\<lambda>tags. bindS (tag_index_rows c tags) insert_route_tags))
      (\<lambda>_. sound {} gone own org d0)"
    if r: "c_Route c = Some r" "r_Type r = RouteByTags" for r
  proof (rule post_bind[where R = "\<lambda>ts d. config_tags r = Inr ts \<and> ?P d"])
    show "post env (\<lambda>d. config_tags r = Inr ts \<and> ?P d)
        (bindS (tag_index_rows c ts) insert_route_tags) (\<lambda>_. sound {} gone own org d0)" for ts
      by (rule post_assume, rule post_weaken[OF post_add_tag_rows[of env gone own org d0 c "{}" "{}"]])
         (auto intro!: working_done simp: route_matches_def r)
  qed (rule post_lift, simp)
  have ids: "post env ?P
      (bindS (liftS (config_ids r)) (\<lambda>ids. bindS (id_index_rows c ids) insert_route_ids))
      (\<lambda>_. sound {} gone own org d0)"
    if r: "c_Route c = Some r" "r_Type r = RouteByIds" for r
  proof (rule post_bind[where R = "\<lambda>pids d. config_ids r = Inr pids \<and> ?P d"])
    show "post env (\<lambda>d. config_ids r = Inr pids \<and> ?P d)
        (bindS (id_index_rows c pids) insert_route_ids) (\<lambda>_. sound {} gone own org d0)" for pids
      by (rule post_assume, rule post_weaken[OF post_add_id_rows[of env gone own org d0 c "{}" "{}"]])
         (auto intro!: working_done simp: route_matches_def r)
  qed (rule post_lift, simp)
  show ?thesis
    unfolding addCheckRoutes_def
  proof (rule post_bind[where R = "\<lambda>r d. c_Route c = Some r \<and> ?P d"], rule post_lift, simp,
      rule post_assume, intro post_if post_fail)
  qed (use tags ids in auto)
qed

definition added :: "Check \<Rightarrow> Check \<Rightarrow> bool" where
  "added c c' \<longleftrightarrow>
     (\<exists>cid t1 t2 t3 t4 off. go_rem (c_EndpointId c) (c_Frequency c) = Inr off \<and>
        c' = c\<lparr>c_Id := cid, c_State := -1, c_StateCheck := t1, c_StateChange := t2, c_Offset := off,
                c_Created := t3, c_Updated := t4\<rparr>)"

lemma post_addCheck:
  assumes orm: "orm_documented env" and c: "(c_EndpointId c, c_OrgId c) \<in> own" "c_OrgId c = org"
  shows "post env (sound {} gone own org d0) (addCheck c)
     (\<lambda>c' d. added c c' \<and> sound {} gone own org d0 d)"
proof -
  let ?c = "\<lambda>t1 t2 off t3 t4. c\<lparr>c_State := -1, c_StateCheck := t1, c_StateChange := t2,
     c_Offset := off, c_Created := t3, c_Updated := t4\<rparr>"
  have ins: "post env (sound {} gone own org d0)
      (bindS (insert_check (?c t1 t2 off t3 t4)) (\<lambda>c'. thenS (addCheckRoutes c') (returnS c')))
      (\<lambda>c' d. added c c' \<and> sound {} gone own org d0 d)"
    if "go_rem (c_EndpointId c) (c_Frequency c) = Inr off" for t1 t2 off t3 t4
  proof (rule post_bind[OF post_insert_check[OF orm]])
    show "(c_EndpointId (?c t1 t2 off t3 t4), c_OrgId (?c t1 t2 off t3 t4)) \<in> own"
      "c_OrgId (?c t1 t2 off t3 t4) = org"
      using c by simp_all
    fix c'
    have "added c c'" if "c' = (?c t1 t2 off t3 t4)\<lparr>c_Id := c_Id c'\<rparr>"
    proof -
      have "c' = c\<lparr>c_Id := c_Id c', c_State := -1, c_StateCheck := t1, c_StateChange := t2,
          c_Offset := off, c_Created := t3, c_Updated := t4\<rparr>"
        by (rule trans[OF that]) (cases c, simp)
      with \<open>go_rem _ _ = _\<close> show ?thesis unfolding added_def by blast
    qed
    then show "post env
        (\<lambda>d. c' = (?c t1 t2 off t3 t4)\<lparr>c_Id := c_Id c'\<rparr> \<and> working gone own org d0 c' d \<and>
          tag_index d (c_Id c') = {} \<and> id_index d (c_Id c') = {})
        (thenS (addCheckRoutes c') (returnS c')) (\<lambda>c' d. added c c' \<and> sound {} gone own org d0 d)"
      by (intro post_assume post_then[OF post_addCheckRoutes] post_return) auto
  qed
  show ?thesis
    unfolding addCheck_def
  proof (intro post_bind[OF post_now])
    fix t1 t2
    show "post env (sound {} gone own org d0)
        (bindS (liftS (go_rem (c_EndpointId c) (c_Frequency c))) (\<lambda>off.
         bindS time_Now (\<lambda>t3. bindS time_Now (\<lambda>t4.
         bindS (insert_check (?c t1 t2 off t3 t4)) (\<lambda>c'. thenS (addCheckRoutes c') (returnS c'))))))
        (\<lambda>c' d. added c c' \<and> sound {} gone own org d0 d)"
    proof (rule post_bind[where R = "\<lambda>off d. go_rem (c_EndpointId c) (c_Frequency c) = Inr off \<and>
          sound {} gone own org d0 d"], rule post_lift, simp, rule post_assume)
    qed (intro post_bind[OF post_now] ins)
  qed
qed

lemma sound_delete_check_any:
  assumes s: "sound {} gone own org d0 d"
    and o: "\<And>x. x \<in> set (t_check d) \<Longrightarrow> c_Id x = cid \<Longrightarrow> c_OrgId x = org"
  shows "sound {cid} gone own org d0 (d\<lparr>t_check := filter (\<lambda>r. c_Id r \<noteq> cid) (t_check d)\<rparr>)"
proof (cases "\<exists>c\<in>set (t_check d). c_Id c = cid")
  case True
  then obtain c where c: "c \<in> set (t_check d)" "c_Id c = cid" by blast
  show ?thesis by (rule sound_delete_check[OF s c o[OF c]])
next
  case False
  then have id: "filter (\<lambda>r. c_Id r \<noteq> cid) (t_check d) = t_check d" by (auto simp: filter_id_conv)
  note inv = route_invD[OF sound_inv[OF s]]
  have "route_inv {cid} gone own org d"
  proof (rule route_invI)
    show "check_ok {cid} gone own org d x" if "x \<in> set (t_check d)" for x
      by (rule check_ok_other[OF inv(2)[OF that]]) (use False that in auto)
    show "tag_row_ok {cid} org (t_check d) r" if "r \<in> set (t_route_tag d)" for r
      using inv(3)[OF that] False by (auto simp: tag_row_ok_def)
    show "id_row_ok {cid} (t_check d) r" if "r \<in> set (t_route_id d)" for r
      using inv(4)[OF that] by (auto simp: id_row_ok_def)
  qed (rule inv(1))
  then show ?thesis unfolding id using s by (auto intro: soundI[OF s])
qed

lemma post_deleteCheckRoutes:
  "post env (\<lambda>d. sound {c_Id c} gone own org d0 d \<and> t_check d = T)
     (deleteCheckRoutes c)
     (\<lambda>_ d. sound {c_Id c} gone own org d0 d \<and> t_check d = T \<and>
        tag_index d (c_Id c) = {} \<and> id_index d (c_Id c) = {})"
  unfolding deleteCheckRoutes_def
proof (rule post_then[where R = "\<lambda>d. sound {c_Id c} gone own org d0 d \<and> t_check d = T \<and>
     id_index d (c_Id c) = {}"]; rule post_exec)
  fix d :: db
  assume "sound {c_Id c} gone own org d0 d \<and> t_check d = T"
  then show "sound {c_Id c} gone own org d0 (d\<lparr>t_route_id := filter (\<lambda>r. ri_CheckId r \<noteq> c_Id c) (t_route_id d)\<rparr>) \<and>
      t_check (d\<lparr>t_route_id := filter (\<lambda>r. ri_CheckId r \<noteq> c_Id c) (t_route_id d)\<rparr>) = T \<and>
      id_index (d\<lparr>t_route_id := filter (\<lambda>r. ri_CheckId r \<noteq> c_Id c) (t_route_id d)\<rparr>) (c_Id c) = {}"
    using sound_delete_route_ids[of "c_Id c" gone own org d0 d "\<lambda>_. True"] by (auto simp: id_index_def)
next
  fix d :: db
  assume "sound {c_Id c} gone own org d0 d \<and> t_check d = T \<and> id_index d (c_Id c) = {}"
  then show "sound {c_Id c} gone own org d0 (d\<lparr>t_route_tag := filter (\<lambda>r. rt_CheckId r \<noteq> c_Id c) (t_route_tag d)\<rparr>) \<and>
      t_check (d\<lparr>t_route_tag := filter (\<lambda>r. rt_CheckId r \<noteq> c_Id c) (t_route_tag d)\<rparr>) = T \<and>
      tag_index (d\<lparr>t_route_tag := filter (\<lambda>r. rt_CheckId r \<noteq> c_Id c) (t_route_tag d)\<rparr>) (c_Id c) = {} \<and>
      id_index (d\<lparr>t_route_tag := filter (\<lambda>r. rt_CheckId r \<noteq> c_Id c) (t_route_tag d)\<rparr>) (c_Id c) = {}"
    using sound_delete_route_tags[of "c_Id c" gone own org d0 d "\<lambda>_. True"]
    by (auto simp: tag_index_def index_of_route_tag)
qed

lemma post_deleteCheck:
  assumes "\<And>x. x \<in> set T \<Longrightarrow> c_Id x = c_Id c \<Longrightarrow> c_OrgId x = org"
  shows "post env (\<lambda>d. sound {} gone own org d0 d \<and> t_check d = T) (deleteCheck c)
     (\<lambda>_ d. sound {} gone own org d0 d \<and> t_check d = filter (\<lambda>r. c_Id r \<noteq> c_Id c) T)"
  unfolding deleteCheck_def
proof (rule post_then[where R = "\<lambda>d. sound {c_Id c} gone own org d0 d \<and>
     t_check d = filter (\<lambda>r. c_Id r \<noteq> c_Id c) T"], rule post_exec)
  fix d :: db
  assume "sound {} gone own org d0 d \<and> t_check d = T"
  with assms show "sound {c_Id c} gone own org d0 (d\<lparr>t_check := filter (\<lambda>r. c_Id r \<noteq> c_Id c) (t_check d)\<rparr>) \<and>
      t_check (d\<lparr>t_check := filter (\<lambda>r. c_Id r \<noteq> c_Id c) (t_check d)\<rparr>) = filter (\<lambda>r. c_Id r \<noteq> c_Id c) T"
    by (auto intro: sound_delete_check_any)
next
  show "post env (\<lambda>d. sound {c_Id c} gone own org d0 d \<and> t_check d = filter (\<lambda>r. c_Id r \<noteq> c_Id c) T)
      (deleteCheckRoutes c)
      (\<lambda>_ d. sound {} gone own org d0 d \<and> t_check d = filter (\<lambda>r. c_Id r \<noteq> c_Id c) T)"
    by (rule post_weaken[OF post_deleteCheckRoutes]) (auto intro!: sound_forgotten)
qed

lemma post_delete_checks:
  assumes "\<And>x c. x \<in> set T \<Longrightarrow> c \<in> set cs \<Longrightarrow> c_Id x = c_Id c \<Longrightarrow> c_OrgId x = org"
  shows "post env (\<lambda>d. sound {} gone own org d0 d \<and> t_check d = T) (for_each deleteCheck cs)
     (\<lambda>_ d. sound {} gone own org d0 d \<and> t_check d = filter (\<lambda>r. c_Id r \<notin> c_Id ` set cs) T)"
proof -
  let ?I = "\<lambda>(ys :: Check list) d. sound {} gone own org d0 d \<and>
     t_check d = filter (\<lambda>r. c_Id r \<notin> c_Id ` set ys) T"
  have "post env (?I []) (for_each deleteCheck cs) (\<lambda>_. ?I cs)"
  proof (rule post_for_each_done[where I = ?I])
    fix ys c zs
    assume "cs = ys @ c # zs"
    then have c: "c \<in> set cs" by simp
    show "post env (?I ys) (deleteCheck c) (\<lambda>_. ?I (ys @ [c]))"
      by (rule post_weaken[OF post_deleteCheck[where T = "filter (\<lambda>r. c_Id r \<notin> c_Id ` set ys) T"]])
         (use assms c in \<open>auto intro!: filter_cong\<close>)
  qed
  then show ?thesis by (rule post_pre) simp
qed

lemma sound_update_check:
  fixes d :: db
  assumes s: "sound {} gone own org d0 d"
    and ex: "existing \<in> set (t_check d)" "c_Id existing = cid" "c_OrgId existing = org"
    and row: "c_Id row = cid" "c_OrgId row = org" "(c_EndpointId row, org) \<in> own"
    and t: "t = map (\<lambda>r. if c_Id r = cid then row else r) (t_check d)" and keys: "check_keys_ok t"
  shows "sound {cid} gone own org d0 (d\<lparr>t_check := t\<rparr>)" and "row \<in> set t"
proof -
  note inv = route_invD[OF sound_inv[OF s]]
  have only: "x = existing" if "x \<in> set (t_check d)" "c_Id x = cid" for x
    using check_idD[OF inv(1) that(1) ex(1)] that(2) ex(2) by simp
  show "row \<in> set t" using ex t by force
  have "map c_Id t = map c_Id (t_check d)" using row(1) by (simp add: t)
  then have ids: "c_Id ` set t = c_Id ` set (t_check d)" by (metis set_map)
  show "sound {cid} gone own org d0 (d\<lparr>t_check := t\<rparr>)"
  proof (rule soundI[OF s])
    show "route_inv {cid} gone own org (d\<lparr>t_check := t\<rparr>)"
    proof (rule route_invI)
      show "check_keys_ok (t_check (d\<lparr>t_check := t\<rparr>))" using keys by simp
      show "check_ok {cid} gone own org (d\<lparr>t_check := t\<rparr>) x" if "x \<in> set (t_check (d\<lparr>t_check := t\<rparr>))" for x
      proof (cases "x = row")
        case True
        then show ?thesis using row inv(2)[OF ex(1)] ex(2) by (simp add: check_ok_def)
      next
        case False
        then have x: "x \<in> set (t_check d)" "c_Id x \<noteq> cid" using that unfolding t by (auto split: if_splits)
        show ?thesis by (rule check_ok_other[OF inv(2)[OF x(1)]]) (use x in \<open>simp_all add: index_of_route_tag\<close>)
      qed
      show "tag_row_ok {cid} org (t_check (d\<lparr>t_check := t\<rparr>)) r" if "r \<in> set (t_route_tag (d\<lparr>t_check := t\<rparr>))" for r
      proof -
        from inv(3)[of r] that obtain x where x: "x \<in> set (t_check d)" "c_Id x = rt_CheckId r"
          "c_OrgId x = rt_OrgId r"
          by (auto simp: tag_row_ok_def)
        show ?thesis
        proof (cases "rt_CheckId r = cid")
          case True
          then have "x = existing" using only[OF x(1)] x(2) by simp
          with True x(3) ex(3) show ?thesis by (simp add: tag_row_ok_def)
        next
          case False
          with x have "x \<in> set t" unfolding t by force
          with False x show ?thesis unfolding tag_row_ok_def by auto
        qed
      qed
      show "id_row_ok {cid} (t_check (d\<lparr>t_check := t\<rparr>)) r" if "r \<in> set (t_route_id (d\<lparr>t_check := t\<rparr>))" for r
        using inv(4)[of r] that ids unfolding id_row_ok_def by simp
    qed
    show "check_view k (d\<lparr>t_check := t\<rparr>) = check_view k d" if "k \<noteq> org" for k
    proof (rule check_view_eq)
      have e: "c_OrgId x = org" if "x \<in> set (t_check d)" "c_Id x = cid" for x
        using only[OF that] ex(3) by simp
      have "filter (\<lambda>c. c_OrgId c = k) (map (\<lambda>r. if c_Id r = cid then row else r) xs)
          = filter (\<lambda>c. c_OrgId c = k) xs" if "set xs \<subseteq> set (t_check d)" for xs
        using that row(2) \<open>k \<noteq> org\<close> by (induction xs) (auto dest: e)
      then show "filter (\<lambda>c. c_OrgId c = k) (t_check (d\<lparr>t_check := t\<rparr>)) = filter (\<lambda>c. c_OrgId c = k) (t_check d)"
        unfolding t by simp
    qed simp_all
  qed simp
qed

text \<open>The index of an existing check while its update is under way.\<close>

definition updating :: "int set \<Rightarrow> (int \<times> int) set \<Rightarrow> int \<Rightarrow> db \<Rightarrow> Check \<Rightarrow> Check \<Rightarrow> db \<Rightarrow> bool" where
  "updating gone own org d0 existing c d \<longleftrightarrow>
     c_Id existing = c_Id c \<and> (c_Route c \<noteq> None \<longrightarrow> working gone own org d0 c d) \<and>
     route_matches gone (c_Route existing) (tag_index d (c_Id c)) (id_index d (c_Id c))"

lemma post_update_check_row:
  assumes orm: "orm_documented env" and c: "c_OrgId c = org" "c_EndpointId c = 0 \<or> (c_EndpointId c, org) \<in> own"
    and ids: "c_Id existing = c_Id c" "c_OrgId existing = org"
  shows "post env (\<lambda>d. sound {} gone own org d0 d \<and> existing \<in> set (t_check d))
     (update_check_row c) (\<lambda>_. updating gone own org d0 existing c)"
  unfolding update_check_row_def
proof (rule post_stmt)
  fix d :: db and u :: unit and d'
  assume a: "sound {} gone own org d0 d \<and> existing \<in> set (t_check d)"
  then have s: "sound {} gone own org d0 d" and ex: "existing \<in> set (t_check d)" by auto
  let ?f = "\<lambda>r. if c_Id r = c_Id c then stored_check env (upd_check env c r) else r"
  assume "(let t = map ?f (t_check d) in checked (check_keys_ok t) ((), d\<lparr>t_check := t\<rparr>)) = Inr (u, d')"
  then have keys: "check_keys_ok (map ?f (t_check d))" and d': "d' = d\<lparr>t_check := map ?f (t_check d)\<rparr>"
    by (auto simp: Let_def)
  note inv = route_invD[OF sound_inv[OF s]]
  let ?row = "stored_check env (upd_check env c existing)"
  have only: "x = existing" if "x \<in> set (t_check d)" "c_Id x = c_Id c" for x
    using check_idD[OF inv(1) that(1) ex] that(2) ids(1) by simp
  have t: "map ?f (t_check d) = map (\<lambda>r. if c_Id r = c_Id c then ?row else r) (t_check d)"
    using only by (intro map_cong) auto
  have upd: "upd_check env = merge_check" using orm by (simp add: orm_documented_def)
  have own: "(c_EndpointId existing, org) \<in> own" using inv(2)[OF ex] ids by (auto simp: check_ok_def)
  have row: "c_Id ?row = c_Id c" "c_OrgId ?row = org" "(c_EndpointId ?row, org) \<in> own"
    "c_Route c \<noteq> None \<Longrightarrow> c_Route ?row = c_Route c"
    using c ids own by (auto simp: upd merge_check_def nz_def)
  note sound_update_check[OF s ex ids row(1-3) t keys]
  then have "sound {c_Id c} gone own org d0 d'" "?row \<in> set (t_check d')"
    unfolding d' by auto
  moreover have "route_matches gone (c_Route existing) (tag_index d' (c_Id c)) (id_index d' (c_Id c))"
    using inv(2)[OF ex] ids(1) unfolding d' by (simp add: check_ok_def index_of_route_tag)
  ultimately show "updating gone own org d0 existing c d'"
    unfolding updating_def working_def using ids row(1,4) c(1) by metis
qed

lemma tag_index_filter:
  "tag_index (d\<lparr>t_route_tag := filter (\<lambda>x. \<not> (rt_CheckId x = cid \<and> rt_Tag x = tag)) (t_route_tag d)\<rparr>) cid
     = tag_index d cid - {tag}"
  by (auto simp: tag_index_def)

lemma id_index_filter:
  "id_index (d\<lparr>t_route_id := filter (\<lambda>x. \<not> (ri_CheckId x = cid \<and> ri_ProbeId x = pid)) (t_route_id d)\<rparr>) cid
     = id_index d cid - {pid}"
  by (auto simp: id_index_def)

lemma post_del_tag:
  "post env (\<lambda>d. working gone own org d0 c d \<and> tag_index d (c_Id c) = S \<and> id_index d (c_Id c) = T)
     (exec (\<lambda>env d.
        d\<lparr>t_route_tag := filter (\<lambda>x. \<not> (rt_CheckId x = c_Id c \<and> rt_Tag x = tag)) (t_route_tag d)\<rparr>))
     (\<lambda>_ d. working gone own org d0 c d \<and> tag_index d (c_Id c) = S - {tag} \<and> id_index d (c_Id c) = T)"
  by (rule post_exec) (simp only: tag_index_filter index_of_route_tag working_delete_route_tags simp_thms)

lemma post_del_id:
  "post env (\<lambda>d. working gone own org d0 c d \<and> tag_index d (c_Id c) = S \<and> id_index d (c_Id c) = T)
     (exec (\<lambda>env d.
        d\<lparr>t_route_id := filter (\<lambda>x. \<not> (ri_CheckId x = c_Id c \<and> ri_ProbeId x = pid)) (t_route_id d)\<rparr>))
     (\<lambda>_ d. working gone own org d0 c d \<and> tag_index d (c_Id c) = S \<and> id_index d (c_Id c) = T - {pid})"
  by (rule post_exec) (simp only: id_index_filter index_of_route_tag working_delete_route_ids simp_thms)

lemma post_sync_tag_routes:
  assumes er: "r_Type er = RouteByTags" and r: "c_Route c = Some r" "r_Type r = RouteByTags"
  shows "post env (\<lambda>d. working gone own org d0 c d \<and>
        route_matches gone (Some er) (tag_index d (c_Id c)) (id_index d (c_Id c)))
     (sync_tag_routes er r c) (\<lambda>_. sound {} gone own org d0)"
  unfolding sync_tag_routes_def
proof (rule post_bind[where R = "\<lambda>old d. config_tags er = Inr old \<and>
     (working gone own org d0 c d \<and> tag_index d (c_Id c) = set old \<and> id_index d (c_Id c) = {})"])
  fix old
  let ?W = "\<lambda>S d. working gone own org d0 c d \<and> tag_index d (c_Id c) = S \<and> id_index d (c_Id c) = {}"
  show "post env (\<lambda>d. config_tags er = Inr old \<and> ?W (set old) d)
      (bindS (liftS (config_tags r)) (\<lambda>new.
       thenS (for_each (\<lambda>tag. exec (\<lambda>env d.
           d\<lparr>t_route_tag := filter (\<lambda>x. \<not> (rt_CheckId x = c_Id c \<and> rt_Tag x = tag)) (t_route_tag d)\<rparr>))
         (route_dels old new))
       (if route_adds old new \<noteq> []
        then bindS (tag_index_rows c (route_adds old new)) insert_route_tags
        else returnS ()))) (\<lambda>_. sound {} gone own org d0)"
  proof (rule post_assume, rule post_bind[where R = "\<lambda>new d. config_tags r = Inr new \<and> ?W (set old) d"],
      rule post_lift, simp, rule post_assume)
    fix new
    assume new: "config_tags r = Inr new"
    let ?S = "set old - set (route_dels old new)"
    let ?del = "\<lambda>tag. exec (\<lambda>env d.
           d\<lparr>t_route_tag := filter (\<lambda>x. \<not> (rt_CheckId x = c_Id c \<and> rt_Tag x = tag)) (t_route_tag d)\<rparr>)"
    have del: "post env (?W (set old)) (for_each ?del (route_dels old new)) (\<lambda>_. ?W ?S)"
    proof -
      let ?I = "\<lambda>ys :: string list. ?W (set old - set ys)"
      have "post env (?I []) (for_each ?del (route_dels old new)) (\<lambda>_. ?I (route_dels old new))"
      proof (rule post_for_each_done[where I = ?I])
        show "post env (?I ys) (?del x) (\<lambda>_. ?I (ys @ [x]))" for ys x
          by (rule post_weaken[OF post_del_tag[where S = "set old - set ys"]]) auto
      qed
      then show ?thesis by (rule post_pre) simp
    qed
    have fin: "sound {} gone own org d0 d" if "?W (set new) d" for d
      using that new r by (auto intro!: working_done simp: route_matches_def)
    have add: "post env (?W ?S)
        (if route_adds old new \<noteq> [] then bindS (tag_index_rows c (route_adds old new)) insert_route_tags
         else returnS ()) (\<lambda>_. sound {} gone own org d0)"
    proof (rule post_if)
      have "?S \<union> set (route_adds old new) = set new" by (rule route_plan.apply_plan_exact)
      then show "post env (?W ?S) (bindS (tag_index_rows c (route_adds old new)) insert_route_tags)
          (\<lambda>_. sound {} gone own org d0)"
        by (intro post_weaken[OF post_add_tag_rows[of env gone own org d0 c ?S "{}" "route_adds old new"]])
           (auto intro!: fin)
      assume "\<not> route_adds old new \<noteq> []"
      then have "?S = set new" using route_plan.apply_plan_exact[of old new] by simp
      then show "post env (?W ?S) (returnS ()) (\<lambda>_. sound {} gone own org d0)"
        by (intro post_return fin) simp
    qed
    show "post env (?W (set old))
        (thenS (for_each ?del (route_dels old new))
          (if route_adds old new \<noteq> [] then bindS (tag_index_rows c (route_adds old new)) insert_route_tags
           else returnS ())) (\<lambda>_. sound {} gone own org d0)"
      by (rule post_then[OF del add])
  qed
qed (rule post_lift, use er in \<open>auto simp: route_matches_def\<close>)

lemma post_ex: "(\<And>x. post env (P x) m Q) \<Longrightarrow> post env (\<lambda>d. \<exists>x. P x d) m Q"
  by (auto simp: post_def)

lemma post_sync_id_routes:
  assumes er: "r_Type er = RouteByIds" and r: "c_Route c = Some r" "r_Type r = RouteByIds"
  shows "post env (\<lambda>d. working gone own org d0 c d \<and>
        route_matches gone (Some er) (tag_index d (c_Id c)) (id_index d (c_Id c)))
     (sync_id_routes er r c) (\<lambda>_. sound {} gone own org d0)"
  unfolding sync_id_routes_def
proof (rule post_bind[where R = "\<lambda>old d. config_ids er = Inr old \<and>
     (\<exists>S. (S \<subseteq> set old \<and> set old - gone \<subseteq> S) \<and>
        (working gone own org d0 c d \<and> tag_index d (c_Id c) = {} \<and> id_index d (c_Id c) = S))"])
  fix old
  let ?W = "\<lambda>S d. working gone own org d0 c d \<and> tag_index d (c_Id c) = {} \<and> id_index d (c_Id c) = S"
  let ?del = "\<lambda>pid. exec (\<lambda>env d.
     d\<lparr>t_route_id := filter (\<lambda>x. \<not> (ri_CheckId x = c_Id c \<and> ri_ProbeId x = pid)) (t_route_id d)\<rparr>)"
  let ?add = "\<lambda>new. if route_adds old new \<noteq> []
     then bindS (id_index_rows c (route_adds old new)) insert_route_ids else returnS ()"
  show "post env (\<lambda>d. config_ids er = Inr old \<and> (\<exists>S. (S \<subseteq> set old \<and> set old - gone \<subseteq> S) \<and> ?W S d))
      (bindS (liftS (config_ids r)) (\<lambda>new. thenS (for_each ?del (route_dels old new)) (?add new)))
      (\<lambda>_. sound {} gone own org d0)"
  proof (rule post_assume, rule post_ex, rule post_assume,
      rule post_bind[where R = "\<lambda>new d. config_ids r = Inr new \<and> ?W _ d"],
      rule post_lift, simp, rule post_assume)
    fix S new
    assume S: "S \<subseteq> set old \<and> set old - gone \<subseteq> S" and new: "config_ids r = Inr new"
    let ?S = "S - set (route_dels old new)"
    note plan = route_plan.apply_plan[of S old gone new] S
    have del: "post env (?W S) (for_each ?del (route_dels old new)) (\<lambda>_. ?W ?S)"
    proof -
      let ?I = "\<lambda>ys :: int list. ?W (S - set ys)"
      have "post env (?I []) (for_each ?del (route_dels old new)) (\<lambda>_. ?I (route_dels old new))"
      proof (rule post_for_each_done[where I = ?I])
        show "post env (?I ys) (?del x) (\<lambda>_. ?I (ys @ [x]))" for ys x
          by (rule post_weaken[OF post_del_id[where T = "S - set ys"]]) auto
      qed
      then show ?thesis by (rule post_pre) simp
    qed
    have fin: "sound {} gone own org d0 d" if "?W T d" "T \<subseteq> set new" "set new - gone \<subseteq> T" for d T
      using that new r by (auto intro!: working_done simp: route_matches_def)
    have add: "post env (?W ?S) (?add new) (\<lambda>_. sound {} gone own org d0)"
    proof (rule post_if)
      show "post env (?W ?S) (bindS (id_index_rows c (route_adds old new)) insert_route_ids)
          (\<lambda>_. sound {} gone own org d0)"
        by (rule post_weaken[OF post_add_id_rows[of env gone own org d0 c "{}" ?S "route_adds old new"]])
           (use plan fin in blast)+
      assume "\<not> route_adds old new \<noteq> []"
      then have "?S \<union> set (route_adds old new) = ?S" by simp
      then show "post env (?W ?S) (returnS ()) (\<lambda>_. sound {} gone own org d0)"
        using plan by (intro post_return fin) auto
    qed
    show "post env (?W S) (thenS (for_each ?del (route_dels old new)) (?add new))
        (\<lambda>_. sound {} gone own org d0)"
      by (rule post_then[OF del add])
  qed
qed (rule post_lift, use er in \<open>auto simp: route_matches_def\<close>)

lemma post_update_routes:
  "post env (updating gone own org d0 existing c) (update_routes existing c)
     (\<lambda>_. sound {} gone own org d0)"
proof -
  let ?U = "updating gone own org d0 existing c"
  have body: "post env ?U
      (if r_Type er \<noteq> r_Type r then thenS (deleteCheckRoutes existing) (addCheckRoutes c)
       else if r_Type r = RouteByTags then sync_tag_routes er r c
       else if r_Type r = RouteByIds then sync_id_routes er r c
       else failS (Error (ValidationError ''400: unknown route type'')))
      (\<lambda>_. sound {} gone own org d0)"
    if er: "c_Route existing = Some er" and r: "c_Route c = Some r" for er r
  proof (intro post_if post_fail)
    assume "r_Type er \<noteq> r_Type r"
    show "post env ?U (thenS (deleteCheckRoutes existing) (addCheckRoutes c)) (\<lambda>_. sound {} gone own org d0)"
    proof (rule post_then[OF _ post_addCheckRoutes], unfold deleteCheckRoutes_def,
        rule post_then[where R = "\<lambda>d. c_Id existing = c_Id c \<and> working gone own org d0 c d \<and> id_index d (c_Id c) = {}"];
        rule post_exec)
      fix d :: db
      assume "?U d"
      then show "c_Id existing = c_Id c \<and>
          working gone own org d0 c (d\<lparr>t_route_id := filter (\<lambda>r. ri_CheckId r \<noteq> c_Id existing) (t_route_id d)\<rparr>) \<and>
          id_index (d\<lparr>t_route_id := filter (\<lambda>r. ri_CheckId r \<noteq> c_Id existing) (t_route_id d)\<rparr>) (c_Id c) = {}"
        using working_delete_route_ids[of gone own org d0 c d "\<lambda>_. True"] r
        by (simp add: updating_def) (simp add: id_index_def)
    next
      fix d :: db
      assume "c_Id existing = c_Id c \<and> working gone own org d0 c d \<and> id_index d (c_Id c) = {}"
      then show "working gone own org d0 c (d\<lparr>t_route_tag := filter (\<lambda>r. rt_CheckId r \<noteq> c_Id existing) (t_route_tag d)\<rparr>) \<and>
          tag_index (d\<lparr>t_route_tag := filter (\<lambda>r. rt_CheckId r \<noteq> c_Id existing) (t_route_tag d)\<rparr>) (c_Id c) = {} \<and>
          id_index (d\<lparr>t_route_tag := filter (\<lambda>r. rt_CheckId r \<noteq> c_Id existing) (t_route_tag d)\<rparr>) (c_Id c) = {}"
        using working_delete_route_tags[of gone own org d0 c d "\<lambda>_. True"]
        by (simp add: index_of_route_tag) (simp add: tag_index_def)
    qed
  next
    assume "\<not> r_Type er \<noteq> r_Type r" "r_Type r = RouteByTags"
    then show "post env ?U (sync_tag_routes er r c) (\<lambda>_. sound {} gone own org d0)"
      by (intro post_pre[OF post_sync_tag_routes[OF _ r]]) (simp_all add: updating_def er r)
  next
    assume "\<not> r_Type er \<noteq> r_Type r" "r_Type r = RouteByIds"
    then show "post env ?U (sync_id_routes er r c) (\<lambda>_. sound {} gone own org d0)"
      by (intro post_pre[OF post_sync_id_routes[OF _ r]]) (simp_all add: updating_def er r)
  qed
  show ?thesis
    unfolding update_routes_def
  proof (rule post_bind[where R = "\<lambda>er d. c_Route existing = Some er \<and> ?U d"], rule post_lift, simp,
      rule post_assume, rule post_bind[where R = "\<lambda>r d. c_Route c = Some r \<and> ?U d"], rule post_lift, simp,
      rule post_assume)
  qed (rule body)
qed

text \<open>What \<open>updateCheck\<close> changes in its argument.\<close>

definition touched :: "Check \<Rightarrow> Check \<Rightarrow> bool" where
  "touched c c' \<longleftrightarrow>
     (\<exists>t off. go_rem (c_EndpointId c) (c_Frequency c) = Inr off \<and>
        (c' = c\<lparr>c_Updated := t, c_Offset := off\<rparr> \<or>
         \<not> c_Enabled c \<and>
           (\<exists>t'. c' = c\<lparr>c_Updated := t, c_Offset := off, c_StateChange := t', c_State := -1\<rparr>)))"

lemma touched_fields:
  "touched c c' \<Longrightarrow> c_Id c' = c_Id c \<and> c_OrgId c' = c_OrgId c \<and> c_EndpointId c' = c_EndpointId c \<and>
     c_Route c' = c_Route c \<and> c_Type c' = c_Type c \<and> c_Frequency c' = c_Frequency c \<and>
     c_Enabled c' = c_Enabled c \<and> c_Settings c' = c_Settings c \<and> c_HealthSettings c' = c_HealthSettings c"
  by (auto simp: touched_def)

lemma post_updateCheck:
  assumes orm: "orm_documented env" and c: "c_OrgId c = org" "c_EndpointId c = 0 \<or> (c_EndpointId c, org) \<in> own"
  shows "post env (sound {} gone own org d0) (updateCheck c)
     (\<lambda>c' d. touched c c' \<and> sound {} gone own org d0 d)"
proof -
  let ?P = "\<lambda>existing d. sound {} gone own org d0 d \<and> existing \<in> set (t_check d)"
  have row: "post env (?P existing)
      (thenS (update_check_row c') (thenS (update_routes existing c') (returnS c')))
      (\<lambda>c' d. touched c c' \<and> sound {} gone own org d0 d)"
    if t: "touched c c'" and ids: "c_Id existing = c_Id c" "c_OrgId existing = org" for existing c'
  proof (rule post_then[OF post_update_check_row[OF orm]])
    note f = touched_fields[OF t]
    show "c_OrgId c' = org" "c_EndpointId c' = 0 \<or> (c_EndpointId c', org) \<in> own"
      "c_Id existing = c_Id c'" "c_OrgId existing = org"
      using f c ids by auto
    show "post env (updating gone own org d0 existing c') (thenS (update_routes existing c') (returnS c'))
        (\<lambda>c' d. touched c c' \<and> sound {} gone own org d0 d)"
      using t by (intro post_then[OF post_update_routes] post_return) simp
  qed
  show ?thesis
    unfolding updateCheck_def
  proof (rule post_bind[OF post_getCheckById])
    fix existing
    let ?E = "\<lambda>d. (c_Id existing = c_Id c \<and> c_OrgId existing = org) \<and> ?P existing d"
    have "post env ?E (bindS time_Now (\<lambda>t.
       bindS (liftS (go_rem (c_EndpointId c) (c_Frequency c))) (\<lambda>off.
       bindS (if \<not> c_Enabled c \<and> c_Enabled existing
            then bindS time_Now (\<lambda>t'. returnS
              (c\<lparr>c_Updated := t, c_Offset := off, c_StateChange := t', c_State := -1\<rparr>))
            else returnS (c\<lparr>c_Updated := t, c_Offset := off\<rparr>)) (\<lambda>c'.
       thenS (update_check_row c') (thenS (update_routes existing c') (returnS c'))))))
      (\<lambda>c' d. touched c c' \<and> sound {} gone own org d0 d)"
    proof (rule post_bind[OF post_now], rule post_bind)
      fix t
      show "post env ?E (liftS (go_rem (c_EndpointId c) (c_Frequency c)))
          (\<lambda>off d. go_rem (c_EndpointId c) (c_Frequency c) = Inr off \<and> ?E d)"
        by (rule post_lift) simp
      fix off
      show "post env (\<lambda>d. go_rem (c_EndpointId c) (c_Frequency c) = Inr off \<and> ?E d)
        (bindS (if \<not> c_Enabled c \<and> c_Enabled existing
            then bindS time_Now (\<lambda>t'. returnS
              (c\<lparr>c_Updated := t, c_Offset := off, c_StateChange := t', c_State := -1\<rparr>))
            else returnS (c\<lparr>c_Updated := t, c_Offset := off\<rparr>)) (\<lambda>c'.
         thenS (update_check_row c') (thenS (update_routes existing c') (returnS c'))))
        (\<lambda>c' d. touched c c' \<and> sound {} gone own org d0 d)"
      proof (rule post_assume, rule post_bind[where R = "\<lambda>c' d. touched c c' \<and> ?E d"])
        assume off: "go_rem (c_EndpointId c) (c_Frequency c) = Inr off"
        have 1: "touched c (c\<lparr>c_Updated := t, c_Offset := off\<rparr>)"
          using off unfolding touched_def by blast
        have 2: "touched c (c\<lparr>c_Updated := t, c_Offset := off, c_StateChange := t', c_State := -1\<rparr>)"
          if "\<not> c_Enabled c" for t'
          using off that unfolding touched_def by blast
        show "post env ?E (if \<not> c_Enabled c \<and> c_Enabled existing
            then bindS time_Now (\<lambda>t'. returnS
              (c\<lparr>c_Updated := t, c_Offset := off, c_StateChange := t', c_State := -1\<rparr>))
            else returnS (c\<lparr>c_Updated := t, c_Offset := off\<rparr>)) (\<lambda>c' d. touched c c' \<and> ?E d)"
        proof (rule post_if)
          assume "\<not> c_Enabled c \<and> c_Enabled existing"
          then show "post env ?E (bindS time_Now (\<lambda>t'. returnS
              (c\<lparr>c_Updated := t, c_Offset := off, c_StateChange := t', c_State := -1\<rparr>)))
              (\<lambda>c' d. touched c c' \<and> ?E d)"
            using 2 by (intro post_bind[OF post_now] post_return) blast
        qed (rule post_return, use 1 in blast)
        show "post env (\<lambda>d. touched c c' \<and> ?E d)
            (thenS (update_check_row c') (thenS (update_routes existing c') (returnS c')))
            (\<lambda>c' d. touched c c' \<and> sound {} gone own org d0 d)" for c'
          by (intro post_assume row) auto
      qed
    qed
    then show "post env (\<lambda>d. sound {} gone own org d0 d \<and> existing \<in> set (t_check d) \<and>
          c_OrgId existing = c_OrgId c \<and> c_Id existing = c_Id c)
        (bindS time_Now (\<lambda>t.
         bindS (liftS (go_rem (c_EndpointId c) (c_Frequency c))) (\<lambda>off.
         bindS (if \<not> c_Enabled c \<and> c_Enabled existing
            then bindS time_Now (\<lambda>t'. returnS
              (c\<lparr>c_Updated := t, c_Offset := off, c_StateChange := t', c_State := -1\<rparr>))
            else returnS (c\<lparr>c_Updated := t, c_Offset := off\<rparr>)) (\<lambda>c'.
         thenS (update_check_row c') (thenS (update_routes existing c') (returnS c'))))))
        (\<lambda>c' d. touched c c' \<and> sound {} gone own org d0 d)"
      by (rule post_pre) (use c in auto)
  qed
qed

end
