(* ===== verification/EndpointInv.thy ===== *)
theory EndpointInv
  imports EndpointStore
begin

text \<open>
  What the endpoint operations keep: the store invariant (unique keys, every check and tag owned by an
  endpoint of its organisation, the route index in agreement with every route), the rows of every other
  organisation, and all tables they do not concern. The properties of the component follow.
\<close>

section \<open>The invariant of the store\<close>

definition owners :: "db \<Rightarrow> (int \<times> int) set" where
  "owners d = (\<lambda>e. (e_Id e, e_OrgId e)) ` set (t_endpoint d)"

definition endpoints_ok :: "db \<Rightarrow> bool" where
  "endpoints_ok d \<longleftrightarrow>
     unique_on e_Id (t_endpoint d) \<and> unique_on (\<lambda>e. (e_OrgId e, e_Name e)) (t_endpoint d) \<and>
     (\<forall>e\<in>set (t_endpoint d). e_Id e \<noteq> 0) \<and>
     (\<forall>t\<in>set (t_endpoint_tag d). (et_EndpointId t, et_OrgId t) \<in> owners d)"

definition store_inv :: "int set \<Rightarrow> db \<Rightarrow> bool" where
  "store_inv gone d \<longleftrightarrow> endpoints_ok d \<and> route_inv {} gone (owners d) 0 d"

text \<open>What an organisation sees, and the tables of the other components.\<close>

definition org_view ::
  "int \<Rightarrow> db \<Rightarrow> Endpoint list \<times> EndpointTag list \<times>
     (Check list \<times> RouteByTagIndex list \<times> RouteByIdIndex list)" where
  "org_view k d =
     (filter (\<lambda>e. e_OrgId e = k) (t_endpoint d), filter (\<lambda>t. et_OrgId t = k) (t_endpoint_tag d),
      check_view k d)"

definition rest :: "db \<Rightarrow> db" where
  "rest d = (others d)\<lparr>t_endpoint := [], t_endpoint_tag := []\<rparr>"

definition kept :: "int set \<Rightarrow> int \<Rightarrow> db \<Rightarrow> db \<Rightarrow> bool" where
  "kept gone org d0 d \<longleftrightarrow>
     store_inv gone d \<and> (\<forall>k. k \<noteq> org \<longrightarrow> org_view k d = org_view k d0) \<and> rest d = rest d0"

lemma route_inv_org: "route_inv {} gone own org d \<Longrightarrow> route_inv {} gone own org' d"
  by (simp add: route_inv_def check_ok_def tag_row_ok_def)

lemma others_fields:
  "others d = others d' \<Longrightarrow> t_endpoint d = t_endpoint d' \<and> t_endpoint_tag d = t_endpoint_tag d'"
  by (cases d; cases d'; simp add: others_def)

lemma route_inv_tables:
  "t_check d = t_check d' \<Longrightarrow> t_route_tag d = t_route_tag d' \<Longrightarrow> t_route_id d = t_route_id d' \<Longrightarrow>
   route_inv X gone own org d = route_inv X gone own org d'"
  by (simp add: route_inv_def check_ok_def tag_index_def id_index_def)

lemma check_view_tables:
  "t_check d = t_check d' \<Longrightarrow> t_route_tag d = t_route_tag d' \<Longrightarrow> t_route_id d = t_route_id d' \<Longrightarrow>
   check_view k d = check_view k d'"
  by (simp add: check_view_def)


lemma sound_start: "store_inv gone d \<Longrightarrow> sound {} gone (owners d) org d d"
  by (simp add: store_inv_def sound_def route_inv_org[of gone "owners d" 0 d org])

lemma sound_kept:
  assumes "kept gone org d0 d1" and "sound {} gone (owners d1) org d1 d"
  shows "kept gone org d0 d"
proof -
  have f: "t_endpoint d = t_endpoint d1" "t_endpoint_tag d = t_endpoint_tag d1"
    using assms(2) others_fields[of d d1] unfolding sound_def by blast+
  have "owners d = owners d1" by (simp add: owners_def f)
  then have "store_inv gone d"
    using assms route_inv_org[of gone "owners d1" org d 0] f
    by (simp add: kept_def store_inv_def sound_def endpoints_ok_def)
  moreover have "org_view k d = org_view k d0" if "k \<noteq> org" for k
    using assms that f by (simp add: kept_def sound_def org_view_def)
  moreover have "rest d = rest d0"
    using assms by (simp add: kept_def sound_def rest_def)
  ultimately show ?thesis by (simp add: kept_def)
qed

lemma kept_refl: "store_inv gone d \<Longrightarrow> kept gone org d d"
  by (simp add: kept_def)

lemma post_fix: "(\<And>d0. P d0 \<Longrightarrow> post env ((=) d0) m Q) \<Longrightarrow> post env P m Q"
  by (auto simp: post_def)

lemma post_conj:
  "post env P m Q \<Longrightarrow> post env P' m Q' \<Longrightarrow>
   post env (\<lambda>d. P d \<and> P' d) m (\<lambda>x d. Q x d \<and> Q' x d)"
  by (auto simp: post_def)

section \<open>Statements on the endpoint tables\<close>

lemma kept_insert_endpoint:
  assumes inv: "store_inv gone d" and e: "e_Id e \<noteq> 0" "e_OrgId e = org"
    and u: "unique_on e_Id (t_endpoint d @ [e])"
      "unique_on (\<lambda>r. (e_OrgId r, e_Name r)) (t_endpoint d @ [e])"
  shows "kept gone org d (d\<lparr>t_endpoint := t_endpoint d @ [e]\<rparr>)"
proof -
  let ?d = "d\<lparr>t_endpoint := t_endpoint d @ [e]\<rparr>"
  have own: "owners d \<subseteq> owners ?d" by (auto simp: owners_def)
  have "endpoints_ok ?d"
    using inv e u own by (auto simp: store_inv_def endpoints_ok_def)
  moreover have "route_inv {} gone (owners ?d) 0 ?d"
  proof -
    have "route_inv {} gone (owners ?d) 0 d"
      using inv own by (auto simp: store_inv_def route_inv_def check_ok_def)
    then show ?thesis by (subst route_inv_tables[of _ d]) simp_all
  qed
  moreover have "org_view k ?d = org_view k d" if "k \<noteq> org" for k
    using that e check_view_tables[of ?d d k] by (simp add: org_view_def)
  ultimately show ?thesis
    by (simp add: kept_def store_inv_def) (cases d, simp add: rest_def others_def)
qed

lemma kept_trans: "kept gone org d0 d1 \<Longrightarrow> kept gone org d1 d2 \<Longrightarrow> kept gone org d0 d2"
  by (simp add: kept_def)

lemma kept_tags:
  assumes inv: "store_inv gone d"
    and t: "\<And>x. x \<in> set t \<Longrightarrow> (et_EndpointId x, et_OrgId x) \<in> owners d"
    and k: "\<And>k. k \<noteq> org \<Longrightarrow> filter (\<lambda>x. et_OrgId x = k) t = filter (\<lambda>x. et_OrgId x = k) (t_endpoint_tag d)"
  shows "kept gone org d (d\<lparr>t_endpoint_tag := t\<rparr>)"
proof -
  let ?d = "d\<lparr>t_endpoint_tag := t\<rparr>"
  have own: "owners ?d = owners d" by (simp add: owners_def)
  have "endpoints_ok ?d" using inv t by (simp add: store_inv_def endpoints_ok_def own)
  moreover have "route_inv {} gone (owners ?d) 0 ?d"
    unfolding own using inv by (subst route_inv_tables[of _ d]) (simp_all add: store_inv_def)
  moreover have "org_view k ?d = org_view k d" if "k \<noteq> org" for k
    using k[OF that] check_view_tables[of ?d d k] by (simp add: org_view_def)
  ultimately show ?thesis
    by (simp add: kept_def store_inv_def) (cases d, simp add: rest_def others_def)
qed

lemma kept_update_endpoint:
  assumes inv: "store_inv gone d"
    and e: "e0 \<in> set (t_endpoint d)" "e_Id e0 = eid" "e_OrgId e0 = org"
    and row: "e_Id row = eid" "e_OrgId row = org"
    and t: "t = map (\<lambda>r. if e_Id r = eid then row else r) (t_endpoint d)"
    and u: "unique_on e_Id t" "unique_on (\<lambda>r. (e_OrgId r, e_Name r)) t"
  shows "kept gone org d (d\<lparr>t_endpoint := t\<rparr>)"
proof -
  let ?d = "d\<lparr>t_endpoint := t\<rparr>"
  have only: "x = e0" if "x \<in> set (t_endpoint d)" "e_Id x = eid" for x
  proof (rule unique_onD[OF _ that(1) e(1)])
    show "unique_on e_Id (t_endpoint d)" using inv by (simp add: store_inv_def endpoints_ok_def)
  qed (simp add: that(2) e(2))
  have pair: "(e_Id (if e_Id x = eid then row else x), e_OrgId (if e_Id x = eid then row else x)) = (e_Id x, e_OrgId x)"
    if "x \<in> set (t_endpoint d)" for x
    using only[OF that] e row by auto
  have "owners ?d = (\<lambda>e. (e_Id e, e_OrgId e)) ` set t" by (simp add: owners_def)
  also have "\<dots> = (\<lambda>x. (e_Id (if e_Id x = eid then row else x), e_OrgId (if e_Id x = eid then row else x)))
      ` set (t_endpoint d)"
    unfolding t set_map image_image ..
  also have "\<dots> = owners d" unfolding owners_def by (rule image_cong[OF refl pair])
  finally have own: "owners ?d = owners d" .
  have "e_Id x \<noteq> 0" if "x \<in> set t" for x
  proof -
    from that obtain y where y: "y \<in> set (t_endpoint d)" "x = (if e_Id y = eid then row else y)"
      by (auto simp: t)
    have "e_Id x = e_Id y" using pair[OF y(1)] y(2) by simp
    with inv y(1) show ?thesis by (simp add: store_inv_def endpoints_ok_def)
  qed
  then have "endpoints_ok ?d" using inv u by (simp add: store_inv_def endpoints_ok_def own)
  moreover have "route_inv {} gone (owners ?d) 0 ?d"
    unfolding own using inv by (subst route_inv_tables[of _ d]) (simp_all add: store_inv_def)
  moreover have "org_view k ?d = org_view k d" if "k \<noteq> org" for k
  proof -
    have same: "e_OrgId x \<noteq> k" if "x \<in> set (t_endpoint d)" "e_Id x = eid" for x
      using only[OF that] e \<open>k \<noteq> org\<close> by simp
    have "filter (\<lambda>x. e_OrgId x = k) (map (\<lambda>r. if e_Id r = eid then row else r) xs) = filter (\<lambda>x. e_OrgId x = k) xs"
      if "set xs \<subseteq> set (t_endpoint d)" for xs
      using that row(2) \<open>k \<noteq> org\<close> by (induction xs) (auto dest: same)
    then show ?thesis using check_view_tables[of ?d d k] by (simp add: org_view_def t)
  qed
  ultimately show ?thesis
    by (simp add: kept_def store_inv_def) (cases d, simp add: rest_def others_def)
qed

section \<open>Adding\<close>

lemma post_addCheckRoutes_checks:
  "post env (\<lambda>d. t_check d = T) (addCheckRoutes c) (\<lambda>_ d. t_check d = T)"
proof -
  let ?P = "\<lambda>d :: db. t_check d = T"
  have tags: "post env ?P (bindS (tag_index_rows c ts) insert_route_tags) (\<lambda>_. ?P)" for ts
    unfolding insert_route_tags_def
    by (rule post_bind[OF post_tag_index_rows], rule post_insert_rows) auto
  have ids: "post env ?P (bindS (id_index_rows c ps) insert_route_ids) (\<lambda>_. ?P)" for ps
    unfolding insert_route_ids_def
    by (rule post_bind[OF post_id_index_rows], rule post_insert_rows) auto
  show ?thesis
    unfolding addCheckRoutes_def
    by (rule post_bind[where R = "\<lambda>_. ?P"], rule post_lift, simp,
        intro post_if post_fail post_bind[where R = "\<lambda>_. ?P"] tags[unfolded bindS_def] tags ids)
       (auto intro: post_lift tags ids)
qed

lemma post_addCheck_checks:
  "post env (\<lambda>d. t_check d = T) (addCheck c) (\<lambda>c' d. t_check d = T @ [stored_check env c'])"
  unfolding addCheck_def
proof (intro post_bind[OF post_now])
  fix t1 t2
  let ?P = "\<lambda>d :: db. t_check d = T"
  have ins: "post env ?P (insert_check c1) (\<lambda>c' d. t_check d = T @ [stored_check env c'])" for c1
    unfolding insert_check_def by (rule post_stmt) (auto simp: Let_def)
  show "post env ?P (bindS (liftS (go_rem (c_EndpointId c) (c_Frequency c))) (\<lambda>off.
     bindS time_Now (\<lambda>t3. bindS time_Now (\<lambda>t4.
     bindS (insert_check
         (c\<lparr>c_State := -1, c_StateCheck := t1, c_StateChange := t2, c_Offset := off,
            c_Created := t3, c_Updated := t4\<rparr>)) (\<lambda>c'.
     thenS (addCheckRoutes c') (returnS c')))))) (\<lambda>c' d. t_check d = T @ [stored_check env c'])"
    by (rule post_bind[where R = "\<lambda>_. ?P"], rule post_lift, simp,
        intro post_bind[OF post_now] post_bind[OF ins] post_then[OF post_addCheckRoutes_checks] post_return)
qed

lemma post_add_checks:
  assumes orm: "orm_documented env" and g: "\<And>c. (c_EndpointId (g c), c_OrgId (g c)) \<in> own \<and> c_OrgId (g c) = org"
  shows "post env (\<lambda>d. sound {} gone own org d0 d \<and> t_check d = T) (map_each (\<lambda>c. addCheck (g c)) cs)
     (\<lambda>rs d. list_all2 (\<lambda>c r. added (g c) r) cs rs \<and> sound {} gone own org d0 d \<and>
        t_check d = T @ map (stored_check env) rs)"
proof -
  let ?I = "\<lambda>ys rs d. list_all2 (\<lambda>c r. added (g c) r) ys rs \<and> sound {} gone own org d0 d \<and>
     t_check d = T @ map (stored_check env) rs"
  have "post env (?I [] []) (map_each (\<lambda>c. addCheck (g c)) cs) (\<lambda>rs. ?I cs rs)"
  proof (rule post_map_each_done[where I = ?I])
    fix ys c zs rs
    show "post env (?I ys rs) (addCheck (g c)) (\<lambda>r. ?I (ys @ [c]) (rs @ [r]))"
      using g[of c]
      by (intro post_assume post_weaken[OF post_conj[OF
            post_addCheck[OF orm, of "g c" own org gone d0]
            post_addCheck_checks[where T = "T @ map (stored_check env) rs"]]])
         (auto intro!: list_all2_appendI)
  qed
  then show ?thesis by (rule post_pre) simp
qed

lemma post_insert_endpoint:
  assumes orm: "orm_documented env" and inv: "store_inv gone d0" and org: "e_OrgId e = org"
  shows "post env ((=) d0) (insert_endpoint e)
     (\<lambda>e' d. e' = e\<lparr>e_Id := e_Id e'\<rparr> \<and> e_Id e' \<notin> e_Id ` set (t_endpoint d0) \<and>
        d = d0\<lparr>t_endpoint := t_endpoint d0 @ [e']\<rparr> \<and> kept gone org d0 d)"
  unfolding insert_endpoint_def
proof (rule post_stmt)
  fix d :: db and e' d'
  let ?e = "e\<lparr>e_Id := new_id env (e_Id e) (map e_Id (t_endpoint d))\<rparr>"
  assume d: "d0 = d" and "(let e' = ?e; t = t_endpoint d @ [e']
     in checked (unique_on e_Id t \<and> unique_on (\<lambda>r. (e_OrgId r, e_Name r)) t) (e', d\<lparr>t_endpoint := t\<rparr>)) = Inr (e', d')"
  then have e': "e' = ?e" and d': "d' = d\<lparr>t_endpoint := t_endpoint d @ [e']\<rparr>"
    and u: "unique_on e_Id (t_endpoint d @ [e'])" "unique_on (\<lambda>r. (e_OrgId r, e_Name r)) (t_endpoint d @ [e'])"
    by (auto simp: Let_def)
  have "e_Id e' \<noteq> 0" unfolding e' using new_id_nonzero[OF orm] by simp
  moreover have "e_OrgId e' = org" using org by (simp add: e')
  ultimately have "kept gone org d d'" unfolding d' using inv u d by (intro kept_insert_endpoint) simp_all
  moreover have "e_Id e' \<notin> e_Id ` set (t_endpoint d)" using u(1) by (simp add: unique_on_append)
  moreover have "e' = e\<lparr>e_Id := e_Id e'\<rparr>" by (simp add: e')
  ultimately show "e' = e\<lparr>e_Id := e_Id e'\<rparr> \<and> e_Id e' \<notin> e_Id ` set (t_endpoint d0) \<and>
      d' = d0\<lparr>t_endpoint := t_endpoint d0 @ [e']\<rparr> \<and> kept gone org d0 d'"
    using d d' by simp
qed

lemma post_endpoint_tag_rows:
  "post env P (endpoint_tag_rows org eid tags)
     (\<lambda>rows d. P d \<and> map et_Tag rows = tags \<and> (\<forall>r\<in>set rows. et_EndpointId r = eid \<and> et_OrgId r = org))"
  unfolding endpoint_tag_rows_def by (rule post_rows) simp_all

lemma post_add_tags:
  assumes inv: "store_inv gone d0" and own: "(eid, org) \<in> owners d0"
    and rows: "\<forall>r\<in>set rows. et_EndpointId r = eid \<and> et_OrgId r = org"
  shows "post env ((=) d0) (if rows \<noteq> [] then insert_endpoint_tags rows else returnS ())
     (\<lambda>_ d. d = d0\<lparr>t_endpoint_tag := t_endpoint_tag d0 @ rows\<rparr> \<and> kept gone org d0 d)"
proof -
  have k: "kept gone org d0 (d0\<lparr>t_endpoint_tag := t_endpoint_tag d0 @ rows\<rparr>)"
  proof (rule kept_tags[OF inv])
    show "(et_EndpointId x, et_OrgId x) \<in> owners d0" if "x \<in> set (t_endpoint_tag d0 @ rows)" for x
      using that inv own rows by (auto simp: store_inv_def endpoints_ok_def)
    show "filter (\<lambda>x. et_OrgId x = k) (t_endpoint_tag d0 @ rows) = filter (\<lambda>x. et_OrgId x = k) (t_endpoint_tag d0)"
      if "k \<noteq> org" for k
      using rows that by (auto simp: filter_empty_conv)
  qed
  have same: "d0\<lparr>t_endpoint_tag := t_endpoint_tag d0\<rparr> = d0" by simp
  show ?thesis
  proof (rule post_if)
    show "post env ((=) d0) (insert_endpoint_tags rows)
        (\<lambda>_ d. d = d0\<lparr>t_endpoint_tag := t_endpoint_tag d0 @ rows\<rparr> \<and> kept gone org d0 d)"
      unfolding insert_endpoint_tags_def
      by (rule post_insert_rows) (use k in \<open>auto simp: update_as_assignment(3)[of "\<lambda>t. t @ rows"]\<close>)
    assume "\<not> rows \<noteq> []"
    then show "post env ((=) d0) (returnS ())
        (\<lambda>_ d. d = d0\<lparr>t_endpoint_tag := t_endpoint_tag d0 @ rows\<rparr> \<and> kept gone org d0 d)"
      using k by (intro post_return) (auto simp: same)
  qed
qed

text \<open>What an added endpoint \<open>e'\<close> looks like in the tables, for the request \<open>e\<close>.\<close>

definition stored_endpoint :: "env \<Rightarrow> db \<Rightarrow> EndpointDTO \<Rightarrow> bool" where
  "stored_endpoint env d x \<longleftrightarrow>
     (\<exists>ep\<in>set (t_endpoint d). bare_dto ep = x\<lparr>ed_Checks := [], ed_Tags := []\<rparr>) \<and>
     et_Tag ` set (tags_of d (ed_Id x)) = set (ed_Tags x) \<and>
     checks_of d (ed_Id x) = map (stored_check env) (ed_Checks x)"

definition added_endpoint :: "EndpointDTO \<Rightarrow> EndpointDTO \<Rightarrow> bool" where
  "added_endpoint e e' \<longleftrightarrow>
     ed_OrgId e' = ed_OrgId e \<and> ed_Name e' = ed_Name e \<and> ed_Slug e' = endpoint_slug (ed_Name e) \<and>
     ed_Tags e' = ed_Tags e \<and>
     list_all2 (\<lambda>c c'. added (c\<lparr>c_OrgId := ed_OrgId e, c_EndpointId := ed_Id e'\<rparr>) c')
       (ed_Checks e) (ed_Checks e')"

lemma no_rows_of_new_endpoint:
  assumes "store_inv gone d" and "eid \<notin> e_Id ` set (t_endpoint d)"
  shows "tags_of d eid = []" and "checks_of d eid = []"
proof -
  have own: "(eid, k) \<notin> owners d" for k using assms(2) by (auto simp: owners_def)
  have "et_EndpointId t \<noteq> eid" if "t \<in> set (t_endpoint_tag d)" for t
    using assms(1) that own by (auto simp: store_inv_def endpoints_ok_def)
  then show "tags_of d eid = []" by (simp add: tags_of_def)
  have "c_EndpointId c \<noteq> eid" if "c \<in> set (t_check d)" for c
    using assms(1) that own by (auto simp: store_inv_def route_inv_def check_ok_def)
  then show "checks_of d eid = []" by (simp add: checks_of_def)
qed

lemma added_fields:
  "added c c' \<Longrightarrow> c_OrgId c' = c_OrgId c \<and> c_EndpointId c' = c_EndpointId c \<and> c_Route c' = c_Route c \<and>
     c_Type c' = c_Type c \<and> c_Frequency c' = c_Frequency c \<and> c_Enabled c' = c_Enabled c \<and>
     c_Settings c' = c_Settings c \<and> c_HealthSettings c' = c_HealthSettings c \<and> c_State c' = -1"
  by (auto simp: added_def)

lemma post_addEndpoint:
  assumes orm: "orm_documented env" and inv: "store_inv gone d0"
  shows "post env ((=) d0) (addEndpoint e)
     (\<lambda>e' d. added_endpoint e e' \<and> ed_Id e' \<notin> e_Id ` set (t_endpoint d0) \<and>
        stored_endpoint env d e' \<and> kept gone (ed_OrgId e) d0 d)"
  unfolding addEndpoint_def
proof (intro post_bind[OF post_now])
  fix t1 t2
  let ?org = "ed_OrgId e"
  let ?ep = "Endpoint_UpdateSlug
     \<lparr>e_Id = 0, e_OrgId = ?org, e_Name = ed_Name e, e_Slug = [], e_Created = t1, e_Updated = t2\<rparr>"
  let ?Q = "\<lambda>e' d. added_endpoint e e' \<and> ed_Id e' \<notin> e_Id ` set (t_endpoint d0) \<and>
     stored_endpoint env d e' \<and> kept gone ?org d0 d"
  let ?e1 = "\<lambda>ep. e\<lparr>ed_Id := e_Id ep, ed_Created := e_Created ep, ed_Updated := e_Updated ep, ed_Slug := e_Slug ep\<rparr>"
  let ?g = "\<lambda>ep c. c\<lparr>c_OrgId := ed_OrgId (?e1 ep), c_EndpointId := ed_Id (?e1 ep)\<rparr>"
  have org: "e_OrgId ?ep = ?org" by (simp add: Endpoint_UpdateSlug_def)
  let ?tail = "\<lambda>ep rows. thenS (if rows \<noteq> [] then insert_endpoint_tags rows else returnS ())
        (bindS (map_each (\<lambda>c. addCheck (?g ep c)) (ed_Checks (?e1 ep))) (\<lambda>cs.
         let e2 = (?e1 ep)\<lparr>ed_Checks := cs\<rparr>
         in thenS (events_Publish (EndpointCreated (ed_Created e2) e2)) (returnS e2)))"
  have body: "post env ((=) d1)
      (bindS (endpoint_tag_rows (ed_OrgId (?e1 ep)) (e_Id ep) (ed_Tags (?e1 ep))) (?tail ep)) ?Q"
    if ep: "ep = ?ep\<lparr>e_Id := e_Id ep\<rparr>" and new: "e_Id ep \<notin> e_Id ` set (t_endpoint d0)"
      and d1: "d1 = d0\<lparr>t_endpoint := t_endpoint d0 @ [ep]\<rparr>" and k1: "kept gone ?org d0 d1" for ep d1
  proof (rule post_bind[OF post_endpoint_tag_rows], rule post_fix)
    fix rows :: "EndpointTag list" and d
    assume "d1 = d \<and> map et_Tag rows = ed_Tags (?e1 ep) \<and>
      (\<forall>r\<in>set rows. et_EndpointId r = e_Id ep \<and> et_OrgId r = ed_OrgId (?e1 ep))"
    then have d: "d = d1" and tags: "map et_Tag rows = ed_Tags e"
      and rows: "\<forall>r\<in>set rows. et_EndpointId r = e_Id ep \<and> et_OrgId r = ?org" by auto
    have ep_org: "e_OrgId ep = ?org" by (subst ep) (simp add: Endpoint_UpdateSlug_def)
    then have own1: "(e_Id ep, ?org) \<in> owners d1" by (simp add: owners_def d1)
    have inv1: "store_inv gone d1" using k1 by (simp add: kept_def)
    let ?d2 = "d1\<lparr>t_endpoint_tag := t_endpoint_tag d1 @ rows\<rparr>"
    let ?own = "owners ?d2"
    have own2: "(e_Id ep, ?org) \<in> ?own" using own1 by (simp add: owners_def)
    show "post env ((=) d) (?tail ep rows) ?Q"
      unfolding d
    proof (rule post_then[OF post_add_tags[OF inv1 own1 rows]], rule post_fix)
      fix d2
      assume "d2 = ?d2 \<and> kept gone ?org d1 d2"
      then have d2: "d2 = ?d2" and k2: "kept gone ?org d0 d2" using kept_trans[OF k1] by auto
      have inv2: "store_inv gone d2" using k2 by (simp add: kept_def)
      have checks: "post env ((=) d2) (map_each (\<lambda>c. addCheck (?g ep c)) (ed_Checks (?e1 ep)))
          (\<lambda>rs d. list_all2 (\<lambda>c r. added (?g ep c) r) (ed_Checks e) rs \<and> sound {} gone (owners d2) ?org d2 d \<and>
             t_check d = t_check d2 @ map (stored_check env) rs)"
        by (rule post_weaken[OF post_add_checks[OF orm, of "?g ep" "owners d2" ?org gone d2 "t_check d2"]])
           (use own2 d2 sound_start[OF inv2] in auto)
      show "post env ((=) d2) (bindS (map_each (\<lambda>c. addCheck (?g ep c)) (ed_Checks (?e1 ep))) (\<lambda>cs.
          let e2 = (?e1 ep)\<lparr>ed_Checks := cs\<rparr>
          in thenS (events_Publish (EndpointCreated (ed_Created e2) e2)) (returnS e2))) ?Q"
        unfolding Let_def
      proof (rule post_bind[OF checks], rule post_then[OF post_publish], rule post_return)
        fix cs d
        let ?e2 = "(?e1 ep)\<lparr>ed_Checks := cs\<rparr>"
        assume a: "list_all2 (\<lambda>c r. added (?g ep c) r) (ed_Checks e) cs \<and> sound {} gone (owners d2) ?org d2 d \<and>
           t_check d = t_check d2 @ map (stored_check env) cs"
        then have k: "kept gone ?org d0 d" using sound_kept[OF k2] by blast
        have f: "t_endpoint d = t_endpoint d2" "t_endpoint_tag d = t_endpoint_tag d2"
          using a others_fields[of d d2] unfolding sound_def by blast+
        have t: "t_check d = t_check d0 @ map (stored_check env) cs" using a by (simp add: d2 d1)
        have own_cs: "\<forall>c\<in>set cs. c_EndpointId c = e_Id ep"
        proof -
          from a have "list_all2 (\<lambda>c r. added (?g ep c) r) (ed_Checks e) cs" by blast
          then show ?thesis by (induction rule: list_all2_induct) (auto dest: added_fields)
        qed
        note none = no_rows_of_new_endpoint[OF inv new]
        have "checks_of d (e_Id ep) = map (stored_check env) cs"
          using none(2) own_cs by (auto simp: checks_of_def t filter_id_conv)
        moreover have "et_Tag ` set (tags_of d (e_Id ep)) = set (ed_Tags e)"
        proof -
          have "tags_of d (e_Id ep) = rows"
            using none(1) rows by (auto simp: tags_of_def f d2 d1 filter_id_conv)
          then show ?thesis using tags by (metis set_map)
        qed
        moreover have "bare_dto ep = ?e2\<lparr>ed_Checks := [], ed_Tags := []\<rparr>"
        proof -
          have "e_Name ep = ed_Name e" by (subst ep) (simp add: Endpoint_UpdateSlug_def)
          then show ?thesis using ep_org by (simp add: bare_dto_def)
        qed
        moreover have "ep \<in> set (t_endpoint d)" by (simp add: f d2 d1)
        ultimately have "stored_endpoint env d ?e2" unfolding stored_endpoint_def by auto
        moreover have "added_endpoint e ?e2"
        proof -
          have "e_Slug ep = endpoint_slug (ed_Name e)" by (subst ep) (simp add: Endpoint_UpdateSlug_def)
          then show ?thesis using a by (simp add: added_endpoint_def)
        qed
        ultimately show "?Q ?e2 d" using k new by simp
      qed
    qed
  qed
  have tail: "(\<lambda>ep. let e1 = ?e1 ep
     in bindS (endpoint_tag_rows (ed_OrgId e1) (e_Id ep) (ed_Tags e1)) (\<lambda>rows.
        thenS (if rows \<noteq> [] then insert_endpoint_tags rows else returnS ())
        (bindS (map_each (\<lambda>c. addCheck (c\<lparr>c_OrgId := ed_OrgId e1, c_EndpointId := ed_Id e1\<rparr>))
            (ed_Checks e1)) (\<lambda>cs.
         let e2 = e1\<lparr>ed_Checks := cs\<rparr>
         in thenS (events_Publish (EndpointCreated (ed_Created e2) e2)) (returnS e2))))) =
    (\<lambda>ep. bindS (endpoint_tag_rows (ed_OrgId (?e1 ep)) (e_Id ep) (ed_Tags (?e1 ep))) (?tail ep))"
    by (simp only: Let_def)
  show "post env ((=) d0) (bindS (insert_endpoint ?ep) (\<lambda>ep. let e1 = ?e1 ep
     in bindS (endpoint_tag_rows (ed_OrgId e1) (e_Id ep) (ed_Tags e1)) (\<lambda>rows.
        thenS (if rows \<noteq> [] then insert_endpoint_tags rows else returnS ())
        (bindS (map_each (\<lambda>c. addCheck (c\<lparr>c_OrgId := ed_OrgId e1, c_EndpointId := ed_Id e1\<rparr>))
            (ed_Checks e1)) (\<lambda>cs.
         let e2 = e1\<lparr>ed_Checks := cs\<rparr>
         in thenS (events_Publish (EndpointCreated (ed_Created e2) e2)) (returnS e2)))))) ?Q"
    unfolding tail
    by (rule post_bind[OF post_insert_endpoint[OF orm inv org]], rule post_fix) (use body in blast)
qed

section \<open>The checks of an existing endpoint\<close>

lemma owner_unique:
  assumes "store_inv gone d" and "e \<in> set (t_endpoint d)" "e_Id e = eid" "(eid, k) \<in> owners d"
  shows "k = e_OrgId e"
proof -
  from assms(4) obtain x where x: "x \<in> set (t_endpoint d)" "e_Id x = eid" "e_OrgId x = k"
    by (auto simp: owners_def)
  have "unique_on e_Id (t_endpoint d)" using assms(1) by (simp add: store_inv_def endpoints_ok_def)
  from unique_onD[OF this x(1) assms(2)] x assms(3) show ?thesis by simp
qed

lemma scrutinized_ids: "list_all2 scrutinized cs cs' \<Longrightarrow> map c_Id cs' = map c_Id cs \<and> map c_Type cs' = map c_Type cs"
  by (induction rule: list_all2_induct) (auto simp: scrutinized_def)

lemma represented_checks:
  assumes inv: "store_inv gone d" and r: "represents d x" "ed_Id x = eid"
    and e: "e \<in> set (t_endpoint d)" "e_Id e = eid" "e_OrgId e = org"
  shows "c_Id ` set (ed_Checks x) = c_Id ` set (checks_of d eid)"
    and "\<And>y c. y \<in> set (t_check d) \<Longrightarrow> c \<in> set (ed_Checks x) \<Longrightarrow> c_Id y = c_Id c \<Longrightarrow>
       c_OrgId y = org \<and> c_EndpointId y = eid"
proof -
  from r obtain cs where cs: "list_all2 scrutinized cs (ed_Checks x)"
    "set cs \<subseteq> {c \<in> set (checks_of d eid). c_Id c \<noteq> 0}"
    "c_Id ` set cs = c_Id ` set (checks_of d eid) - {0}"
    unfolding represents_def by blast
  have nz: "0 \<notin> c_Id ` set (checks_of d eid)"
    using inv by (auto simp: store_inv_def route_inv_def check_ok_def checks_of_def)
  have "c_Id ` set (ed_Checks x) = c_Id ` set cs"
    using scrutinized_ids[OF cs(1)] by (metis set_map)
  with cs(3) nz show ids: "c_Id ` set (ed_Checks x) = c_Id ` set (checks_of d eid)" by simp
  fix y c
  assume y: "y \<in> set (t_check d)" and c: "c \<in> set (ed_Checks x)" and eq: "c_Id y = c_Id c"
  from c ids have "c_Id c \<in> c_Id ` set (checks_of d eid)" by blast
  then obtain z where z: "z \<in> set (t_check d)" "c_EndpointId z = eid" "c_Id z = c_Id c"
    by (auto simp: checks_of_def)
  have keys: "check_keys_ok (t_check d)" using inv by (simp add: store_inv_def route_inv_def)
  have "y = z" using check_idD[OF keys y z(1)] eq z(3) by simp
  moreover have "(eid, c_OrgId z) \<in> owners d"
    using inv z by (auto simp: store_inv_def route_inv_def check_ok_def)
  ultimately show "c_OrgId y = org \<and> c_EndpointId y = eid"
    using owner_unique[OF inv e(1,2)] e(3) z(2) by simp
qed

lemma tag_row_id: "tag_row_ok {} org cs r \<Longrightarrow> rt_CheckId r \<in> c_Id ` set cs"
  by (simp add: tag_row_ok_def) (metis imageI)

section \<open>Deleting\<close>

text \<open>Nothing of the endpoint is left: no row, no tag, no check and no index row of its former checks.\<close>

definition erased :: "int \<Rightarrow> int set \<Rightarrow> db \<Rightarrow> bool" where
  "erased eid ids d \<longleftrightarrow>
     eid \<notin> e_Id ` set (t_endpoint d) \<and> tags_of d eid = [] \<and> checks_of d eid = [] \<and>
     (\<forall>c\<in>set (t_check d). c_Id c \<notin> ids) \<and> (\<forall>i\<in>ids. tag_index d i = {} \<and> id_index d i = {})"

lemma post_deleteEndpoint:
  assumes inv: "store_inv gone d0"
  shows "post env ((=) d0) (deleteEndpoint org eid)
     (\<lambda>_ d. erased eid (c_Id ` set (checks_of d0 eid)) d \<and> kept gone org d0 d)"
  unfolding deleteEndpoint_def
proof (rule post_bind[OF post_getEndpointById], rule post_fix)
  fix existing d
  assume a: "d0 = d \<and> represents d existing \<and> ed_Id existing = eid \<and>
    (\<exists>e\<in>set (t_endpoint d). e_Id e = eid \<and> e_OrgId e = org)"
  then obtain e where e: "e \<in> set (t_endpoint d0)" "e_Id e = eid" "e_OrgId e = org"
    and r: "represents d0 existing" "ed_Id existing = eid" and d: "d = d0" by blast
  note rep = represented_checks[OF inv r e]
  let ?ids = "c_Id ` set (checks_of d0 eid)"
  let ?d1 = "d0\<lparr>t_endpoint := filter (\<lambda>e. \<not> (e_Id e = eid \<and> e_OrgId e = org)) (t_endpoint d0)\<rparr>"
  let ?d2 = "?d1\<lparr>t_endpoint_tag := filter (\<lambda>t. \<not> (et_EndpointId t = eid \<and> et_OrgId t = org)) (t_endpoint_tag d0)\<rparr>"
  let ?own = "owners d0"
  have ri: "route_inv {} gone ?own org d0" using inv route_inv_org unfolding store_inv_def by blast
  have s2: "sound {} gone ?own org ?d2 ?d2"
    using ri route_inv_tables[of ?d2 d0 "{}" gone ?own org] by (simp add: sound_def)
  have v2: "check_view k ?d2 = check_view k d0" for k by (rule check_view_tables) simp_all
  have checks: "post env ((=) ?d2) (for_each deleteCheck (ed_Checks existing))
      (\<lambda>_ d. sound {} gone ?own org ?d2 d \<and> t_check d = filter (\<lambda>r. c_Id r \<notin> ?ids) (t_check d0))"
    by (rule post_weaken[OF post_delete_checks[where T = "t_check d0"]])
       (use rep(2) s2 in \<open>auto simp: rep(1)\<close>)
  have final: "erased eid ?ids d \<and> kept gone org d0 d"
    if s: "sound {} gone ?own org ?d2 d" and t: "t_check d = filter (\<lambda>r. c_Id r \<notin> ?ids) (t_check d0)" for d
  proof -
    have f: "t_endpoint d = t_endpoint ?d2" "t_endpoint_tag d = t_endpoint_tag ?d2"
      using s others_fields[of d ?d2] unfolding sound_def by blast+
    have own: "owners d = ?own - {(eid, org)}"
      by (auto simp: owners_def f)
    have pair: "p = (eid, org)" if "p \<in> ?own" "fst p = eid" for p
      using owner_unique[OF inv e(1,2)] e(3) that by (cases p) auto
    have noc: "c_EndpointId c \<noteq> eid" if "c \<in> set (t_check d)" for c
      using that unfolding t by (auto simp: checks_of_def)
    have tg: "et_EndpointId x \<noteq> eid \<and> (et_EndpointId x, et_OrgId x) \<in> ?own" if "x \<in> set (t_endpoint_tag d)" for x
    proof -
      have x: "x \<in> set (t_endpoint_tag d0)" "\<not> (et_EndpointId x = eid \<and> et_OrgId x = org)"
        using that by (auto simp: f)
      then have "(et_EndpointId x, et_OrgId x) \<in> ?own" using inv by (simp add: store_inv_def endpoints_ok_def)
      with pair[OF this] x(2) show ?thesis by auto
    qed
    have "endpoints_ok d"
      unfolding endpoints_ok_def
    proof (intro conjI ballI)
      have ok: "endpoints_ok d0" using inv by (simp add: store_inv_def)
      then show "unique_on e_Id (t_endpoint d)" "unique_on (\<lambda>e. (e_OrgId e, e_Name e)) (t_endpoint d)"
        unfolding f by (simp_all add: endpoints_ok_def unique_on_filter)
      show "e_Id x \<noteq> 0" if "x \<in> set (t_endpoint d)" for x
        using that ok unfolding f by (simp add: endpoints_ok_def)
      show "(et_EndpointId x, et_OrgId x) \<in> owners d" if "x \<in> set (t_endpoint_tag d)" for x
        using tg[OF that] by (simp add: own)
    qed
    moreover have "route_inv {} gone (owners d) 0 d"
    proof -
      have "route_inv {} gone ?own 0 d"
        using s route_inv_org[of gone ?own org d 0] by (simp add: sound_def)
      then show ?thesis unfolding route_inv_def check_ok_def own using noc by auto
    qed
    ultimately have "store_inv gone d" by (simp add: store_inv_def)
    moreover have "org_view k d = org_view k d0" if "k \<noteq> org" for k
      using s that v2[of k] unfolding sound_def org_view_def f
      by (auto simp del: filter_filter intro!: filter_keep)
    moreover have "rest d = rest d0"
    proof -
      have "rest d = rest ?d2" using s by (simp add: sound_def rest_def)
      also have "\<dots> = rest d0" by (cases d0) (simp add: rest_def others_def)
      finally show ?thesis .
    qed
    moreover have "erased eid ?ids d"
      unfolding erased_def
    proof (intro conjI)
      show "eid \<notin> e_Id ` set (t_endpoint d)"
      proof
        assume "eid \<in> e_Id ` set (t_endpoint d)"
        then obtain x where "x \<in> set (t_endpoint d)" "e_Id x = eid" by auto
        then have "(eid, e_OrgId x) \<in> owners d" by (auto simp: owners_def)
        then show False using pair own by auto
      qed
      show "tags_of d eid = []" using tg by (auto simp: tags_of_def filter_empty_conv)
      show "checks_of d eid = []" using noc by (auto simp: checks_of_def filter_empty_conv)
      show "\<forall>c\<in>set (t_check d). c_Id c \<notin> ?ids" by (simp add: t)
      have "tag_index d i = {} \<and> id_index d i = {}" if "i \<in> ?ids" for i
      proof -
        have no: "i \<notin> c_Id ` set (t_check d)"
        proof
          assume "i \<in> c_Id ` set (t_check d)"
          then obtain y where y: "y \<in> set (t_check d)" "c_Id y = i" by blast
          then have "c_Id y \<notin> ?ids" unfolding t by simp
          with that y(2) show False by simp
        qed
        note inv' = route_invD[OF sound_inv[OF s]]
        have "rt_CheckId x \<noteq> i" if "x \<in> set (t_route_tag d)" for x
          using tag_row_id[OF inv'(3)[OF that]] no by auto
        moreover have "ri_CheckId x \<noteq> i" if "x \<in> set (t_route_id d)" for x
          using inv'(4)[OF that] no by (auto simp: id_row_ok_def)
        ultimately show ?thesis by (auto simp: tag_index_def id_index_def)
      qed
      then show "\<forall>i\<in>?ids. tag_index d i = {} \<and> id_index d i = {}" by blast
    qed
    ultimately show ?thesis by (simp add: kept_def)
  qed
  show "post env ((=) d)
      (thenS (exec (\<lambda>env d. d\<lparr>t_endpoint := filter (\<lambda>e. \<not> (e_Id e = eid \<and> e_OrgId e = org)) (t_endpoint d)\<rparr>))
      (thenS (exec (\<lambda>env d. d\<lparr>t_endpoint_tag :=
          filter (\<lambda>t. \<not> (et_EndpointId t = eid \<and> et_OrgId t = org)) (t_endpoint_tag d)\<rparr>))
      (thenS (for_each deleteCheck (ed_Checks existing))
      (bindS time_Now (\<lambda>t. events_Publish (EndpointDeleted t existing))))))
      (\<lambda>_ d. erased eid ?ids d \<and> kept gone org d0 d)"
    unfolding d
  proof (rule post_then[where R = "(=) ?d1"], rule post_exec, simp,
      rule post_then[where R = "(=) ?d2"], rule post_exec, simp,
      rule post_then[OF checks], rule post_bind[OF post_now], rule post_weaken[OF post_publish])
  qed (use final in blast)+
qed

section \<open>Updating\<close>

lemma post_update_endpoint_row:
  assumes orm: "orm_documented env" and inv: "store_inv gone d0"
    and e0: "e0 \<in> set (t_endpoint d0)" "e_Id e0 = e_Id ep" "e_OrgId e0 = org"
    and ep: "e_OrgId ep = org"
  shows "post env ((=) d0) (update_endpoint_row ep)
     (\<lambda>_ d. kept gone org d0 d \<and> owners d = owners d0 \<and> t_endpoint_tag d = t_endpoint_tag d0 \<and>
        t_check d = t_check d0 \<and> merge_endpoint ep e0 \<in> set (t_endpoint d))"
  unfolding update_endpoint_row_def
proof (rule post_stmt)
  fix d :: db and u :: unit and d'
  let ?f = "\<lambda>r. if e_Id r = e_Id ep then upd_endpoint env ep r else r"
  assume d: "d0 = d" and "(let t = map ?f (t_endpoint d)
     in checked (unique_on e_Id t \<and> unique_on (\<lambda>r. (e_OrgId r, e_Name r)) t) ((), d\<lparr>t_endpoint := t\<rparr>)) = Inr (u, d')"
  then have u: "unique_on e_Id (map ?f (t_endpoint d0))"
    "unique_on (\<lambda>r. (e_OrgId r, e_Name r)) (map ?f (t_endpoint d0))"
    and d': "d' = d0\<lparr>t_endpoint := map ?f (t_endpoint d0)\<rparr>"
    by (auto simp: Let_def)
  have upd: "upd_endpoint env = merge_endpoint" using orm by (simp add: orm_documented_def)
  let ?row = "merge_endpoint ep e0"
  have ids: "unique_on e_Id (t_endpoint d0)" using inv by (simp add: store_inv_def endpoints_ok_def)
  have t: "map ?f (t_endpoint d0) = map (\<lambda>r. if e_Id r = e_Id ep then ?row else r) (t_endpoint d0)"
    using unique_onD[OF ids _ e0(1)] e0(2) by (intro map_cong) (auto simp: upd)
  have row: "e_Id ?row = e_Id ep" "e_OrgId ?row = org"
    using e0 ep by (auto simp: merge_endpoint_def nz_def)
  have k: "kept gone org d0 d'"
    unfolding d' by (rule kept_update_endpoint[OF inv e0 row t u])
  have "owners d' = owners d0"
  proof -
    have "(e_Id (?f x), e_OrgId (?f x)) = (e_Id x, e_OrgId x)" if "x \<in> set (t_endpoint d0)" for x
      using unique_onD[OF ids that e0(1)] e0 row by (auto simp: upd)
    then have "(\<lambda>x. (e_Id (?f x), e_OrgId (?f x))) ` set (t_endpoint d0) = owners d0"
      unfolding owners_def by (intro image_cong) auto
    moreover have "owners d' = (\<lambda>e. (e_Id e, e_OrgId e)) ` set (map ?f (t_endpoint d0))"
      by (simp add: owners_def d')
    ultimately show ?thesis by (simp only: set_map image_image)
  qed
  moreover have "?row \<in> set (t_endpoint d')" using e0 unfolding d' t by force
  ultimately show "kept gone org d0 d' \<and> owners d' = owners d0 \<and> t_endpoint_tag d' = t_endpoint_tag d0 \<and>
      t_check d' = t_check d0 \<and> ?row \<in> set (t_endpoint d')"
    using k by (simp add: d')
qed

lemma post_update_tags:
  assumes inv: "store_inv gone d0" and own: "(ed_Id e, org) \<in> owners d0" and org: "ed_OrgId e = org"
    and old: "set (ed_Tags existing) = et_Tag ` set (tags_of d0 (ed_Id e)) - {[]}"
  shows "post env ((=) d0) (update_tags existing e)
     (\<lambda>_ d. kept gone org d0 d \<and> t_endpoint d = t_endpoint d0 \<and> t_check d = t_check d0 \<and>
        et_Tag ` set (tags_of d (ed_Id e)) - {[]} = set (ed_Tags e) - {[]})"
proof -
  let ?eid = "ed_Id e"
  let ?dels = "tags_to_delete (ed_Tags existing) (ed_Tags e)"
  let ?adds = "tags_to_add (ed_Tags existing) (ed_Tags e)"
  let ?B = "et_Tag ` set (tags_of d0 ?eid)"
  let ?t1 = "filter (\<lambda>t. \<not> (et_EndpointId t = ?eid \<and> et_OrgId t = ed_OrgId e \<and> et_Tag t \<in> set ?dels)) (t_endpoint_tag d0)"
  have et_org: "et_OrgId t = org" if "t \<in> set (t_endpoint_tag d0)" "et_EndpointId t = ?eid" for t
  proof -
    from own obtain x where x: "x \<in> set (t_endpoint d0)" "e_Id x = ?eid" "e_OrgId x = org"
      by (auto simp: owners_def)
    have "(?eid, et_OrgId t) \<in> owners d0" using inv that by (auto simp: store_inv_def endpoints_ok_def)
    from owner_unique[OF inv x(1,2) this] x(3) show ?thesis by simp
  qed
  have k1: "kept gone org d0 (d0\<lparr>t_endpoint_tag := ?t1\<rparr>)"
  proof (rule kept_tags[OF inv])
    show "(et_EndpointId x, et_OrgId x) \<in> owners d0" if "x \<in> set ?t1" for x
      using that inv by (auto simp: store_inv_def endpoints_ok_def)
    show "filter (\<lambda>x. et_OrgId x = k) ?t1 = filter (\<lambda>x. et_OrgId x = k) (t_endpoint_tag d0)" if "k \<noteq> org" for k
      by (rule filter_keep) (use that org in auto)
  qed
  have b1: "et_Tag ` set (tags_of (d0\<lparr>t_endpoint_tag := ?t1\<rparr>) ?eid) = ?B - set ?dels"
    using et_org org by (force simp: tags_of_def)
  let ?S = "\<lambda>d. kept gone org d0 d \<and> t_endpoint d = t_endpoint d0 \<and> t_check d = t_check d0 \<and>
     et_Tag ` set (tags_of d ?eid) = ?B - set ?dels"
  have del: "post env ((=) d0) (if ?dels \<noteq> [] then exec (\<lambda>env d. d\<lparr>t_endpoint_tag := filter (\<lambda>t. \<not>
       (et_EndpointId t = ?eid \<and> et_OrgId t = ed_OrgId e \<and> et_Tag t \<in> set ?dels)) (t_endpoint_tag d)\<rparr>)
     else returnS ()) (\<lambda>_. ?S)"
  proof (rule post_if)
    show "post env ((=) d0) (exec (\<lambda>env d. d\<lparr>t_endpoint_tag := filter (\<lambda>t. \<not>
       (et_EndpointId t = ?eid \<and> et_OrgId t = ed_OrgId e \<and> et_Tag t \<in> set ?dels)) (t_endpoint_tag d)\<rparr>)) (\<lambda>_. ?S)"
      by (rule post_exec) (use k1 b1 in auto)
    assume "\<not> ?dels \<noteq> []"
    then show "post env ((=) d0) (returnS ()) (\<lambda>_. ?S)"
      by (intro post_return) (auto simp: kept_refl[OF inv])
  qed
  have sync: "(?B - set ?dels) \<union> set ?adds - {[]} = set (ed_Tags e) - {[]}"
    using tag_plan.set_adds[of "ed_Tags existing" "ed_Tags e"]
      tag_plan.set_dels[of "ed_Tags existing" "ed_Tags e"] old by auto
  let ?Q = "\<lambda>_ d. kept gone org d0 d \<and> t_endpoint d = t_endpoint d0 \<and> t_check d = t_check d0 \<and>
     et_Tag ` set (tags_of d ?eid) - {[]} = set (ed_Tags e) - {[]}"
  have add: "post env ?S (if ?adds \<noteq> [] then bindS (endpoint_tag_rows (ed_OrgId e) ?eid ?adds) insert_endpoint_tags
     else returnS ()) ?Q"
  proof (rule post_if)
    assume "\<not> ?adds \<noteq> []"
    then show "post env ?S (returnS ()) ?Q" using sync by (intro post_return) auto
  next
    show "post env ?S (bindS (endpoint_tag_rows (ed_OrgId e) ?eid ?adds) insert_endpoint_tags) ?Q"
      unfolding insert_endpoint_tags_def
    proof (rule post_bind[OF post_endpoint_tag_rows], rule post_insert_rows)
      fix rows :: "EndpointTag list" and d :: db
      let ?d = "t_endpoint_tag_update (\<lambda>t. t @ rows) d"
      assume a: "?S d \<and> map et_Tag rows = ?adds \<and> (\<forall>r\<in>set rows. et_EndpointId r = ?eid \<and> et_OrgId r = ed_OrgId e)"
      then have S: "?S d" and adds: "map et_Tag rows = ?adds"
        and rows: "\<forall>r\<in>set rows. et_EndpointId r = ?eid \<and> et_OrgId r = org" using org by auto
      have inv': "store_inv gone d" using S by (simp add: kept_def)
      have "owners d = owners d0" using S by (simp add: owners_def)
      then have own': "(?eid, org) \<in> owners d" using own by simp
      have "kept gone org d (d\<lparr>t_endpoint_tag := t_endpoint_tag d @ rows\<rparr>)"
      proof (rule kept_tags[OF inv'])
        show "(et_EndpointId x, et_OrgId x) \<in> owners d" if "x \<in> set (t_endpoint_tag d @ rows)" for x
          using that inv' own' rows by (auto simp: store_inv_def endpoints_ok_def)
        show "filter (\<lambda>x. et_OrgId x = k) (t_endpoint_tag d @ rows) = filter (\<lambda>x. et_OrgId x = k) (t_endpoint_tag d)"
          if "k \<noteq> org" for k
          using rows that by (auto simp: filter_empty_conv)
      qed
      then have k: "kept gone org d0 ?d"
        using S kept_trans unfolding update_as_assignment(3)[of "\<lambda>t. t @ rows"] by blast
      have "tags_of ?d ?eid = tags_of d ?eid @ rows"
        using rows by (auto simp: tags_of_def filter_id_conv)
      then have "et_Tag ` set (tags_of ?d ?eid) = (?B - set ?dels) \<union> set ?adds"
        using S adds by (simp add: image_Un) (metis set_map)
      then have "et_Tag ` set (tags_of ?d ?eid) - {[]} = set (ed_Tags e) - {[]}" using sync by (simp only:)
      with k S show "?Q () ?d" by simp
    next
      fix rows :: "EndpointTag list" and d :: db
      assume "?S d \<and> map et_Tag rows = ?adds \<and> (\<forall>r\<in>set rows. et_EndpointId r = ?eid \<and> et_OrgId r = ed_OrgId e)"
        and "rows = []"
      then have S: "?S d" and "?adds = []" by auto
      with sync show "?Q () d" by auto
    qed
  qed
  show ?thesis
    unfolding update_tags_def Let_def by (rule post_then[OF del add])
qed

end
