(* ===== verification/EndpointUpdate.thy ===== *)
theory EndpointUpdate
  imports EndpointInv
begin

text \<open>
  What \<open>UpdateEndpoint\<close> leaves behind: the invariant and the other organisations' rows are kept, the
  tags are the requested ones, and the endpoint's checks are exactly those of the returned value, each
  with the requested route.
\<close>

section \<open>The checks of an endpoint by id, type and route\<close>

definition check_key :: "Check \<Rightarrow> int \<times> CheckType \<times> json" where
  "check_key c = (c_Id c, c_Type c, opt_json route_json (c_Route c))"

definition endpoint_keys :: "db \<Rightarrow> int \<Rightarrow> (int \<times> CheckType \<times> json) set" where
  "endpoint_keys d eid = check_key ` set (checks_of d eid)"

abbreviation key_type :: "int \<times> CheckType \<times> json \<Rightarrow> CheckType" where
  "key_type k \<equiv> fst (snd k)"

lemma check_key_simps [simp]: "fst (check_key c) = c_Id c" "key_type (check_key c) = c_Type c"
  by (simp_all add: check_key_def)

lemma scrutinized_key: "scrutinized c c' \<Longrightarrow> check_key c' = check_key c"
  by (auto simp: scrutinized_def check_key_def)

lemma touched_key: "touched c c' \<Longrightarrow> check_key c' = check_key c"
  by (simp add: check_key_def touched_fields)

lemma stored_key [simp]: "check_key (stored_check env c) = check_key c"
  by (simp add: check_key_def)

lemma endpoint_keys_unique:
  assumes "route_inv {} gone own org d" and "k \<in> endpoint_keys d eid" "k' \<in> endpoint_keys d eid"
  shows "fst k = fst k' \<Longrightarrow> k = k'"
proof -
  have keys: "check_keys_ok (t_check d)" using assms(1) by (simp add: route_inv_def)
  assume "fst k = fst k'"
  from assms(2) obtain c where c: "c \<in> set (t_check d)" "k = check_key c"
    by (auto simp: endpoint_keys_def checks_of_def)
  from assms(3) obtain c' where c': "c' \<in> set (t_check d)" "k' = check_key c'"
    by (auto simp: endpoint_keys_def checks_of_def)
  have "c = c'" using check_idD[OF keys c(1) c'(1)] \<open>fst k = fst k'\<close> c(2) c'(2) by simp
  with c(2) c'(2) show ?thesis by simp
qed

section \<open>Frames on the check table\<close>

lemma post_frame_checks:
  "(\<And>d. t_check (f env d) = t_check d) \<Longrightarrow> post env (\<lambda>d. t_check d = T) (exec f) (\<lambda>_ d. t_check d = T)"
  by (rule post_exec) simp

lemma post_deleteCheckRoutes_checks:
  "post env (\<lambda>d. t_check d = T) (deleteCheckRoutes c) (\<lambda>_ d. t_check d = T)"
  unfolding deleteCheckRoutes_def
  by (rule post_then[OF post_frame_checks post_frame_checks]) simp_all

lemma post_add_tag_rows_checks:
  "post env (\<lambda>d. t_check d = T) (bindS (tag_index_rows c ts) insert_route_tags) (\<lambda>_ d. t_check d = T)"
  unfolding insert_route_tags_def
  by (rule post_bind[OF post_tag_index_rows], rule post_insert_rows) auto

lemma post_add_id_rows_checks:
  "post env (\<lambda>d. t_check d = T) (bindS (id_index_rows c ids) insert_route_ids) (\<lambda>_ d. t_check d = T)"
  unfolding insert_route_ids_def
  by (rule post_bind[OF post_id_index_rows], rule post_insert_rows) auto

lemma post_sync_checks:
  "post env (\<lambda>d. t_check d = T) (sync_tag_routes er r c) (\<lambda>_ d. t_check d = T)"
  "post env (\<lambda>d. t_check d = T) (sync_id_routes er r c) (\<lambda>_ d. t_check d = T)"
  unfolding sync_tag_routes_def sync_id_routes_def
  by (rule post_bind[where R = "\<lambda>_ d. t_check d = T"], rule post_lift, simp,
      rule post_bind[where R = "\<lambda>_ d. t_check d = T"], rule post_lift, simp,
      rule post_then[where R = "\<lambda>d. t_check d = T"], rule post_for_each, rule post_frame_checks, simp,
      rule post_if, rule post_add_tag_rows_checks post_add_id_rows_checks, rule post_return, simp)+

lemma post_update_routes_checks:
  "post env (\<lambda>d. t_check d = T) (update_routes existing c) (\<lambda>_ d. t_check d = T \<and> c_Route c \<noteq> None)"
  unfolding update_routes_def
proof (rule post_bind[where R = "\<lambda>_ d. t_check d = T"], rule post_lift, simp,
    rule post_bind[where R = "\<lambda>r d. c_Route c = Some r \<and> t_check d = T"], rule post_lift, simp, rule post_assume)
  fix er r
  assume r: "c_Route c = Some r"
  show "post env (\<lambda>d. t_check d = T)
      (if r_Type er \<noteq> r_Type r then thenS (deleteCheckRoutes existing) (addCheckRoutes c)
       else if r_Type r = RouteByTags then sync_tag_routes er r c
       else if r_Type r = RouteByIds then sync_id_routes er r c
       else failS (Error (ValidationError ''400: unknown route type'')))
      (\<lambda>_ d. t_check d = T \<and> c_Route c \<noteq> None)"
    by (rule post_weaken[where P = "\<lambda>d. t_check d = T" and Q = "\<lambda>_ d. t_check d = T"],
        intro post_if post_fail post_sync_checks
          post_then[OF post_deleteCheckRoutes_checks post_addCheckRoutes_checks])
       (auto simp: r)
qed

lemma post_updateCheck_rows:
  "post env (\<lambda>d. t_check d = T) (updateCheck c)
     (\<lambda>c' d. touched c c' \<and> c_Route c \<noteq> None \<and>
        t_check d = map (\<lambda>r. if c_Id r = c_Id c then stored_check env (upd_check env c' r) else r) T)"
proof -
  let ?Q = "\<lambda>c' d. touched c c' \<and> c_Route c \<noteq> None \<and>
     t_check d = map (\<lambda>r. if c_Id r = c_Id c then stored_check env (upd_check env c' r) else r) T"
  have row: "post env (\<lambda>d. t_check d = T)
      (thenS (update_check_row c') (thenS (update_routes existing c') (returnS c'))) ?Q"
    if t: "touched c c'" for existing c'
  proof (rule post_then[where R = "\<lambda>d. t_check d =
        map (\<lambda>r. if c_Id r = c_Id c then stored_check env (upd_check env c' r) else r) T"])
    show "post env (\<lambda>d. t_check d = T) (update_check_row c') (\<lambda>_ d. t_check d =
        map (\<lambda>r. if c_Id r = c_Id c then stored_check env (upd_check env c' r) else r) T)"
      unfolding update_check_row_def
      by (rule post_stmt) (use touched_fields[OF t] in \<open>auto simp: Let_def\<close>)
    show "post env (\<lambda>d. t_check d =
        map (\<lambda>r. if c_Id r = c_Id c then stored_check env (upd_check env c' r) else r) T)
        (thenS (update_routes existing c') (returnS c')) ?Q"
      by (rule post_then[OF post_update_routes_checks], rule post_return) (use t touched_fields[OF t] in auto)
  qed
  show ?thesis
    unfolding updateCheck_def
  proof (rule post_bind[OF post_getCheckById], rule post_bind[OF post_now], rule post_bind)
    fix existing t
    let ?P = "\<lambda>d. t_check d = T"
    show "post env (\<lambda>d. ?P d \<and> existing \<in> set (t_check d) \<and> c_OrgId existing = c_OrgId c \<and> c_Id existing = c_Id c)
        (liftS (go_rem (c_EndpointId c) (c_Frequency c)))
        (\<lambda>off d. go_rem (c_EndpointId c) (c_Frequency c) = Inr off \<and> ?P d)"
      by (rule post_lift) simp
    fix off
    show "post env (\<lambda>d. go_rem (c_EndpointId c) (c_Frequency c) = Inr off \<and> ?P d)
        (bindS (if \<not> c_Enabled c \<and> c_Enabled existing
            then bindS time_Now (\<lambda>t'. returnS
              (c\<lparr>c_Updated := t, c_Offset := off, c_StateChange := t', c_State := -1\<rparr>))
            else returnS (c\<lparr>c_Updated := t, c_Offset := off\<rparr>)) (\<lambda>c'.
         thenS (update_check_row c') (thenS (update_routes existing c') (returnS c')))) ?Q"
    proof (rule post_assume, rule post_bind[where R = "\<lambda>c' d. touched c c' \<and> ?P d"])
      assume off: "go_rem (c_EndpointId c) (c_Frequency c) = Inr off"
      have 1: "touched c (c\<lparr>c_Updated := t, c_Offset := off\<rparr>)"
        using off unfolding touched_def by blast
      have 2: "touched c (c\<lparr>c_Updated := t, c_Offset := off, c_StateChange := t', c_State := -1\<rparr>)"
        if "\<not> c_Enabled c" for t'
        using off that unfolding touched_def by blast
      show "post env ?P (if \<not> c_Enabled c \<and> c_Enabled existing
            then bindS time_Now (\<lambda>t'. returnS
              (c\<lparr>c_Updated := t, c_Offset := off, c_StateChange := t', c_State := -1\<rparr>))
            else returnS (c\<lparr>c_Updated := t, c_Offset := off\<rparr>)) (\<lambda>c' d. touched c c' \<and> ?P d)"
        by (rule post_if, rule post_bind[OF post_now], rule post_return, use 2 in blast,
            rule post_return, use 1 in blast)
    qed (intro post_assume row)
  qed
qed

text \<open>An update replaces the key of its check.\<close>

lemma updated_keys:
  assumes orm: "upd_check env = merge_check" and ids: "check_keys_ok T"
    and c: "touched c c'" "c_Route c \<noteq> None" "c_EndpointId c = eid"
    and old: "x \<in> set T" "c_Id x = c_Id c" "c_EndpointId x = eid" "c_Type x = c_Type c"
  shows "check_key ` {r \<in> set (map (\<lambda>r. if c_Id r = c_Id c then stored_check env (upd_check env c' r) else r) T).
        c_EndpointId r = eid}
     = {k \<in> check_key ` {r \<in> set T. c_EndpointId r = eid}. fst k \<noteq> c_Id c} \<union> {check_key c}"
    (is "?L = ?R")
proof -
  note f = touched_fields[OF c(1)]
  have only: "r = x" if "r \<in> set T" "c_Id r = c_Id c" for r
    using check_idD[OF ids that(1) old(1)] that(2) old(2) by simp
  let ?row = "stored_check env (merge_check c' x)"
  have row: "check_key ?row = check_key c" "c_EndpointId ?row = eid"
    using f c old by (auto simp: check_key_def merge_check_def nz_def)
  show ?thesis
  proof
    show "?L \<subseteq> ?R"
    proof
      fix k
      assume "k \<in> ?L"
      then obtain r where r: "r \<in> set T"
        "k = check_key (if c_Id r = c_Id c then stored_check env (upd_check env c' r) else r)"
        "c_EndpointId (if c_Id r = c_Id c then stored_check env (upd_check env c' r) else r) = eid"
        by auto
      show "k \<in> ?R"
      proof (cases "c_Id r = c_Id c")
        case True
        with only[OF r(1)] r(2) row show ?thesis by (simp add: orm)
      next
        case False
        with r show ?thesis by auto
      qed
    qed
    show "?R \<subseteq> ?L"
    proof
      fix k
      assume "k \<in> ?R"
      then consider "k = check_key c" | r where "r \<in> set T" "c_EndpointId r = eid" "k = check_key r" "c_Id r \<noteq> c_Id c"
        by auto
      then show "k \<in> ?L"
      proof cases
        case 1
        have "?row = (\<lambda>r. if c_Id r = c_Id c then stored_check env (upd_check env c' r) else r) x"
          using old(2) by (simp add: orm)
        then have "?row \<in> set (map (\<lambda>r. if c_Id r = c_Id c then stored_check env (upd_check env c' r) else r) T)"
          unfolding set_map by (rule image_eqI[OF _ old(1)])
        with row have "check_key ?row \<in> ?L" by blast
        with row(1) 1 show ?thesis by simp
      next
        case (2 r)
        then have "r = (\<lambda>r. if c_Id r = c_Id c then stored_check env (upd_check env c' r) else r) r"
          by simp
        then have "r \<in> set (map (\<lambda>r. if c_Id r = c_Id c then stored_check env (upd_check env c' r) else r) T)"
          unfolding set_map by (rule image_eqI[OF _ 2(1)])
        with 2 show ?thesis by blast
      qed
    qed
  qed
qed

lemma post_updateCheck_keys:
  assumes orm: "orm_documented env" and c: "c_OrgId c = org" "c_EndpointId c = eid" "(eid, org) \<in> own"
    and A: "k \<in> A" "fst k = c_Id c" "key_type k = c_Type c"
  shows "post env (\<lambda>d. sound {} gone own org d0 d \<and> endpoint_keys d eid = A) (updateCheck c)
     (\<lambda>c' d. touched c c' \<and> sound {} gone own org d0 d \<and>
        endpoint_keys d eid = {k \<in> A. fst k \<noteq> c_Id c} \<union> {check_key c})"
proof (rule post_fix)
  fix d1
  assume d1: "sound {} gone own org d0 d1 \<and> endpoint_keys d1 eid = A"
  then have ids: "check_keys_ok (t_check d1)" by (simp add: sound_def route_inv_def)
  from A d1 obtain x where x: "x \<in> set (t_check d1)" "c_Id x = c_Id c" "c_EndpointId x = eid" "c_Type x = c_Type c"
    by (auto simp: endpoint_keys_def checks_of_def)
  have "post env ((=) d1) (updateCheck c)
      (\<lambda>c' d. (touched c c' \<and> sound {} gone own org d0 d) \<and> (touched c c' \<and> c_Route c \<noteq> None \<and>
        t_check d = map (\<lambda>r. if c_Id r = c_Id c then stored_check env (upd_check env c' r) else r) (t_check d1)))"
    by (rule post_pre[OF post_conj[OF post_updateCheck[OF orm c(1)] post_updateCheck_rows[where T = "t_check d1"]]])
       (use c d1 in auto)
  then show "post env ((=) d1) (updateCheck c)
      (\<lambda>c' d. touched c c' \<and> sound {} gone own org d0 d \<and>
         endpoint_keys d eid = {k \<in> A. fst k \<noteq> c_Id c} \<union> {check_key c})"
  proof (rule post_weaken)
    fix c' d
    assume a: "(touched c c' \<and> sound {} gone own org d0 d) \<and> (touched c c' \<and> c_Route c \<noteq> None \<and>
        t_check d = map (\<lambda>r. if c_Id r = c_Id c then stored_check env (upd_check env c' r) else r) (t_check d1))"
    have upd: "upd_check env = merge_check" using orm by (simp add: orm_documented_def)
    have "endpoint_keys d eid = {k \<in> A. fst k \<noteq> c_Id c} \<union> {check_key c}"
      using updated_keys[OF upd ids _ _ c(2) x(1-4), of c'] a d1
      by (simp add: endpoint_keys_def checks_of_def)
    with a show "touched c c' \<and> sound {} gone own org d0 d \<and>
        endpoint_keys d eid = {k \<in> A. fst k \<noteq> c_Id c} \<union> {check_key c}"
      by blast
  qed blast
qed

section \<open>What the loop decides\<close>

definition decided :: "(Check \<Rightarrow> json) \<Rightarrow> (CheckType, Check) gomap \<Rightarrow> Check \<Rightarrow> check_step \<Rightarrow> bool" where
  "decided enc m c s \<longleftrightarrow>
     map_of m (c_Type c) = None \<and> s = ToAdd c \<or>
     (\<exists>ec. map_of m (c_Type c) = Some ec \<and> c_Id c = c_Id ec \<and>
        (s = Settled c \<and> enc ec = enc c \<or> s = ToUpdate (c\<lparr>c_Created := c_Created ec\<rparr>)))"

lemma sort_checks_decided: "sort_checks enc sc m cs = Inr ss \<Longrightarrow> list_all2 (decided enc m) cs ss"
proof (induction enc sc m cs arbitrary: ss rule: sort_checks.induct)
  case (1 enc sc m)
  then show ?case by simp
next
  case (2 enc sc m c cs)
  show ?case
  proof (cases "map_of m (c_Type c)")
    case None
    with "2.prems" obtain ss' where "sort_checks enc sc m cs = Inr ss'" "ss = ToAdd c # ss'"
      by (auto simp: bind_res_Inr_iff)
    with "2.IH"(1)[OF None] None show ?thesis by (simp add: decided_def)
  next
    case (Some ec)
    with "2.prems" have eq: "c_Id c = c_Id ec" by (auto split: if_splits)
    with "2.prems" Some obtain ss' where "sort_checks enc sc m cs = Inr ss'"
      "ss = (if enc ec \<noteq> enc c \<or> sc then ToUpdate (c\<lparr>c_Created := c_Created ec\<rparr>) else Settled c) # ss'"
      by (auto simp: bind_res_Inr_iff)
    with "2.IH"(2)[OF Some eq] Some eq show ?thesis by (auto simp: decided_def)
  qed
qed

lemma decided_fields:
  "decided enc m c s \<Longrightarrow> c_OrgId (step_check s) = c_OrgId c \<and> c_EndpointId (step_check s) = c_EndpointId c \<and>
     c_Type (step_check s) = c_Type c"
  by (auto simp: decided_def)

lemma type_map_inv:
  "distinct (map fst (type_map cs)) \<and> (\<forall>(t, c)\<in>set (type_map cs). c \<in> set cs \<and> c_Type c = t) \<and>
   fst ` set (type_map cs) = c_Type ` set cs"
proof (induction cs rule: rev_induct)
  case Nil
  show ?case by (simp add: type_map_def)
next
  case (snoc c cs)
  have sub: "set (AList.update k v m) \<subseteq> insert (k, v) (set m)" for k :: CheckType and v :: Check and m
    by (induction m) auto
  have step: "type_map (cs @ [c]) = AList.update (c_Type c) c (type_map cs)" by (simp add: type_map_def)
  have "set (AList.update (c_Type c) c (type_map cs)) \<subseteq> insert (c_Type c, c) (set (type_map cs))"
    by (rule sub)
  moreover have "fst ` set (AList.update (c_Type c) c (type_map cs)) = insert (c_Type c) (fst ` set (type_map cs))"
    using dom_update[of "c_Type c" c "type_map cs"] by (simp add: dom_map_of_conv_image_fst[symmetric])
  ultimately show ?case
    using snoc unfolding step by (auto simp: distinct_update)
qed

lemma type_map_Some: "map_of (type_map cs) t = Some c \<Longrightarrow> c \<in> set cs \<and> c_Type c = t"
  using type_map_inv[of cs] by (auto dest: map_of_SomeD)

lemma type_map_None: "map_of (type_map cs) t = None \<longleftrightarrow> t \<notin> c_Type ` set cs"
  using type_map_inv[of cs] by (simp add: map_of_eq_None_iff)

lemma abandoned_checks:
  assumes "distinct (map c_Type cs)"
  shows "set [ec. (ty, ec) \<leftarrow> type_map cs, ty \<notin> S] = {c \<in> set cs. c_Type c \<notin> S}"
proof -
  have all: "(c_Type c, c) \<in> set (type_map cs)" if "c \<in> set cs" for c
  proof -
    have "c_Type c \<in> fst ` set (type_map cs)" using that type_map_inv[of cs] by simp
    then obtain c' where c': "(c_Type c, c') \<in> set (type_map cs)" by auto
    then have "c' \<in> set cs" "c_Type c' = c_Type c" using type_map_inv[of cs] by auto
    with assms that c' show ?thesis by (auto simp: distinct_map inj_on_def)
  qed
  have mem: "x \<in> set [ec. (ty, ec) \<leftarrow> m, ty \<notin> S] \<longleftrightarrow> (\<exists>ty. (ty, x) \<in> set m \<and> ty \<notin> S)"
    for x :: Check and m :: "(CheckType \<times> Check) list"
    by (induction m) auto
  have only: "x \<in> set cs \<and> c_Type x = ty" if "(ty, x) \<in> set (type_map cs)" for ty x
    using that type_map_inv[of cs] by auto
  show ?thesis
    unfolding set_eq_iff mem using all only by blast
qed

section \<open>The existing checks\<close>

lemma represented_keys:
  assumes inv: "store_inv gone d" and r: "represents d x" "ed_Id x = eid"
  shows "check_key ` set (ed_Checks x) = endpoint_keys d eid"
proof -
  from r obtain cs where cs: "list_all2 scrutinized cs (ed_Checks x)"
    "set cs \<subseteq> {c \<in> set (checks_of d eid). c_Id c \<noteq> 0}"
    "c_Id ` set cs = c_Id ` set (checks_of d eid) - {0}"
    unfolding represents_def by blast
  have keys: "check_keys_ok (t_check d)" and nz: "\<forall>c\<in>set (t_check d). c_Id c \<noteq> 0"
    using inv by (simp_all add: store_inv_def route_inv_def check_ok_def)
  have "set (checks_of d eid) \<subseteq> set cs"
  proof
    fix c
    assume c: "c \<in> set (checks_of d eid)"
    then have "c_Id c \<in> c_Id ` set cs" using cs(3) nz by (auto simp: checks_of_def)
    then obtain y where y: "y \<in> set cs" "c_Id c = c_Id y" by blast
    then have "y \<in> set (checks_of d eid)" using cs(2) by auto
    then have "c = y" using check_idD[OF keys _ _ y(2)] c by (simp add: checks_of_def)
    with y(1) show "c \<in> set cs" by simp
  qed
  with cs(2) have "set cs = set (checks_of d eid)" by auto
  moreover have "map check_key (ed_Checks x) = map check_key cs"
    using cs(1) by (induction rule: list_all2_induct) (auto simp: scrutinized_key)
  then have "check_key ` set (ed_Checks x) = check_key ` set cs" by (metis set_map)
  ultimately show ?thesis by (simp add: endpoint_keys_def)
qed

lemma endpoint_types_unique:
  assumes "route_inv {} gone own org d" and own: "\<And>k. (eid, k) \<in> own \<Longrightarrow> k = org'"
    and "k \<in> endpoint_keys d eid" "k' \<in> endpoint_keys d eid" "key_type k = key_type k'"
  shows "k = k'"
proof -
  have keys: "check_keys_ok (t_check d)" using assms(1) by (simp add: route_inv_def)
  from assms(3) obtain c where c: "c \<in> set (t_check d)" "c_EndpointId c = eid" "k = check_key c"
    by (auto simp: endpoint_keys_def checks_of_def)
  from assms(4) obtain c' where c': "c' \<in> set (t_check d)" "c_EndpointId c' = eid" "k' = check_key c'"
    by (auto simp: endpoint_keys_def checks_of_def)
  have "c_OrgId c = org'" "c_OrgId c' = org'"
    using route_invD(2)[OF assms(1) c(1)] route_invD(2)[OF assms(1) c'(1)] own c(2) c'(2)
    by (auto simp: check_ok_def)
  moreover have u: "unique_on (\<lambda>r. (c_OrgId r, c_EndpointId r, c_Type r)) (t_check d)"
    using keys by (simp add: check_keys_ok_def)
  ultimately have "c = c'"
    by (intro unique_onD[OF u c(1) c'(1)]) (use c c' assms(5) in simp)
  with c(3) c'(3) show ?thesis by simp
qed

lemma represented_types:
  assumes inv: "store_inv gone d" and r: "represents d x" "ed_Id x = eid"
    and e: "e \<in> set (t_endpoint d)" "e_Id e = eid" "e_OrgId e = org"
  shows "distinct (map c_Type (ed_Checks x))"
proof -
  have ri: "route_inv {} gone (owners d) 0 d" using inv by (simp add: store_inv_def)
  have own: "k = org" if "(eid, k) \<in> owners d" for k
    using owner_unique[OF inv e(1,2) that] e(3) by simp
  from r obtain cs where cs: "list_all2 scrutinized cs (ed_Checks x)" "distinct (map c_Id cs)"
    unfolding represents_def by blast
  then have d: "distinct (map c_Id (ed_Checks x))" using scrutinized_ids by metis
  note keys = represented_keys[OF inv r]
  have "inj_on c_Type (set (ed_Checks x))"
  proof (rule inj_onI)
    fix a b
    assume ab: "a \<in> set (ed_Checks x)" "b \<in> set (ed_Checks x)" "c_Type a = c_Type b"
    then have "check_key a \<in> endpoint_keys d eid" "check_key b \<in> endpoint_keys d eid"
      using keys by blast+
    from endpoint_types_unique[OF ri own this] ab(3) have "check_key a = check_key b" by simp
    then have "c_Id a = c_Id b" by (simp add: check_key_def)
    with d ab show "a = b" by (auto simp: distinct_map inj_on_def)
  qed
  moreover have "distinct (ed_Checks x)" using d by (simp add: distinct_map)
  ultimately show ?thesis by (simp add: distinct_map)
qed

section \<open>The three passes over the checks\<close>

definition owned_step :: "int \<Rightarrow> int \<Rightarrow> check_step \<Rightarrow> bool" where
  "owned_step eid org s \<longleftrightarrow> c_OrgId (step_check s) = org \<and> c_EndpointId (step_check s) = eid"

definition ran_add :: "check_step \<Rightarrow> check_step \<Rightarrow> bool" where
  "ran_add s s' \<longleftrightarrow> (case s of ToAdd c \<Rightarrow> \<exists>c'. added c c' \<and> s' = Settled c' | _ \<Rightarrow> s' = s)"

definition ran_update :: "check_step \<Rightarrow> Check \<Rightarrow> bool" where
  "ran_update s c' \<longleftrightarrow> (case s of ToUpdate c \<Rightarrow> touched c c' | _ \<Rightarrow> c' = step_check s)"

text \<open>The keys the additions bring.\<close>

definition new_keys :: "check_step list \<Rightarrow> check_step list \<Rightarrow> (int \<times> CheckType \<times> json) set" where
  "new_keys ss ss' = {check_key (step_check s') | c s'. (ToAdd c, s') \<in> set (zip ss ss')}"

lemma new_keys_snoc:
  "length ss = length ss' \<Longrightarrow> new_keys (ss @ [s]) (ss' @ [s']) =
     new_keys ss ss' \<union> (case s of ToAdd c \<Rightarrow> {check_key (step_check s')} | _ \<Rightarrow> {})"
  by (auto simp: new_keys_def split: check_step.splits)

lemma post_run_add:
  assumes orm: "orm_documented env" and own: "(eid, org) \<in> own" and s: "owned_step eid org s"
  shows "post env (\<lambda>d. sound {} gone own org d0 d \<and> endpoint_keys d eid = K) (run_add s)
     (\<lambda>s' d. ran_add s s' \<and> sound {} gone own org d0 d \<and>
        endpoint_keys d eid = K \<union> (case s of ToAdd c \<Rightarrow> {check_key (step_check s')} | _ \<Rightarrow> {}))"
proof (cases s)
  case (ToAdd c)
  have c: "c_OrgId c = org" "c_EndpointId c = eid" using s ToAdd by (simp_all add: owned_step_def)
  have pair: "(c_EndpointId c, c_OrgId c) \<in> own" using c own by simp
  have "post env (\<lambda>d. sound {} gone own org d0 d \<and> endpoint_keys d eid = K) (addCheck c)
      (\<lambda>c' d. added c c' \<and> sound {} gone own org d0 d \<and> endpoint_keys d eid = K \<union> {check_key c'})"
  proof (rule post_fix)
    fix d1
    assume d1: "sound {} gone own org d0 d1 \<and> endpoint_keys d1 eid = K"
    show "post env ((=) d1) (addCheck c)
        (\<lambda>c' d. added c c' \<and> sound {} gone own org d0 d \<and> endpoint_keys d eid = K \<union> {check_key c'})"
    proof (rule post_weaken[OF post_conj[OF post_addCheck[OF orm pair c(1)]
            post_addCheck_checks[where T = "t_check d1"]]])
      fix c' d
      assume a: "(added c c' \<and> sound {} gone own org d0 d) \<and> t_check d = t_check d1 @ [stored_check env c']"
      then have "c_EndpointId c' = eid" using added_fields[of c c'] c(2) by simp
      then have "checks_of d eid = checks_of d1 eid @ [stored_check env c']"
        using a by (simp add: checks_of_def)
      then have "endpoint_keys d eid = K \<union> {check_key c'}" using d1 by (simp add: endpoint_keys_def)
      with a show "added c c' \<and> sound {} gone own org d0 d \<and> endpoint_keys d eid = K \<union> {check_key c'}"
        by blast
    qed (use d1 in auto)
  qed
  then show ?thesis
    unfolding ToAdd run_add.simps check_step.case
  proof (rule post_bind, intro post_return)
    fix c' d
    assume "added c c' \<and> sound {} gone own org d0 d \<and> endpoint_keys d eid = K \<union> {check_key c'}"
    then show "ran_add (ToAdd c) (Settled c') \<and> sound {} gone own org d0 d \<and>
        endpoint_keys d eid = K \<union> {check_key (step_check (Settled c'))}"
      unfolding ran_add_def check_step.case step_check.simps by blast
  qed
next
  case (ToUpdate c)
  then show ?thesis by (auto intro!: post_return simp: ran_add_def)
next
  case (Settled c)
  then show ?thesis by (auto intro!: post_return simp: ran_add_def)
qed

lemma post_run_adds:
  assumes orm: "orm_documented env" and own: "(eid, org) \<in> own" and ss: "\<forall>s\<in>set ss. owned_step eid org s"
  shows "post env (\<lambda>d. sound {} gone own org d0 d \<and> endpoint_keys d eid = K) (map_each run_add ss)
     (\<lambda>ss' d. list_all2 ran_add ss ss' \<and> sound {} gone own org d0 d \<and>
        endpoint_keys d eid = K \<union> new_keys ss ss')"
proof -
  let ?I = "\<lambda>ys rs d. list_all2 ran_add ys rs \<and> sound {} gone own org d0 d \<and>
     endpoint_keys d eid = K \<union> new_keys ys rs"
  have "post env (?I [] []) (map_each run_add ss) (\<lambda>rs. ?I ss rs)"
  proof (rule post_map_each_done[where I = ?I])
    fix ys s zs rs
    assume "ss = ys @ s # zs"
    then have s: "owned_step eid org s" using ss by simp
    show "post env (?I ys rs) (run_add s) (\<lambda>r. ?I (ys @ [s]) (rs @ [r]))"
    proof (rule post_assume, rule post_weaken[OF post_run_add[OF orm own s, where K = "K \<union> new_keys ys rs"]])
      assume l: "list_all2 ran_add ys rs"
      then have len: "length ys = length rs" by (rule list_all2_lengthD)
      fix r d
      assume "ran_add s r \<and> sound {} gone own org d0 d \<and> endpoint_keys d eid =
         (K \<union> new_keys ys rs) \<union> (case s of ToAdd c \<Rightarrow> {check_key (step_check r)} | _ \<Rightarrow> {})"
      then show "?I (ys @ [s]) (rs @ [r]) d"
        using l by (simp add: list_all2_appendI new_keys_snoc[OF len] Un_assoc)
    qed blast
  qed
  then show ?thesis by (rule post_pre) (simp add: new_keys_def)
qed

lemma post_run_updates_sound:
  assumes orm: "orm_documented env" and own: "(eid, org) \<in> own" and ss: "\<forall>s\<in>set ss. owned_step eid org s"
  shows "post env (sound {} gone own org d0) (map_each run_update ss)
     (\<lambda>cs d. list_all2 ran_update ss cs \<and> sound {} gone own org d0 d)"
proof -
  let ?I = "\<lambda>ys rs d. list_all2 ran_update ys rs \<and> sound {} gone own org d0 d"
  have one: "post env (sound {} gone own org d0) (run_update s)
      (\<lambda>r d. ran_update s r \<and> sound {} gone own org d0 d)" if "owned_step eid org s" for s
  proof (cases s)
    case (ToUpdate c)
    with that own show ?thesis
      by (auto intro!: post_weaken[OF post_updateCheck[OF orm, of c org own]]
          simp: owned_step_def ran_update_def)
  qed (auto intro!: post_return simp: ran_update_def)
  have "post env (?I [] []) (map_each run_update ss) (\<lambda>rs. ?I ss rs)"
  proof (rule post_map_each_done[where I = ?I])
    fix ys s zs rs
    assume "ss = ys @ s # zs"
    then have s: "owned_step eid org s" using ss by simp
    show "post env (?I ys rs) (run_update s) (\<lambda>r. ?I (ys @ [s]) (rs @ [r]))"
      by (rule post_assume, rule post_weaken[OF one[OF s]]) (auto intro: list_all2_appendI)
  qed
  then show ?thesis by (rule post_pre) simp
qed

text \<open>
  \<open>matching K ss\<close>: the keys \<open>K\<close> of the stored checks correspond to the steps \<open>ss\<close>, one per type,
  with the same id, and with the same route where the step is settled.
\<close>

definition matching :: "(int \<times> CheckType \<times> json) set \<Rightarrow> check_step list \<Rightarrow> bool" where
  "matching K ss \<longleftrightarrow>
     distinct (map (\<lambda>s. c_Type (step_check s)) ss) \<and>
     key_type ` K \<subseteq> (\<lambda>s. c_Type (step_check s)) ` set ss \<and>
     (\<forall>s\<in>set ss. \<exists>k\<in>K. key_type k = c_Type (step_check s) \<and> fst k = c_Id (step_check s) \<and>
        (\<forall>c. s = Settled c \<longrightarrow> k = check_key c))"

lemma post_run_updates:
  assumes orm: "orm_documented env" and own: "(eid, org) \<in> own" "\<And>k. (eid, k) \<in> own \<Longrightarrow> k = org"
    and ss: "\<forall>s\<in>set ss. owned_step eid org s" and m: "matching K ss"
    and noadd: "\<forall>s\<in>set ss. \<forall>c. s \<noteq> ToAdd c"
  shows "post env (\<lambda>d. sound {} gone own org d0 d \<and> endpoint_keys d eid = K) (map_each run_update ss)
     (\<lambda>cs d. list_all2 ran_update ss cs \<and> sound {} gone own org d0 d \<and>
        endpoint_keys d eid = check_key ` set cs)"
proof -
  let ?ty = "\<lambda>s. c_Type (step_check s)"
  let ?left = "\<lambda>ys. {k \<in> K. key_type k \<notin> ?ty ` set ys}"
  let ?I = "\<lambda>ys rs d. list_all2 ran_update ys rs \<and> sound {} gone own org d0 d \<and>
     endpoint_keys d eid = check_key ` set rs \<union> ?left ys"
  have "post env (?I [] []) (map_each run_update ss) (\<lambda>rs. ?I ss rs)"
  proof (rule post_map_each_done[where I = ?I])
    fix ys s zs rs
    assume split: "ss = ys @ s # zs"
    then have s: "owned_step eid org s" and sin: "s \<in> set ss" using ss by simp_all
    from m sin obtain k where k: "k \<in> K" "key_type k = ?ty s" "fst k = c_Id (step_check s)"
      "\<And>c. s = Settled c \<Longrightarrow> k = check_key c"
      unfolding matching_def by blast
    have fresh: "?ty s \<notin> ?ty ` set ys" using m split by (auto simp: matching_def)
    have k_left: "k \<in> ?left ys" using k fresh by simp
    show "post env (?I ys rs) (run_update s) (\<lambda>r. ?I (ys @ [s]) (rs @ [r]))"
    proof (rule post_fix)
      fix d1
      assume d1: "?I ys rs d1"
      let ?A = "endpoint_keys d1 eid"
      have ri: "route_inv {} gone own org d1" using d1 by (simp add: sound_def)
      have kA: "k \<in> ?A" using d1 k_left by blast
      have A: "?A - {k} = check_key ` set rs \<union> ?left (ys @ [s])"
      proof -
        have "k \<notin> check_key ` set rs"
        proof
          assume "k \<in> check_key ` set rs"
          then obtain c where c: "c \<in> set rs" "k = check_key c" by blast
          from d1 have "list_all2 ran_update ys rs" by blast
          then have "map c_Type rs = map ?ty ys"
            by (induction rule: list_all2_induct)
               (auto simp: ran_update_def touched_fields split: check_step.splits)
          then have "c_Type ` set rs = ?ty ` set ys" by (metis set_map)
          then have "c_Type c \<in> ?ty ` set ys" using c(1) by blast
          with c(2) k(2) fresh show False by simp
        qed
        moreover have "?left ys - {k} = ?left (ys @ [s])"
        proof -
          have "k' = k" if "k' \<in> ?left ys" "key_type k' = ?ty s" for k'
          proof -
            have "k' \<in> ?A" using d1 that(1) by blast
            from endpoint_types_unique[OF ri own(2) this kA] that(2) k(2) show ?thesis by simp
          qed
          then show ?thesis using k by auto
        qed
        ultimately show ?thesis using d1 by blast
      qed
      show "post env ((=) d1) (run_update s) (\<lambda>r. ?I (ys @ [s]) (rs @ [r]))"
      proof (cases s)
        case (ToAdd c)
        with noadd sin show ?thesis by blast
      next
        case (Settled c)
        have "?A = insert k (?A - {k})" using kA by blast
        also have "\<dots> = check_key ` set (rs @ [c]) \<union> ?left (ys @ [s])"
          unfolding A using k(4)[OF Settled] by auto
        finally show ?thesis
          using d1 unfolding Settled
          by (auto intro!: post_return list_all2_appendI simp: ran_update_def)
      next
        case (ToUpdate c)
        have c: "c_OrgId c = org" "c_EndpointId c = eid" using s ToUpdate by (simp_all add: owned_step_def)
        have kc: "fst k = c_Id c" "key_type k = c_Type c" using k ToUpdate by simp_all
        have rest: "{x \<in> ?A. fst x \<noteq> c_Id c} = ?A - {k}"
          using endpoint_keys_unique[OF ri _ kA] kc(1) by auto
        have "post env ((=) d1) (updateCheck c)
            (\<lambda>c' d. touched c c' \<and> sound {} gone own org d0 d \<and> endpoint_keys d eid = (?A - {k}) \<union> {check_key c})"
          by (rule post_pre[OF post_updateCheck_keys[OF orm c own(1) kA kc, unfolded rest]]) (use d1 in auto)
        then show ?thesis
          unfolding ToUpdate run_update.simps
        proof (rule post_weaken)
          fix c' d
          assume a: "touched c c' \<and> sound {} gone own org d0 d \<and> endpoint_keys d eid = (?A - {k}) \<union> {check_key c}"
          then have "endpoint_keys d eid = check_key ` set (rs @ [c']) \<union> ?left (ys @ [ToUpdate c])"
            unfolding A ToUpdate using touched_key[of c c'] by auto
          then show "?I (ys @ [ToUpdate c]) (rs @ [c']) d"
            using a d1 by (auto intro!: list_all2_appendI simp: ran_update_def)
        qed blast
      qed
    qed
  qed
  then show ?thesis
  proof (rule post_weaken)
    fix cs d
    assume a: "?I ss cs d"
    have "?left ss = {}" using m by (auto simp: matching_def)
    with a show "list_all2 ran_update ss cs \<and> sound {} gone own org d0 d \<and> endpoint_keys d eid = check_key ` set cs"
      by simp
  qed simp
qed

lemma check_json_key:
  "check_json ft a = check_json ft b \<Longrightarrow> check_key a = check_key b"
  by (simp add: check_json_def check_key_def)

lemma step_types:
  assumes "list_all2 (decided enc m) cs ss" and "list_all2 ran_add ss ss'"
  shows "map (\<lambda>s. c_Type (step_check s)) ss' = map c_Type cs"
proof -
  have "map (\<lambda>s. c_Type (step_check s)) ss = map c_Type cs"
    using assms(1) by (induction rule: list_all2_induct) (auto dest: decided_fields)
  moreover have "map (\<lambda>s. c_Type (step_check s)) ss' = map (\<lambda>s. c_Type (step_check s)) ss"
    using assms(2)
    by (induction rule: list_all2_induct) (auto simp: ran_add_def dest: added_fields split: check_step.splits)
  ultimately show ?thesis by simp
qed

lemma matching_after_adds:
  assumes dec: "list_all2 (decided (check_json ft) (type_map old)) cs ss"
    and ran: "list_all2 ran_add ss ss'" and dist: "distinct (map c_Type cs)"
  shows "matching ({k \<in> check_key ` set old. key_type k \<in> c_Type ` set cs} \<union> new_keys ss ss') ss'"
    (is "matching ?K ss'")
proof -
  note types = step_types[OF dec ran]
  then have type_set: "(\<lambda>s. c_Type (step_check s)) ` set ss' = c_Type ` set cs" by (metis set_map)
  have "key_type ` ?K \<subseteq> (\<lambda>s. c_Type (step_check s)) ` set ss'"
  proof
    fix t
    assume "t \<in> key_type ` ?K"
    then obtain k where k: "k \<in> ?K" "t = key_type k" by blast
    then consider "key_type k \<in> c_Type ` set cs" | c s' where "k = check_key (step_check s')" "(ToAdd c, s') \<in> set (zip ss ss')"
      by (auto simp: new_keys_def)
    then show "t \<in> (\<lambda>s. c_Type (step_check s)) ` set ss'"
    proof cases
      case 1
      then show ?thesis using k(2) type_set by simp
    next
      case (2 c s')
      then have "s' \<in> set ss'" by (auto dest: set_zip_rightD)
      then show ?thesis using k(2) 2(1) by auto
    qed
  qed
  moreover have "\<exists>k\<in>?K. key_type k = c_Type (step_check s') \<and> fst k = c_Id (step_check s') \<and>
      (\<forall>c. s' = Settled c \<longrightarrow> k = check_key c)" if s': "s' \<in> set ss'" for s'
  proof -
    from s' obtain i where i: "i < length ss'" "s' = ss' ! i" by (auto simp: in_set_conv_nth)
    have len: "length cs = length ss" "length ss = length ss'"
      using list_all2_lengthD[OF dec] list_all2_lengthD[OF ran] by simp_all
    let ?c = "cs ! i" and ?s = "ss ! i"
    have d: "decided (check_json ft) (type_map old) ?c ?s" using list_all2_nthD2[OF dec] i len by simp
    have r: "ran_add ?s s'" using list_all2_nthD2[OF ran] i len by simp
    have cin: "?c \<in> set cs" using i len by simp
    from d consider "?s = ToAdd ?c"
      | ec where "map_of (type_map old) (c_Type ?c) = Some ec" "c_Id ?c = c_Id ec"
          "?s = Settled ?c" "check_json ft ec = check_json ft ?c"
      | ec where "map_of (type_map old) (c_Type ?c) = Some ec" "c_Id ?c = c_Id ec"
          "?s = ToUpdate (?c\<lparr>c_Created := c_Created ec\<rparr>)"
      unfolding decided_def by blast
    then show ?thesis
    proof cases
      case 1
      then obtain c' where c': "s' = Settled c'" using r by (auto simp: ran_add_def)
      have "(ToAdd ?c, s') \<in> set (zip ss ss')"
        using 1 i len by (auto simp: in_set_zip intro!: exI[of _ i])
      then have "check_key (step_check s') \<in> new_keys ss ss'" unfolding new_keys_def by blast
      then show ?thesis using c' by (intro bexI[of _ "check_key c'"]) auto
    next
      case (2 ec)
      then have ec: "ec \<in> set old" "c_Type ec = c_Type ?c" using type_map_Some by auto
      have "check_key ec \<in> ?K" using ec cin by auto
      moreover have "s' = Settled ?c" using r 2(3) by (simp add: ran_add_def)
      ultimately show ?thesis
        using 2(2) ec(2) check_json_key[OF 2(4)] by (intro bexI[of _ "check_key ec"]) auto
    next
      case (3 ec)
      then have ec: "ec \<in> set old" "c_Type ec = c_Type ?c" using type_map_Some by auto
      have "check_key ec \<in> ?K" using ec cin by auto
      moreover have "s' = ToUpdate (?c\<lparr>c_Created := c_Created ec\<rparr>)" using r 3(3) by (simp add: ran_add_def)
      ultimately show ?thesis using 3(2) ec(2) by (intro bexI[of _ "check_key ec"]) auto
    qed
  qed
  ultimately show ?thesis unfolding matching_def using types dist by auto
qed

text \<open>What the returned check shares with the requested one.\<close>

definition as_requested :: "Check \<Rightarrow> Check \<Rightarrow> bool" where
  "as_requested c c' \<longleftrightarrow>
     c_Type c' = c_Type c \<and> c_Route c' = c_Route c \<and> c_Frequency c' = c_Frequency c \<and>
     c_Enabled c' = c_Enabled c \<and> c_Settings c' = c_Settings c \<and> c_HealthSettings c' = c_HealthSettings c"

lemma passes_as_requested:
  assumes "list_all2 (decided enc m) cs ss" "list_all2 ran_add ss ss'" "list_all2 ran_update ss' rs"
  shows "list_all2 as_requested cs rs"
proof -
  have "as_requested c r" if "decided enc m c s" "ran_add s s'" "ran_update s' r" for c s s' r
    using that unfolding decided_def ran_add_def ran_update_def as_requested_def
    by (auto dest: touched_fields added_fields split: check_step.splits)
  then have step: "\<And>c s r. decided enc m c s \<Longrightarrow> (\<exists>s'. ran_add s s' \<and> ran_update s' r) \<Longrightarrow> as_requested c r"
    by blast
  have "list_all2 (\<lambda>s r. \<exists>s'. ran_add s s' \<and> ran_update s' r) ss rs"
    by (rule list_all2_trans[OF _ assms(2,3)]) blast
  with step show ?thesis by (rule list_all2_trans[OF _ assms(1)])
qed

lemma steps_owned:
  assumes "list_all2 (decided enc m) cs ss" and "\<forall>c\<in>set cs. c_OrgId c = org \<and> c_EndpointId c = eid"
  shows "\<forall>s\<in>set ss. owned_step eid org s"
  using assms by (induction rule: list_all2_induct) (auto simp: owned_step_def dest: decided_fields)

lemma adds_owned:
  assumes "list_all2 ran_add ss ss'" and "\<forall>s\<in>set ss. owned_step eid org s"
  shows "(\<forall>s\<in>set ss'. owned_step eid org s) \<and> (\<forall>s\<in>set ss'. \<forall>c. s \<noteq> ToAdd c)"
proof -
  have one: "owned_step eid org s' \<and> (\<forall>c. s' \<noteq> ToAdd c)" if "ran_add s s'" "owned_step eid org s" for s s'
    using that by (cases s) (auto simp: owned_step_def ran_add_def dest: added_fields)
  from assms show ?thesis
    by (induction rule: list_all2_induct) (simp, use one in \<open>simp add: ball_Un\<close>)
qed

text \<open>The whole of \<open>update_checks\<close>, first the invariant, then the content.\<close>

lemma post_update_checks:
  fixes e existing eid org
  defines "own_checks \<equiv> map (\<lambda>c. c\<lparr>c_EndpointId := ed_Id e, c_OrgId := ed_OrgId e\<rparr>) (ed_Checks e)"
  assumes orm: "orm_documented env" and own: "(eid, org) \<in> own" "\<And>k. (eid, k) \<in> own \<Longrightarrow> k = org"
    and e: "ed_Id e = eid" "ed_OrgId e = org"
    and T: "\<And>x c. x \<in> set T \<Longrightarrow> c \<in> set (ed_Checks existing) \<Longrightarrow> c_Id x = c_Id c \<Longrightarrow> c_OrgId x = org"
    and K: "check_key ` set (ed_Checks existing) = check_key ` {x \<in> set T. c_EndpointId x = eid}"
    and types: "distinct (map c_Type (ed_Checks existing))"
  shows "post env (\<lambda>d. sound {} gone own org d0 d \<and> t_check d = T) (update_checks existing sc e)
     (\<lambda>cs d. list_all2 as_requested own_checks cs \<and> sound {} gone own org d0 d \<and>
        (distinct (map c_Type (ed_Checks e)) \<longrightarrow> endpoint_keys d eid = check_key ` set cs))"
proof -
  let ?tys = "c_Type ` set own_checks"
  let ?m = "type_map (ed_Checks existing)"
  let ?gone = "[ec. (ty, ec) \<leftarrow> ?m, ty \<notin> ?tys]"
  let ?enc = "check_json (time_text env)"
  let ?Q = "\<lambda>cs d. list_all2 as_requested own_checks cs \<and> sound {} gone own org d0 d \<and>
     (distinct (map c_Type (ed_Checks e)) \<longrightarrow> endpoint_keys d eid = check_key ` set cs)"
  let ?K1 = "{k \<in> check_key ` set (ed_Checks existing). key_type k \<in> ?tys}"
  have gone: "set ?gone = {c \<in> set (ed_Checks existing). c_Type c \<notin> ?tys}" by (rule abandoned_checks[OF types])
  have own_cs: "\<forall>c\<in>set own_checks. c_OrgId c = org \<and> c_EndpointId c = eid"
    using e by (auto simp: own_checks_def)
  have own_types: "map c_Type own_checks = map c_Type (ed_Checks e)" by (simp add: own_checks_def)
  have del: "post env (\<lambda>d. sound {} gone own org d0 d \<and> t_check d = T) (for_each deleteCheck ?gone)
      (\<lambda>_ d. sound {} gone own org d0 d \<and> endpoint_keys d eid = ?K1)"
  proof (rule post_fix)
    fix d1
    assume d1: "sound {} gone own org d0 d1 \<and> t_check d1 = T"
    have ri: "route_inv {} gone own org d1" using d1 by (simp add: sound_def)
    have Kd: "endpoint_keys d1 eid = check_key ` set (ed_Checks existing)"
      using K d1 by (simp add: endpoint_keys_def checks_of_def)
    have remaining: "check_key ` {x \<in> set T. c_Id x \<notin> c_Id ` set ?gone \<and> c_EndpointId x = eid} = ?K1"
    proof -
      have "c_Id x \<notin> c_Id ` set ?gone \<longleftrightarrow> c_Type x \<in> ?tys" if x: "x \<in> set T" "c_EndpointId x = eid" for x
      proof -
        have "check_key x \<in> check_key ` set (ed_Checks existing)" using K x by blast
        then obtain c where c: "c \<in> set (ed_Checks existing)" "check_key c = check_key x" by auto
        then have ct: "c_Id c = c_Id x" "c_Type c = c_Type x" by (simp_all add: check_key_def)
        have "c_Type g = c_Type x" if "g \<in> set (ed_Checks existing)" "c_Id g = c_Id x" for g
        proof -
          have "check_key g \<in> endpoint_keys d1 eid" "check_key x \<in> endpoint_keys d1 eid"
            using Kd that(1) c by (auto simp flip: c(2))
          from endpoint_keys_unique[OF ri this] that(2) have "check_key g = check_key x" by simp
          then show ?thesis by (simp add: check_key_def)
        qed
        note same = this
        show ?thesis
        proof
          assume "c_Id x \<notin> c_Id ` set ?gone"
          then have "c \<notin> set ?gone" using ct(1) by (metis imageI)
          then show "c_Type x \<in> ?tys" unfolding gone using c(1) ct(2) by simp
        next
          assume t: "c_Type x \<in> ?tys"
          show "c_Id x \<notin> c_Id ` set ?gone"
          proof
            assume "c_Id x \<in> c_Id ` set ?gone"
            then obtain g where "g \<in> set ?gone" "c_Id x = c_Id g" by blast
            then have "g \<in> set (ed_Checks existing)" "c_Type g \<notin> ?tys" "c_Id g = c_Id x"
              unfolding gone by simp_all
            with same t show False by simp
          qed
        qed
      qed
      then have "{x \<in> set T. c_Id x \<notin> c_Id ` set ?gone \<and> c_EndpointId x = eid}
          = {x \<in> set T. c_EndpointId x = eid \<and> c_Type x \<in> ?tys}" by blast
      then have "check_key ` {x \<in> set T. c_Id x \<notin> c_Id ` set ?gone \<and> c_EndpointId x = eid}
          = {k \<in> check_key ` {x \<in> set T. c_EndpointId x = eid}. key_type k \<in> ?tys}" by auto
      then show ?thesis unfolding K .
    qed
    show "post env ((=) d1) (for_each deleteCheck ?gone)
        (\<lambda>_ d. sound {} gone own org d0 d \<and> endpoint_keys d eid = ?K1)"
    proof (rule post_weaken[OF post_delete_checks[where T = T]])
      show "c_OrgId x = org" if "x \<in> set T" "c \<in> set ?gone" "c_Id x = c_Id c" for x c
        using T[OF that(1) _ that(3)] that(2) unfolding gone by blast
      show "sound {} gone own org d0 d \<and> t_check d = T" if "d1 = d" for d using d1 that by blast
      fix d
      assume a: "sound {} gone own org d0 d \<and> t_check d = filter (\<lambda>r. c_Id r \<notin> c_Id ` set ?gone) T"
      then have "endpoint_keys d eid = check_key ` {x \<in> set T. c_Id x \<notin> c_Id ` set ?gone \<and> c_EndpointId x = eid}"
        by (simp add: endpoint_keys_def checks_of_def)
      with a remaining show "sound {} gone own org d0 d \<and> endpoint_keys d eid = ?K1" by simp
    qed
  qed
  have passes: "post env (\<lambda>d. sound {} gone own org d0 d \<and> endpoint_keys d eid = ?K1)
      (bindS (map_each run_add ss) (\<lambda>steps'. map_each run_update steps')) ?Q"
    if dec: "list_all2 (decided ?enc ?m) own_checks ss" for ss
  proof (rule post_bind[OF post_run_adds[OF orm own(1) steps_owned[OF dec own_cs]]], rule post_assume)
    fix ss'
    assume ran: "list_all2 ran_add ss ss'"
    note owned = adds_owned[OF ran steps_owned[OF dec own_cs]]
    show "post env (\<lambda>d. sound {} gone own org d0 d \<and> endpoint_keys d eid = ?K1 \<union> new_keys ss ss')
        (map_each run_update ss') ?Q"
    proof (cases "distinct (map c_Type (ed_Checks e))")
      case True
      then have m: "matching (?K1 \<union> new_keys ss ss') ss'"
        by (intro matching_after_adds[OF dec ran]) (simp add: own_types)
      show ?thesis
        by (rule post_weaken[OF post_run_updates[OF orm own _ m, of gone d0]])
           (use owned passes_as_requested[OF dec ran] in blast)+
    next
      case False
      show ?thesis
        by (rule post_weaken[OF post_run_updates_sound[OF orm own(1), of ss' gone d0]])
           (use owned passes_as_requested[OF dec ran] False in blast)+
    qed
  qed
  show ?thesis
    unfolding update_checks_def Let_def own_checks_def[symmetric]
  proof (rule post_bind[where R = "\<lambda>ft d. ft = time_text env \<and> sound {} gone own org d0 d \<and> t_check d = T"],
      rule post_ask, simp, rule post_assume,
      rule post_bind[where R = "\<lambda>ss d. list_all2 (decided ?enc ?m) own_checks ss \<and> sound {} gone own org d0 d \<and> t_check d = T"])
    fix ft
    assume ft: "ft = time_text env"
    show "post env (\<lambda>d. sound {} gone own org d0 d \<and> t_check d = T)
        (liftS (sort_checks (check_json ft) sc ?m own_checks))
        (\<lambda>ss d. list_all2 (decided ?enc ?m) own_checks ss \<and> sound {} gone own org d0 d \<and> t_check d = T)"
      by (rule post_lift) (use ft sort_checks_decided in blast)
  qed (rule post_assume, rule post_then[OF del passes])
qed

section \<open>The update as a whole\<close>

text \<open>The state an update \<open>e'\<close> of the request \<open>e\<close> leaves.\<close>

definition updated_endpoint :: "EndpointDTO \<Rightarrow> EndpointDTO \<Rightarrow> db \<Rightarrow> bool" where
  "updated_endpoint e e' d \<longleftrightarrow>
     ed_Id e' = ed_Id e \<and> ed_OrgId e' = ed_OrgId e \<and> ed_Name e' = ed_Name e \<and> ed_Tags e' = ed_Tags e \<and>
     ed_Slug e' = endpoint_slug (ed_Name e) \<and>
     (\<exists>ep\<in>set (t_endpoint d). e_Id ep = ed_Id e \<and> e_OrgId ep = ed_OrgId e \<and>
        (ed_Name e \<noteq> [] \<longrightarrow> e_Name ep = ed_Name e)) \<and>
     et_Tag ` set (tags_of d (ed_Id e)) - {[]} = set (ed_Tags e) - {[]} \<and>
     list_all2 as_requested (ed_Checks e) (ed_Checks e') \<and>
     (distinct (map c_Type (ed_Checks e)) \<longrightarrow>
        endpoint_keys d (ed_Id e) = check_key ` set (ed_Checks e'))"

lemma as_requested_owned:
  "list_all2 as_requested (map (\<lambda>c. c\<lparr>c_EndpointId := i, c_OrgId := k\<rparr>) cs) rs \<Longrightarrow>
   list_all2 as_requested cs rs"
  unfolding list_all2_map1 by (erule list_all2_mono) (simp add: as_requested_def)

lemma post_updateEndpoint:
  assumes orm: "orm_documented env" and inv: "store_inv gone d0"
  shows "post env ((=) d0) (updateEndpoint e)
     (\<lambda>e' d. updated_endpoint e e' d \<and> kept gone (ed_OrgId e) d0 d)"
  unfolding updateEndpoint_def
proof (rule post_bind[OF post_getEndpointById], rule post_bind[OF post_now], rule post_fix)
  fix existing t d
  let ?org = "ed_OrgId e" and ?eid = "ed_Id e"
  let ?Q = "\<lambda>e' d. updated_endpoint e e' d \<and> kept gone ?org d0 d"
  assume "d0 = d \<and> represents d existing \<and> ed_Id existing = ?eid \<and>
    (\<exists>e\<in>set (t_endpoint d). e_Id e = ?eid \<and> e_OrgId e = ?org)"
  then obtain e0 where e0: "e0 \<in> set (t_endpoint d0)" "e_Id e0 = ?eid" "e_OrgId e0 = ?org"
    and r: "represents d0 existing" "ed_Id existing = ?eid" and d: "d = d0" by blast
  let ?ep = "Endpoint_UpdateSlug
     \<lparr>e_Id = ?eid, e_OrgId = ?org, e_Name = ed_Name e, e_Slug = [], e_Created = ed_Created existing,
      e_Updated = t\<rparr>"
  let ?e1 = "e\<lparr>ed_Slug := e_Slug ?ep, ed_Updated := e_Updated ?ep\<rparr>"
  have ep: "e_Id ?ep = ?eid" "e_OrgId ?ep = ?org" "e_Name ?ep = ed_Name e" "e_Slug ?ep = endpoint_slug (ed_Name e)"
    by (simp_all add: Endpoint_UpdateSlug_def)
  have own0: "(?eid, ?org) \<in> owners d0" using e0 unfolding owners_def by (metis (no_types, lifting) image_eqI)
  have row: "post env ((=) d0) (update_endpoint_row ?ep)
      (\<lambda>_ d. kept gone ?org d0 d \<and> owners d = owners d0 \<and> t_endpoint_tag d = t_endpoint_tag d0 \<and>
         t_check d = t_check d0 \<and> merge_endpoint ?ep e0 \<in> set (t_endpoint d))"
    by (rule post_update_endpoint_row[OF orm inv e0(1)]) (use e0 ep in simp_all)
  have tail: "post env ((=) d1)
      (thenS (update_tags existing ?e1)
        (bindS (update_checks existing (ed_Slug existing \<noteq> e_Slug ?ep) ?e1) (\<lambda>cs.
         thenS (events_Publish (EndpointUpdated (ed_Updated (?e1\<lparr>ed_Checks := cs\<rparr>)) existing (?e1\<lparr>ed_Checks := cs\<rparr>)))
           (returnS (?e1\<lparr>ed_Checks := cs\<rparr>))))) ?Q"
    if d1: "kept gone ?org d0 d1" "owners d1 = owners d0" "t_endpoint_tag d1 = t_endpoint_tag d0"
      "t_check d1 = t_check d0" "merge_endpoint ?ep e0 \<in> set (t_endpoint d1)" for d1
  proof (rule post_then[where R = "\<lambda>d. kept gone ?org d1 d \<and> t_endpoint d = t_endpoint d1 \<and> t_check d = t_check d1 \<and>
        et_Tag ` set (tags_of d ?eid) - {[]} = set (ed_Tags e) - {[]}"])
    have inv1: "store_inv gone d1" using d1(1) by (simp add: kept_def)
    have old: "set (ed_Tags existing) = et_Tag ` set (tags_of d1 ?eid) - {[]}"
      using r d1(3) by (simp add: represents_def tags_of_def)
    show "post env ((=) d1) (update_tags existing ?e1)
        (\<lambda>_ d. kept gone ?org d1 d \<and> t_endpoint d = t_endpoint d1 \<and> t_check d = t_check d1 \<and>
          et_Tag ` set (tags_of d ?eid) - {[]} = set (ed_Tags e) - {[]})"
      by (rule post_weaken[OF post_update_tags[OF inv1, of ?e1 ?org existing]])
         (use own0 d1(2) old in simp_all)
    show "post env (\<lambda>d. kept gone ?org d1 d \<and> t_endpoint d = t_endpoint d1 \<and> t_check d = t_check d1 \<and>
          et_Tag ` set (tags_of d ?eid) - {[]} = set (ed_Tags e) - {[]})
        (bindS (update_checks existing (ed_Slug existing \<noteq> e_Slug ?ep) ?e1) (\<lambda>cs.
         thenS (events_Publish (EndpointUpdated (ed_Updated (?e1\<lparr>ed_Checks := cs\<rparr>)) existing (?e1\<lparr>ed_Checks := cs\<rparr>)))
           (returnS (?e1\<lparr>ed_Checks := cs\<rparr>)))) ?Q"
    proof (rule post_fix)
      fix d2
      assume d2: "kept gone ?org d1 d2 \<and> t_endpoint d2 = t_endpoint d1 \<and> t_check d2 = t_check d1 \<and>
          et_Tag ` set (tags_of d2 ?eid) - {[]} = set (ed_Tags e) - {[]}"
      then have k2: "kept gone ?org d0 d2" using kept_trans[OF d1(1)] by blast
      then have inv2: "store_inv gone d2" by (simp add: kept_def)
      have "owners d2 = owners d1" using d2 by (simp add: owners_def)
      then have own2: "owners d2 = owners d0" using d1(2) by simp
      have own_u: "k = ?org" if "(?eid, k) \<in> owners d0" for k
        using owner_unique[OF inv e0(1,2) that] e0(3) by simp
      have T: "t_check d2 = t_check d0" using d2 d1(4) by simp
      have K: "check_key ` set (ed_Checks existing) = check_key ` {x \<in> set (t_check d0). c_EndpointId x = ?eid}"
        using represented_keys[OF inv r] by (simp add: endpoint_keys_def checks_of_def)
      note upd = post_update_checks[OF orm, of ?eid ?org "owners d0" ?e1 "t_check d0" existing gone d2
          "ed_Slug existing \<noteq> e_Slug ?ep"]
      have checks: "post env ((=) d2) (update_checks existing (ed_Slug existing \<noteq> e_Slug ?ep) ?e1)
          (\<lambda>cs d. list_all2 as_requested (map (\<lambda>c. c\<lparr>c_EndpointId := ?eid, c_OrgId := ?org\<rparr>) (ed_Checks e)) cs \<and>
             sound {} gone (owners d0) ?org d2 d \<and>
             (distinct (map c_Type (ed_Checks e)) \<longrightarrow> endpoint_keys d ?eid = check_key ` set cs))"
      proof (rule post_weaken[OF upd])
        show "(?eid, ?org) \<in> owners d0" by (rule own0)
        show "k = ?org" if "(?eid, k) \<in> owners d0" for k using own_u[OF that] .
        show "c_OrgId x = ?org"
          if "x \<in> set (t_check d0)" "c \<in> set (ed_Checks existing)" "c_Id x = c_Id c" for x c
          using represented_checks(2)[OF inv r e0 that] by simp
        show "distinct (map c_Type (ed_Checks existing))" by (rule represented_types[OF inv r e0])
        show "sound {} gone (owners d0) ?org d2 d \<and> t_check d = t_check d0" if "d2 = d" for d
          using sound_start[OF inv2, of ?org] own2 T that by simp
      qed (use K in simp_all)
      show "post env ((=) d2)
          (bindS (update_checks existing (ed_Slug existing \<noteq> e_Slug ?ep) ?e1) (\<lambda>cs.
           thenS (events_Publish (EndpointUpdated (ed_Updated (?e1\<lparr>ed_Checks := cs\<rparr>)) existing (?e1\<lparr>ed_Checks := cs\<rparr>)))
             (returnS (?e1\<lparr>ed_Checks := cs\<rparr>)))) ?Q"
      proof (rule post_bind[OF checks], rule post_then[OF post_publish], rule post_return)
        fix cs d
        let ?e2 = "?e1\<lparr>ed_Checks := cs\<rparr>"
        assume a: "list_all2 as_requested (map (\<lambda>c. c\<lparr>c_EndpointId := ?eid, c_OrgId := ?org\<rparr>) (ed_Checks e)) cs \<and>
             sound {} gone (owners d0) ?org d2 d \<and>
             (distinct (map c_Type (ed_Checks e)) \<longrightarrow> endpoint_keys d ?eid = check_key ` set cs)"
        then have k: "kept gone ?org d0 d" using sound_kept[OF k2] own2 by simp
        have f: "t_endpoint d = t_endpoint d2" "t_endpoint_tag d = t_endpoint_tag d2"
          using a others_fields[of d d2] unfolding sound_def by blast+
        have m: "merge_endpoint ?ep e0 \<in> set (t_endpoint d)" using d1(5) d2 f by simp
        have "e_Id (merge_endpoint ?ep e0) = ?eid" "e_OrgId (merge_endpoint ?ep e0) = ?org"
          "ed_Name e \<noteq> [] \<longrightarrow> e_Name (merge_endpoint ?ep e0) = ed_Name e"
          using e0 ep by (auto simp: merge_endpoint_def nz_def)
        with m have ex: "\<exists>ep\<in>set (t_endpoint d). e_Id ep = ?eid \<and> e_OrgId ep = ?org \<and>
            (ed_Name e \<noteq> [] \<longrightarrow> e_Name ep = ed_Name e)" by blast
        have "et_Tag ` set (tags_of d ?eid) - {[]} = set (ed_Tags e) - {[]}"
          using d2 f(2) by (simp add: tags_of_def)
        moreover have "list_all2 as_requested (ed_Checks e) cs" using a as_requested_owned by blast
        ultimately show "?Q ?e2 d"
          using k ex a ep(4) by (simp add: updated_endpoint_def)
      qed
    qed
  qed
  show "post env ((=) d)
      (let ep = ?ep
       in thenS (update_endpoint_row ep)
        (let e1 = e\<lparr>ed_Slug := e_Slug ep, ed_Updated := e_Updated ep\<rparr>
         in thenS (update_tags existing e1)
            (bindS (update_checks existing (ed_Slug existing \<noteq> e_Slug ep) e1) (\<lambda>cs.
             let e2 = e1\<lparr>ed_Checks := cs\<rparr>
             in thenS (events_Publish (EndpointUpdated (ed_Updated e2) existing e2)) (returnS e2))))) ?Q"
    unfolding d Let_def by (rule post_then[OF row], rule post_fix) (use tail in blast)
qed

end
