(* ===== verification/CheckQueries.thy ===== *)
theory CheckQueries
  imports EndpointUpdate
begin

text \<open>
  The rest of \<open>pkg/services/sqlstore/endpoint.go\<close> and the routing query of \<open>probe.go\<close>: which checks a
  probe runs (\<open>GetProbeChecks\<close>) and which probes run a check (\<open>GetProbesForCheck\<close>), the validation of
  a route against the stored probes, the checks due at a tick, and the state updates that the alert
  executor stores.
\<close>

section \<open>The checks of a probe\<close>

text \<open>The two halves of the \<open>UNION\<close>, which removes duplicates.\<close>

definition check_ids_by_id :: "int \<Rightarrow> db \<Rightarrow> int list" where
  "check_ids_by_id p d =
     [ri_CheckId r. r \<leftarrow> t_route_id d, ri_ProbeId r = p,
        c \<leftarrow> t_check d, c_Id c = ri_CheckId r \<and> c_Enabled c]"

definition check_ids_by_tag :: "int \<Rightarrow> db \<Rightarrow> int list" where
  "check_ids_by_tag p d =
     [rt_CheckId r. r \<leftarrow> t_route_tag d,
        t \<leftarrow> t_probe_tag d, rt_OrgId r = pt_OrgId t \<and> rt_Tag r = pt_Tag t \<and> pt_ProbeId t = p]"

definition probe_check_ids :: "int \<Rightarrow> db \<Rightarrow> int list" where
  "probe_check_ids p d = remdups (check_ids_by_id p d @ check_ids_by_tag p d)"

definition getProbeChecks :: "ProbeDTO \<Rightarrow> Check list op" where
  "getProbeChecks p =
     bindS (query (\<lambda>env d. probe_check_ids (pd_Id p) d)) (\<lambda>ids.
       if ids = [] then returnS []
       else query (\<lambda>env d. filter (\<lambda>c. c_Id c \<in> set ids \<and> c_Enabled c) (t_check d)))"

definition GetProbeChecks :: "ProbeDTO \<Rightarrow> Check list op" where
  "GetProbeChecks p = getProbeChecks p"

definition getProbeChecksWithEndpointSlug :: "ProbeDTO \<Rightarrow> CheckWithSlug list op" where
  "getProbeChecksWithEndpointSlug p =
     bindS (query (\<lambda>env d. probe_check_ids (pd_Id p) d)) (\<lambda>ids.
       if ids = [] then returnS []
       else query (\<lambda>env d.
         [\<lparr>cs_Check = c, cs_Slug = e_Slug e\<rparr>. c \<leftarrow> t_check d, c_Id c \<in> set ids \<and> c_Enabled c,
            e \<leftarrow> t_endpoint d, c_EndpointId c = e_Id e]))"

definition GetProbeChecksWithEndpointSlug :: "ProbeDTO \<Rightarrow> CheckWithSlug list op" where
  "GetProbeChecksWithEndpointSlug p = getProbeChecksWithEndpointSlug p"

section \<open>The probes of a check (probe.go)\<close>

definition unknown_routeType :: fault where
  "unknown_routeType = Error (OtherError ''unknown routeType'')"

definition probes_with_tags :: "int \<Rightarrow> string list \<Rightarrow> db \<Rightarrow> int list" where
  "probes_with_tags org tags d =
     remdups [p_Id p. p \<leftarrow> t_probe d,
        t \<leftarrow> t_probe_tag d, pt_ProbeId t = p_Id p \<and> pt_OrgId t = org \<and> pt_Tag t \<in> set tags]"

definition getProbesForCheck :: "Check \<Rightarrow> int list op" where
  "getProbesForCheck c =
     bindS (liftS (route_of c)) (\<lambda>r.
       if r_Type r = RouteByTags then
         bindS (liftS (config_tags r)) (\<lambda>tags. query (\<lambda>env d. probes_with_tags (c_OrgId c) tags d))
       else if r_Type r = RouteByIds then liftS (config_ids r)
       else failS unknown_routeType)"

definition GetProbesForCheck :: "Check \<Rightarrow> int list op" where
  "GetProbesForCheck c = getProbesForCheck c"

section \<open>Validating a route\<close>

definition no_tags_error :: fault where
  "no_tags_error = Error (ValidationError ''Need at least 1 tag defined in route config.'')"

definition no_ids_error :: fault where
  "no_ids_error = Error (ValidationError ''Need at least 1 valid id defined in route config.'')"

definition validateCheckRoute :: "Check \<Rightarrow> Check op" where
  "validateCheckRoute c =
     (if \<not> c_Enabled c then returnS c
      else bindS (liftS (route_of c)) (\<lambda>r.
        if r_Type r = RouteByTags then
          bindS (liftS (config_tags r)) (\<lambda>tags. if tags = [] then failS no_tags_error else returnS c)
        else if r_Type r = RouteByIds then
          bindS (liftS (config_ids r)) (\<lambda>ids.
            if ids = [] then failS no_ids_error
            else bindS (query (\<lambda>env d. [p_Id p. p \<leftarrow> t_probe d,
                     (p_OrgId p = c_OrgId c \<or> p_Public p) \<and> p_Id p \<in> set ids])) (\<lambda>results.
              if results = [] then failS no_ids_error
              else returnS (c\<lparr>c_Route := Some (r\<lparr>r_Config :=
                     AList.update ''ids'' (CInts results) (r_Config r)\<rparr>)\<rparr>)))
        else failS (Error (ValidationError ''400: unknown route type''))))"

definition ValidateCheckRoute :: "Check \<Rightarrow> Check op" where
  "ValidateCheckRoute c = validateCheckRoute c"

section \<open>The checks due at a tick\<close>

text \<open>\<open>?\<close> and a column under SQL's \<open>%\<close>: NULL for a zero divisor, the sign of the dividend otherwise.\<close>

definition sql_mod :: "int \<Rightarrow> int \<Rightarrow> int option" where
  "sql_mod a b = (if b = 0 then None else Some (sgn a * (\<bar>a\<bar> mod \<bar>b\<bar>)))"

definition alert_dto :: "Check \<Rightarrow> Endpoint \<Rightarrow> CheckForAlertDTO" where
  "alert_dto c e =
     \<lparr>a_Id = c_Id c, a_OrgId = c_OrgId c, a_EndpointId = c_EndpointId c, a_Slug = e_Slug e,
      a_Name = e_Name e, a_Type = c_Type c, a_Offset = c_Offset c, a_Frequency = c_Frequency c,
      a_Enabled = c_Enabled c, a_State = c_State c, a_StateChange = c_StateChange c,
      a_StateCheck = c_StateCheck c, a_Settings = c_Settings c,
      a_HealthSettings = c_HealthSettings c, a_Created = c_Created c, a_Updated = c_Updated c\<rparr>"

definition zero_alert_dto :: CheckForAlertDTO where
  "zero_alert_dto =
     \<lparr>a_Id = 0, a_OrgId = 0, a_EndpointId = 0, a_Slug = [], a_Name = [], a_Type = [], a_Offset = 0,
      a_Frequency = 0, a_Enabled = False, a_State = 0, a_StateChange = zero_time,
      a_StateCheck = zero_time, a_Settings = [], a_HealthSettings = None, a_Created = zero_time,
      a_Updated = zero_time\<rparr>"

definition due :: "int \<Rightarrow> Check \<Rightarrow> bool" where
  "due ts c \<longleftrightarrow> c_Enabled c \<and> sql_mod ts (c_Frequency c) = Some (c_Offset c)"

definition due_rows :: "int \<Rightarrow> db \<Rightarrow> CheckForAlertDTO list" where
  "due_rows ts d =
     [alert_dto c e. c \<leftarrow> t_check d, due ts c, e \<leftarrow> t_endpoint d, c_EndpointId c = e_Id e]"

text \<open>The slice handed to \<open>Find\<close> already holds ten zero values.\<close>

definition getChecksForAlerts :: "int \<Rightarrow> CheckForAlertDTO list op" where
  "getChecksForAlerts ts = query (\<lambda>env d. find_onto env (replicate 10 zero_alert_dto) (due_rows ts d))"

definition GetChecksForAlerts :: "int \<Rightarrow> CheckForAlertDTO list op" where
  "GetChecksForAlerts ts = getChecksForAlerts ts"

section \<open>Storing a result\<close>

definition state_hit :: "AlertingJob \<Rightarrow> Check \<Rightarrow> bool" where
  "state_hit j c \<longleftrightarrow> c_Id c = a_Id j \<and> c_State c \<noteq> j_NewState j \<and> c_StateChange c < j_TimeExec j"

definition check_hit :: "AlertingJob \<Rightarrow> Check \<Rightarrow> bool" where
  "check_hit j c \<longleftrightarrow> c_Id c = a_Id j \<and> c_StateCheck c < j_TimeExec j"

definition set_state :: "AlertingJob \<Rightarrow> Check \<Rightarrow> Check" where
  "set_state j c =
     (if state_hit j c then c\<lparr>c_State := j_NewState j, c_StateChange := j_TimeExec j\<rparr> else c)"

definition set_checked :: "AlertingJob \<Rightarrow> Check \<Rightarrow> Check" where
  "set_checked j c = (if check_hit j c then c\<lparr>c_StateCheck := j_TimeExec j\<rparr> else c)"

text \<open>Both statements; the first also yields the number of affected rows.\<close>

definition exec_state :: "AlertingJob \<Rightarrow> int op" where
  "exec_state j = stmt (\<lambda>env d.
     Inr (int (length (filter (state_hit j) (t_check d))), d\<lparr>t_check := map (set_state j) (t_check d)\<rparr>))"

definition exec_checked :: "AlertingJob \<Rightarrow> unit op" where
  "exec_checked j = exec (\<lambda>env d. d\<lparr>t_check := map (set_checked j) (t_check d)\<rparr>)"

definition updateCheckState :: "AlertingJob \<Rightarrow> bool op" where
  "updateCheckState j =
     bindS (exec_state j) (\<lambda>aff. thenS (exec_checked j) (returnS (aff > 0)))"

definition UpdateCheckState :: "AlertingJob \<Rightarrow> bool op" where
  "UpdateCheckState j = transact (updateCheckState j)"

definition batchUpdateCheckState :: "AlertingJob list \<Rightarrow> AlertingJob list op" where
  "batchUpdateCheckState jobs =
     bindS (map_each (\<lambda>j. bindS (exec_state j) (\<lambda>aff.
         thenS (exec_checked j) (returnS (if aff > 0 then [j] else [])))) jobs)
       (\<lambda>changed. returnS (concat changed))"

definition BatchUpdateCheckState :: "AlertingJob list \<Rightarrow> AlertingJob list op" where
  "BatchUpdateCheckState jobs = transact (batchUpdateCheckState jobs)"

section \<open>Lemmas\<close>

text \<open>The effect of a result on one check.\<close>

definition apply_result :: "AlertingJob \<Rightarrow> Check \<Rightarrow> Check" where
  "apply_result j c = set_checked j (set_state j c)"

lemma apply_result_fields [simp]:
  "c_Id (apply_result j c) = c_Id c" "c_OrgId (apply_result j c) = c_OrgId c"
  "c_EndpointId (apply_result j c) = c_EndpointId c" "c_Route (apply_result j c) = c_Route c"
  "c_Type (apply_result j c) = c_Type c" "c_Enabled (apply_result j c) = c_Enabled c"
  by (simp_all add: apply_result_def set_checked_def set_state_def)

lemma set_state_fields [simp]:
  "c_Id (set_state j c) = c_Id c" "c_Id (set_checked j c) = c_Id c"
  by (simp_all add: set_checked_def set_state_def)

lemma post_updateCheckState:
  "post env ((=) d0) (updateCheckState j)
     (\<lambda>b d. d = d0\<lparr>t_check := map (apply_result j) (t_check d0)\<rparr> \<and>
        (b \<longleftrightarrow> (\<exists>c\<in>set (t_check d0). state_hit j c)))"
  unfolding updateCheckState_def exec_state_def exec_checked_def
proof (rule post_bind[where R = "\<lambda>aff d. d = d0\<lparr>t_check := map (set_state j) (t_check d0)\<rparr> \<and>
     (aff > 0 \<longleftrightarrow> (\<exists>c\<in>set (t_check d0). state_hit j c))"], rule post_stmt)
  fix aff
  show "post env (\<lambda>d. d = d0\<lparr>t_check := map (set_state j) (t_check d0)\<rparr> \<and>
      (aff > 0 \<longleftrightarrow> (\<exists>c\<in>set (t_check d0). state_hit j c)))
    (thenS (exec (\<lambda>env d. d\<lparr>t_check := map (set_checked j) (t_check d)\<rparr>)) (returnS (0 < aff)))
    (\<lambda>b d. d = d0\<lparr>t_check := map (apply_result j) (t_check d0)\<rparr> \<and>
        (b \<longleftrightarrow> (\<exists>c\<in>set (t_check d0). state_hit j c)))"
    by (rule post_then[OF post_exec post_return]) (auto simp: apply_result_def comp_def)
qed (auto simp: length_greater_0_conv filter_empty_conv)

text \<open>Rewriting the checks in place keeps the store invariant when the routed fields stay.\<close>

lemma store_inv_map_checks:
  assumes inv: "store_inv gone d"
    and g: "\<And>c. c_Id (g c) = c_Id c \<and> c_OrgId (g c) = c_OrgId c \<and> c_EndpointId (g c) = c_EndpointId c \<and>
      c_Route (g c) = c_Route c \<and> c_Type (g c) = c_Type c"
  shows "store_inv gone (d\<lparr>t_check := map g (t_check d)\<rparr>)"
proof -
  let ?d = "d\<lparr>t_check := map g (t_check d)\<rparr>"
  have own: "owners ?d = owners d" by (simp add: owners_def)
  have ri: "route_inv {} gone (owners d) 0 d" and ok: "endpoints_ok d" using inv by (auto simp: store_inv_def)
  have "endpoints_ok ?d" using ok by (simp add: endpoints_ok_def own)
  moreover have "route_inv {} gone (owners d) 0 ?d"
  proof (rule route_invI)
    have "map c_Id (map g xs) = map c_Id xs"
      "map (\<lambda>r. (c_OrgId r, c_EndpointId r, c_Type r)) (map g xs) = map (\<lambda>r. (c_OrgId r, c_EndpointId r, c_Type r)) xs" for xs
      using g by simp_all
    then show "check_keys_ok (t_check ?d)"
      using route_invD(1)[OF ri] by (simp add: check_keys_ok_def unique_on_def del: map_map)
    show "check_ok {} gone (owners d) 0 ?d x" if "x \<in> set (t_check ?d)" for x
    proof -
      from that obtain y where y: "y \<in> set (t_check d)" "x = g y" by auto
      show ?thesis using route_invD(2)[OF ri y(1)] g[of y] y(2) by (simp add: check_ok_def index_of_route_tag)
    qed
    show "tag_row_ok {} 0 (t_check ?d) r" if "r \<in> set (t_route_tag ?d)" for r
      using route_invD(3)[OF ri, of r] that g by (simp add: tag_row_ok_def)
    show "id_row_ok {} (t_check ?d) r" if "r \<in> set (t_route_id ?d)" for r
      using route_invD(4)[OF ri, of r] that g by (simp add: id_row_ok_def image_image)
  qed
  ultimately show ?thesis by (simp add: store_inv_def own)
qed

lemma store_inv_results: "store_inv gone d \<Longrightarrow> store_inv gone (d\<lparr>t_check := map (apply_result j) (t_check d)\<rparr>)"
  by (rule store_inv_map_checks) simp_all

text \<open>The checks of a probe, read off the index.\<close>

lemma in_check_ids_by_id:
  "cid \<in> set (check_ids_by_id p d) \<longleftrightarrow>
     p \<in> id_index d cid \<and> (\<exists>c\<in>set (t_check d). c_Id c = cid \<and> c_Enabled c)" (is "?l \<longleftrightarrow> ?r")
proof
  assume ?l then show ?r by (auto simp: check_ids_by_id_def id_index_def)
next
  assume ?r
  then obtain r c where "r \<in> set (t_route_id d)" "ri_ProbeId r = p" "ri_CheckId r = cid"
    "c \<in> set (t_check d)" "c_Id c = cid" "c_Enabled c" by (auto simp: id_index_def)
  then show ?l unfolding check_ids_by_id_def by (simp del: Int_iff) fastforce
qed

lemma in_check_ids_by_tag:
  "cid \<in> set (check_ids_by_tag p d) \<longleftrightarrow>
     (\<exists>r\<in>set (t_route_tag d). \<exists>t\<in>set (t_probe_tag d).
        rt_CheckId r = cid \<and> rt_OrgId r = pt_OrgId t \<and> rt_Tag r = pt_Tag t \<and> pt_ProbeId t = p)" (is "?l \<longleftrightarrow> ?r")
proof
  assume ?l then show ?r by (auto simp: check_ids_by_tag_def)
next
  assume ?r
  then obtain r t where "r \<in> set (t_route_tag d)" "t \<in> set (t_probe_tag d)" "rt_CheckId r = cid"
    "rt_OrgId r = pt_OrgId t" "rt_Tag r = pt_Tag t" "pt_ProbeId t = p" by auto
  then show ?l unfolding check_ids_by_tag_def by (simp del: Int_iff) fastforce
qed

lemma in_probe_check_ids:
  "cid \<in> set (probe_check_ids p d) \<longleftrightarrow>
     (p \<in> id_index d cid \<and> (\<exists>c\<in>set (t_check d). c_Id c = cid \<and> c_Enabled c)) \<or>
     (\<exists>r\<in>set (t_route_tag d). \<exists>t\<in>set (t_probe_tag d).
        rt_CheckId r = cid \<and> rt_OrgId r = pt_OrgId t \<and> rt_Tag r = pt_Tag t \<and> pt_ProbeId t = p)"
  by (simp add: probe_check_ids_def in_check_ids_by_id in_check_ids_by_tag)

lemma run_query: "\<not> faults env (w_calls w) \<Longrightarrow>
   query f env w = (Inr (f env (w_db w)), w\<lparr>w_calls := Suc (w_calls w)\<rparr>)"
  by (simp add: query_def stmt_def Let_def)

lemma post_getProbeChecks:
  "post env P (getProbeChecks p)
     (\<lambda>cs d. P d \<and> set cs = {c \<in> set (t_check d). c_Id c \<in> set (probe_check_ids (pd_Id p) d) \<and> c_Enabled c})"
  unfolding getProbeChecks_def
proof (rule post_bind[where R = "\<lambda>ids d. P d \<and> ids = probe_check_ids (pd_Id p) d"])
  show "post env P (query (\<lambda>env. probe_check_ids (pd_Id p)))
      (\<lambda>ids d. P d \<and> ids = probe_check_ids (pd_Id p) d)"
    by (rule post_query) simp
  show "post env (\<lambda>d. P d \<and> ids = probe_check_ids (pd_Id p) d)
      (if ids = [] then returnS []
       else query (\<lambda>env d. filter (\<lambda>c. c_Id c \<in> set ids \<and> c_Enabled c) (t_check d)))
      (\<lambda>cs d. P d \<and> set cs = {c \<in> set (t_check d). c_Id c \<in> set (probe_check_ids (pd_Id p) d) \<and> c_Enabled c})" for ids
    by (auto intro!: post_if post_return post_query)
qed

end
