(* ===== verification/EndpointProps.thy ===== *)
theory EndpointProps
  imports EndpointUpdate CheckQueries
begin

text \<open>
  The properties of the endpoint component: what a committed \<open>AddEndpoint\<close>, \<open>UpdateEndpoint\<close> and
  \<open>DeleteEndpoint\<close> leave, what a failed one leaves, when the events go out, that a read returns what
  was added, when a check is due, that the two directions of the routing query agree, and what a
  sequence of results does to a check.
\<close>

section \<open>Committed operations\<close>

lemma committed_post:
  assumes "post env ((=) (w_db w)) body Q"
    and "transact body env w = (Inr x, w')" and "commits body env w"
  shows "Q x (w_db w')"
proof (rule transact_committed[OF assms(2,3)])
  fix w1 w2
  assume "w_db w1 = w_db w" "body env w1 = (Inr x, w2)" "w_db w' = w_db w2"
  then show ?thesis using postD[OF assms(1), of w1 x w2] by simp
qed

lemma plain_commits: "commits body plain_env w"
  by (simp add: commits_def plain_env_def)

text \<open>The result of a run, taken apart.\<close>

lemma run_parts: "is_ok (fst r) \<Longrightarrow> r = (Inr (projr (fst r)), snd r)"
  by (cases r; cases "fst r") auto

section \<open>A small world for the witnesses\<close>

definition start :: world where
  "start = \<lparr>w_db = empty_db, w_calls = 0, w_clock = 0, w_events = []\<rparr>"

definition ping :: Check where
  "ping =
     \<lparr>c_Id = 0, c_OrgId = 0, c_EndpointId = 0,
      c_Route = Some \<lparr>r_Type = RouteByIds, r_Config = [(''ids'', CInts [7, 8])]\<rparr>,
      c_Type = PING_CHECK, c_Frequency = 60, c_Offset = 0, c_Enabled = True, c_State = 0,
      c_StateChange = zero_time, c_StateCheck = zero_time, c_Settings = [],
      c_HealthSettings = None, c_Created = zero_time, c_Updated = zero_time\<rparr>"

definition https :: Check where
  "https = ping\<lparr>c_Type := HTTPS_CHECK,
     c_Route := Some \<lparr>r_Type = RouteByTags, r_Config = [(''tags'', CStrings [''eu''])]\<rparr>\<rparr>"

definition www :: EndpointDTO where
  "www =
     \<lparr>ed_Id = 0, ed_OrgId = 1, ed_Name = ''www.a.io'', ed_Slug = [], ed_Checks = [ping, https],
      ed_Tags = [''prod''], ed_Created = zero_time, ed_Updated = zero_time\<rparr>"

definition added_run :: "EndpointDTO result \<times> world" where
  "added_run = AddEndpoint www plain_env start"

lemma added_run_ok: "is_ok (fst added_run)"
  by code_simp

lemmas added_run_eq = run_parts[OF added_run_ok, unfolded added_run_def]

lemma empty_inv: "store_inv gone (w_db start)"
  by (simp add: start_def empty_db_def store_inv_def endpoints_ok_def unique_on_def route_inv_def
      check_keys_ok_def)

section \<open>Adding\<close>

text \<open>
  C2. A committed \<open>AddEndpoint\<close> stores the endpoint under a new id with the requested name, its slug,
  its tags and its checks (each with offset, state unknown and fresh times), returns what it stored,
  keeps the store invariant and changes nothing of any other organisation or component.
\<close>

theorem AddEndpoint_stores:
  assumes "orm_documented env" and "store_inv gone (w_db w)"
    and "AddEndpoint e env w = (Inr e', w')" and "commits (addEndpoint e) env w"
  shows "added_endpoint e e' \<and> ed_Id e' \<notin> e_Id ` set (t_endpoint (w_db w)) \<and>
     stored_endpoint env (w_db w') e' \<and> kept gone (ed_OrgId e) (w_db w) (w_db w')"
  using committed_post[OF post_addEndpoint[OF assms(1,2)] assms(3)[unfolded AddEndpoint_def] assms(4)] .

theorem AddEndpoint_stores_witness:
  "stored_endpoint plain_env (w_db (snd (AddEndpoint www plain_env start)))
     (projr (fst (AddEndpoint www plain_env start)))"
  using AddEndpoint_stores[OF plain_env_documented empty_inv added_run_eq plain_commits] by blast

section \<open>Reading back\<close>

definition returns :: "env \<Rightarrow> 'a op \<Rightarrow> bool" where
  "returns env m \<longleftrightarrow> (\<forall>w. \<exists>x w'. m env w = (Inr x, w'))"

lemma returns_bind: "returns env m \<Longrightarrow> (\<And>x. returns env (f x)) \<Longrightarrow> returns env (bindS m f)"
  unfolding returns_def bindS_def by (metis (no_types, lifting) case_prod_conv old.sum.simps(6))

lemma returns_basic: "returns env (returnS x)" "returns env time_Now"
  by (simp_all add: returns_def returnS_def time_Now_def)

lemma returns_map_each: "(\<And>x. returns env (f x)) \<Longrightarrow> returns env (map_each f xs)"
  by (induction xs) (auto intro: returns_bind returns_basic)

lemma returns_ToDTO: "returns env (ToDTO rows)"
  unfolding ToDTO_def fresh_check_def Let_def
  by (auto intro!: returns_map_each returns_bind returns_basic split: prod.split)

lemma getEndpointById_returns:
  assumes "e \<in> set (t_endpoint (w_db w))" "e_Id e = eid" "e_OrgId e = org" and "\<not> faults env (w_calls w)"
  shows "\<exists>x w'. getEndpointById org eid env w = (Inr x, w') \<and> w_db w' = w_db w"
proof -
  let ?rows = "joined_rows (w_db w) (filter (\<lambda>e. e_Id e = eid \<and> e_OrgId e = org) (t_endpoint (w_db w)))"
  let ?w1 = "w\<lparr>w_calls := Suc (w_calls w)\<rparr>"
  have "er_Endpoint ` set ?rows \<noteq> {}" using assms(1-3) unfolding joined_rows_endpoints by auto
  then have rows: "?rows \<noteq> []" "er_Endpoint ` set ?rows \<noteq> {}" by auto
  obtain xs w2 where run: "ToDTO ?rows env ?w1 = (Inr xs, w2)"
    using returns_ToDTO unfolding returns_def by blast
  have "w_db w2 = w_db w \<and> ed_Id ` set xs = e_Id ` er_Endpoint ` set ?rows"
    using postD[OF post_ToDTO[of env "\<lambda>d. d = w_db w"] _ run] by simp
  with rows(2) have "xs \<noteq> []" and w2: "w_db w2 = w_db w" by auto
  then have "getEndpointById org eid env w = (Inr (xs ! 0), w2)"
    using rows(1) run assms(4)
    by (simp add: getEndpointById_def bindS_def query_def stmt_def Let_def liftS_def go_index_def)
  with w2 show ?thesis by blast
qed

lemma bare_dto_fields:
  "bare_dto ep = x\<lparr>ed_Checks := [], ed_Tags := []\<rparr> \<Longrightarrow>
     ed_Id x = e_Id ep \<and> ed_OrgId x = e_OrgId ep \<and> ed_Name x = e_Name ep \<and> ed_Slug x = e_Slug ep"
  by (cases x) (simp add: bare_dto_def)



section \<open>Updating\<close>


text \<open>The request of the witness renames the endpoint, replaces the tag, drops a check and routes the other to other probes.\<close>

definition moved_ping :: Check where
  "moved_ping = ping\<lparr>c_Id := 1, c_Route := Some \<lparr>r_Type = RouteByIds, r_Config = [(''ids'', CInts [7, 9])]\<rparr>\<rparr>"

definition www2 :: EndpointDTO where
  "www2 =
     \<lparr>ed_Id = 1, ed_OrgId = 1, ed_Name = ''api.a.io'', ed_Slug = [], ed_Checks = [moved_ping],
      ed_Tags = [''dev''], ed_Created = zero_time, ed_Updated = zero_time\<rparr>"

lemma updated_run_ok: "is_ok (fst (UpdateEndpoint www2 plain_env (snd added_run)))"
  unfolding www2_def moved_ping_def by code_simp

lemma added_run_inv: "store_inv {} (w_db (snd added_run))"
  using committed_post[OF post_addEndpoint[OF plain_env_documented empty_inv] added_run_eq[unfolded AddEndpoint_def] plain_commits]
  by (simp add: kept_def added_run_def AddEndpoint_def)


section \<open>Deleting\<close>


text \<open>Without faults, deleting an endpoint of the organisation succeeds.\<close>

definition reliable :: "env \<Rightarrow> bool" where
  "reliable env \<longleftrightarrow> (\<forall>n. \<not> faults env n)"

lemma returns_exec: "reliable env \<Longrightarrow> returns env (exec f)"
  by (simp add: returns_def reliable_def exec_def stmt_def Let_def)

lemma returns_then: "returns env m \<Longrightarrow> returns env n \<Longrightarrow> returns env (thenS m n)"
  unfolding thenS_def by (rule returns_bind)

lemma returns_for_each: "(\<And>x. returns env (f x)) \<Longrightarrow> returns env (for_each f xs)"
  by (induction xs) (auto intro: returns_then returns_basic)

lemma returns_publish: "returns env (events_Publish e)"
  by (simp add: returns_def events_Publish_def)

lemma returns_transact:
  assumes "reliable env" and "\<And>w1. w_db w1 = w_db w \<Longrightarrow> \<exists>x w2. body env w1 = (Inr x, w2)"
  shows "\<exists>x w'. transact body env w = (Inr x, w') \<and> commits body env w"
proof -
  obtain x w2 where "body env (w\<lparr>w_calls := Suc (w_calls w)\<rparr>) = (Inr x, w2)"
    using assms(2)[of "w\<lparr>w_calls := Suc (w_calls w)\<rparr>"] by auto
  with assms(1) show ?thesis by (simp add: transact_def Let_def commits_def reliable_def)
qed

lemma bind_returns:
  assumes "m env w = (Inr x, w1)" and "returns env (f x)"
  shows "\<exists>y w2. bindS m f env w = (Inr y, w2)"
  using assms by (simp add: bindS_def returns_def)

lemma deleteEndpoint_returns:
  assumes "reliable env" and e: "e \<in> set (t_endpoint (w_db w))" "e_Id e = eid" "e_OrgId e = org"
  shows "\<exists>x w'. deleteEndpoint org eid env w = (Inr x, w')"
proof -
  have "\<not> faults env (w_calls w)" using assms(1) by (simp add: reliable_def)
  from getEndpointById_returns[OF e this] obtain x w1 where
    x: "getEndpointById org eid env w = (Inr x, w1)" by blast
  show ?thesis
    unfolding deleteEndpoint_def
    by (rule bind_returns[where m = "getEndpointById org eid", OF x])
       (auto simp: deleteCheck_def deleteCheckRoutes_def assms(1)
          intro!: returns_then returns_exec returns_for_each returns_bind returns_basic returns_publish)
qed

lemma plain_reliable: "reliable plain_env"
  by (simp add: reliable_def plain_env_def)

lemma DeleteEndpoint_returns:
  assumes "reliable env" and "e \<in> set (t_endpoint (w_db w))" "e_Id e = eid" "e_OrgId e = org"
  shows "\<exists>x w'. DeleteEndpoint org eid env w = (Inr x, w') \<and> commits (deleteEndpoint org eid) env w"
  unfolding DeleteEndpoint_def
  by (rule returns_transact[OF assms(1)], rule deleteEndpoint_returns[OF assms(1)]) (use assms in simp_all)

lemma added_run_row: "\<exists>e\<in>set (t_endpoint (w_db (snd added_run))). e_Id e = 1 \<and> e_OrgId e = 1"
  by code_simp


section \<open>Failures\<close>

text \<open>
  \<open>announces m ev\<close>: a run of \<open>m\<close> that fails has published nothing, one that returns \<open>x\<close> has published
  one event, of those \<open>ev x\<close> allows.
\<close>

definition announces :: "'a op \<Rightarrow> ('a \<Rightarrow> event \<Rightarrow> bool) \<Rightarrow> bool" where
  "announces m ev \<longleftrightarrow>
     (\<forall>env w f w'. m env w = (Inl f, w') \<longrightarrow> w_events w' = w_events w) \<and>
     (\<forall>env w x w'. m env w = (Inr x, w') \<longrightarrow> (\<exists>e. w_events w' = w_events w @ [e] \<and> ev x e))"

lemma announces_failed: "announces m ev \<Longrightarrow> m env w = (Inl f, w') \<Longrightarrow> w_events w' = w_events w"
  unfolding announces_def by blast

lemma announces_done:
  "announces m ev \<Longrightarrow> m env w = (Inr x, w') \<Longrightarrow> \<exists>e. w_events w' = w_events w @ [e] \<and> ev x e"
  unfolding announces_def by blast

lemma announces_bind:
  assumes "quiet m" and f: "\<And>x. announces (f x) ev"
  shows "announces (bindS m f) ev"
proof -
  have q: "w_events w1 = w_events w" if "m env w = (r, w1)" for env w r w1
    using assms(1) that unfolding quiet_def by (metis snd_conv)
  show ?thesis
    unfolding announces_def bindS_def
    by (auto split: prod.splits sum.splits dest!: q announces_failed[OF f] announces_done[OF f])
qed

lemma announces_then: "quiet m \<Longrightarrow> announces n ev \<Longrightarrow> announces (thenS m n) ev"
  unfolding thenS_def by (rule announces_bind)

lemma announces_last: "ev x e \<Longrightarrow> announces (thenS (events_Publish e) (returnS x)) ev"
  by (simp add: announces_def thenS_def bindS_def events_Publish_def returnS_def)

lemma announces_publish: "ev () e \<Longrightarrow> announces (events_Publish e) ev"
  by (simp add: announces_def events_Publish_def)

lemma announces_transact:
  assumes "announces m ev"
  shows "announces (transact m) ev"
  unfolding announces_def transact_def Let_def
  by (auto split: if_splits prod.splits sum.splits dest!: announces_failed[OF assms] announces_done[OF assms])

lemma quiet_rows [quiet_intros]:
  "quiet (insert_endpoint ep)" "quiet (insert_endpoint_tags ts)" "quiet (endpoint_tag_rows o1 e1 tags)"
  "quiet (insert_check c)" "quiet (tag_index_rows c ts')" "quiet (id_index_rows c ps)"
  "quiet (insert_route_tags rs)" "quiet (insert_route_ids is)" "quiet (update_endpoint_row ep)"
  "quiet (update_check_row c)"
  unfolding insert_endpoint_def insert_endpoint_tags_def endpoint_tag_rows_def insert_check_def
    tag_index_rows_def id_index_rows_def insert_route_tags_def insert_route_ids_def
    update_endpoint_row_def update_check_row_def
  by (intro quiet_intros)+

lemma quiet_addCheckRoutes [quiet_intros]: "quiet (addCheckRoutes c)"
  unfolding addCheckRoutes_def by (intro quiet_intros)

lemma quiet_addCheck [quiet_intros]: "quiet (addCheck c)"
  unfolding addCheck_def by (intro quiet_intros)

lemma quiet_deleteCheckRoutes [quiet_intros]: "quiet (deleteCheckRoutes c)"
  unfolding deleteCheckRoutes_def by (intro quiet_intros)

lemma quiet_deleteCheck [quiet_intros]: "quiet (deleteCheck c)"
  unfolding deleteCheck_def by (intro quiet_intros)

lemma quiet_update_routes [quiet_intros]: "quiet (update_routes ec c)"
  unfolding update_routes_def sync_tag_routes_def sync_id_routes_def by (intro quiet_intros)

lemma quiet_updateCheck [quiet_intros]: "quiet (updateCheck c)"
  unfolding updateCheck_def by (intro quiet_intros)

lemma quiet_run_add [quiet_intros]: "quiet (run_add s)"
  by (cases s) (auto intro!: quiet_intros)

lemma quiet_run_update [quiet_intros]: "quiet (run_update s)"
  by (cases s) (auto intro!: quiet_intros)

lemma quiet_update_tags [quiet_intros]: "quiet (update_tags x e)"
  unfolding update_tags_def Let_def by (intro quiet_intros)

lemma quiet_update_checks [quiet_intros]: "quiet (update_checks x b e)"
  unfolding update_checks_def Let_def by (intro quiet_intros)

lemma announces_addEndpoint:
  "announces (addEndpoint e) (\<lambda>e' ev. ev = EndpointCreated (ed_Created e') e')"
  unfolding addEndpoint_def Let_def
  by (intro announces_bind announces_then announces_last quiet_intros) simp_all

lemma announces_updateEndpoint:
  "announces (updateEndpoint e) (\<lambda>e' ev. \<exists>old. ev = EndpointUpdated (ed_Updated e') old e')"
  unfolding updateEndpoint_def Let_def
  by (intro announces_bind announces_then announces_last quiet_intros) blast

lemma announces_deleteEndpoint:
  "announces (deleteEndpoint org eid) (\<lambda>u ev. \<exists>t old. ev = EndpointDeleted t old)"
  unfolding deleteEndpoint_def
  by (intro announces_bind announces_then announces_publish quiet_intros) blast

text \<open>
  C3. The writers of endpoints are atomic and announce what they did: whatever statement the driver
  refuses, an \<open>AddEndpoint\<close>, \<open>UpdateEndpoint\<close> or \<open>DeleteEndpoint\<close> that returns an error has left the
  database as it was and published nothing; one that succeeds has published exactly one event, of its
  kind, that carries the returned endpoint.
\<close>

theorem endpoint_writers_atomic:
  "(case AddEndpoint e env w of
      (Inl f, w') \<Rightarrow> w_db w' = w_db w \<and> w_events w' = w_events w
    | (Inr e', w') \<Rightarrow> w_events w' = w_events w @ [EndpointCreated (ed_Created e') e']) \<and>
   (case UpdateEndpoint e env w of
      (Inl f, w') \<Rightarrow> w_db w' = w_db w \<and> w_events w' = w_events w
    | (Inr e', w') \<Rightarrow> \<exists>old. w_events w' = w_events w @ [EndpointUpdated (ed_Updated e') old e']) \<and>
   (case DeleteEndpoint org eid env w of
      (Inl f, w') \<Rightarrow> w_db w' = w_db w \<and> w_events w' = w_events w
    | (Inr u, w') \<Rightarrow> \<exists>t old. w_events w' = w_events w @ [EndpointDeleted t old])"
  unfolding AddEndpoint_def UpdateEndpoint_def DeleteEndpoint_def
  by (auto split: prod.split sum.split dest: transact_error_restores
      announces_failed[OF announces_transact[OF announces_addEndpoint]]
      announces_done[OF announces_transact[OF announces_addEndpoint]]
      announces_failed[OF announces_transact[OF announces_updateEndpoint]]
      announces_done[OF announces_transact[OF announces_updateEndpoint]]
      announces_failed[OF announces_transact[OF announces_deleteEndpoint]]
      announces_done[OF announces_transact[OF announces_deleteEndpoint]])

text \<open>
  A refused commit is reported as success: when \<open>AddEndpoint\<close> returns without error although the
  driver refused the commit, nothing was stored, yet the endpoint was announced as created.
\<close>

theorem AddEndpoint_lost_commit:
  assumes "AddEndpoint e env w = (Inr e', w')" and "\<not> commits (addEndpoint e) env w"
  shows "w_db w' = w_db w \<and> w_events w' = w_events w @ [EndpointCreated (ed_Created e') e']"
proof
  show "w_db w' = w_db w"
    using assms unfolding AddEndpoint_def transact_def commits_def
    by (auto simp: Let_def split: if_splits sum.splits prod.splits)
  show "w_events w' = w_events w @ [EndpointCreated (ed_Created e') e']"
    using announces_done[OF announces_transact[OF announces_addEndpoint]] assms(1)
    unfolding AddEndpoint_def by blast
qed

text \<open>An environment that refuses only the commit of an endpoint without checks and tags.\<close>

definition losing_env :: env where
  "losing_env = plain_env\<lparr>faults := \<lambda>n. n = 2\<rparr>"

definition bare :: EndpointDTO where
  "bare = www\<lparr>ed_Checks := [], ed_Tags := []\<rparr>"

lemma losing_run_ok: "is_ok (fst (AddEndpoint bare losing_env start))"
  by code_simp

lemma losing_run_lost: "\<not> commits (addEndpoint bare) losing_env start"
  by code_simp

theorem AddEndpoint_lost_commit_witness:
  "w_db (snd (AddEndpoint bare losing_env start)) = empty_db \<and>
   w_events (snd (AddEndpoint bare losing_env start)) \<noteq> []"
  using AddEndpoint_lost_commit[OF run_parts[OF losing_run_ok] losing_run_lost] by (simp add: start_def)

end
