(* ===== verification/CheckProps.thy ===== *)
theory CheckProps
  imports EndpointProps
begin

text \<open>
  The properties of stored checks: the tick at which a check is due, the agreement of the two
  directions of the routing query, the validation of a route, and what the results of the alert
  executor make of a check, in order and out of order.
\<close>

section \<open>When a check is due\<close>

lemma sql_mod_nonneg: "0 \<le> ts \<Longrightarrow> 0 < f \<Longrightarrow> sql_mod ts f = Some (ts mod f)"
  by (cases "ts = 0") (simp_all add: sql_mod_def)

lemma one_tick:
  fixes f :: int
  assumes "0 < f" and "0 \<le> r" "r < f"
  shows "\<exists>!ts. t \<le> ts \<and> ts < t + f \<and> ts mod f = r"
proof
  let ?ts = "t + (r - t) mod f"
  have "?ts mod f = (t + (r - t)) mod f" by (rule mod_add_right_eq)
  with assms show "t \<le> ?ts \<and> ?ts < t + f \<and> ?ts mod f = r" by simp
  fix u
  assume u: "t \<le> u \<and> u < t + f \<and> u mod f = r"
  then have "(u - t) mod f = (r - t) mod f" by (metis mod_diff_left_eq)
  with u show "u = ?ts" by (simp add: mod_pos_pos_trivial)
qed

lemma list_all2_setD: "list_all2 R xs ys \<Longrightarrow> y \<in> set ys \<Longrightarrow> \<exists>x\<in>set xs. R x y"
  by (induction rule: list_all2_induct) auto

lemma added_stored_offset:
  assumes "added_endpoint e e'" "stored_endpoint env d e'" "c \<in> set (checks_of d (ed_Id e'))"
  shows "go_rem (ed_Id e') (c_Frequency c) = Inr (c_Offset c)"
proof -
  from assms(2,3) obtain c' where c': "c' \<in> set (ed_Checks e')" "c = stored_check env c'"
    by (auto simp: stored_endpoint_def)
  have "list_all2 (\<lambda>c c'. added (c\<lparr>c_OrgId := ed_OrgId e, c_EndpointId := ed_Id e'\<rparr>) c') (ed_Checks e) (ed_Checks e')"
    using assms(1) by (simp add: added_endpoint_def)
  from list_all2_setD[OF this c'(1)] obtain c0 where
    "added (c0\<lparr>c_OrgId := ed_OrgId e, c_EndpointId := ed_Id e'\<rparr>) c'" by blast
  then show ?thesis by (auto simp: added_def c'(2) stored_check_def)
qed

text \<open>
  C10. The offset \<open>EndpointId % Frequency\<close> spreads the checks: an enabled check of an endpoint just
  added is due at exactly one second of every window of \<open>Frequency\<close> seconds.
\<close>

theorem added_check_due_once:
  assumes "orm_documented env" and "store_inv gone (w_db w)"
    and "AddEndpoint e env w = (Inr e', w')" and "commits (addEndpoint e) env w"
    and "c \<in> set (checks_of (w_db w') (ed_Id e'))" and "c_Enabled c" and "0 < c_Frequency c"
    and "0 < ed_Id e'" and "0 \<le> t"
  shows "\<exists>!ts. t \<le> ts \<and> ts < t + c_Frequency c \<and> due ts c"
proof -
  have a: "added_endpoint e e'" "stored_endpoint env (w_db w') e'"
    using committed_post[OF post_addEndpoint[OF assms(1,2)] assms(3)[unfolded AddEndpoint_def] assms(4)] by auto
  have off: "c_Offset c = ed_Id e' mod c_Frequency c"
    using added_stored_offset[OF a assms(5)] assms(7,8) by (simp add: go_rem_pos)
  have "due ts c \<longleftrightarrow> ts mod c_Frequency c = ed_Id e' mod c_Frequency c" if "t \<le> ts" for ts
    using that assms(6-9) off by (simp add: due_def sql_mod_nonneg)
  then show ?thesis using one_tick[OF assms(7), of "ed_Id e' mod c_Frequency c" t] assms(7)
    by (metis pos_mod_bound pos_mod_sign)
qed

lemma added_run_check:
  "\<exists>c\<in>set (checks_of (w_db (snd added_run)) (ed_Id (projr (fst added_run)))). c_Enabled c \<and> c_Frequency c = 60"
  by code_simp

lemma added_run_id: "ed_Id (projr (fst added_run)) = 1"
  by code_simp

theorem added_check_due_once_witness:
  "\<exists>c. \<exists>!ts. 1000 \<le> ts \<and> ts < 1000 + c_Frequency c \<and> due ts c"
proof -
  from added_run_check obtain c where c: "c \<in> set (checks_of (w_db (snd added_run)) (ed_Id (projr (fst added_run))))"
    "c_Enabled c" "0 < c_Frequency c" by fastforce
  have "0 < ed_Id (projr (fst added_run))" by (simp add: added_run_id)
  from added_check_due_once[OF plain_env_documented empty_inv added_run_eq plain_commits
      c[unfolded added_run_def] this[unfolded added_run_def], of 1000]
  show ?thesis by auto
qed

lemma never_due: "0 < c_Frequency c \<Longrightarrow> c_Frequency c \<le> c_Offset c \<Longrightarrow> \<not> due ts c"
proof
  assume a: "0 < c_Frequency c" "c_Frequency c \<le> c_Offset c" and "due ts c"
  then have "sgn ts * (\<bar>ts\<bar> mod c_Frequency c) = c_Offset c" by (simp add: due_def sql_mod_def)
  moreover have "sgn ts * (\<bar>ts\<bar> mod c_Frequency c) < c_Frequency c"
    using a(1) pos_mod_bound[OF a(1), of "\<bar>ts\<bar>"] pos_mod_sign[OF a(1), of "\<bar>ts\<bar>"]
    by (cases ts "0 :: int" rule: linorder_cases) (simp_all add: sgn_if)
  ultimately show False using a(2) by simp
qed

text \<open>
  The endpoint gets id 60 and a check every 120 seconds, hence offset 60; the update asks for every 60
  seconds, hence offset 0, a zero value that the ORM's \<open>Update\<close> leaves out.
\<close>

definition env60 :: env where
  "env60 = plain_env\<lparr>auto_id := \<lambda>ids. fold max ids 59 + 1\<rparr>"

definition slow_ping :: Check where
  "slow_ping = ping\<lparr>c_Frequency := 120\<rparr>"

definition slow :: EndpointDTO where
  "slow = www\<lparr>ed_Checks := [slow_ping]\<rparr>"

definition faster :: EndpointDTO where
  "faster = slow\<lparr>ed_Id := 60, ed_Checks := [slow_ping\<lparr>c_Id := 60, c_Frequency := 60\<rparr>]\<rparr>"

definition slow_run :: "EndpointDTO result \<times> world" where
  "slow_run = AddEndpoint slow env60 start"

definition faster_run :: "EndpointDTO result \<times> world" where
  "faster_run = UpdateEndpoint faster env60 (snd slow_run)"

lemma env60_documented: "orm_documented env60"
proof -
  have "fold max ids 59 + 1 \<notin> set ids \<and> fold max ids 59 + 1 \<noteq> (0 :: int)" for ids
    using fold_max_bound(1)[of "fold max ids 59 + 1" ids 59] fold_max_bound(2)[of 59 ids] by auto
  then show ?thesis
    using plain_env_documented by (simp add: orm_documented_def env60_def plain_env_def)
qed

lemma faster_run_ok: "is_ok (fst slow_run) \<and> is_ok (fst faster_run)"
  by code_simp

lemma faster_run_check:
  "\<exists>c\<in>set (t_check (w_db (snd faster_run))). c_Enabled c \<and> c_Frequency c = 60 \<and> c_Offset c = 60"
  by code_simp

text \<open>
  An update can silence a check for good: with an ORM as documented, there is an endpoint whose
  accepted update of a check's frequency leaves the check enabled with an offset that no tick has, so
  it is never due again.
\<close>

theorem update_can_silence_check:
  "orm_documented env60 \<and> is_ok (fst slow_run) \<and> is_ok (fst faster_run) \<and>
   (\<exists>c\<in>set (t_check (w_db (snd faster_run))). c_Enabled c \<and> c_Frequency c = 60 \<and> (\<forall>ts. \<not> due ts c))"
proof -
  from faster_run_check obtain c where c: "c \<in> set (t_check (w_db (snd faster_run)))" "c_Enabled c"
    "c_Frequency c = 60" "c_Offset c = 60" by blast
  then have "\<forall>ts. \<not> due ts c" using never_due[of c] by simp
  with c show ?thesis using env60_documented faster_run_ok by blast
qed

section \<open>Routing\<close>

lemma post_getProbesForCheck:
  "post env P (getProbesForCheck c) (\<lambda>ps d. P d \<and> (\<exists>r. c_Route c = Some r \<and>
     (r_Type r = RouteByTags \<and> (\<exists>ts. config_tags r = Inr ts \<and> ps = probes_with_tags (c_OrgId c) ts d) \<or>
      r_Type r = RouteByIds \<and> config_ids r = Inr ps)))"
  unfolding getProbesForCheck_def
proof (rule post_bind[where R = "\<lambda>r d. P d \<and> c_Route c = Some r"])
  show "post env P (liftS (route_of c)) (\<lambda>r d. P d \<and> c_Route c = Some r)"
    by (rule post_lift) (auto simp: route_of_def split: option.splits)
  fix r
  have tags: "post env (\<lambda>d. P d \<and> c_Route c = Some r)
     (bindS (liftS (config_tags r)) (\<lambda>tags. query (\<lambda>env d. probes_with_tags (c_OrgId c) tags d)))
     (\<lambda>ps d. P d \<and> c_Route c = Some r \<and> (\<exists>ts. config_tags r = Inr ts \<and> ps = probes_with_tags (c_OrgId c) ts d))"
    by (rule post_bind[where R = "\<lambda>ts d. P d \<and> c_Route c = Some r \<and> config_tags r = Inr ts"])
       (auto intro: post_lift post_query)
  show "post env (\<lambda>d. P d \<and> c_Route c = Some r)
     (if r_Type r = RouteByTags then
         bindS (liftS (config_tags r)) (\<lambda>tags. query (\<lambda>env d. probes_with_tags (c_OrgId c) tags d))
       else if r_Type r = RouteByIds then liftS (config_ids r)
       else failS unknown_routeType)
     (\<lambda>ps d. P d \<and> (\<exists>r. c_Route c = Some r \<and>
     (r_Type r = RouteByTags \<and> (\<exists>ts. config_tags r = Inr ts \<and> ps = probes_with_tags (c_OrgId c) ts d) \<or>
      r_Type r = RouteByIds \<and> config_ids r = Inr ps)))"
    by (intro post_if post_weaken[OF tags] post_lift post_fail) auto
qed

lemma in_probes_with_tags:
  "p \<in> set (probes_with_tags org ts d) \<longleftrightarrow>
     p \<in> p_Id ` set (t_probe d) \<and>
     (\<exists>t\<in>set (t_probe_tag d). pt_ProbeId t = p \<and> pt_OrgId t = org \<and> pt_Tag t \<in> set ts)" (is "?l \<longleftrightarrow> ?r")
proof
  assume ?l then show ?r by (auto simp: probes_with_tags_def)
next
  assume ?r
  then obtain x t where "x \<in> set (t_probe d)" "p_Id x = p" "t \<in> set (t_probe_tag d)" "pt_ProbeId t = p"
    "pt_OrgId t = org" "pt_Tag t \<in> set ts" by auto
  then show ?l unfolding probes_with_tags_def by (simp del: Int_iff) fastforce
qed

lemma route_by_index:
  assumes inv: "store_inv gone d" and c: "c \<in> set (t_check d)" "c_Enabled c" and p: "p \<notin> gone"
    and r: "c_Route c = Some r"
  shows "c_Id c \<in> set (probe_check_ids p d) \<longleftrightarrow>
     (r_Type r = RouteByIds \<and> (\<exists>is. config_ids r = Inr is \<and> p \<in> set is) \<or>
      r_Type r = RouteByTags \<and> (\<exists>ts. config_tags r = Inr ts \<and>
        (\<exists>t\<in>set (t_probe_tag d). pt_ProbeId t = p \<and> pt_OrgId t = c_OrgId c \<and> pt_Tag t \<in> set ts)))"
proof -
  have ri: "route_inv {} gone (owners d) 0 d" using inv by (simp add: store_inv_def)
  have keys: "check_keys_ok (t_check d)" using route_invD(1)[OF ri] .
  have m: "route_matches gone (Some r) (tag_index d (c_Id c)) (id_index d (c_Id c))"
    using route_invD(2)[OF ri c(1)] r by (simp add: check_ok_def)
  have org: "rt_OrgId x = c_OrgId c" if "x \<in> set (t_route_tag d)" "rt_CheckId x = c_Id c" for x
  proof -
    from route_invD(3)[OF ri that(1)] obtain y where y: "y \<in> set (t_check d)" "c_Id y = rt_CheckId x" "c_OrgId y = rt_OrgId x"
      by (auto simp: tag_row_ok_def)
    then show ?thesis using check_idD[OF keys y(1) c(1)] that(2) by simp
  qed
  have ids: "(\<exists>y\<in>set (t_check d). c_Id y = c_Id c \<and> c_Enabled y)" using c by blast
  have tag: "(\<exists>x\<in>set (t_route_tag d). \<exists>t\<in>set (t_probe_tag d). rt_CheckId x = c_Id c \<and> rt_OrgId x = pt_OrgId t \<and>
       rt_Tag x = pt_Tag t \<and> pt_ProbeId t = p) \<longleftrightarrow>
     (\<exists>t\<in>set (t_probe_tag d). pt_ProbeId t = p \<and> pt_OrgId t = c_OrgId c \<and> pt_Tag t \<in> tag_index d (c_Id c))"
    (is "?l \<longleftrightarrow> ?r")
  proof
    assume ?l then show ?r using org unfolding tag_index_def by (metis (mono_tags, lifting) imageI mem_Collect_eq)
  next
    assume ?r
    then obtain t x where "t \<in> set (t_probe_tag d)" "pt_ProbeId t = p" "pt_OrgId t = c_OrgId c"
      "x \<in> set (t_route_tag d)" "rt_CheckId x = c_Id c" "rt_Tag x = pt_Tag t" by (auto simp: tag_index_def)
    then show ?l using org by metis
  qed
  show ?thesis
    unfolding in_probe_check_ids tag using m p ids by (auto simp: route_matches_def)
qed

text \<open>
  C4. The two directions of the routing agree: for an enabled stored check and a stored probe that was
  not deleted, \<open>GetProbesForCheck\<close> lists the probe exactly when \<open>GetProbeChecks\<close> hands the check to
  the probe.
\<close>

theorem routing_agrees:
  assumes "store_inv gone d" and "c \<in> set (t_check d)" and "c_Enabled c"
    and "pd_Id p \<in> p_Id ` set (t_probe d)" and "pd_Id p \<notin> gone"
    and "w_db w = d" and "GetProbesForCheck c env w = (Inr ps, w')"
    and "w_db u = d" and "GetProbeChecks p env' u = (Inr cs, u')"
  shows "pd_Id p \<in> set ps \<longleftrightarrow> c \<in> set cs"
proof -
  have ps: "\<exists>r. c_Route c = Some r \<and>
     (r_Type r = RouteByTags \<and> (\<exists>ts. config_tags r = Inr ts \<and> ps = probes_with_tags (c_OrgId c) ts d) \<or>
      r_Type r = RouteByIds \<and> config_ids r = Inr ps)"
    using postD[OF post_getProbesForCheck[where P = "\<lambda>x. x = d"] assms(6) assms(7)[unfolded GetProbesForCheck_def]] by auto
  have cs: "set cs = {c \<in> set (t_check d). c_Id c \<in> set (probe_check_ids (pd_Id p) d) \<and> c_Enabled c}"
    using postD[OF post_getProbeChecks[where P = "\<lambda>x. x = d"] assms(8) assms(9)[unfolded GetProbeChecks_def]] by auto
  from ps obtain r where r: "c_Route c = Some r" and
    ps: "r_Type r = RouteByTags \<and> (\<exists>ts. config_tags r = Inr ts \<and> ps = probes_with_tags (c_OrgId c) ts d) \<or>
      r_Type r = RouteByIds \<and> config_ids r = Inr ps" by blast
  have "c \<in> set cs \<longleftrightarrow> c_Id c \<in> set (probe_check_ids (pd_Id p) d)"
    using cs assms(2,3) by blast
  then show ?thesis
    using ps assms(4) unfolding route_by_index[OF assms(1-3,5) r] by (auto simp: in_probes_with_tags)
qed

definition probe7 :: Probe where
  "probe7 = \<lparr>p_Id = 7, p_OrgId = 1, p_Slug = ''p'', p_Name = ''p'', p_Public = False, p_Latitude = 0,
     p_Longitude = 0, p_Created = 0, p_Updated = 0, p_Online = True, p_OnlineChange = 0,
     p_Enabled = True, p_EnabledChange = 0\<rparr>"

definition probe7_dto :: ProbeDTO where
  "probe7_dto = \<lparr>pd_Id = 7, pd_OrgId = 1, pd_Slug = ''p'', pd_Name = ''p'', pd_Tags = [], pd_Public = False,
     pd_Latitude = 0, pd_Longitude = 0, pd_Online = True, pd_OnlineChange = 0, pd_Enabled = True,
     pd_EnabledChange = 0, pd_Created = 0, pd_Updated = 0, pd_RemoteIp = []\<rparr>"

definition probed :: world where
  "probed = (snd added_run)\<lparr>w_db := (w_db (snd added_run))\<lparr>t_probe := [probe7]\<rparr>\<rparr>"

lemma store_inv_probes: "store_inv gone (d\<lparr>t_probe := x\<rparr>) = store_inv gone d"
  using route_inv_tables[of "d\<lparr>t_probe := x\<rparr>" d]
  by (simp add: store_inv_def endpoints_ok_def owners_def)

lemma probed_runs:
  "t_check (w_db probed) \<noteq> [] \<and> c_Enabled (hd (t_check (w_db probed))) \<and>
   is_ok (fst (GetProbesForCheck (hd (t_check (w_db probed))) plain_env probed))"
  "is_ok (fst (GetProbeChecks probe7_dto plain_env probed))"
  by code_simp+

theorem routing_agrees_witness:
  "7 \<in> set (projr (fst (GetProbesForCheck (hd (t_check (w_db probed))) plain_env probed))) \<longleftrightarrow>
   hd (t_check (w_db probed)) \<in> set (projr (fst (GetProbeChecks probe7_dto plain_env probed)))"
proof -
  have inv: "store_inv {} (w_db probed)" using added_run_inv by (simp add: probed_def store_inv_probes)
  have p: "pd_Id probe7_dto \<in> p_Id ` set (t_probe (w_db probed))" "pd_Id probe7_dto \<notin> {}"
    by (simp_all add: probed_def probe7_def probe7_dto_def)
  show ?thesis
    using routing_agrees[OF inv _ _ p refl run_parts refl run_parts[OF probed_runs(2)]] probed_runs(1)
    by (simp add: probe7_dto_def)
qed

section \<open>Validating a route\<close>

text \<open>
  \<open>ValidateCheckRoute\<close> on an enabled check routed by ids keeps of the requested ids those of probes
  the organisation owns or that are public, refuses the check when none is left, and changes nothing
  else of it.
\<close>

theorem ValidateCheckRoute_ids:
  assumes "c_Enabled c" and "c_Route c = Some r" and "r_Type r = RouteByIds" and "config_ids r = Inr is"
    and "ValidateCheckRoute c env w = (res, w')" and "\<not> faults env (w_calls w)"
  shows "w_db w' = w_db w \<and>
     (case res of
        Inl f \<Rightarrow> f = no_ids_error \<and> (\<forall>p\<in>set (t_probe (w_db w)). p_OrgId p = c_OrgId c \<or> p_Public p \<longrightarrow> p_Id p \<notin> set is)
      | Inr c' \<Rightarrow> \<exists>r' ids. c' = c\<lparr>c_Route := Some r'\<rparr> \<and> r_Type r' = RouteByIds \<and> config_ids r' = Inr ids \<and> ids \<noteq> [] \<and>
          set ids = {p_Id p | p. p \<in> set (t_probe (w_db w)) \<and> (p_OrgId p = c_OrgId c \<or> p_Public p) \<and> p_Id p \<in> set is})"
proof -
  define ps where "ps = [p_Id p. p \<leftarrow> t_probe (w_db w), (p_OrgId p = c_OrgId c \<or> p_Public p) \<and> p_Id p \<in> set is]"
  have set_ps: "set ps = {p_Id p | p. p \<in> set (t_probe (w_db w)) \<and> (p_OrgId p = c_OrgId c \<or> p_Public p) \<and> p_Id p \<in> set is}"
    by (auto simp: ps_def)
  have none: "ps = [] \<longleftrightarrow> (\<forall>p\<in>set (t_probe (w_db w)). p_OrgId p = c_OrgId c \<or> p_Public p \<longrightarrow> p_Id p \<notin> set is)"
    unfolding set_empty[symmetric] set_ps by blast
  have "ValidateCheckRoute c env w =
     (if is = [] then failS no_ids_error
      else bindS (query (\<lambda>env d. [p_Id p. p \<leftarrow> t_probe d, (p_OrgId p = c_OrgId c \<or> p_Public p) \<and> p_Id p \<in> set is])) (\<lambda>results.
         if results = [] then failS no_ids_error
         else returnS (c\<lparr>c_Route := Some (r\<lparr>r_Config := AList.update ''ids'' (CInts results) (r_Config r)\<rparr>)\<rparr>))) env w"
    using assms(1-4)
    by (simp add: ValidateCheckRoute_def validateCheckRoute_def route_of_def bindS_def liftS_def)
  also have "\<dots> = (if ps = [] then Inl no_ids_error
      else Inr (c\<lparr>c_Route := Some (r\<lparr>r_Config := AList.update ''ids'' (CInts ps) (r_Config r)\<rparr>)\<rparr>),
      if is = [] then w else w\<lparr>w_calls := Suc (w_calls w)\<rparr>)"
    using assms(6) by (simp add: bindS_def run_query failS_def returnS_def ps_def)
  finally have run: "res = (if ps = [] then Inl no_ids_error
      else Inr (c\<lparr>c_Route := Some (r\<lparr>r_Config := AList.update ''ids'' (CInts ps) (r_Config r)\<rparr>)\<rparr>))"
    "w' = (if is = [] then w else w\<lparr>w_calls := Suc (w_calls w)\<rparr>)"
    using assms(5) by simp_all
  show ?thesis
  proof (cases "ps = []")
    case True
    then show ?thesis using run none by simp
  next
    case False
    have "config_ids (r\<lparr>r_Config := AList.update ''ids'' (CInts ps) (r_Config r)\<rparr>) = Inr ps"
      by (simp add: config_ids_def update_conv')
    with False run assms(3) set_ps show ?thesis by (intro conjI) auto
  qed
qed

lemma validated_ok:
  "ValidateCheckRoute ping plain_env probed =
     (fst (ValidateCheckRoute ping plain_env probed), snd (ValidateCheckRoute ping plain_env probed))"
  by simp

theorem ValidateCheckRoute_ids_witness:
  "w_db (snd (ValidateCheckRoute ping plain_env probed)) = w_db probed"
proof -
  have "\<not> faults plain_env (w_calls probed)" by (simp add: plain_env_def)
  then show ?thesis
    using ValidateCheckRoute_ids[OF _ _ _ _ validated_ok, of "\<lparr>r_Type = RouteByIds, r_Config = [(''ids'', CInts [7, 8])]\<rparr>" "[7, 8]"]
    by (simp add: ping_def config_ids_def)
qed

end
