(* ===== verification/ResultProps.thy ===== *)
theory ResultProps
  imports CheckProps
begin

text \<open>
  What results do to the stored checks: the effect of one update, a batch as a fold over its jobs, the
  state a batch in time order leaves, and the protection against results that arrive late.
\<close>

section \<open>A batch of results\<close>

lemma post_apply_one:
  "post env ((=) d0) (bindS (exec_state j) (\<lambda>aff. thenS (exec_checked j) (returnS (if aff > 0 then [j] else []))))
     (\<lambda>js d. d = d0\<lparr>t_check := map (apply_result j) (t_check d0)\<rparr> \<and> set js \<subseteq> {j})"
proof (rule post_bind[where R = "\<lambda>aff d. d = d0\<lparr>t_check := map (set_state j) (t_check d0)\<rparr>"])
  show "post env ((=) d0) (exec_state j) (\<lambda>aff d. d = d0\<lparr>t_check := map (set_state j) (t_check d0)\<rparr>)"
    unfolding exec_state_def by (rule post_stmt) auto
  show "post env (\<lambda>d. d = d0\<lparr>t_check := map (set_state j) (t_check d0)\<rparr>)
      (thenS (exec_checked j) (returnS (if 0 < aff then [j] else [])))
      (\<lambda>js d. d = d0\<lparr>t_check := map (apply_result j) (t_check d0)\<rparr> \<and> set js \<subseteq> {j})" for aff
    unfolding exec_checked_def
    by (rule post_then[OF post_exec post_return]) (auto simp: apply_result_def comp_def)
qed

lemma post_batchUpdateCheckState:
  "post env ((=) d0) (batchUpdateCheckState jobs)
     (\<lambda>js d. d = d0\<lparr>t_check := map (fold apply_result jobs) (t_check d0)\<rparr> \<and> set js \<subseteq> set jobs)"
proof -
  let ?f = "\<lambda>j. bindS (exec_state j) (\<lambda>aff. thenS (exec_checked j) (returnS (if aff > 0 then [j] else [])))"
  let ?I = "\<lambda>js (rs :: AlertingJob list list) d. d = d0\<lparr>t_check := map (fold apply_result js) (t_check d0)\<rparr> \<and>
     set (concat rs) \<subseteq> set js"
  have "post env (?I [] []) (map_each ?f jobs) (\<lambda>rs. ?I jobs rs)"
  proof (rule post_map_each_done[where I = ?I], rule post_fix)
    fix ys j zs and rs :: "AlertingJob list list" and d
    assume a: "?I ys rs d"
    show "post env ((=) d) (?f j) (\<lambda>r. ?I (ys @ [j]) (rs @ [r]))"
      by (rule post_weaken[OF post_apply_one]) (use a in \<open>auto simp: comp_def\<close>)
  qed
  then show ?thesis
    unfolding batchUpdateCheckState_def
    by (intro post_bind post_return) (auto intro: post_pre)
qed

lemma apply_other: "a_Id j \<noteq> c_Id c \<Longrightarrow> apply_result j c = c"
  by (simp add: apply_result_def set_checked_def set_state_def state_hit_def check_hit_def)

lemma fold_results_id: "c_Id (fold apply_result js c) = c_Id c"
  by (induction js arbitrary: c) simp_all

lemma fold_results_own: "fold apply_result js c = fold apply_result (filter (\<lambda>j. a_Id j = c_Id c) js) c"
  by (induction js arbitrary: c) (simp_all add: apply_other)

text \<open>The time of the last change of state in a sequence of results.\<close>

fun change_time :: "CheckEvalResult \<Rightarrow> time \<Rightarrow> AlertingJob list \<Rightarrow> time" where
  "change_time s t [] = t"
| "change_time s t (j # js) =
     (if j_NewState j = s then change_time s t js else change_time (j_NewState j) (j_TimeExec j) js)"

lemma fold_results_ordered:
  assumes "sorted_wrt (\<lambda>a b. j_TimeExec a < j_TimeExec b) js"
    and "\<forall>j\<in>set js. a_Id j = c_Id c \<and> c_StateChange c < j_TimeExec j \<and> c_StateCheck c < j_TimeExec j"
  shows "c_State (fold apply_result js c) = (if js = [] then c_State c else j_NewState (last js)) \<and>
     c_StateCheck (fold apply_result js c) = (if js = [] then c_StateCheck c else j_TimeExec (last js)) \<and>
     c_StateChange (fold apply_result js c) = change_time (c_State c) (c_StateChange c) js"
  using assms
proof (induction js arbitrary: c)
  case Nil
  then show ?case by simp
next
  case (Cons j js)
  let ?c = "apply_result j c"
  have j: "a_Id j = c_Id c" "c_StateChange c < j_TimeExec j" "c_StateCheck c < j_TimeExec j"
    using Cons.prems(2) by simp_all
  have c: "c_State ?c = j_NewState j" "c_StateCheck ?c = j_TimeExec j" "c_Id ?c = c_Id c"
    "c_StateChange ?c = (if j_NewState j = c_State c then c_StateChange c else j_TimeExec j)"
    using j by (auto simp: apply_result_def set_checked_def set_state_def state_hit_def check_hit_def)
  have "\<forall>k\<in>set js. a_Id k = c_Id ?c \<and> c_StateChange ?c < j_TimeExec k \<and> c_StateCheck ?c < j_TimeExec k"
    using Cons.prems c by auto
  from Cons.IH[OF _ this] Cons.prems(1) show ?case by (auto simp: c)
qed

text \<open>
  A committed batch of results, with those of a check in strict order of execution and later than
  what the check has seen, leaves the check in the state of the last result, checked at its time, and
  changed at the time of the last result that differed from its predecessor.
\<close>

theorem BatchUpdateCheckState_in_order:
  assumes "BatchUpdateCheckState jobs env w = (Inr out, w')" and "commits (batchUpdateCheckState jobs) env w"
    and "c \<in> set (t_check (w_db w))" and "js = filter (\<lambda>j. a_Id j = c_Id c) jobs" and "js \<noteq> []"
    and "sorted_wrt (\<lambda>a b. j_TimeExec a < j_TimeExec b) js"
    and "\<forall>j\<in>set js. c_StateChange c < j_TimeExec j \<and> c_StateCheck c < j_TimeExec j"
  shows "\<exists>c'\<in>set (t_check (w_db w')). c_Id c' = c_Id c \<and> c_State c' = j_NewState (last js) \<and>
     c_StateCheck c' = j_TimeExec (last js) \<and>
     c_StateChange c' = change_time (c_State c) (c_StateChange c) js"
proof
  let ?c' = "fold apply_result jobs c"
  show "?c' \<in> set (t_check (w_db w'))"
    using committed_post[OF post_batchUpdateCheckState assms(1)[unfolded BatchUpdateCheckState_def] assms(2)]
      assms(3) by simp
  have "?c' = fold apply_result js c" unfolding assms(4) by (rule fold_results_own)
  moreover have "\<forall>j\<in>set js. a_Id j = c_Id c \<and> c_StateChange c < j_TimeExec j \<and> c_StateCheck c < j_TimeExec j"
    using assms(4,7) by simp
  ultimately show "c_Id ?c' = c_Id c \<and> c_State ?c' = j_NewState (last js) \<and>
     c_StateCheck ?c' = j_TimeExec (last js) \<and> c_StateChange ?c' = change_time (c_State c) (c_StateChange c) js"
    using fold_results_ordered[OF assms(6), of c] assms(5) by (simp add: fold_results_id)
qed

text \<open>Three results for the first check of the added endpoint.\<close>

definition job_for :: "Check \<Rightarrow> CheckEvalResult \<Rightarrow> time \<Rightarrow> AlertingJob" where
  "job_for c s t =
     \<lparr>a_Id = c_Id c, a_OrgId = c_OrgId c, a_EndpointId = c_EndpointId c, a_Slug = [],
      a_Name = [], a_Type = c_Type c, a_Offset = c_Offset c, a_Frequency = c_Frequency c,
      a_Enabled = c_Enabled c, a_State = c_State c, a_StateChange = c_StateChange c,
      a_StateCheck = c_StateCheck c, a_Settings = c_Settings c, a_HealthSettings = c_HealthSettings c,
      a_Created = c_Created c, a_Updated = c_Updated c,
      j_GeneratedAt = t, j_LastPointTs = t, j_NewState = s, j_TimeExec = t\<rparr>"

definition seen_check :: Check where
  "seen_check = ping\<lparr>c_Id := 5, c_State := 0, c_StateChange := 10, c_StateCheck := 20\<rparr>"

definition seen :: world where
  "seen = start\<lparr>w_db := empty_db\<lparr>t_check := [seen_check]\<rparr>\<rparr>"

definition three_jobs :: "AlertingJob list" where
  "three_jobs = [job_for seen_check 2 30, job_for seen_check 2 40, job_for seen_check 0 50]"

lemma batch_ok: "is_ok (fst (BatchUpdateCheckState three_jobs plain_env seen))"
  by code_simp

theorem BatchUpdateCheckState_in_order_witness:
  "\<exists>c'\<in>set (t_check (w_db (snd (BatchUpdateCheckState three_jobs plain_env seen)))).
     c_State c' = 0 \<and> c_StateCheck c' = 50 \<and> c_StateChange c' = 50"
proof -
  let ?js = "filter (\<lambda>j. a_Id j = c_Id seen_check) three_jobs"
  have js: "?js = three_jobs" by (simp add: three_jobs_def job_for_def)
  have c: "seen_check \<in> set (t_check (w_db seen))" by (simp add: seen_def)
  have "?js \<noteq> []" "sorted_wrt (\<lambda>a b. j_TimeExec a < j_TimeExec b) ?js"
    "\<forall>j\<in>set ?js. c_StateChange seen_check < j_TimeExec j \<and> c_StateCheck seen_check < j_TimeExec j"
    unfolding js by (simp_all add: three_jobs_def job_for_def seen_check_def)
  from BatchUpdateCheckState_in_order[OF run_parts[OF batch_ok] plain_commits c refl this]
  obtain c' where "c' \<in> set (t_check (w_db (snd (BatchUpdateCheckState three_jobs plain_env seen))))"
    "c_State c' = j_NewState (last three_jobs)" "c_StateCheck c' = j_TimeExec (last three_jobs)"
    "c_StateChange c' = change_time (c_State seen_check) (c_StateChange seen_check) three_jobs"
    unfolding js by blast
  then show ?thesis by (intro bexI[of _ c']) (simp_all add: three_jobs_def job_for_def seen_check_def)
qed

section \<open>One result, in time or late\<close>

text \<open>
  A committed \<open>UpdateCheckState\<close> rewrites at most the check of its job, never moves the time of the
  last check backwards, and returns whether a state changed; a result no later than the last change and
  the last check of every such row changes nothing.
\<close>

theorem UpdateCheckState_effect:
  assumes "UpdateCheckState j env w = (Inr b, w')" and "commits (updateCheckState j) env w"
  shows "w_db w' = (w_db w)\<lparr>t_check := map (apply_result j) (t_check (w_db w))\<rparr> \<and>
     (b \<longleftrightarrow> (\<exists>c\<in>set (t_check (w_db w)). state_hit j c)) \<and>
     (\<forall>c. c_Id c \<noteq> a_Id j \<longrightarrow> apply_result j c = c) \<and>
     (\<forall>c. c_StateCheck c \<le> c_StateCheck (apply_result j c)) \<and>
     ((\<forall>c\<in>set (t_check (w_db w)). c_Id c = a_Id j \<longrightarrow>
          j_TimeExec j \<le> c_StateChange c \<and> j_TimeExec j \<le> c_StateCheck c) \<longrightarrow> w_db w' = w_db w \<and> \<not> b)"
proof -
  have p: "w_db w' = (w_db w)\<lparr>t_check := map (apply_result j) (t_check (w_db w))\<rparr>"
    "b \<longleftrightarrow> (\<exists>c\<in>set (t_check (w_db w)). state_hit j c)"
    using committed_post[OF post_updateCheckState assms(1)[unfolded UpdateCheckState_def] assms(2)] by auto
  have "w_db w' = w_db w \<and> \<not> b"
    if late: "\<forall>c\<in>set (t_check (w_db w)). c_Id c = a_Id j \<longrightarrow>
          j_TimeExec j \<le> c_StateChange c \<and> j_TimeExec j \<le> c_StateCheck c"
  proof -
    have hit: "\<not> state_hit j c \<and> \<not> check_hit j c" if "c \<in> set (t_check (w_db w))" for c
      using bspec[OF late that] unfolding state_hit_def check_hit_def by linarith
    then have "apply_result j c = c" if "c \<in> set (t_check (w_db w))" for c
      using that by (simp add: apply_result_def set_checked_def set_state_def)
    then have "map (apply_result j) (t_check (w_db w)) = t_check (w_db w)" by (rule map_idI)
    then show ?thesis using p hit by simp
  qed
  moreover have "apply_result j c = c" if "c_Id c \<noteq> a_Id j" for c
    by (rule apply_other) (use that in simp)
  moreover have "c_StateCheck c \<le> c_StateCheck (apply_result j c)" for c
    by (auto simp: apply_result_def set_checked_def set_state_def state_hit_def check_hit_def)
  ultimately show ?thesis using p by (intro conjI allI impI) simp_all
qed

lemma update_state_ok: "is_ok (fst (UpdateCheckState (job_for seen_check 2 30) plain_env seen))"
  by code_simp

theorem UpdateCheckState_effect_witness:
  "projr (fst (UpdateCheckState (job_for seen_check 2 30) plain_env seen))"
  using UpdateCheckState_effect[OF run_parts[OF update_state_ok] plain_commits]
  by (simp add: seen_def state_hit_def job_for_def seen_check_def)

text \<open>
  The protection against results out of order is partial: a result older than the last one seen,
  but newer than the last change of state, still overwrites the state of its check.
\<close>

theorem late_result_overwrites:
  assumes "UpdateCheckState j env w = (Inr b, w')" and "commits (updateCheckState j) env w"
    and "c \<in> set (t_check (w_db w))" and "c_Id c = a_Id j" and "c_State c \<noteq> j_NewState j"
    and "c_StateChange c < j_TimeExec j" and "j_TimeExec j < c_StateCheck c"
  shows "b \<and> (\<exists>c'\<in>set (t_check (w_db w')). c_Id c' = c_Id c \<and> c_State c' = j_NewState j \<and>
     j_TimeExec j < c_StateCheck c')"
proof -
  have p: "w_db w' = (w_db w)\<lparr>t_check := map (apply_result j) (t_check (w_db w))\<rparr>"
    "b \<longleftrightarrow> (\<exists>c\<in>set (t_check (w_db w)). state_hit j c)"
    using committed_post[OF post_updateCheckState assms(1)[unfolded UpdateCheckState_def] assms(2)] by auto
  have "state_hit j c" using assms(4-6) by (simp add: state_hit_def)
  moreover have "c_State (apply_result j c) = j_NewState j" "c_StateCheck (apply_result j c) = c_StateCheck c"
    using assms(4-7) by (auto simp: apply_result_def set_checked_def set_state_def state_hit_def check_hit_def)
  moreover have "apply_result j c \<in> set (t_check (w_db w'))" using p(1) assms(3) by simp
  ultimately show ?thesis using p(2) assms(3,7) by (metis apply_result_fields(1))
qed

lemma late_ok: "is_ok (fst (UpdateCheckState (job_for seen_check 2 15) plain_env seen))"
  by code_simp

theorem late_result_overwrites_witness:
  "projr (fst (UpdateCheckState (job_for seen_check 2 15) plain_env seen))"
  using late_result_overwrites[OF run_parts[OF late_ok] plain_commits, of seen_check]
  by (simp add: seen_def job_for_def seen_check_def)

end
