(* ===== verification/ProbeStore.thy ===== *)
theory ProbeStore
  imports CheckQueries
begin

text \<open>
  \<open>pkg/services/sqlstore/probe.go\<close>: probes, their tags per organisation, and the sessions of the
  sockets they are connected by. A probe is marked online when a session is added and offline when
  the last of its sessions goes. \<open>GetProbesForCheck\<close> is in \<open>CheckQueries\<close>.
\<close>

section \<open>Rows and their assembly\<close>

record probeWithTag =
  pw_Probe :: Probe
  pw_ProbeTag :: ProbeTag
  pw_RemoteIp :: string

definition zero_probe_tag :: ProbeTag where
  "zero_probe_tag = \<lparr>pt_OrgId = 0, pt_ProbeId = 0, pt_Tag = [], pt_Created = zero_time\<rparr>"

text \<open>
  The two \<open>LEFT JOIN\<close>s: a probe with no tag (of those \<open>tag_ok\<close> admits) or no session yields one row
  with NULL columns, which the ORM reads as zero values.
\<close>

definition probe_rows :: "(ProbeTag \<Rightarrow> bool) \<Rightarrow> db \<Rightarrow> Probe list \<Rightarrow> probeWithTag list" where
  "probe_rows tag_ok d ps =
     [\<lparr>pw_Probe = p, pw_ProbeTag = t, pw_RemoteIp = ip\<rparr>. p \<leftarrow> ps,
        t \<leftarrow> or_null zero_probe_tag (filter (\<lambda>t. pt_ProbeId t = p_Id p \<and> tag_ok t) (t_probe_tag d)),
        ip \<leftarrow> or_null [] (map s_RemoteIp (filter (\<lambda>s. s_ProbeId s = p_Id p) (t_probe_session d)))]"

record probe_maps =
  pm_probes :: "(int, ProbeDTO) gomap"
  pm_tags :: "(int, string list) gomap"
  pm_addresses :: "(int, string list) gomap"

definition bare_probe :: "Probe \<Rightarrow> ProbeDTO" where
  "bare_probe p =
     \<lparr>pd_Id = p_Id p, pd_OrgId = p_OrgId p, pd_Slug = p_Slug p, pd_Name = p_Name p, pd_Tags = [],
      pd_Public = p_Public p, pd_Latitude = p_Latitude p, pd_Longitude = p_Longitude p,
      pd_Online = p_Online p, pd_OnlineChange = p_OnlineChange p, pd_Enabled = p_Enabled p,
      pd_EnabledChange = p_EnabledChange p, pd_Created = p_Created p, pd_Updated = p_Updated p,
      pd_RemoteIp = []\<rparr>"

definition set_put :: "int \<Rightarrow> string \<Rightarrow> (int, string list) gomap \<Rightarrow> (int, string list) gomap" where
  "set_put k x m = (if x = [] then m else AList.update k (set_add x (lookup_list m k)) m)"

definition add_probe_row :: "probeWithTag \<Rightarrow> probe_maps \<Rightarrow> probe_maps" where
  "add_probe_row r m =
     (let pid = p_Id (pw_Probe r);
          m1 = (if map_of (pm_probes m) pid = None
                then \<lparr>pm_probes = AList.update pid (bare_probe (pw_Probe r)) (pm_probes m),
                      pm_tags = AList.update pid [] (pm_tags m),
                      pm_addresses = AList.update pid [] (pm_addresses m)\<rparr>
                else m)
      in m1\<lparr>pm_tags := set_put pid (pt_Tag (pw_ProbeTag r)) (pm_tags m1),
            pm_addresses := set_put pid (pw_RemoteIp r) (pm_addresses m1)\<rparr>)"

definition ToProbeDTO :: "probeWithTag list \<Rightarrow> ProbeDTO list" where
  "ToProbeDTO rows =
     (let m = fold add_probe_row rows \<lparr>pm_probes = [], pm_tags = [], pm_addresses = []\<rparr>
      in map (\<lambda>(pid, p). p\<lparr>pd_Tags := lookup_list (pm_tags m) pid,
                            pd_RemoteIp := lookup_list (pm_addresses m) pid\<rparr>) (pm_probes m))"

section \<open>Queries\<close>

record GetProbesQuery =
  gp_OrgId :: int
  gp_Public :: string
  gp_Enabled :: string
  gp_Online :: string
  gp_Name :: string
  gp_Slug :: string
  gp_Tag :: string
  gp_OrderBy :: string

text \<open>\<open>strconv.ParseBool\<close>.\<close>

definition ParseBool :: "string \<Rightarrow> bool result" where
  "ParseBool s =
     (if s \<in> set [''1'', ''t'', ''T'', ''TRUE'', ''true'', ''True''] then Inr True
      else if s \<in> set [''0'', ''f'', ''F'', ''FALSE'', ''false'', ''False''] then Inr False
      else Inl (Error (OtherError (''strconv.ParseBool: parsing '' @ s @ '': invalid syntax''))))"

definition flag :: "string \<Rightarrow> bool option result" where
  "flag s = (if s = [] then Inr None else bind_res (ParseBool s) (\<lambda>b. Inr (Some b)))"

definition flag_ok :: "bool option \<Rightarrow> bool \<Rightarrow> bool" where
  "flag_ok f b = (case f of None \<Rightarrow> True | Some x \<Rightarrow> b = x)"

definition matching_probes ::
  "GetProbesQuery \<Rightarrow> bool option \<Rightarrow> bool option \<Rightarrow> bool option \<Rightarrow> db \<Rightarrow> Probe list" where
  "matching_probes q enabled online public d =
     [p. p \<leftarrow> t_probe d,
         (gp_Name q = [] \<or> p_Name p = gp_Name q) \<and> (gp_Slug q = [] \<or> p_Slug p = gp_Slug q) \<and>
         flag_ok enabled (p_Enabled p) \<and> flag_ok online (p_Online p) \<and>
         (case public of
            None \<Rightarrow> p_OrgId p = gp_OrgId q \<or> p_Public p
          | Some True \<Rightarrow> p_Public p
          | Some False \<Rightarrow> \<not> p_Public p \<and> p_OrgId p = gp_OrgId q),
         _ \<leftarrow> (if gp_Tag q = [] then [()]
               else [(). t \<leftarrow> t_probe_tag d, pt_ProbeId t = p_Id p \<and> pt_Tag t = gp_Tag q])]"

definition getProbes :: "GetProbesQuery \<Rightarrow> ProbeDTO list op" where
  "getProbes q =
     (if gp_OrgId q = 0 then failS (Error (OtherError ''GetProbesQuery requires OrgId to be set.''))
      else bindS (liftS (flag (gp_Enabled q))) (\<lambda>enabled.
           bindS (liftS (flag (gp_Online q))) (\<lambda>online.
           bindS (liftS (flag (gp_Public q))) (\<lambda>public.
           bindS (query (\<lambda>env d. probe_rows (\<lambda>t. pt_OrgId t = gp_OrgId q) d
               (matching_probes q enabled online public d))) (\<lambda>rows. returnS (ToProbeDTO rows))))))"

definition GetProbes :: "GetProbesQuery \<Rightarrow> ProbeDTO list op" where
  "GetProbes q = getProbes q"

definition getOnlineProbes :: "Probe list op" where
  "getOnlineProbes = query (\<lambda>env d. filter p_Online (t_probe d))"

definition GetOnlineProbes :: "Probe list op" where
  "GetOnlineProbes = getOnlineProbes"

definition onlineProbesWithNoSession :: "ProbeDTO list op" where
  "onlineProbesWithNoSession =
     bindS (query (\<lambda>env d. probe_rows (\<lambda>t. True) d
        (filter (\<lambda>p. p_Online p \<and> p_Id p \<notin> s_ProbeId ` set (t_probe_session d)) (t_probe d))))
       (\<lambda>rows. returnS (ToProbeDTO rows))"

definition ErrProbeNotFound :: fault where
  "ErrProbeNotFound = Error (NotFoundError ''Probe not found'')"

definition visible :: "int \<Rightarrow> Probe \<Rightarrow> bool" where
  "visible org p \<longleftrightarrow> p_OrgId p = org \<or> p_Public p"

definition first_probe :: "int \<Rightarrow> (Probe \<Rightarrow> bool) \<Rightarrow> ProbeDTO op" where
  "first_probe org sel =
     bindS (query (\<lambda>env d. probe_rows (\<lambda>t. pt_OrgId t = org) d (filter sel (t_probe d))))
       (\<lambda>rows. if rows = [] then failS ErrProbeNotFound else liftS (go_index (ToProbeDTO rows) 0))"

definition getProbeById :: "int \<Rightarrow> int \<Rightarrow> ProbeDTO op" where
  "getProbeById pid org = first_probe org (\<lambda>p. p_Id p = pid \<and> visible org p)"

definition GetProbeById :: "int \<Rightarrow> int \<Rightarrow> ProbeDTO op" where
  "GetProbeById pid org = getProbeById pid org"

definition getProbeByName :: "string \<Rightarrow> int \<Rightarrow> ProbeDTO op" where
  "getProbeByName name org = first_probe org (\<lambda>p. p_Name p = name \<and> p_OrgId p = org)"

definition GetProbeByName :: "string \<Rightarrow> int \<Rightarrow> ProbeDTO op" where
  "GetProbeByName name org = getProbeByName name org"

definition getProbeTags :: "int \<Rightarrow> string list op" where
  "getProbeTags org = query (\<lambda>env d. remdups (map pt_Tag (filter (\<lambda>t. pt_OrgId t = org) (t_probe_tag d))))"

definition GetProbeTags :: "int \<Rightarrow> string list op" where
  "GetProbeTags org = getProbeTags org"

section \<open>Adding, updating and deleting a probe\<close>

text \<open>The unique indices of the tables.\<close>

definition probe_keys_ok :: "Probe list \<Rightarrow> bool" where
  "probe_keys_ok t \<longleftrightarrow> unique_on p_Id t \<and> unique_on (\<lambda>p. (p_OrgId p, p_Slug p)) t"

definition probe_tags_ok :: "ProbeTag list \<Rightarrow> bool" where
  "probe_tags_ok t \<longleftrightarrow> unique_on (\<lambda>r. (pt_OrgId r, pt_Tag r, pt_ProbeId r)) t"

definition insert_probe :: "Probe \<Rightarrow> Probe op" where
  "insert_probe p = stmt (\<lambda>env d.
     let p' = p\<lparr>p_Id := new_id env (p_Id p) (map p_Id (t_probe d))\<rparr>; t = t_probe d @ [p']
     in checked (probe_keys_ok t) (p', d\<lparr>t_probe := t\<rparr>))"

definition insert_probe_tags :: "ProbeTag list \<Rightarrow> unit op" where
  "insert_probe_tags rows = insert_rows rows t_probe_tag t_probe_tag_update probe_tags_ok"

definition probe_tag_rows :: "int \<Rightarrow> int \<Rightarrow> string list \<Rightarrow> ProbeTag list op" where
  "probe_tag_rows org pid tags =
     map_each (\<lambda>tag. bindS time_Now (\<lambda>t. returnS
       \<lparr>pt_OrgId = org, pt_ProbeId = pid, pt_Tag = tag, pt_Created = t\<rparr>)) tags"

definition addProbe :: "ProbeDTO \<Rightarrow> ProbeDTO op" where
  "addProbe p =
     bindS time_Now (\<lambda>t1. bindS time_Now (\<lambda>t2. bindS time_Now (\<lambda>t3. bindS time_Now (\<lambda>t4.
     bindS (insert_probe (Probe_UpdateSlug
        \<lparr>p_Id = 0, p_OrgId = pd_OrgId p, p_Slug = [], p_Name = pd_Name p, p_Public = pd_Public p,
         p_Latitude = pd_Latitude p, p_Longitude = pd_Longitude p, p_Created = t3, p_Updated = t4,
         p_Online = False, p_OnlineChange = t2, p_Enabled = pd_Enabled p, p_EnabledChange = t1\<rparr>))
       (\<lambda>row.
        let p' = p\<lparr>pd_Slug := p_Slug row, pd_Id := p_Id row, pd_Created := p_Created row,
                   pd_Updated := p_Updated row, pd_OnlineChange := p_OnlineChange row,
                   pd_EnabledChange := p_EnabledChange row\<rparr>
        in bindS (probe_tag_rows (pd_OrgId p) (p_Id row) (pd_Tags p)) (\<lambda>rows.
           thenS (if rows \<noteq> [] then insert_probe_tags rows else returnS ())
             (thenS (events_Publish (ProbeCreated (pd_Created p') p')) (returnS p'))))))))"

definition AddProbe :: "ProbeDTO \<Rightarrow> ProbeDTO op" where
  "AddProbe p = transact (addProbe p)"

definition update_probe_row :: "Probe \<Rightarrow> unit op" where
  "update_probe_row p = stmt (\<lambda>env d.
     let t = map (\<lambda>r. if p_Id r = p_Id p then upd_probe env p r else r) (t_probe d)
     in checked (probe_keys_ok t) ((), d\<lparr>t_probe := t\<rparr>))"

definition delete_probe_tags :: "int \<Rightarrow> int \<Rightarrow> string list \<Rightarrow> unit op" where
  "delete_probe_tags pid org tags = exec (\<lambda>env d. d\<lparr>t_probe_tag := filter
     (\<lambda>t. \<not> (pt_ProbeId t = pid \<and> pt_OrgId t = org \<and> pt_Tag t \<in> set tags)) (t_probe_tag d)\<rparr>)"

definition update_own_probe :: "ProbeDTO \<Rightarrow> ProbeDTO \<Rightarrow> ProbeDTO op" where
  "update_own_probe existing p =
     bindS (if pd_Enabled existing \<noteq> pd_Enabled p
            then bindS time_Now (\<lambda>t. returnS (p\<lparr>pd_EnabledChange := t\<rparr>)) else returnS p) (\<lambda>p1.
     bindS time_Now (\<lambda>t.
     let row = Probe_UpdateSlug
        \<lparr>p_Id = pd_Id p1, p_OrgId = pd_OrgId p1, p_Slug = [], p_Name = pd_Name p1,
         p_Public = pd_Public p1, p_Latitude = pd_Latitude p1, p_Longitude = pd_Longitude p1,
         p_Created = pd_Created existing, p_Updated = t, p_Online = False, p_OnlineChange = zero_time,
         p_Enabled = pd_Enabled p1, p_EnabledChange = pd_EnabledChange p1\<rparr>
     in thenS (update_probe_row row) (returnS (p1\<lparr>pd_Slug := p_Slug row, pd_Updated := t\<rparr>))))"

definition update_probe_tags :: "ProbeDTO \<Rightarrow> ProbeDTO \<Rightarrow> unit op" where
  "update_probe_tags existing p =
     (let dels = tags_to_delete (pd_Tags existing) (pd_Tags p);
          adds = tags_to_add (pd_Tags existing) (pd_Tags p)
      in thenS (if dels \<noteq> [] then delete_probe_tags (pd_Id p) (pd_OrgId p) dels else returnS ())
           (if adds \<noteq> [] then bindS (probe_tag_rows (pd_OrgId p) (pd_Id p) adds) insert_probe_tags
            else returnS ()))"

definition updateProbe :: "ProbeDTO \<Rightarrow> ProbeDTO op" where
  "updateProbe p =
     bindS (getProbeById (pd_Id p) (pd_OrgId p)) (\<lambda>existing.
     if \<not> pd_Public existing \<and> pd_OrgId p \<noteq> pd_OrgId existing then failS ErrProbeNotFound
     else bindS (if pd_OrgId p = pd_OrgId existing then update_own_probe existing p
                 else returnS (existing\<lparr>pd_Tags := pd_Tags p, pd_OrgId := pd_OrgId p\<rparr>)) (\<lambda>p'.
          thenS (update_probe_tags existing p')
            (if pd_OrgId p' = pd_OrgId existing
             then thenS (events_Publish (ProbeUpdated (pd_Updated p') existing p')) (returnS p')
             else returnS p')))"

definition UpdateProbe :: "ProbeDTO \<Rightarrow> ProbeDTO op" where
  "UpdateProbe p = transact (updateProbe p)"

definition deleteProbe :: "int \<Rightarrow> int \<Rightarrow> unit op" where
  "deleteProbe pid org =
     bindS (getProbeById pid org) (\<lambda>existing.
     if pd_OrgId existing \<noteq> org then failS ErrProbeNotFound
     else thenS (exec (\<lambda>env d. d\<lparr>t_probe :=
            filter (\<lambda>p. \<not> (p_Id p = pd_Id existing \<and> p_OrgId p = pd_OrgId existing)) (t_probe d)\<rparr>))
         (thenS (exec (\<lambda>env d. d\<lparr>t_probe_tag :=
            filter (\<lambda>t. \<not> (pt_ProbeId t = pd_Id existing \<and> pt_OrgId t = pd_OrgId existing)) (t_probe_tag d)\<rparr>))
         (thenS (exec (\<lambda>env d. d\<lparr>t_route_id :=
            filter (\<lambda>r. ri_ProbeId r \<noteq> pd_Id existing) (t_route_id d)\<rparr>))
         (bindS time_Now (\<lambda>t. events_Publish (ProbeDeleted t existing))))))"

definition DeleteProbe :: "int \<Rightarrow> int \<Rightarrow> unit op" where
  "DeleteProbe pid org = transact (deleteProbe pid org)"

definition public_probe_tags :: "db \<Rightarrow> ProbeTag list" where
  "public_probe_tags d =
     [t. t \<leftarrow> t_probe_tag d, p \<leftarrow> t_probe d, p_Id p = pt_ProbeId t \<and> p_Public p \<and> p_OrgId p = pt_OrgId t]"

definition copyPublicProbeTags :: "int \<Rightarrow> unit op" where
  "copyPublicProbeTags org =
     bindS (query (\<lambda>env d. public_probe_tags d)) (\<lambda>result.
       if result \<noteq> [] then insert_probe_tags
         (map (\<lambda>t. \<lparr>pt_OrgId = org, pt_ProbeId = pt_ProbeId t, pt_Tag = pt_Tag t, pt_Created = zero_time\<rparr>) result)
       else returnS ())"

section \<open>Sessions\<close>

definition insert_session :: "ProbeSession \<Rightarrow> ProbeSession op" where
  "insert_session s = stmt (\<lambda>env d.
     let s' = s\<lparr>s_Id := new_id env (s_Id s) (map s_Id (t_probe_session d))\<rparr>; t = t_probe_session d @ [s']
     in checked (unique_on s_Id t) (s', d\<lparr>t_probe_session := t\<rparr>))"

definition set_online :: "bool \<Rightarrow> time \<Rightarrow> int \<Rightarrow> unit op" where
  "set_online b t pid = exec (\<lambda>env d. d\<lparr>t_probe :=
     map (\<lambda>p. if p_Id p = pid then p\<lparr>p_Online := b, p_OnlineChange := t\<rparr> else p) (t_probe d)\<rparr>)"

definition addProbeSession :: "ProbeSession \<Rightarrow> ProbeSession op" where
  "addProbeSession s =
     bindS time_Now (\<lambda>t.
     bindS (insert_session (s\<lparr>s_Updated := t\<rparr>)) (\<lambda>s'.
     bindS time_Now (\<lambda>t2.
     thenS (set_online True t2 (s_ProbeId s'))
       (thenS (events_Publish (ProbeSessionCreated (s_Updated s') s')) (returnS s')))))"

definition AddProbeSession :: "ProbeSession \<Rightarrow> ProbeSession op" where
  "AddProbeSession s = transact (addProbeSession s)"

definition updateProbeSession :: "ProbeSession \<Rightarrow> unit op" where
  "updateProbeSession s = exec (\<lambda>env d. d\<lparr>t_probe_session :=
     map (\<lambda>r. if s_Id r = s_Id s then upd_session env s r else r) (t_probe_session d)\<rparr>)"

definition UpdateProbeSession :: "ProbeSession \<Rightarrow> unit op" where
  "UpdateProbeSession s = transact (updateProbeSession s)"

definition sessions_where :: "int \<Rightarrow> string \<Rightarrow> time \<Rightarrow> db \<Rightarrow> ProbeSession list" where
  "sessions_where pid inst since d = sort_key s_Id (filter (\<lambda>s.
     (pid = 0 \<or> s_ProbeId s = pid) \<and> (inst = [] \<or> s_InstanceId s = inst) \<and>
     (since = zero_time \<or> s_Updated s > since)) (t_probe_session d))"

definition getProbeSessions :: "int \<Rightarrow> string \<Rightarrow> time \<Rightarrow> ProbeSession list op" where
  "getProbeSessions pid inst since = query (\<lambda>env d. sessions_where pid inst since d)"

definition GetProbeSessions :: "int \<Rightarrow> string \<Rightarrow> time \<Rightarrow> ProbeSession list op" where
  "GetProbeSessions pid inst since = getProbeSessions pid inst since"

definition same_socket :: "ProbeSession \<Rightarrow> ProbeSession \<Rightarrow> bool" where
  "same_socket p s \<longleftrightarrow> s_OrgId s = s_OrgId p \<and> s_SocketId s = s_SocketId p"

definition deleteProbeSession :: "ProbeSession \<Rightarrow> unit op" where
  "deleteProbeSession p =
     bindS (query (\<lambda>env d. List.find (same_socket p) (t_probe_session d))) (\<lambda>has.
     case has of
       None \<Rightarrow> returnS ()
     | Some existing \<Rightarrow>
         bindS (stmt (\<lambda>env d. Inr (length (filter (same_socket p) (t_probe_session d)),
             d\<lparr>t_probe_session := filter (\<lambda>s. \<not> same_socket p s) (t_probe_session d)\<rparr>))) (\<lambda>affected.
         if affected = 0 then returnS ()
         else bindS (getProbeSessions (s_ProbeId existing) [] zero_time) (\<lambda>sessions.
              thenS (if length sessions < 1
                     then bindS time_Now (\<lambda>t. set_online False t (s_ProbeId existing)) else returnS ())
                (bindS time_Now (\<lambda>t. events_Publish (ProbeSessionDeleted t existing))))))"

definition DeleteProbeSession :: "ProbeSession \<Rightarrow> unit op" where
  "DeleteProbeSession p = transact (deleteProbeSession p)"

definition clearProbeSessions :: "string \<Rightarrow> unit op" where
  "clearProbeSessions inst =
     bindS (getProbeSessions 0 inst zero_time) (\<lambda>sessions.
       if sessions \<noteq> [] then for_each deleteProbeSession sessions else returnS ())"

definition ClearProbeSessions :: "string \<Rightarrow> unit op" where
  "ClearProbeSessions inst = transact (clearProbeSessions inst)"

end
