(* ===== verification/ProbeInv.thy ===== *)
theory ProbeInv
  imports ProbeStore
begin

text \<open>
  What the probe operations return and leave: a returned probe carries its row, the tags of the asking
  organisation and the addresses of its sessions; every writer is described by the exact tables it
  leaves, from which the properties of the component follow.
\<close>

section \<open>Assembly\<close>

definition rows_of :: "int \<Rightarrow> probeWithTag list \<Rightarrow> probeWithTag set" where
  "rows_of pid rows = {r \<in> set rows. p_Id (pw_Probe r) = pid}"

definition probe_maps_inv :: "probeWithTag list \<Rightarrow> probe_maps \<Rightarrow> bool" where
  "probe_maps_inv rows m \<longleftrightarrow>
     distinct (map fst (pm_probes m)) \<and>
     (\<forall>pid b. map_of (pm_probes m) pid = Some b \<longrightarrow> (\<exists>r\<in>rows_of pid rows. b = bare_probe (pw_Probe r))) \<and>
     (\<forall>pid. rows_of pid rows \<noteq> {} \<longrightarrow> map_of (pm_probes m) pid \<noteq> None) \<and>
     (\<forall>pid. set (lookup_list (pm_tags m) pid) = (\<lambda>r. pt_Tag (pw_ProbeTag r)) ` rows_of pid rows - {[]}) \<and>
     (\<forall>pid. set (lookup_list (pm_addresses m) pid) = pw_RemoteIp ` rows_of pid rows - {[]})"

lemma probe_maps_invD:
  assumes "probe_maps_inv rows m"
  shows "distinct (map fst (pm_probes m))"
    and "map_of (pm_probes m) pid = Some b \<Longrightarrow> \<exists>r\<in>rows_of pid rows. b = bare_probe (pw_Probe r)"
    and "rows_of pid rows \<noteq> {} \<Longrightarrow> map_of (pm_probes m) pid \<noteq> None"
    and "set (lookup_list (pm_tags m) pid) = (\<lambda>r. pt_Tag (pw_ProbeTag r)) ` rows_of pid rows - {[]}"
    and "set (lookup_list (pm_addresses m) pid) = pw_RemoteIp ` rows_of pid rows - {[]}"
  using assms unfolding probe_maps_inv_def by (elim conjE; simp only: not_False_eq_True; metis)+

lemma rows_of_snoc:
  "rows_of pid (rows @ [r]) = rows_of pid rows \<union> (if p_Id (pw_Probe r) = pid then {r} else {})"
  by (auto simp: rows_of_def)

lemma lookup_set_put:
  "set (lookup_list (set_put k x m) k') = set (lookup_list m k') \<union> (if k' = k then {x} - {[]} else {})"
  by (auto simp: set_put_def lookup_list_update)

lemma probe_maps_step:
  assumes "probe_maps_inv rows m"
  shows "probe_maps_inv (rows @ [r]) (add_probe_row r m)"
proof -
  let ?pid = "p_Id (pw_Probe r)"
  let ?m1 = "if map_of (pm_probes m) ?pid = None
     then \<lparr>pm_probes = AList.update ?pid (bare_probe (pw_Probe r)) (pm_probes m),
           pm_tags = AList.update ?pid [] (pm_tags m), pm_addresses = AList.update ?pid [] (pm_addresses m)\<rparr>
     else m"
  have new: "rows_of ?pid rows = {}" if "map_of (pm_probes m) ?pid = None"
    using assms that by (auto simp: probe_maps_inv_def)
  have step: "add_probe_row r m = ?m1\<lparr>pm_tags := set_put ?pid (pt_Tag (pw_ProbeTag r)) (pm_tags ?m1),
      pm_addresses := set_put ?pid (pw_RemoteIp r) (pm_addresses ?m1)\<rparr>"
    by (simp add: add_probe_row_def Let_def)
  have tags: "set (lookup_list (pm_tags ?m1) pid) = (\<lambda>r. pt_Tag (pw_ProbeTag r)) ` rows_of pid rows - {[]}" for pid
    using assms new by (auto simp: probe_maps_inv_def lookup_list_update)
  have adr: "set (lookup_list (pm_addresses ?m1) pid) = pw_RemoteIp ` rows_of pid rows - {[]}" for pid
    using assms new by (auto simp: probe_maps_inv_def lookup_list_update)
  have dis: "distinct (map fst (pm_probes ?m1))"
    using assms by (auto simp: probe_maps_inv_def distinct_update)
  have some: "map_of (pm_probes ?m1) pid = Some b \<Longrightarrow> \<exists>q\<in>rows_of pid (rows @ [r]). b = bare_probe (pw_Probe q)" for pid b
    using assms by (auto simp: probe_maps_inv_def rows_of_snoc update_conv' split: if_splits)
  have ne: "rows_of pid (rows @ [r]) \<noteq> {} \<Longrightarrow> map_of (pm_probes ?m1) pid \<noteq> None" for pid
    using assms by (auto simp: probe_maps_inv_def rows_of_snoc update_conv' split: if_splits)
  show ?thesis
    unfolding probe_maps_inv_def step
    using dis some ne tags adr by (simp add: lookup_set_put rows_of_snoc image_Un Un_Diff)
qed

lemma probe_maps_fold:
  "probe_maps_inv rows (fold add_probe_row rows \<lparr>pm_probes = [], pm_tags = [], pm_addresses = []\<rparr>)"
proof (induction rows rule: rev_induct)
  case Nil
  show ?case by (simp add: probe_maps_inv_def rows_of_def lookup_list_def)
qed (simp add: probe_maps_step)

text \<open>A returned probe \<open>x\<close>, as organisation \<open>org\<close> sees it.\<close>

definition tags_seen :: "(ProbeTag \<Rightarrow> bool) \<Rightarrow> db \<Rightarrow> int \<Rightarrow> string set" where
  "tags_seen tag_ok d pid = pt_Tag ` {t \<in> set (t_probe_tag d). pt_ProbeId t = pid \<and> tag_ok t} - {[]}"

definition addresses :: "db \<Rightarrow> int \<Rightarrow> string set" where
  "addresses d pid = s_RemoteIp ` {s \<in> set (t_probe_session d). s_ProbeId s = pid} - {[]}"

definition shows_probe :: "(ProbeTag \<Rightarrow> bool) \<Rightarrow> db \<Rightarrow> Probe \<Rightarrow> ProbeDTO \<Rightarrow> bool" where
  "shows_probe tag_ok d p x \<longleftrightarrow>
     bare_probe p = x\<lparr>pd_Tags := [], pd_RemoteIp := []\<rparr> \<and>
     set (pd_Tags x) = tags_seen tag_ok d (p_Id p) \<and> set (pd_RemoteIp x) = addresses d (p_Id p)"

lemma or_null_member: "y \<in> set (or_null z xs) \<longleftrightarrow> y \<in> set xs \<or> xs = [] \<and> y = z"
  by (simp add: or_null_def)

lemma in_probe_rows:
  "r \<in> set (probe_rows ok d ps) \<longleftrightarrow>
     pw_Probe r \<in> set ps \<and>
     pw_ProbeTag r \<in> set (or_null zero_probe_tag (filter (\<lambda>t. pt_ProbeId t = p_Id (pw_Probe r) \<and> ok t) (t_probe_tag d))) \<and>
     pw_RemoteIp r \<in> set (or_null [] (map s_RemoteIp (filter (\<lambda>s. s_ProbeId s = p_Id (pw_Probe r)) (t_probe_session d))))"
proof -
  obtain p t ip where r: "r = \<lparr>pw_Probe = p, pw_ProbeTag = t, pw_RemoteIp = ip\<rparr>" by (cases r)
  show ?thesis unfolding r by (simp add: probe_rows_def image_iff)
qed

lemma null_tags:
  "pt_Tag ` set (or_null zero_probe_tag (filter P ts)) - {[]} = pt_Tag ` {t \<in> set ts. P t} - {[]}"
proof (cases "filter P ts = []")
  case True
  then have "{t \<in> set ts. P t} = {}" by (auto simp: filter_empty_conv)
  then show ?thesis unfolding or_null_def True by (simp only:) (simp add: zero_probe_tag_def)
next
  case False
  then show ?thesis by (simp add: or_null_def)
qed

lemma null_addresses: "set (or_null [] xs) - {[]} = set xs - {[]}"
  by (simp add: or_null_def)

lemma rows_of_probe_rows:
  assumes "p \<in> set ps" and "p_Id p = pid"
  shows "(\<lambda>r. pt_Tag (pw_ProbeTag r)) ` rows_of pid (probe_rows ok d ps) - {[]} = tags_seen ok d pid"
    and "pw_RemoteIp ` rows_of pid (probe_rows ok d ps) - {[]} = addresses d pid"
    and "rows_of pid (probe_rows ok d ps) \<noteq> {}"
proof -
  let ?ts = "or_null zero_probe_tag (filter (\<lambda>t. pt_ProbeId t = pid \<and> ok t) (t_probe_tag d))"
  let ?is = "or_null [] (map s_RemoteIp (filter (\<lambda>s. s_ProbeId s = pid) (t_probe_session d)))"
  have row: "\<lparr>pw_Probe = p, pw_ProbeTag = t, pw_RemoteIp = i\<rparr> \<in> rows_of pid (probe_rows ok d ps)"
    if "t \<in> set ?ts" "i \<in> set ?is" for t i
    using that assms by (simp add: rows_of_def in_probe_rows)
  have sub: "pw_ProbeTag r \<in> set ?ts" "pw_RemoteIp r \<in> set ?is" if "r \<in> rows_of pid (probe_rows ok d ps)" for r
    using that by (auto simp: rows_of_def in_probe_rows)
  obtain t0 i0 where ne: "t0 \<in> set ?ts" "i0 \<in> set ?is" using or_null_ne by metis
  have "pw_ProbeTag ` rows_of pid (probe_rows ok d ps) = set ?ts"
  proof
    show "set ?ts \<subseteq> pw_ProbeTag ` rows_of pid (probe_rows ok d ps)"
      using row[OF _ ne(2)] by (metis (no_types, lifting) image_eqI probeWithTag.select_convs(2) subsetI)
  qed (use sub in auto)
  then have "(\<lambda>r. pt_Tag (pw_ProbeTag r)) ` rows_of pid (probe_rows ok d ps) = pt_Tag ` set ?ts"
    by (metis image_image)
  then show "(\<lambda>r. pt_Tag (pw_ProbeTag r)) ` rows_of pid (probe_rows ok d ps) - {[]} = tags_seen ok d pid"
    by (simp only: null_tags tags_seen_def)
  have "pw_RemoteIp ` rows_of pid (probe_rows ok d ps) = set ?is"
  proof
    show "set ?is \<subseteq> pw_RemoteIp ` rows_of pid (probe_rows ok d ps)"
      using row[OF ne(1)] by (metis (no_types, lifting) image_eqI probeWithTag.select_convs(3) subsetI)
  qed (use sub in auto)
  then show "pw_RemoteIp ` rows_of pid (probe_rows ok d ps) - {[]} = addresses d pid"
    by (simp only: null_addresses addresses_def) (simp add: image_def)
  show "rows_of pid (probe_rows ok d ps) \<noteq> {}" using row[OF ne] by blast
qed

lemma rows_ofD:
  "r \<in> rows_of pid (probe_rows ok d ps) \<Longrightarrow> pw_Probe r \<in> set ps \<and> p_Id (pw_Probe r) = pid"
  unfolding rows_of_def mem_Collect_eq in_probe_rows by blast

lemma in_ToProbeDTO:
  assumes "x \<in> set (ToProbeDTO (probe_rows ok d ps))"
  shows "\<exists>p\<in>set ps. shows_probe ok d p x"
proof -
  let ?rows = "probe_rows ok d ps"
  define m where "m = fold add_probe_row ?rows \<lparr>pm_probes = [], pm_tags = [], pm_addresses = []\<rparr>"
  have inv: "probe_maps_inv ?rows m" unfolding m_def by (rule probe_maps_fold)
  have dto: "ToProbeDTO ?rows = map (\<lambda>(pid, p). p\<lparr>pd_Tags := lookup_list (pm_tags m) pid,
      pd_RemoteIp := lookup_list (pm_addresses m) pid\<rparr>) (pm_probes m)"
    by (simp add: ToProbeDTO_def m_def Let_def)
  from assms obtain pid b where b: "(pid, b) \<in> set (pm_probes m)"
    and x: "x = b\<lparr>pd_Tags := lookup_list (pm_tags m) pid, pd_RemoteIp := lookup_list (pm_addresses m) pid\<rparr>"
    unfolding dto by auto
  have "map_of (pm_probes m) pid = Some b" using b probe_maps_invD(1)[OF inv] by simp
  from probe_maps_invD(2)[OF inv this] obtain r where r: "r \<in> rows_of pid ?rows" "b = bare_probe (pw_Probe r)"
    by (elim bexE)
  let ?p = "pw_Probe r"
  have p: "?p \<in> set ps" "p_Id ?p = pid" using rows_ofD[OF r(1)] by blast+
  have "set (lookup_list (pm_tags m) pid) = tags_seen ok d pid"
    "set (lookup_list (pm_addresses m) pid) = addresses d pid"
    using probe_maps_invD(4,5)[OF inv, of pid] rows_of_probe_rows(1,2)[OF p, of ok d] by simp_all
  then have "shows_probe ok d ?p x"
    unfolding shows_probe_def x p(2) r(2) by (simp add: bare_probe_def)
  with p show ?thesis by blast
qed

lemma ToProbeDTO_ids: "pd_Id ` set (ToProbeDTO (probe_rows ok d ps)) = p_Id ` set ps"
proof
  show "pd_Id ` set (ToProbeDTO (probe_rows ok d ps)) \<subseteq> p_Id ` set ps"
  proof
    fix i assume "i \<in> pd_Id ` set (ToProbeDTO (probe_rows ok d ps))"
    then obtain x where x: "x \<in> set (ToProbeDTO (probe_rows ok d ps))" "i = pd_Id x" by blast
    from in_ToProbeDTO[OF x(1)] obtain p where p: "p \<in> set ps" "shows_probe ok d p x" by blast
    then have "pd_Id x = p_Id p" by (cases x) (simp add: shows_probe_def bare_probe_def)
    with p(1) x(2) show "i \<in> p_Id ` set ps" by simp
  qed
  let ?rows = "probe_rows ok d ps"
  define m where "m = fold add_probe_row ?rows \<lparr>pm_probes = [], pm_tags = [], pm_addresses = []\<rparr>"
  have inv: "probe_maps_inv ?rows m" unfolding m_def by (rule probe_maps_fold)
  have dto: "ToProbeDTO ?rows = map (\<lambda>(pid, p). p\<lparr>pd_Tags := lookup_list (pm_tags m) pid,
      pd_RemoteIp := lookup_list (pm_addresses m) pid\<rparr>) (pm_probes m)"
    by (simp add: ToProbeDTO_def m_def Let_def)
  show "p_Id ` set ps \<subseteq> pd_Id ` set (ToProbeDTO (probe_rows ok d ps))"
  proof
    fix i assume "i \<in> p_Id ` set ps"
    then obtain p where p: "p \<in> set ps" "p_Id p = i" by blast
    from probe_maps_invD(3)[OF inv rows_of_probe_rows(3)[OF p]] obtain b where b: "map_of (pm_probes m) i = Some b"
      by blast
    from probe_maps_invD(2)[OF inv b] obtain r where r: "r \<in> rows_of i ?rows" "b = bare_probe (pw_Probe r)"
      by (elim bexE)
    have "pd_Id b = i" unfolding r(2) bare_probe_def using rows_ofD[OF r(1)] by simp
    have "(i, b) \<in> set (pm_probes m)" using b by (rule map_of_SomeD)
    let ?x = "b\<lparr>pd_Tags := lookup_list (pm_tags m) i, pd_RemoteIp := lookup_list (pm_addresses m) i\<rparr>"
    have "?x \<in> set (ToProbeDTO ?rows)"
      unfolding dto set_map
      by (rule image_eqI[OF _ \<open>(i, b) \<in> set (pm_probes m)\<close>]) simp
    moreover have "pd_Id ?x = i" using \<open>pd_Id b = i\<close> by simp
    ultimately show "i \<in> pd_Id ` set (ToProbeDTO ?rows)" by (metis imageI)
  qed
qed

lemma post_first_probe:
  "post env P (first_probe org sel)
     (\<lambda>x d. P d \<and> (\<exists>p\<in>set (t_probe d). sel p \<and> shows_probe (\<lambda>t. pt_OrgId t = org) d p x))"
proof -
  let ?ok = "\<lambda>t. pt_OrgId t = org"
  let ?R = "\<lambda>rows d. P d \<and> rows = probe_rows ?ok d (filter sel (t_probe d))"
  show ?thesis
    unfolding first_probe_def
  proof (rule post_bind[where R = ?R])
    show "post env P (query (\<lambda>env d. probe_rows ?ok d (filter sel (t_probe d)))) ?R"
      by (rule post_query) simp
    show "post env (?R rows) (if rows = [] then failS ErrProbeNotFound else liftS (go_index (ToProbeDTO rows) 0))
       (\<lambda>x d. P d \<and> (\<exists>p\<in>set (t_probe d). sel p \<and> shows_probe ?ok d p x))" for rows
    proof (intro post_if post_fail post_lift)
      fix x d
      assume go: "go_index (ToProbeDTO rows) 0 = Inr x" and R: "?R rows d"
      then have "x \<in> set (ToProbeDTO (probe_rows ?ok d (filter sel (t_probe d))))"
        by (auto simp: go_index_def split: if_splits)
      from in_ToProbeDTO[OF this] R show "P d \<and> (\<exists>p\<in>set (t_probe d). sel p \<and> shows_probe ?ok d p x)" by auto
    qed
  qed
qed

end
