(* ===== verification/ProbeProps.thy ===== *)
theory ProbeProps
  imports ProbeInv CheckProps
begin

text \<open>
  The properties of the probe component: what a read shows, what adding, updating and deleting a probe
  leave, which of them a foreign organisation may do, and that a probe is marked online exactly while
  it has a session.
\<close>

section \<open>What the writers leave\<close>

definition probe_inv :: "db \<Rightarrow> bool" where
  "probe_inv d \<longleftrightarrow> probe_keys_ok (t_probe d) \<and> probe_tags_ok (t_probe_tag d) \<and> (\<forall>p\<in>set (t_probe d). p_Id p \<noteq> 0)"

definition org_tags :: "int \<Rightarrow> int \<Rightarrow> db \<Rightarrow> string set" where
  "org_tags pid org d = tags_seen (\<lambda>t. pt_OrgId t = org) d pid"

definition probe_request :: "ProbeDTO \<Rightarrow> Probe \<Rightarrow> bool" where
  "probe_request p row \<longleftrightarrow>
     p_OrgId row = pd_OrgId p \<and> p_Name row = pd_Name p \<and> p_Slug row = probe_slug (pd_Name p) \<and>
     p_Public row = pd_Public p \<and> p_Enabled row = pd_Enabled p \<and>
     p_Latitude row = pd_Latitude p \<and> p_Longitude row = pd_Longitude p"

lemma post_probe_tag_rows:
  "post env P (probe_tag_rows org pid tags)
     (\<lambda>rows d. P d \<and> map pt_Tag rows = tags \<and> (\<forall>r\<in>set rows. pt_ProbeId r = pid \<and> pt_OrgId r = org))"
  unfolding probe_tag_rows_def by (rule post_rows) simp_all

lemma probe_tag_assign: "t_probe_tag_update f d = d\<lparr>t_probe_tag := f (t_probe_tag d)\<rparr>"
  by (cases d) simp

lemma post_insert_probe_tags:
  assumes "probe_tags_ok (t_probe_tag d0)"
  shows "post env ((=) d0) (insert_probe_tags rows)
     (\<lambda>_ d. d = d0\<lparr>t_probe_tag := t_probe_tag d0 @ rows\<rparr> \<and> probe_tags_ok (t_probe_tag d))"
  unfolding insert_probe_tags_def
  by (rule post_insert_rows) (use assms in \<open>auto simp: probe_tag_assign[of "\<lambda>t. t @ rows"]\<close>)

definition added_probe :: "db \<Rightarrow> ProbeDTO \<Rightarrow> ProbeDTO \<Rightarrow> db \<Rightarrow> bool" where
  "added_probe d0 p p' d \<longleftrightarrow>
     (\<exists>row rows. d = d0\<lparr>t_probe := t_probe d0 @ [row], t_probe_tag := t_probe_tag d0 @ rows\<rparr> \<and>
        probe_request p row \<and> \<not> p_Online row \<and> p_Id row = pd_Id p' \<and> p_Id row \<noteq> 0 \<and>
        p_Id row \<notin> p_Id ` set (t_probe d0) \<and> pd_Slug p' = probe_slug (pd_Name p) \<and>
        map pt_Tag rows = pd_Tags p \<and> (\<forall>r\<in>set rows. pt_ProbeId r = p_Id row \<and> pt_OrgId r = pd_OrgId p) \<and>
        probe_keys_ok (t_probe d) \<and> probe_tags_ok (t_probe_tag d))"

lemma post_insert_probe:
  assumes orm: "orm_documented env"
  shows "post env ((=) d0) (insert_probe p)
     (\<lambda>row d. row = p\<lparr>p_Id := p_Id row\<rparr> \<and> p_Id row \<noteq> 0 \<and> p_Id row \<notin> p_Id ` set (t_probe d0) \<and>
        d = d0\<lparr>t_probe := t_probe d0 @ [row]\<rparr> \<and> probe_keys_ok (t_probe d))"
  unfolding insert_probe_def
  by (rule post_stmt)
     (auto simp: Let_def new_id_nonzero[OF orm] probe_keys_ok_def unique_on_append)

lemma post_addProbe:
  assumes orm: "orm_documented env" and tags: "probe_tags_ok (t_probe_tag d0)"
  shows "post env ((=) d0) (addProbe p) (\<lambda>p' d. added_probe d0 p p' d)"
  unfolding addProbe_def Let_def
proof (intro post_bind[OF post_now], rule post_bind[OF post_insert_probe[OF orm]], rule post_fix)
  fix t1 t2 t3 t4 and row :: Probe and d :: db
  let ?row = "Probe_UpdateSlug
     \<lparr>p_Id = 0, p_OrgId = pd_OrgId p, p_Slug = [], p_Name = pd_Name p, p_Public = pd_Public p,
      p_Latitude = pd_Latitude p, p_Longitude = pd_Longitude p, p_Created = t3, p_Updated = t4,
      p_Online = False, p_OnlineChange = t2, p_Enabled = pd_Enabled p, p_EnabledChange = t1\<rparr>"
  let ?p = "p\<lparr>pd_Slug := p_Slug row, pd_Id := p_Id row, pd_Created := p_Created row,
      pd_Updated := p_Updated row, pd_OnlineChange := p_OnlineChange row, pd_EnabledChange := p_EnabledChange row\<rparr>"
  let ?d = "d0\<lparr>t_probe := t_probe d0 @ [row]\<rparr>"
  assume "row = ?row\<lparr>p_Id := p_Id row\<rparr> \<and> p_Id row \<noteq> 0 \<and> p_Id row \<notin> p_Id ` set (t_probe d0) \<and>
      d = ?d \<and> probe_keys_ok (t_probe d)"
  then have row: "row = ?row\<lparr>p_Id := p_Id row\<rparr>" "p_Id row \<noteq> 0" "p_Id row \<notin> p_Id ` set (t_probe d0)"
    and d: "d = ?d" "probe_keys_ok (t_probe d)" by blast+
  have req: "probe_request p row \<and> \<not> p_Online row \<and> p_Slug row = probe_slug (pd_Name p)"
    by (subst (1 2 3) row(1)) (simp add: probe_request_def Probe_UpdateSlug_def)
  have fin: "added_probe d0 p ?p (d\<lparr>t_probe_tag := t_probe_tag d @ rows\<rparr>)"
    if "map pt_Tag rows = pd_Tags p" "\<forall>r\<in>set rows. pt_ProbeId r = p_Id row \<and> pt_OrgId r = pd_OrgId p"
      "probe_tags_ok (t_probe_tag d0 @ rows)" for rows
    unfolding added_probe_def
    by (rule exI[of _ row], rule exI[of _ rows]) (use that row(2,3) req d in simp)
  have ins: "post env ((=) d) (if rows \<noteq> [] then insert_probe_tags rows else returnS ())
      (\<lambda>_ d'. d' = d\<lparr>t_probe_tag := t_probe_tag d @ rows\<rparr> \<and> probe_tags_ok (t_probe_tag d0 @ rows))" for rows
    by (intro post_if post_weaken[OF post_insert_probe_tags] post_return) (use tags d in auto)
  show "post env ((=) d)
     (bindS (probe_tag_rows (pd_OrgId p) (p_Id row) (pd_Tags p)) (\<lambda>rows.
        thenS (if rows \<noteq> [] then insert_probe_tags rows else returnS ())
          (thenS (events_Publish (ProbeCreated (pd_Created ?p) ?p)) (returnS ?p))))
     (\<lambda>p' d. added_probe d0 p p' d)"
    by (rule post_bind[OF post_probe_tag_rows], rule post_fix,
        rule post_then[where R = "\<lambda>d. added_probe d0 p ?p d"],
        rule post_weaken[OF ins], use fin in auto,
        intro post_then[OF post_publish] post_return)
qed

text \<open>
  A committed \<open>AddProbe\<close> appends the probe with the requested columns, offline, under a new id, and
  its tags for the owner's organisation, returns that id, and changes nothing else in the database.
\<close>

theorem AddProbe_stores:
  assumes "orm_documented env" and "probe_inv (w_db w)"
    and "AddProbe p env w = (Inr p', w')" and "commits (addProbe p) env w"
  shows "added_probe (w_db w) p p' (w_db w') \<and> probe_inv (w_db w') \<and>
     org_tags (pd_Id p') (pd_OrgId p) (w_db w') \<supseteq> set (pd_Tags p) - {[]}"
proof -
  have "probe_tags_ok (t_probe_tag (w_db w))" using assms(2) by (simp add: probe_inv_def)
  from committed_post[OF post_addProbe[OF assms(1) this] assms(3)[unfolded AddProbe_def] assms(4)]
  have a: "added_probe (w_db w) p p' (w_db w')" .
  then have "probe_inv (w_db w')" using assms(2) by (auto simp: added_probe_def probe_inv_def)
  moreover have "set (pd_Tags p) - {[]} \<subseteq> org_tags (pd_Id p') (pd_OrgId p) (w_db w')"
  proof -
    from a obtain row rows where r: "w_db w' = (w_db w)\<lparr>t_probe := t_probe (w_db w) @ [row], t_probe_tag := t_probe_tag (w_db w) @ rows\<rparr>"
      "map pt_Tag rows = pd_Tags p" "\<forall>r\<in>set rows. pt_ProbeId r = pd_Id p' \<and> pt_OrgId r = pd_OrgId p"
      unfolding added_probe_def by auto
    have "set (pd_Tags p) = pt_Tag ` set rows" by (simp add: r(2)[symmetric])
    with r(3) show ?thesis by (auto simp: org_tags_def tags_seen_def r(1))
  qed
  ultimately show ?thesis using a by blast
qed

definition probe_eu :: ProbeDTO where
  "probe_eu = \<lparr>pd_Id = 0, pd_OrgId = 1, pd_Slug = [], pd_Name = ''eu 1'', pd_Tags = [''eu''], pd_Public = True,
     pd_Latitude = 0, pd_Longitude = 0, pd_Online = False, pd_OnlineChange = 0, pd_Enabled = True,
     pd_EnabledChange = 0, pd_Created = 0, pd_Updated = 0, pd_RemoteIp = []\<rparr>"

lemma probe_run_ok: "is_ok (fst (AddProbe probe_eu plain_env start))"
  by code_simp

lemma start_probe_inv: "probe_inv (w_db start)"
  by (simp add: probe_inv_def start_def empty_db_def probe_keys_ok_def probe_tags_ok_def unique_on_def)

theorem AddProbe_stores_witness:
  "probe_inv (w_db (snd (AddProbe probe_eu plain_env start)))"
  using AddProbe_stores[OF plain_env_documented start_probe_inv run_parts[OF probe_run_ok] plain_commits] by blast

section \<open>Updating\<close>

definition tags_of_others :: "int \<Rightarrow> int \<Rightarrow> ProbeTag list \<Rightarrow> ProbeTag list" where
  "tags_of_others pid org = filter (\<lambda>t. \<not> (pt_ProbeId t = pid \<and> pt_OrgId t = org))"

lemma post_update_probe_tags:
  assumes tags: "probe_tags_ok (t_probe_tag d0)" and old: "set (pd_Tags x) = org_tags (pd_Id p) (pd_OrgId p) d0"
  shows "post env ((=) d0) (update_probe_tags x p)
     (\<lambda>_ d. \<exists>T. d = d0\<lparr>t_probe_tag := T\<rparr> \<and> probe_tags_ok T \<and>
        tags_of_others (pd_Id p) (pd_OrgId p) T = tags_of_others (pd_Id p) (pd_OrgId p) (t_probe_tag d0) \<and>
        org_tags (pd_Id p) (pd_OrgId p) d = set (pd_Tags p) - {[]})"
proof -
  let ?pid = "pd_Id p" and ?org = "pd_OrgId p"
  let ?dels = "tags_to_delete (pd_Tags x) (pd_Tags p)" and ?adds = "tags_to_add (pd_Tags x) (pd_Tags p)"
  let ?others = "tags_of_others ?pid ?org"
  let ?T1 = "filter (\<lambda>t. \<not> (pt_ProbeId t = ?pid \<and> pt_OrgId t = ?org \<and> pt_Tag t \<in> set ?dels)) (t_probe_tag d0)"
  let ?S = "\<lambda>d. \<exists>T. d = d0\<lparr>t_probe_tag := T\<rparr> \<and> probe_tags_ok T \<and> ?others T = ?others (t_probe_tag d0) \<and>
     org_tags ?pid ?org d = set (pd_Tags x) - set ?dels"
  have d1: "?S (d0\<lparr>t_probe_tag := ?T1\<rparr>)"
  proof (intro exI[of _ ?T1] conjI refl)
    show "probe_tags_ok ?T1" using tags by (simp add: probe_tags_ok_def unique_on_filter)
    show "?others ?T1 = ?others (t_probe_tag d0)"
      by (auto simp: tags_of_others_def intro!: filter_cong)
    show "org_tags ?pid ?org (d0\<lparr>t_probe_tag := ?T1\<rparr>) = set (pd_Tags x) - set ?dels"
      unfolding old by (auto simp: org_tags_def tags_seen_def)
  qed
  have d0: "?S d0" if "?dels = []"
    using tags old that by (intro exI[of _ "t_probe_tag d0"]) simp
  have del: "post env ((=) d0) (if ?dels \<noteq> [] then delete_probe_tags ?pid ?org ?dels else returnS ()) (\<lambda>_. ?S)"
    unfolding delete_probe_tags_def
    by (intro post_if post_exec post_return) (use d1 d0 in blast)+
  have sync: "(set (pd_Tags x) - set ?dels) \<union> (set ?adds - {[]}) = set (pd_Tags p) - {[]}"
    using tag_plan.set_adds[of "pd_Tags x" "pd_Tags p"] tag_plan.set_dels[of "pd_Tags x" "pd_Tags p"] old
    by (auto simp: org_tags_def tags_seen_def)
  let ?Q = "\<lambda>d. \<exists>T. d = d0\<lparr>t_probe_tag := T\<rparr> \<and> probe_tags_ok T \<and> ?others T = ?others (t_probe_tag d0) \<and>
     org_tags ?pid ?org d = set (pd_Tags p) - {[]}"
  have add: "post env ?S (if ?adds \<noteq> [] then bindS (probe_tag_rows ?org ?pid ?adds) insert_probe_tags
     else returnS ()) (\<lambda>_. ?Q)"
  proof (rule post_if)
    assume "\<not> ?adds \<noteq> []"
    then have "?S d \<Longrightarrow> ?Q d" for d using sync by auto
    then show "post env ?S (returnS ()) (\<lambda>_. ?Q)" by (intro post_return)
  next
    show "post env ?S (bindS (probe_tag_rows ?org ?pid ?adds) insert_probe_tags) (\<lambda>_. ?Q)"
    proof (rule post_bind[OF post_probe_tag_rows], rule post_fix)
      fix rows :: "ProbeTag list" and d :: db
      assume a: "?S d \<and> map pt_Tag rows = ?adds \<and> (\<forall>r\<in>set rows. pt_ProbeId r = ?pid \<and> pt_OrgId r = ?org)"
      then obtain T where T: "d = d0\<lparr>t_probe_tag := T\<rparr>" "probe_tags_ok T" "?others T = ?others (t_probe_tag d0)"
        "org_tags ?pid ?org d = set (pd_Tags x) - set ?dels" by blast
      have rows: "\<forall>r\<in>set rows. pt_ProbeId r = ?pid \<and> pt_OrgId r = ?org" "pt_Tag ` set rows = set ?adds"
        using a by (auto simp: set_map[symmetric] simp del: set_map)
      have "org_tags ?pid ?org (d0\<lparr>t_probe_tag := T @ rows\<rparr>) = org_tags ?pid ?org d \<union> (set ?adds - {[]})"
        unfolding rows(2)[symmetric] using rows(1) by (auto simp: org_tags_def tags_seen_def T(1))
      moreover have "?others (T @ rows) = ?others T"
        using rows(1) by (auto simp: tags_of_others_def filter_empty_conv)
      ultimately have q: "?Q (d0\<lparr>t_probe_tag := T @ rows\<rparr>)" if "probe_tags_ok (T @ rows)"
        using T sync that by (intro exI[of _ "T @ rows"]) simp
      show "post env ((=) d) (insert_probe_tags rows) (\<lambda>_. ?Q)"
        by (rule post_weaken[OF post_insert_probe_tags]) (use T q in auto)
    qed
  qed
  show ?thesis unfolding update_probe_tags_def Let_def by (rule post_then[OF del add])
qed

text \<open>What an update \<open>p'\<close> of the request \<open>p\<close> leaves, for the probe's row \<open>p0\<close>.\<close>

definition updated_probe :: "db \<Rightarrow> Probe \<Rightarrow> ProbeDTO \<Rightarrow> db \<Rightarrow> bool" where
  "updated_probe d0 p0 p d \<longleftrightarrow>
     (\<exists>P T. d = d0\<lparr>t_probe := P, t_probe_tag := T\<rparr> \<and> probe_keys_ok P \<and> probe_tags_ok T \<and>
        tags_of_others (pd_Id p) (pd_OrgId p) T = tags_of_others (pd_Id p) (pd_OrgId p) (t_probe_tag d0) \<and>
        org_tags (pd_Id p) (pd_OrgId p) d = set (pd_Tags p) - {[]} \<and>
        (if p_OrgId p0 = pd_OrgId p
         then \<exists>row. probe_request p row \<and>
            P = map (\<lambda>r. if p_Id r = pd_Id p then merge_probe row r else r) (t_probe d0)
         else P = t_probe d0))"

lemma post_update_own_probe:
  assumes orm: "orm_documented env"
  shows "post env ((=) d0) (update_own_probe x p)
     (\<lambda>p' d. pd_Id p' = pd_Id p \<and> pd_OrgId p' = pd_OrgId p \<and> pd_Tags p' = pd_Tags p \<and>
        (\<exists>row. probe_request p row \<and>
           d = d0\<lparr>t_probe := map (\<lambda>r. if p_Id r = pd_Id p then merge_probe row r else r) (t_probe d0)\<rparr> \<and>
           probe_keys_ok (t_probe d)))"
proof -
  have upd: "upd_probe env = merge_probe" using orm by (simp add: orm_documented_def)
  let ?same = "\<lambda>p1. pd_Id p1 = pd_Id p \<and> pd_OrgId p1 = pd_OrgId p \<and> pd_Tags p1 = pd_Tags p \<and>
     pd_Name p1 = pd_Name p \<and> pd_Public p1 = pd_Public p \<and> pd_Enabled p1 = pd_Enabled p \<and>
     pd_Latitude p1 = pd_Latitude p \<and> pd_Longitude p1 = pd_Longitude p"
  have first: "post env ((=) d0) (if pd_Enabled x \<noteq> pd_Enabled p
        then bindS time_Now (\<lambda>t. returnS (p\<lparr>pd_EnabledChange := t\<rparr>)) else returnS p)
      (\<lambda>p1 d. d = d0 \<and> ?same p1)"
    by (intro post_if post_bind[OF post_now] post_return) auto
  show ?thesis
    unfolding update_own_probe_def Let_def
  proof (rule post_bind[OF first], rule post_bind[OF post_now])
    fix p1 t
    let ?row = "Probe_UpdateSlug
        \<lparr>p_Id = pd_Id p1, p_OrgId = pd_OrgId p1, p_Slug = [], p_Name = pd_Name p1,
         p_Public = pd_Public p1, p_Latitude = pd_Latitude p1, p_Longitude = pd_Longitude p1,
         p_Created = pd_Created x, p_Updated = t, p_Online = False, p_OnlineChange = zero_time,
         p_Enabled = pd_Enabled p1, p_EnabledChange = pd_EnabledChange p1\<rparr>"
    let ?d = "d0\<lparr>t_probe := map (\<lambda>r. if p_Id r = pd_Id p then merge_probe ?row r else r) (t_probe d0)\<rparr>"
    have "post env (\<lambda>d. d = d0 \<and> ?same p1) (update_probe_row ?row)
        (\<lambda>_ d. ?same p1 \<and> d = ?d \<and> probe_keys_ok (t_probe d))"
      unfolding update_probe_row_def
      by (rule post_stmt) (auto simp: Let_def upd Probe_UpdateSlug_def)
    moreover have "?same p1 \<Longrightarrow> probe_request p ?row" by (simp add: probe_request_def Probe_UpdateSlug_def)
    ultimately show "post env (\<lambda>d. d = d0 \<and> ?same p1)
        (thenS (update_probe_row ?row) (returnS (p1\<lparr>pd_Slug := p_Slug ?row, pd_Updated := t\<rparr>)))
        (\<lambda>p' d. pd_Id p' = pd_Id p \<and> pd_OrgId p' = pd_OrgId p \<and> pd_Tags p' = pd_Tags p \<and>
        (\<exists>row. probe_request p row \<and>
           d = d0\<lparr>t_probe := map (\<lambda>r. if p_Id r = pd_Id p then merge_probe row r else r) (t_probe d0)\<rparr> \<and>
           probe_keys_ok (t_probe d)))"
      by (intro post_then[where R = "\<lambda>d. ?same p1 \<and> d = ?d \<and> probe_keys_ok (t_probe d)"] post_return)
         (assumption, auto)
  qed
qed

lemma shows_probe_fields:
  "shows_probe ok d p x \<Longrightarrow> pd_Id x = p_Id p \<and> pd_OrgId x = p_OrgId p \<and> pd_Public x = p_Public p"
  by (cases x) (simp add: shows_probe_def bare_probe_def)

lemma post_updateProbe:
  assumes orm: "orm_documented env" and inv: "probe_inv d0"
  shows "post env ((=) d0) (updateProbe p)
     (\<lambda>p' d. \<exists>p0\<in>set (t_probe d0). p_Id p0 = pd_Id p \<and> visible (pd_OrgId p) p0 \<and> updated_probe d0 p0 p d)"
  unfolding updateProbe_def getProbeById_def
proof (rule post_bind[OF post_first_probe], rule post_fix)
  fix x d
  assume "d0 = d \<and> (\<exists>q\<in>set (t_probe d). (p_Id q = pd_Id p \<and> visible (pd_OrgId p) q) \<and>
    shows_probe (\<lambda>t. pt_OrgId t = pd_OrgId p) d q x)"
  then obtain p0 where p0: "p0 \<in> set (t_probe d0)" "p_Id p0 = pd_Id p" "visible (pd_OrgId p) p0"
    and sh: "shows_probe (\<lambda>t. pt_OrgId t = pd_OrgId p) d0 p0 x" and d: "d = d0" by blast
  have old: "set (pd_Tags x) = org_tags (pd_Id p) (pd_OrgId p) d0"
    using sh p0(2) by (simp add: shows_probe_def org_tags_def)
  note f = shows_probe_fields[OF sh]
  let ?Q = "\<lambda>p' d. \<exists>p0\<in>set (t_probe d0). p_Id p0 = pd_Id p \<and> visible (pd_OrgId p) p0 \<and> updated_probe d0 p0 p d"
  have tail: "post env ((=) d1)
      (thenS (update_probe_tags x p')
         (if pd_OrgId p' = pd_OrgId x
          then thenS (events_Publish (ProbeUpdated (pd_Updated p') x p')) (returnS p') else returnS p')) ?Q"
    if p': "pd_Id p' = pd_Id p" "pd_OrgId p' = pd_OrgId p" "pd_Tags p' = pd_Tags p"
      and d1: "d1 = d0\<lparr>t_probe := P\<rparr>" "probe_keys_ok P"
        "if p_OrgId p0 = pd_OrgId p then \<exists>row. probe_request p row \<and>
            P = map (\<lambda>r. if p_Id r = pd_Id p then merge_probe row r else r) (t_probe d0)
         else P = t_probe d0" for p' d1 P
  proof -
    have t1: "probe_tags_ok (t_probe_tag d1)" "set (pd_Tags x) = org_tags (pd_Id p') (pd_OrgId p') d1"
      using inv old by (simp_all add: d1(1) probe_inv_def p' org_tags_def tags_seen_def)
    have "post env ((=) d1) (update_probe_tags x p') (\<lambda>_ d. updated_probe d0 p0 p d)"
    proof (rule post_weaken[OF post_update_probe_tags[OF t1]])
      fix u :: unit and d
      assume "\<exists>T. d = d1\<lparr>t_probe_tag := T\<rparr> \<and> probe_tags_ok T \<and>
        tags_of_others (pd_Id p') (pd_OrgId p') T = tags_of_others (pd_Id p') (pd_OrgId p') (t_probe_tag d1) \<and>
        org_tags (pd_Id p') (pd_OrgId p') d = set (pd_Tags p') - {[]}"
      then obtain T where "d = d1\<lparr>t_probe_tag := T\<rparr>" "probe_tags_ok T"
        "tags_of_others (pd_Id p) (pd_OrgId p) T = tags_of_others (pd_Id p) (pd_OrgId p) (t_probe_tag d0)"
        "org_tags (pd_Id p) (pd_OrgId p) d = set (pd_Tags p) - {[]}" using p' d1(1) by auto
      then show "updated_probe d0 p0 p d"
        unfolding updated_probe_def using d1 by (intro exI[of _ P] exI[of _ T]) simp
    qed simp
    then show ?thesis
      by (intro post_then[where R = "\<lambda>d. updated_probe d0 p0 p d"])
         (assumption, intro post_if post_then[OF post_publish] post_return, (use p0 in blast)+)
  qed
  show "post env ((=) d)
     (if \<not> pd_Public x \<and> pd_OrgId p \<noteq> pd_OrgId x then failS ErrProbeNotFound
     else bindS (if pd_OrgId p = pd_OrgId x then update_own_probe x p
                 else returnS (x\<lparr>pd_Tags := pd_Tags p, pd_OrgId := pd_OrgId p\<rparr>)) (\<lambda>p'.
          thenS (update_probe_tags x p')
            (if pd_OrgId p' = pd_OrgId x
             then thenS (events_Publish (ProbeUpdated (pd_Updated p') x p')) (returnS p')
             else returnS p'))) ?Q"
    unfolding d
  proof (intro post_if post_fail)
    let ?R = "\<lambda>p' d1. pd_Id p' = pd_Id p \<and> pd_OrgId p' = pd_OrgId p \<and> pd_Tags p' = pd_Tags p \<and>
      (\<exists>P. d1 = d0\<lparr>t_probe := P\<rparr> \<and> probe_keys_ok P \<and> (if p_OrgId p0 = pd_OrgId p then \<exists>row. probe_request p row \<and>
            P = map (\<lambda>r. if p_Id r = pd_Id p then merge_probe row r else r) (t_probe d0)
         else P = t_probe d0))"
    have "post env ((=) d0) (if pd_OrgId p = pd_OrgId x then update_own_probe x p
        else returnS (x\<lparr>pd_Tags := pd_Tags p, pd_OrgId := pd_OrgId p\<rparr>)) ?R"
    proof (rule post_if)
      assume own: "pd_OrgId p = pd_OrgId x"
      show "post env ((=) d0) (update_own_probe x p) ?R"
        by (rule post_weaken[OF post_update_own_probe[OF orm]]) (use own f in auto)
    next
      assume "pd_OrgId p \<noteq> pd_OrgId x"
      then show "post env ((=) d0) (returnS (x\<lparr>pd_Tags := pd_Tags p, pd_OrgId := pd_OrgId p\<rparr>)) ?R"
        using f p0(2) inv by (intro post_return) (auto simp: probe_inv_def intro: exI[of _ "t_probe d0"])
    qed
    then show "post env ((=) d0) (bindS (if pd_OrgId p = pd_OrgId x then update_own_probe x p
                 else returnS (x\<lparr>pd_Tags := pd_Tags p, pd_OrgId := pd_OrgId p\<rparr>)) (\<lambda>p'.
          thenS (update_probe_tags x p')
            (if pd_OrgId p' = pd_OrgId x
             then thenS (events_Publish (ProbeUpdated (pd_Updated p') x p')) (returnS p')
             else returnS p'))) ?Q"
      by (rule post_bind) (rule post_fix, use tail in blast)
  qed
qed

text \<open>
  A committed \<open>UpdateProbe\<close> rewrites the row of a probe only for the organisation that owns it, with
  the requested columns (an offline bean never marks it offline); any organisation that sees the probe
  may replace its own tags, exactly; the tags of other organisations, other probes and every other
  table stay.
\<close>

theorem UpdateProbe_stores:
  assumes "orm_documented env" and "probe_inv (w_db w)"
    and "UpdateProbe p env w = (Inr p', w')" and "commits (updateProbe p) env w"
  shows "(\<exists>p0\<in>set (t_probe (w_db w)). p_Id p0 = pd_Id p \<and> visible (pd_OrgId p) p0 \<and>
      updated_probe (w_db w) p0 p (w_db w')) \<and> probe_inv (w_db w')"
proof -
  from committed_post[OF post_updateProbe[OF assms(1,2)] assms(3)[unfolded UpdateProbe_def] assms(4)]
  obtain p0 where p0: "p0 \<in> set (t_probe (w_db w))" "p_Id p0 = pd_Id p" "visible (pd_OrgId p) p0"
    "updated_probe (w_db w) p0 p (w_db w')" by blast
  have same: "p_Id (merge_probe row r) = p_Id r" for row r by (simp add: merge_probe_def)
  from p0(4) obtain P T where d: "w_db w' = (w_db w)\<lparr>t_probe := P, t_probe_tag := T\<rparr>" "probe_keys_ok P" "probe_tags_ok T"
    and P: "if p_OrgId p0 = pd_OrgId p
         then \<exists>row. probe_request p row \<and>
            P = map (\<lambda>r. if p_Id r = pd_Id p then merge_probe row r else r) (t_probe (w_db w))
         else P = t_probe (w_db w)"
    unfolding updated_probe_def by blast
  have nz: "\<forall>q\<in>set (t_probe (w_db w)). p_Id q \<noteq> 0" using assms(2) by (simp add: probe_inv_def)
  have "\<exists>row. P = map (\<lambda>r. if p_Id r = pd_Id p then merge_probe row r else r) (t_probe (w_db w)) \<or>
      P = t_probe (w_db w)"
    using P by (cases "p_OrgId p0 = pd_OrgId p") auto
  then have "\<forall>q\<in>set P. p_Id q \<noteq> 0"
    using nz by (elim exE disjE) (auto simp: same)
  then have "probe_inv (w_db w')" using d by (simp add: probe_inv_def)
  with p0 show ?thesis by blast
qed

text \<open>Organisation 2 tags the public probe of organisation 1.\<close>

definition probe_run :: "ProbeDTO result \<times> world" where
  "probe_run = AddProbe probe_eu plain_env start"

definition foreign_tags :: ProbeDTO where
  "foreign_tags = probe_eu\<lparr>pd_Id := 1, pd_OrgId := 2, pd_Name := ''mine'', pd_Tags := [''fast'']\<rparr>"

lemma foreign_run_ok: "is_ok (fst (UpdateProbe foreign_tags plain_env (snd probe_run)))"
  by code_simp

lemma probe_run_inv: "probe_inv (w_db (snd probe_run))"
proof -
  have "probe_tags_ok (t_probe_tag (w_db start))" using start_probe_inv by (simp add: probe_inv_def)
  from committed_post[OF post_addProbe[OF plain_env_documented this] run_parts[OF probe_run_ok, unfolded AddProbe_def] plain_commits]
  have "added_probe (w_db start) probe_eu (projr (fst probe_run)) (w_db (snd probe_run))"
    by (simp add: probe_run_def AddProbe_def)
  then show ?thesis using start_probe_inv by (auto simp: added_probe_def probe_inv_def)
qed

theorem UpdateProbe_stores_witness:
  "\<exists>p0. updated_probe (w_db (snd probe_run)) p0 foreign_tags
     (w_db (snd (UpdateProbe foreign_tags plain_env (snd probe_run))))"
  using UpdateProbe_stores[OF plain_env_documented probe_run_inv run_parts[OF foreign_run_ok] plain_commits] by blast

section \<open>Deleting\<close>

lemma post_deleteProbe:
  "post env ((=) d0) (deleteProbe pid org)
     (\<lambda>_ d. (\<exists>p\<in>set (t_probe d0). p_Id p = pid \<and> p_OrgId p = org) \<and>
        d = d0\<lparr>t_probe := filter (\<lambda>p. \<not> (p_Id p = pid \<and> p_OrgId p = org)) (t_probe d0),
               t_probe_tag := tags_of_others pid org (t_probe_tag d0),
               t_route_id := filter (\<lambda>r. ri_ProbeId r \<noteq> pid) (t_route_id d0)\<rparr>)"
  unfolding deleteProbe_def getProbeById_def
proof (rule post_bind[OF post_first_probe], rule post_fix)
  fix x d
  assume "d0 = d \<and> (\<exists>q\<in>set (t_probe d). (p_Id q = pid \<and> visible org q) \<and> shows_probe (\<lambda>t. pt_OrgId t = org) d q x)"
  then obtain p0 where p0: "p0 \<in> set (t_probe d0)" "p_Id p0 = pid" and d: "d = d0"
    and f: "pd_Id x = pid" "pd_OrgId x = p_OrgId p0"
    using shows_probe_fields by blast
  let ?Q = "\<lambda>d. (\<exists>p\<in>set (t_probe d0). p_Id p = pid \<and> p_OrgId p = org) \<and>
        d = d0\<lparr>t_probe := filter (\<lambda>p. \<not> (p_Id p = pid \<and> p_OrgId p = org)) (t_probe d0),
               t_probe_tag := tags_of_others pid org (t_probe_tag d0),
               t_route_id := filter (\<lambda>r. ri_ProbeId r \<noteq> pid) (t_route_id d0)\<rparr>"
  show "post env ((=) d)
     (if pd_OrgId x \<noteq> org then failS ErrProbeNotFound
     else thenS (exec (\<lambda>env d. d\<lparr>t_probe :=
            filter (\<lambda>p. \<not> (p_Id p = pd_Id x \<and> p_OrgId p = pd_OrgId x)) (t_probe d)\<rparr>))
         (thenS (exec (\<lambda>env d. d\<lparr>t_probe_tag :=
            filter (\<lambda>t. \<not> (pt_ProbeId t = pd_Id x \<and> pt_OrgId t = pd_OrgId x)) (t_probe_tag d)\<rparr>))
         (thenS (exec (\<lambda>env d. d\<lparr>t_route_id :=
            filter (\<lambda>r. ri_ProbeId r \<noteq> pd_Id x) (t_route_id d)\<rparr>))
         (bindS time_Now (\<lambda>t. events_Publish (ProbeDeleted t x)))))) (\<lambda>_. ?Q)"
    unfolding d
  proof (intro post_if post_fail)
    assume org: "\<not> pd_OrgId x \<noteq> org"
    let ?d1 = "d0\<lparr>t_probe := filter (\<lambda>p. \<not> (p_Id p = pid \<and> p_OrgId p = org)) (t_probe d0)\<rparr>"
    let ?d2 = "?d1\<lparr>t_probe_tag := tags_of_others pid org (t_probe_tag d0)\<rparr>"
    have q: "?Q (?d2\<lparr>t_route_id := filter (\<lambda>r. ri_ProbeId r \<noteq> pid) (t_route_id d0)\<rparr>)"
      using p0 f org by auto
    show "post env ((=) d0)
         (thenS (exec (\<lambda>env d. d\<lparr>t_probe :=
            filter (\<lambda>p. \<not> (p_Id p = pd_Id x \<and> p_OrgId p = pd_OrgId x)) (t_probe d)\<rparr>))
         (thenS (exec (\<lambda>env d. d\<lparr>t_probe_tag :=
            filter (\<lambda>t. \<not> (pt_ProbeId t = pd_Id x \<and> pt_OrgId t = pd_OrgId x)) (t_probe_tag d)\<rparr>))
         (thenS (exec (\<lambda>env d. d\<lparr>t_route_id :=
            filter (\<lambda>r. ri_ProbeId r \<noteq> pd_Id x) (t_route_id d)\<rparr>))
         (bindS time_Now (\<lambda>t. events_Publish (ProbeDeleted t x)))))) (\<lambda>_. ?Q)"
    proof (rule post_then[where R = "(=) ?d1"])
      show "post env ((=) d0) (exec (\<lambda>env d. d\<lparr>t_probe :=
            filter (\<lambda>p. \<not> (p_Id p = pd_Id x \<and> p_OrgId p = pd_OrgId x)) (t_probe d)\<rparr>)) (\<lambda>_. (=) ?d1)"
        by (rule post_exec) (use org f in auto)
      show "post env ((=) ?d1) (thenS (exec (\<lambda>env d. d\<lparr>t_probe_tag :=
            filter (\<lambda>t. \<not> (pt_ProbeId t = pd_Id x \<and> pt_OrgId t = pd_OrgId x)) (t_probe_tag d)\<rparr>))
         (thenS (exec (\<lambda>env d. d\<lparr>t_route_id :=
            filter (\<lambda>r. ri_ProbeId r \<noteq> pd_Id x) (t_route_id d)\<rparr>))
         (bindS time_Now (\<lambda>t. events_Publish (ProbeDeleted t x))))) (\<lambda>_. ?Q)"
      proof (rule post_then[where R = "(=) ?d2"])
        show "post env ((=) ?d1) (exec (\<lambda>env d. d\<lparr>t_probe_tag :=
            filter (\<lambda>t. \<not> (pt_ProbeId t = pd_Id x \<and> pt_OrgId t = pd_OrgId x)) (t_probe_tag d)\<rparr>)) (\<lambda>_. (=) ?d2)"
          by (rule post_exec) (use org f in \<open>auto simp: tags_of_others_def\<close>)
        show "post env ((=) ?d2) (thenS (exec (\<lambda>env d. d\<lparr>t_route_id :=
            filter (\<lambda>r. ri_ProbeId r \<noteq> pd_Id x) (t_route_id d)\<rparr>))
         (bindS time_Now (\<lambda>t. events_Publish (ProbeDeleted t x)))) (\<lambda>_. ?Q)"
          by (rule post_then[where R = ?Q], rule post_exec, use q f in force, rule post_bind[OF post_now],
              rule post_publish)
      qed
    qed
  qed
qed

lemma store_inv_drop_probe:
  assumes "store_inv gone d"
  shows "store_inv (insert pid gone) (d\<lparr>t_probe := P, t_probe_tag := T,
     t_route_id := filter (\<lambda>r. ri_ProbeId r \<noteq> pid) (t_route_id d)\<rparr>)" (is "store_inv _ ?d")
proof -
  have ri: "route_inv {} gone (owners d) 0 d" and ok: "endpoints_ok d" using assms by (auto simp: store_inv_def)
  have own: "owners ?d = owners d" by (simp add: owners_def)
  have tag: "tag_index ?d = tag_index d" by (simp add: tag_index_def fun_eq_iff)
  have ids: "id_index ?d i = id_index d i - {pid}" for i by (auto simp: id_index_def)
  have "route_matches (insert pid gone) ro ti (ii - {pid})" if "route_matches gone ro ti ii" for ro ti ii
    using that by (auto simp: route_matches_def)
  note m = this
  have "route_inv {} (insert pid gone) (owners d) 0 ?d"
  proof (rule route_invI)
    show "check_keys_ok (t_check ?d)" using route_invD(1)[OF ri] by simp
    show "check_ok {} (insert pid gone) (owners d) 0 ?d c" if "c \<in> set (t_check ?d)" for c
      using route_invD(2)[OF ri, of c] that m unfolding check_ok_def tag ids by simp
    show "tag_row_ok {} 0 (t_check ?d) r" if "r \<in> set (t_route_tag ?d)" for r
      using route_invD(3)[OF ri, of r] that by simp
    show "id_row_ok {} (t_check ?d) r" if "r \<in> set (t_route_id ?d)" for r
      using route_invD(4)[OF ri, of r] that by simp
  qed
  moreover have "endpoints_ok ?d" using ok by (simp add: endpoints_ok_def own)
  ultimately show ?thesis by (simp add: store_inv_def own)
qed

text \<open>
  A committed \<open>DeleteProbe\<close> succeeds only for the owner, removes the probe, the owner's tags on it
  and every row of the route index that names it, keeps the invariant of the routing (the probe being
  gone), and leaves everything else: the tags of other organisations on the probe and its sessions too.
\<close>

theorem DeleteProbe_erases:
  assumes "store_inv gone (w_db w)"
    and "DeleteProbe pid org env w = (Inr u, w')" and "commits (deleteProbe pid org) env w"
  shows "(\<exists>p\<in>set (t_probe (w_db w)). p_Id p = pid \<and> p_OrgId p = org) \<and>
     w_db w' = (w_db w)\<lparr>t_probe := filter (\<lambda>p. \<not> (p_Id p = pid \<and> p_OrgId p = org)) (t_probe (w_db w)),
               t_probe_tag := tags_of_others pid org (t_probe_tag (w_db w)),
               t_route_id := filter (\<lambda>r. ri_ProbeId r \<noteq> pid) (t_route_id (w_db w))\<rparr> \<and>
     store_inv (insert pid gone) (w_db w')"
  using committed_post[OF post_deleteProbe assms(2)[unfolded DeleteProbe_def] assms(3)]
    store_inv_drop_probe[OF assms(1)] by simp

lemma delete_probe_ok: "is_ok (fst (DeleteProbe 7 1 plain_env probed))"
  by code_simp

theorem DeleteProbe_erases_witness:
  "store_inv {7} (w_db (snd (DeleteProbe 7 1 plain_env probed)))"
proof -
  have "store_inv {} (w_db probed)" using added_run_inv by (simp add: probed_def store_inv_probes)
  from DeleteProbe_erases[OF this run_parts[OF delete_probe_ok] plain_commits] show ?thesis by blast
qed

section \<open>Sessions\<close>

text \<open>
  A probe is marked online exactly while a session names it; sockets identify sessions, and every
  session is of the organisation it is deleted by.
\<close>

definition online_inv :: "db \<Rightarrow> bool" where
  "online_inv d \<longleftrightarrow>
     unique_on (\<lambda>s. (s_OrgId s, s_SocketId s)) (t_probe_session d) \<and>
     (\<forall>p\<in>set (t_probe d). p_Online p \<longleftrightarrow> p_Id p \<in> s_ProbeId ` set (t_probe_session d))"

lemma post_addProbeSession:
  "post env ((=) d0) (addProbeSession s)
     (\<lambda>s' d. s_ProbeId s' = s_ProbeId s \<and> s_OrgId s' = s_OrgId s \<and> s_SocketId s' = s_SocketId s \<and>
        (\<exists>t. d = d0\<lparr>t_probe_session := t_probe_session d0 @ [s'],
             t_probe := map (\<lambda>p. if p_Id p = s_ProbeId s then p\<lparr>p_Online := True, p_OnlineChange := t\<rparr> else p) (t_probe d0)\<rparr>))"
  unfolding addProbeSession_def
proof (rule post_bind[OF post_now])
  fix t
  let ?R = "\<lambda>s' d. s_ProbeId s' = s_ProbeId s \<and> s_OrgId s' = s_OrgId s \<and> s_SocketId s' = s_SocketId s \<and>
     d = d0\<lparr>t_probe_session := t_probe_session d0 @ [s']\<rparr>"
  have ins: "post env ((=) d0) (insert_session (s\<lparr>s_Updated := t\<rparr>)) ?R"
    unfolding insert_session_def by (rule post_stmt) (auto simp: Let_def)
  have on: "post env (?R s') (set_online True t2 (s_ProbeId s'))
     (\<lambda>_ d. s_ProbeId s' = s_ProbeId s \<and> s_OrgId s' = s_OrgId s \<and> s_SocketId s' = s_SocketId s \<and>
        (\<exists>t. d = d0\<lparr>t_probe_session := t_probe_session d0 @ [s'],
             t_probe := map (\<lambda>p. if p_Id p = s_ProbeId s then p\<lparr>p_Online := True, p_OnlineChange := t\<rparr> else p) (t_probe d0)\<rparr>))" for s' t2
    unfolding set_online_def by (rule post_exec) auto
  show "post env ((=) d0) (bindS (insert_session (s\<lparr>s_Updated := t\<rparr>)) (\<lambda>s'.
     bindS time_Now (\<lambda>t2. thenS (set_online True t2 (s_ProbeId s'))
       (thenS (events_Publish (ProbeSessionCreated (s_Updated s') s')) (returnS s')))))
     (\<lambda>s' d. s_ProbeId s' = s_ProbeId s \<and> s_OrgId s' = s_OrgId s \<and> s_SocketId s' = s_SocketId s \<and>
        (\<exists>t. d = d0\<lparr>t_probe_session := t_probe_session d0 @ [s'],
             t_probe := map (\<lambda>p. if p_Id p = s_ProbeId s then p\<lparr>p_Online := True, p_OnlineChange := t\<rparr> else p) (t_probe d0)\<rparr>))"
    by (rule post_bind[OF ins], rule post_bind[OF post_now], rule post_then[OF on],
        rule post_then[OF post_publish], rule post_return)
qed

lemma online_inv_add:
  assumes "online_inv d0" and "(s_OrgId s, s_SocketId s) \<notin> (\<lambda>s. (s_OrgId s, s_SocketId s)) ` set (t_probe_session d0)"
  shows "online_inv (d0\<lparr>t_probe_session := t_probe_session d0 @ [s],
     t_probe := map (\<lambda>p. if p_Id p = s_ProbeId s then p\<lparr>p_Online := True, p_OnlineChange := t\<rparr> else p) (t_probe d0)\<rparr>)"
  using assms by (auto simp: online_inv_def unique_on_append unique_on_def)

text \<open>What a deleted session leaves: its rows are gone, its probe is offline when none is left.\<close>

definition session_deleted :: "ProbeSession \<Rightarrow> db \<Rightarrow> db \<Rightarrow> bool" where
  "session_deleted s d0 d \<longleftrightarrow>
     t_probe_session d = filter (\<lambda>r. \<not> same_socket s r) (t_probe_session d0) \<and>
     (\<exists>P. d = d0\<lparr>t_probe_session := t_probe_session d, t_probe := P\<rparr> \<and> map p_Id P = map p_Id (t_probe d0) \<and>
        (online_inv d0 \<longrightarrow> online_inv d))"

lemma set_sessions_where: "set (sessions_where pid [] zero_time d) = {s \<in> set (t_probe_session d). pid = 0 \<or> s_ProbeId s = pid}"
  by (auto simp: sessions_where_def)

lemma online_inv_delete:
  assumes inv: "online_inv d0" and s0: "s0 \<in> set (t_probe_session d0)" "same_socket s s0"
    and S: "S = filter (\<lambda>r. \<not> same_socket s r) (t_probe_session d0)"
    and none: "off \<longleftrightarrow> (\<forall>r\<in>set S. s_ProbeId r \<noteq> s_ProbeId s0)"
  shows "online_inv (d0\<lparr>t_probe_session := S, t_probe := map (\<lambda>p. if off \<and> p_Id p = s_ProbeId s0
     then p\<lparr>p_Online := False, p_OnlineChange := t\<rparr> else p) (t_probe d0)\<rparr>)"
proof -
  have u: "unique_on (\<lambda>s. (s_OrgId s, s_SocketId s)) (t_probe_session d0)" using inv by (simp add: online_inv_def)
  have only: "r = s0" if "r \<in> set (t_probe_session d0)" "same_socket s r" for r
    by (rule unique_onD[OF u that(1) s0(1)]) (use that(2) s0(2) in \<open>simp add: same_socket_def\<close>)
  have set_S: "set S = set (t_probe_session d0) - {s0}" unfolding S set_filter using only s0 by blast
  have uS: "unique_on (\<lambda>s. (s_OrgId s, s_SocketId s)) S" unfolding S by (rule unique_on_filter[OF u])
  have exact: "(if off \<and> p_Id p = s_ProbeId s0 then False else p_Online p) \<longleftrightarrow> p_Id p \<in> s_ProbeId ` set S"
    if "p \<in> set (t_probe d0)" for p
  proof -
    have on: "p_Online p \<longleftrightarrow> p_Id p \<in> s_ProbeId ` set (t_probe_session d0)" using inv that by (simp add: online_inv_def)
    show ?thesis
    proof (cases "p_Id p = s_ProbeId s0")
      case True
      have "p_Online p" using on True s0(1) by blast
      moreover have "p_Id p \<in> s_ProbeId ` set S \<longleftrightarrow> \<not> off" unfolding image_iff True using none by metis
      ultimately show ?thesis using True by simp
    next
      case False
      then have "p_Id p \<in> s_ProbeId ` set S \<longleftrightarrow> p_Id p \<in> s_ProbeId ` set (t_probe_session d0)"
        unfolding set_S by auto
      with on False show ?thesis by simp
    qed
  qed
  have sel: "p_Online (if c then p\<lparr>p_Online := False, p_OnlineChange := t\<rparr> else p) = (if c then False else p_Online p)"
    "p_Id (if c then p\<lparr>p_Online := False, p_OnlineChange := t\<rparr> else p) = p_Id p" for c and p :: Probe
    by simp_all
  let ?T = "map (\<lambda>p. if off \<and> p_Id p = s_ProbeId s0 then p\<lparr>p_Online := False, p_OnlineChange := t\<rparr> else p) (t_probe d0)"
  have tables: "t_probe (d0\<lparr>t_probe_session := S, t_probe := ?T\<rparr>) = ?T"
    "t_probe_session (d0\<lparr>t_probe_session := S, t_probe := ?T\<rparr>) = S" by simp_all
  show ?thesis
    unfolding online_inv_def tables set_map ball_simps sel using uS exact by blast
qed

lemma post_set_offline:
  "post env ((=) d1) (if off then bindS time_Now (\<lambda>t. set_online False t pid) else returnS ())
     (\<lambda>_ d. \<exists>t. d = d1\<lparr>t_probe := map (\<lambda>p. if off \<and> p_Id p = pid
        then p\<lparr>p_Online := False, p_OnlineChange := t\<rparr> else p) (t_probe d1)\<rparr>)"
  unfolding set_online_def
  by (intro post_if post_bind[OF post_now] post_exec post_return) auto

lemma post_deleteProbeSession:
  assumes nz: "\<forall>r\<in>set (t_probe_session d0). s_ProbeId r \<noteq> 0"
  shows "post env ((=) d0) (deleteProbeSession s) (\<lambda>_ d. session_deleted s d0 d)"
  unfolding deleteProbeSession_def
proof (rule post_bind[where R = "\<lambda>has d. d = d0 \<and> has = List.find (same_socket s) (t_probe_session d0)"])
  show "post env ((=) d0) (query (\<lambda>env d. List.find (same_socket s) (t_probe_session d)))
     (\<lambda>has d. d = d0 \<and> has = List.find (same_socket s) (t_probe_session d0))"
    by (rule post_query) simp
  fix has
  show "post env (\<lambda>d. d = d0 \<and> has = List.find (same_socket s) (t_probe_session d0))
     (case has of
       None \<Rightarrow> returnS ()
     | Some existing \<Rightarrow>
         bindS (stmt (\<lambda>env d. Inr (length (filter (same_socket s) (t_probe_session d)),
             d\<lparr>t_probe_session := filter (\<lambda>r. \<not> same_socket s r) (t_probe_session d)\<rparr>))) (\<lambda>affected.
         if affected = 0 then returnS ()
         else bindS (getProbeSessions (s_ProbeId existing) [] zero_time) (\<lambda>sessions.
              thenS (if length sessions < 1
                     then bindS time_Now (\<lambda>t. set_online False t (s_ProbeId existing)) else returnS ())
                (bindS time_Now (\<lambda>t. events_Publish (ProbeSessionDeleted t existing))))))
     (\<lambda>_ d. session_deleted s d0 d)"
  proof (cases has)
    case None
    have "session_deleted s d0 d0" if "List.find (same_socket s) (t_probe_session d0) = None"
      using that unfolding session_deleted_def
      by (auto simp: find_None_iff filter_id_conv intro!: exI[of _ "t_probe d0"])
    with None show ?thesis by (auto intro!: post_return)
  next
    case (Some s0)
    let ?S = "filter (\<lambda>r. \<not> same_socket s r) (t_probe_session d0)"
    let ?d1 = "d0\<lparr>t_probe_session := ?S\<rparr>"
    let ?found = "s0 \<in> set (t_probe_session d0) \<and> same_socket s s0"
    have del: "post env (\<lambda>d. d = d0 \<and> has = List.find (same_socket s) (t_probe_session d0))
        (stmt (\<lambda>env d. Inr (length (filter (same_socket s) (t_probe_session d)),
             d\<lparr>t_probe_session := filter (\<lambda>r. \<not> same_socket s r) (t_probe_session d)\<rparr>)))
        (\<lambda>n d. ?found \<and> (n \<noteq> 0 \<and> d = ?d1))"
      by (rule post_stmt) (use Some in \<open>auto dest!: sym[of "Some s0"] find_Some_in simp: filter_empty_conv\<close>)
    have tail: "post env ((=) ?d1)
        (bindS (getProbeSessions (s_ProbeId s0) [] zero_time) (\<lambda>sessions.
              thenS (if length sessions < 1
                     then bindS time_Now (\<lambda>t. set_online False t (s_ProbeId s0)) else returnS ())
                (bindS time_Now (\<lambda>t. events_Publish (ProbeSessionDeleted t s0)))))
        (\<lambda>_ d. session_deleted s d0 d)" if f: ?found
    proof (rule post_bind[where R = "\<lambda>ss d. d = ?d1 \<and> ss = sessions_where (s_ProbeId s0) [] zero_time ?d1"])
      show "post env ((=) ?d1) (getProbeSessions (s_ProbeId s0) [] zero_time)
         (\<lambda>ss d. d = ?d1 \<and> ss = sessions_where (s_ProbeId s0) [] zero_time ?d1)"
        unfolding getProbeSessions_def by (rule post_query) simp
      fix ss :: "ProbeSession list"
      let ?off = "length ss < 1"
      have pid: "s_ProbeId s0 \<noteq> 0" using nz f by blast
      have off: "?off \<longleftrightarrow> (\<forall>r\<in>set ?S. s_ProbeId r \<noteq> s_ProbeId s0)"
        if "ss = sessions_where (s_ProbeId s0) [] zero_time ?d1"
      proof -
        have "ss = [] \<longleftrightarrow> set ss = {}" by simp
        then show ?thesis unfolding that set_sessions_where using pid by auto
      qed
      have finished: "session_deleted s d0 (?d1\<lparr>t_probe := map (\<lambda>p. if ?off \<and> p_Id p = s_ProbeId s0
            then p\<lparr>p_Online := False, p_OnlineChange := t\<rparr> else p) (t_probe ?d1)\<rparr>)"
        if "ss = sessions_where (s_ProbeId s0) [] zero_time ?d1" for t
        unfolding session_deleted_def
      proof (intro conjI exI impI)
        show "map p_Id (map (\<lambda>p. if ?off \<and> p_Id p = s_ProbeId s0
            then p\<lparr>p_Online := False, p_OnlineChange := t\<rparr> else p) (t_probe ?d1)) = map p_Id (t_probe d0)"
          by simp
        assume "online_inv d0"
        from online_inv_delete[OF this conjunct1[OF f] conjunct2[OF f] refl off[OF that]]
        show "online_inv (?d1\<lparr>t_probe := map (\<lambda>p. if ?off \<and> p_Id p = s_ProbeId s0
            then p\<lparr>p_Online := False, p_OnlineChange := t\<rparr> else p) (t_probe ?d1)\<rparr>)" by simp
      qed simp_all
      show "post env (\<lambda>d. d = ?d1 \<and> ss = sessions_where (s_ProbeId s0) [] zero_time ?d1)
         (thenS (if ?off then bindS time_Now (\<lambda>t. set_online False t (s_ProbeId s0)) else returnS ())
                (bindS time_Now (\<lambda>t. events_Publish (ProbeSessionDeleted t s0))))
         (\<lambda>_ d. session_deleted s d0 d)"
      proof (rule post_fix)
        fix d
        assume d: "d = ?d1 \<and> ss = sessions_where (s_ProbeId s0) [] zero_time ?d1"
        show "post env ((=) d)
         (thenS (if ?off then bindS time_Now (\<lambda>t. set_online False t (s_ProbeId s0)) else returnS ())
                (bindS time_Now (\<lambda>t. events_Publish (ProbeSessionDeleted t s0))))
         (\<lambda>_ d. session_deleted s d0 d)"
          by (rule post_then[where R = "session_deleted s d0"], rule post_weaken[OF post_set_offline])
             (use d finished in \<open>auto intro!: post_bind[OF post_now] post_publish\<close>)
      qed
    qed
    show ?thesis
      unfolding Some option.case
    proof (rule post_bind[OF del[unfolded Some]], intro post_assume post_if)
      fix n :: nat
      assume "n \<noteq> 0" and "\<not> n = 0" and f: ?found
      show "post env (\<lambda>d. d = ?d1)
        (bindS (getProbeSessions (s_ProbeId s0) [] zero_time) (\<lambda>sessions.
              thenS (if length sessions < 1
                     then bindS time_Now (\<lambda>t. set_online False t (s_ProbeId s0)) else returnS ())
                (bindS time_Now (\<lambda>t. events_Publish (ProbeSessionDeleted t s0)))))
        (\<lambda>_ d. session_deleted s d0 d)"
        by (rule post_pre[OF tail[OF f]]) simp
    qed simp
  qed
qed

text \<open>
  C9. Adding and deleting sessions keeps the online flag exact: from a state where a probe is marked
  online exactly while it has a session and sockets are unique, a committed \<open>AddProbeSession\<close> on a new
  socket marks its probe online, a committed \<open>DeleteProbeSession\<close> removes the socket's session and marks
  the probe offline when that was its last, and the flag stays exact for every probe.
\<close>

theorem sessions_keep_online_exact:
  assumes "online_inv (w_db w)" and "\<forall>r\<in>set (t_probe_session (w_db w)). s_ProbeId r \<noteq> 0"
    and "AddProbeSession s env w = (Inr s', w')" and "commits (addProbeSession s) env w"
    and "\<forall>r\<in>set (t_probe_session (w_db w)). \<not> same_socket s r"
    and "DeleteProbeSession q env2 u = (Inr x, u')" and "commits (deleteProbeSession q) env2 u" and "w_db u = w_db w"
  shows "online_inv (w_db w') \<and> (\<forall>p\<in>set (t_probe (w_db w')). p_Id p = s_ProbeId s \<longrightarrow> p_Online p) \<and>
     online_inv (w_db u') \<and> t_probe_session (w_db u') = filter (\<lambda>r. \<not> same_socket q r) (t_probe_session (w_db w))"
proof -
  from committed_post[OF post_addProbeSession assms(3)[unfolded AddProbeSession_def] assms(4)]
  obtain t where s': "s_ProbeId s' = s_ProbeId s" "s_OrgId s' = s_OrgId s" "s_SocketId s' = s_SocketId s" and
    d: "w_db w' = (w_db w)\<lparr>t_probe_session := t_probe_session (w_db w) @ [s'],
       t_probe := map (\<lambda>p. if p_Id p = s_ProbeId s then p\<lparr>p_Online := True, p_OnlineChange := t\<rparr> else p) (t_probe (w_db w))\<rparr>"
    by blast
  have "(s_OrgId s', s_SocketId s') \<notin> (\<lambda>s. (s_OrgId s, s_SocketId s)) ` set (t_probe_session (w_db w))"
    using assms(5) s' by (auto simp: same_socket_def)
  from online_inv_add[OF assms(1) this, of t] have "online_inv (w_db w')" unfolding d s'(1) .
  moreover have "\<forall>p\<in>set (t_probe (w_db w')). p_Id p = s_ProbeId s \<longrightarrow> p_Online p" by (auto simp: d)
  moreover have "session_deleted q (w_db w) (w_db u')"
  proof -
    have nz: "\<forall>r\<in>set (t_probe_session (w_db u)). s_ProbeId r \<noteq> 0" using assms(2,8) by simp
    from committed_post[OF post_deleteProbeSession[OF nz] assms(6)[unfolded DeleteProbeSession_def] assms(7)]
    show ?thesis by (simp add: assms(8))
  qed
  ultimately show ?thesis using assms(1) unfolding session_deleted_def by blast
qed

definition sess1 :: ProbeSession where
  "sess1 = \<lparr>s_Id = 0, s_OrgId = 1, s_ProbeId = 1, s_SocketId = ''a'', s_Version = ''1'', s_InstanceId = ''i'',
     s_RemoteIp = ''1.1.1.1'', s_Updated = 0\<rparr>"

definition session_world :: world where
  "session_world = snd (AddProbeSession sess1 plain_env (snd probe_run))"

lemma session_runs:
  "is_ok (fst (AddProbeSession sess1 plain_env (snd probe_run)))"
  "is_ok (fst (DeleteProbeSession sess1 plain_env (snd probe_run)))"
  "t_probe_session (w_db (snd probe_run)) = []"
  "\<forall>p\<in>set (t_probe (w_db (snd probe_run))). \<not> p_Online p"
  by code_simp+

theorem sessions_keep_online_exact_witness:
  "online_inv (w_db session_world)"
proof -
  have "online_inv (w_db (snd probe_run))" using session_runs(3,4) by (simp add: online_inv_def unique_on_def)
  from sessions_keep_online_exact[OF this _ run_parts[OF session_runs(1)] plain_commits _ run_parts[OF session_runs(2)] plain_commits refl]
  show ?thesis by (simp add: session_runs(3) session_world_def)
qed

lemma post_clearProbeSessions:
  assumes inv: "online_inv d0" and nz: "\<forall>r\<in>set (t_probe_session d0). s_ProbeId r \<noteq> 0"
  shows "post env ((=) d0) (clearProbeSessions inst) (\<lambda>_ d. online_inv d \<and>
     t_probe_session d = filter (\<lambda>r. \<not> (inst = [] \<or> s_InstanceId r = inst)) (t_probe_session d0) \<and>
     (\<exists>P. d = d0\<lparr>t_probe_session := t_probe_session d, t_probe := P\<rparr> \<and> map p_Id P = map p_Id (t_probe d0)))"
proof -
  let ?ss = "sessions_where 0 inst zero_time d0"
  let ?left = "\<lambda>ys. filter (\<lambda>r. \<forall>s\<in>set ys. \<not> same_socket s r) (t_probe_session d0)"
  let ?I = "\<lambda>ys d. online_inv d \<and> t_probe_session d = ?left ys \<and>
     (\<exists>P. d = d0\<lparr>t_probe_session := t_probe_session d, t_probe := P\<rparr> \<and> map p_Id P = map p_Id (t_probe d0))"
  have set_ss: "set ?ss = {r \<in> set (t_probe_session d0). inst = [] \<or> s_InstanceId r = inst}"
    by (auto simp: sessions_where_def)
  have u: "unique_on (\<lambda>s. (s_OrgId s, s_SocketId s)) (t_probe_session d0)" using inv by (simp add: online_inv_def)
  have left: "?left ?ss = filter (\<lambda>r. \<not> (inst = [] \<or> s_InstanceId r = inst)) (t_probe_session d0)"
  proof (rule filter_cong[OF refl])
    fix r assume r: "r \<in> set (t_probe_session d0)"
    show "(\<forall>s\<in>set ?ss. \<not> same_socket s r) \<longleftrightarrow> \<not> (inst = [] \<or> s_InstanceId r = inst)" (is "?l \<longleftrightarrow> ?r")
    proof
      assume ?l
      moreover have "same_socket r r" by (simp add: same_socket_def)
      ultimately show ?r using r set_ss by blast
    next
      assume ?r
      show ?l
      proof
        fix s assume s: "s \<in> set ?ss"
        show "\<not> same_socket s r"
        proof
          assume "same_socket s r"
          then have "(s_OrgId s, s_SocketId s) = (s_OrgId r, s_SocketId r)" by (simp add: same_socket_def)
          moreover have "s \<in> set (t_probe_session d0)" using s set_ss by blast
          ultimately have "s = r" using unique_onD[OF u _ r] by blast
          with s set_ss \<open>?r\<close> show False by blast
        qed
      qed
    qed
  qed
  have start: "?I [] d0" using inv by (auto intro!: exI[of _ "t_probe d0"])
  have loop: "post env (?I []) (for_each deleteProbeSession ?ss) (\<lambda>_. ?I ?ss)"
  proof (rule post_for_each_done[where I = ?I], rule post_fix)
    fix ys s zs and d1 :: db
    assume I: "?I ys d1"
    have "set (t_probe_session d1) \<subseteq> set (t_probe_session d0)" using I by (metis filter_is_subset)
    then have nz1: "\<forall>r\<in>set (t_probe_session d1). s_ProbeId r \<noteq> 0" using nz by blast
    show "post env ((=) d1) (deleteProbeSession s) (\<lambda>_. ?I (ys @ [s]))"
    proof (rule post_weaken[OF post_deleteProbeSession[OF nz1]])
      fix x :: unit and d
      assume del: "session_deleted s d1 d"
      from I obtain P1 where P1: "d1 = d0\<lparr>t_probe_session := t_probe_session d1, t_probe := P1\<rparr>"
        "map p_Id P1 = map p_Id (t_probe d0)" by blast
      from del obtain P where P: "d = d1\<lparr>t_probe_session := t_probe_session d, t_probe := P\<rparr>"
        "map p_Id P = map p_Id (t_probe d1)" and on: "online_inv d1 \<longrightarrow> online_inv d"
        and ts: "t_probe_session d = filter (\<lambda>r. \<not> same_socket s r) (t_probe_session d1)"
        unfolding session_deleted_def by blast
      have "t_probe d1 = P1" by (subst P1(1)) simp
      then have "map p_Id P = map p_Id (t_probe d0)" using P(2) P1(2) by simp
      moreover have "d = d0\<lparr>t_probe_session := t_probe_session d, t_probe := P\<rparr>"
        by (subst P(1), subst P1(1)) simp
      moreover have "t_probe_session d = ?left (ys @ [s])"
        using ts I by (simp add: conj_commute)
      ultimately show "?I (ys @ [s]) d" using on I by blast
    qed simp
  qed
  show ?thesis
    unfolding clearProbeSessions_def
  proof (rule post_bind[where R = "\<lambda>ss d. d = d0 \<and> ss = ?ss"])
    show "post env ((=) d0) (getProbeSessions 0 inst zero_time) (\<lambda>ss d. d = d0 \<and> ss = ?ss)"
      unfolding getProbeSessions_def by (rule post_query) simp
    fix ss
    let ?Q = "\<lambda>d. online_inv d \<and>
     t_probe_session d = filter (\<lambda>r. \<not> (inst = [] \<or> s_InstanceId r = inst)) (t_probe_session d0) \<and>
     (\<exists>P. d = d0\<lparr>t_probe_session := t_probe_session d, t_probe := P\<rparr> \<and> map p_Id P = map p_Id (t_probe d0))"
    have fin: "?I ?ss d \<Longrightarrow> ?Q d" for d unfolding left .
    show "post env (\<lambda>d. d = d0 \<and> ss = ?ss) (if ss \<noteq> [] then for_each deleteProbeSession ss else returnS ()) (\<lambda>_. ?Q)"
    proof (cases "ss = ?ss")
      case True
      show ?thesis unfolding True
      proof (rule post_if)
        show "post env (\<lambda>d. d = d0 \<and> ?ss = ?ss) (for_each deleteProbeSession ?ss) (\<lambda>_. ?Q)"
          by (rule post_weaken[OF loop]) (use start fin in blast)+
        assume "\<not> ?ss \<noteq> []"
        then have "?I ?ss d0" using start by simp
        then show "post env (\<lambda>d. d = d0 \<and> ?ss = ?ss) (returnS ()) (\<lambda>_. ?Q)"
          by (intro post_return) (use fin in blast)
      qed
    qed (simp add: post_def)
  qed
qed

text \<open>
  A committed \<open>ClearProbeSessions\<close> removes exactly the sessions of its instance (all of them for the
  empty name), marks offline exactly the probes that lost their last one, and touches nothing else.
\<close>

theorem ClearProbeSessions_clears:
  assumes "online_inv (w_db w)" and "\<forall>r\<in>set (t_probe_session (w_db w)). s_ProbeId r \<noteq> 0"
    and "ClearProbeSessions inst env w = (Inr u, w')" and "commits (clearProbeSessions inst) env w"
  shows "online_inv (w_db w') \<and>
     t_probe_session (w_db w') = filter (\<lambda>r. \<not> (inst = [] \<or> s_InstanceId r = inst)) (t_probe_session (w_db w)) \<and>
     (\<exists>P. w_db w' = (w_db w)\<lparr>t_probe_session := t_probe_session (w_db w'), t_probe := P\<rparr> \<and>
        map p_Id P = map p_Id (t_probe (w_db w)))"
  using committed_post[OF post_clearProbeSessions[OF assms(1,2)] assms(3)[unfolded ClearProbeSessions_def] assms(4)] .

lemma session_world_facts:
  "is_ok (fst (ClearProbeSessions ''i'' plain_env session_world))"
  "\<forall>r\<in>set (t_probe_session (w_db session_world)). s_ProbeId r \<noteq> 0"
  "\<forall>p\<in>set (t_probe (w_db session_world)). p_Online p \<longleftrightarrow> p_Id p \<in> s_ProbeId ` set (t_probe_session (w_db session_world))"
  "distinct (map (\<lambda>s. (s_OrgId s, s_SocketId s)) (t_probe_session (w_db session_world)))"
  by code_simp+

theorem ClearProbeSessions_clears_witness:
  "online_inv (w_db (snd (ClearProbeSessions ''i'' plain_env session_world)))"
proof -
  have "online_inv (w_db session_world)" using session_world_facts(3,4) by (simp add: online_inv_def unique_on_def)
  from ClearProbeSessions_clears[OF this session_world_facts(2) run_parts[OF session_world_facts(1)] plain_commits]
  show ?thesis by blast
qed

end
