(* ===== verification/QuotaStore.thy ===== *)
theory QuotaStore
  imports Store
begin

text \<open>
  \<open>pkg/services/sqlstore\<close>: \<open>quota.go\<close>, \<open>usage.go\<close> and \<open>alert_scheduler_value.go\<close>, and
  \<open>pkg/middleware/quota.go\<close>, which turns a request away when a quota is reached. The decision is
  proved against the interface of the two queries it makes; the store's queries provide it.
\<close>

section \<open>Counting rows\<close>

text \<open>
  The target of a quota is the name of a table: the tables the migrations create that have an
  \<open>org_id\<close>, and those that have none. Any other name is an error of the database.
\<close>

definition org_tables :: "db \<Rightarrow> (string \<times> int list) list" where
  "org_tables d =
     [(''endpoint'', map e_OrgId (t_endpoint d)), (''endpoint_tag'', map et_OrgId (t_endpoint_tag d)),
      (''check'', map c_OrgId (t_check d)), (''route_by_tag_index'', map rt_OrgId (t_route_tag d)),
      (''probe'', map p_OrgId (t_probe d)), (''probe_tag'', map pt_OrgId (t_probe_tag d)),
      (''probe_session'', map s_OrgId (t_probe_session d)), (''quota'', map q_OrgId (t_quota d))]"

definition other_tables :: "db \<Rightarrow> (string \<times> nat) list" where
  "other_tables d =
     [(''route_by_id_index'', length (t_route_id d)), (''alert_scheduler_value'', length (t_scheduler d))]"

definition no_such_table :: fault where
  "no_such_table = Error (OtherError ''no such table or column'')"

definition rows_of_org :: "string \<Rightarrow> int \<Rightarrow> db \<Rightarrow> int" where
  "rows_of_org target org d =
     (case map_of (org_tables d) target of None \<Rightarrow> 0 | Some orgs \<Rightarrow> int (count_list orgs org))"

definition rows_in_all :: "string \<Rightarrow> db \<Rightarrow> int" where
  "rows_in_all target d =
     (case map_of (org_tables d) target of
        Some orgs \<Rightarrow> int (length orgs)
      | None \<Rightarrow> (case map_of (other_tables d) target of None \<Rightarrow> 0 | Some n \<Rightarrow> int n))"

definition count_of_org :: "string \<Rightarrow> int \<Rightarrow> int op" where
  "count_of_org target org = stmt (\<lambda>env d.
     if map_of (org_tables d) target = None then Inl no_such_table
     else Inr (rows_of_org target org d, d))"

definition count_all :: "string \<Rightarrow> int op" where
  "count_all target = stmt (\<lambda>env d.
     if map_of (org_tables d) target = None \<and> map_of (other_tables d) target = None
     then Inl no_such_table else Inr (rows_in_all target d, d))"

section \<open>Quotas of an organisation\<close>

text \<open>\<open>Get\<close> uses the fields of its bean that are not zero as conditions.\<close>

definition quota_matches :: "int \<Rightarrow> string \<Rightarrow> Quota \<Rightarrow> bool" where
  "quota_matches org target q \<longleftrightarrow>
     (org = 0 \<or> q_OrgId q = org) \<and> (target = [] \<or> q_Target q = target)"

definition find_quota :: "int \<Rightarrow> string \<Rightarrow> db \<Rightarrow> Quota option" where
  "find_quota org target d = List.find (quota_matches org target) (t_quota d)"

definition quota_bean :: "int \<Rightarrow> string \<Rightarrow> int \<Rightarrow> Quota" where
  "quota_bean org target limit =
     \<lparr>q_Id = 0, q_OrgId = org, q_Target = target, q_Limit = limit, q_Created = zero_time,
      q_Updated = zero_time\<rparr>"

definition quota_used :: "string \<Rightarrow> int \<Rightarrow> int op" where
  "quota_used target org =
     (if target = ''downloadLimit'' then returnS 0 else count_of_org target org)"

definition getOrgQuotaByTarget :: "int \<Rightarrow> string \<Rightarrow> int \<Rightarrow> OrgQuotaDTO op" where
  "getOrgQuotaByTarget org target def =
     bindS (query (\<lambda>env d. find_quota org target d)) (\<lambda>has.
     let quota = (case has of None \<Rightarrow> quota_bean org target def | Some q \<Rightarrow> q)
     in bindS (quota_used target org) (\<lambda>used. returnS
          \<lparr>oq_OrgId = q_OrgId quota, oq_Target = q_Target quota, oq_Limit = q_Limit quota,
           oq_Used = used\<rparr>))"

definition GetOrgQuotaByTarget :: "int \<Rightarrow> string \<Rightarrow> int \<Rightarrow> OrgQuotaDTO op" where
  "GetOrgQuotaByTarget org target def = getOrgQuotaByTarget org target def"

definition default_quotas :: "QuotaSettings \<Rightarrow> int \<Rightarrow> Quota list \<Rightarrow> Quota list" where
  "default_quotas st org quotas =
     [quota_bean org t v. (t, v) \<leftarrow> OrgQuota_ToMap (qset_Org st), t \<notin> q_Target ` set quotas]"

definition quota_dto :: "Quota \<Rightarrow> OrgQuotaDTO op" where
  "quota_dto q =
     bindS (quota_used (q_Target q) (q_OrgId q)) (\<lambda>used. returnS
       \<lparr>oq_OrgId = q_OrgId q, oq_Target = q_Target q, oq_Limit = q_Limit q, oq_Used = used\<rparr>)"

definition getOrgQuotas :: "QuotaSettings \<Rightarrow> int \<Rightarrow> OrgQuotaDTO list op" where
  "getOrgQuotas st org =
     bindS (query (\<lambda>env d. filter (\<lambda>q. q_OrgId q = org) (t_quota d))) (\<lambda>quotas.
       map_each quota_dto (quotas @ default_quotas st org quotas))"

definition GetOrgQuotas :: "QuotaSettings \<Rightarrow> int \<Rightarrow> OrgQuotaDTO list op" where
  "GetOrgQuotas st org = getOrgQuotas st org"

definition quota_keys_ok :: "Quota list \<Rightarrow> bool" where
  "quota_keys_ok t \<longleftrightarrow> unique_on q_Id t \<and> unique_on (\<lambda>q. (q_OrgId q, q_Target q)) t"

definition insert_quota :: "Quota \<Rightarrow> unit op" where
  "insert_quota q = stmt (\<lambda>env d.
     let t = t_quota d @ [q\<lparr>q_Id := new_id env (q_Id q) (map q_Id (t_quota d))\<rparr>]
     in checked (quota_keys_ok t) ((), d\<lparr>t_quota := t\<rparr>))"

definition update_quota_row :: "Quota \<Rightarrow> unit op" where
  "update_quota_row q = stmt (\<lambda>env d.
     let t = map (\<lambda>r. if q_Id r = q_Id q then upd_quota env q r else r) (t_quota d)
     in checked (quota_keys_ok t) ((), d\<lparr>t_quota := t\<rparr>))"

definition updateOrgQuota :: "OrgQuotaDTO \<Rightarrow> unit op" where
  "updateOrgQuota q =
     bindS (query (\<lambda>env d. find_quota (oq_OrgId q) (oq_Target q) d)) (\<lambda>has.
     case has of
       None \<Rightarrow> insert_quota (quota_bean (oq_OrgId q) (oq_Target q) (oq_Limit q))
     | Some quota \<Rightarrow> update_quota_row (quota\<lparr>q_Limit := oq_Limit q\<rparr>))"

definition UpdateOrgQuota :: "OrgQuotaDTO \<Rightarrow> unit op" where
  "UpdateOrgQuota q = transact (updateOrgQuota q)"

definition getGlobalQuotaByTarget :: "QuotaSettings \<Rightarrow> string \<Rightarrow> GlobalQuotaDTO op" where
  "getGlobalQuotaByTarget st target =
     bindS (count_all target) (\<lambda>n. returnS
       \<lparr>gq_Target = target,
        gq_Limit = (case map_of (GlobalQuota_ToMap (qset_Global st)) target of None \<Rightarrow> 0 | Some l \<Rightarrow> l),
        gq_Used = n\<rparr>)"

definition GetGlobalQuotaByTarget :: "QuotaSettings \<Rightarrow> string \<Rightarrow> GlobalQuotaDTO op" where
  "GetGlobalQuotaByTarget st target = getGlobalQuotaByTarget st target"

section \<open>Usage (usage.go)\<close>

record OrgUsage =
  u_Total :: int
  u_PerOrg :: "(string, int) gomap"

record CheckUsage =
  cu_Total :: int
  cu_HTTP :: OrgUsage
  cu_HTTPS :: OrgUsage
  cu_PING :: OrgUsage
  cu_DNS :: OrgUsage

record Usage =
  us_Endpoints :: OrgUsage
  us_Probes :: OrgUsage
  us_Checks :: CheckUsage

definition no_usage :: OrgUsage where
  "no_usage = \<lparr>u_Total = 0, u_PerOrg = []\<rparr>"

definition NewUsage :: Usage where
  "NewUsage =
     \<lparr>us_Endpoints = no_usage, us_Probes = no_usage,
      us_Checks = \<lparr>cu_Total = 0, cu_HTTP = no_usage, cu_HTTPS = no_usage, cu_PING = no_usage,
                   cu_DNS = no_usage\<rparr>\<rparr>"

text \<open>\<open>SELECT org_id, COUNT(*) ... GROUP BY org_id\<close>.\<close>

definition group_count :: "int list \<Rightarrow> (int \<times> int) list" where
  "group_count orgs = map (\<lambda>g. (g, int (count_list orgs g))) (remdups orgs)"

definition add_usage :: "int \<times> int \<Rightarrow> OrgUsage \<Rightarrow> OrgUsage" where
  "add_usage row u =
     u\<lparr>u_Total := u_Total u + snd row, u_PerOrg := AList.update (show_int (fst row)) (snd row) (u_PerOrg u)\<rparr>"

definition usage_of :: "(int \<times> int) list \<Rightarrow> OrgUsage \<Rightarrow> OrgUsage" where
  "usage_of rows u = fold add_usage rows u"

definition sum_rows :: "(int \<times> int) list \<Rightarrow> int \<Rightarrow> int" where
  "sum_rows rows n = fold (\<lambda>row a. a + snd row) rows n"

definition checks_of_type :: "CheckType \<Rightarrow> (int \<times> int) list op" where
  "checks_of_type t =
     query (\<lambda>env d. group_count (map c_OrgId (filter (\<lambda>c. c_Type c = t) (t_check d))))"

definition getUsage :: "Usage op" where
  "getUsage =
     bindS (query (\<lambda>env d. group_count (map e_OrgId (t_endpoint d)))) (\<lambda>es.
     bindS (query (\<lambda>env d. group_count (map p_OrgId (t_probe d)))) (\<lambda>ps.
     bindS (checks_of_type HTTP_CHECK) (\<lambda>http.
     bindS (checks_of_type HTTPS_CHECK) (\<lambda>https.
     bindS (checks_of_type PING_CHECK) (\<lambda>ping.
     bindS (checks_of_type DNS_CHECK) (\<lambda>dns.
     let u = NewUsage; c = us_Checks u
     in returnS
       \<lparr>us_Endpoints = usage_of es (us_Endpoints u), us_Probes = usage_of ps (us_Probes u),
        us_Checks =
          \<lparr>cu_Total = sum_rows dns (sum_rows ping (sum_rows https (sum_rows http (cu_Total c)))),
           cu_HTTP = usage_of http (cu_HTTP c), cu_HTTPS = usage_of https (cu_HTTPS c),
           cu_PING = usage_of ping (cu_PING c), cu_DNS = usage_of dns (cu_DNS c)\<rparr>\<rparr>))))))"

definition GetUsage :: "Usage op" where
  "GetUsage = getUsage"

section \<open>The scheduler's values (alert_scheduler_value.go)\<close>

definition getAlertSchedulerValue :: "string \<Rightarrow> string op" where
  "getAlertSchedulerValue k =
     query (\<lambda>env d. case map_of (t_scheduler d) k of None \<Rightarrow> [] | Some v \<Rightarrow> v)"

definition GetAlertSchedulerValue :: "string \<Rightarrow> string op" where
  "GetAlertSchedulerValue k = getAlertSchedulerValue k"

text \<open>The bean has no numeric key, so the ORM's \<open>Update\<close> has no condition: the whole table is its scope.\<close>

definition updateAlertSchedulerValue :: "string \<Rightarrow> string \<Rightarrow> unit op" where
  "updateAlertSchedulerValue k v =
     bindS (stmt (\<lambda>env d. let (t, n) = upd_scheduler env (k, v) (t_scheduler d)
        in checked (unique_on fst t) (n, d\<lparr>t_scheduler := t\<rparr>))) (\<lambda>affected.
     if affected = 0
     then stmt (\<lambda>env d. let t = t_scheduler d @ [(k, v)]
            in checked (unique_on fst t) ((), d\<lparr>t_scheduler := t\<rparr>))
     else returnS ())"

definition UpdateAlertSchedulerValue :: "string \<Rightarrow> string \<Rightarrow> unit op" where
  "UpdateAlertSchedulerValue k v = transact (updateAlertSchedulerValue k v)"

section \<open>The quota middleware (middleware/quota.go)\<close>

text \<open>A run whose error is a value: what a caller that tests \<open>err\<close> sees. A panic still unwinds.\<close>

definition tryS :: "'a op \<Rightarrow> (go_error + 'a) op" where
  "tryS m = (\<lambda>env w. case m env w of
     (Inr x, w') \<Rightarrow> (Inr (Inr x), w')
   | (Inl (Error e), w') \<Rightarrow> (Inr (Inl e), w')
   | (Inl (Panic p), w') \<Rightarrow> (Inl (Panic p), w'))"

text \<open>The loop over the scopes, on the two queries it makes.\<close>

fun reached_in ::
  "(string \<Rightarrow> GlobalQuotaDTO op) \<Rightarrow> (int \<Rightarrow> string \<Rightarrow> int \<Rightarrow> OrgQuotaDTO op) \<Rightarrow> int \<Rightarrow>
   QuotaScope list \<Rightarrow> bool op" where
  "reached_in global_quota org_quota org [] = returnS False"
| "reached_in global_quota org_quota org (s # ss) =
     (if qs_Name s = ''global'' then
        if qs_DefaultLimit s < 0 then reached_in global_quota org_quota org ss
        else if qs_DefaultLimit s = 0 then returnS True
        else bindS (global_quota (qs_Target s)) (\<lambda>q.
          if gq_Used q \<ge> qs_DefaultLimit s then returnS True
          else reached_in global_quota org_quota org ss)
      else if qs_Name s = ''org'' then
        bindS (org_quota org (qs_Target s) (qs_DefaultLimit s)) (\<lambda>q.
          if oq_Limit q < 0 then reached_in global_quota org_quota org ss
          else if oq_Limit q = 0 then returnS True
          else if oq_Used q \<ge> oq_Limit q then returnS True
          else reached_in global_quota org_quota org ss)
      else reached_in global_quota org_quota org ss)"

definition QuotaReached :: "QuotaSettings \<Rightarrow> int \<Rightarrow> string \<Rightarrow> bool op" where
  "QuotaReached st org target =
     (if \<not> qset_Enabled st then returnS False
      else bindS (liftS (GetQuotaScopes st target)) (\<lambda>scopes.
        reached_in (GetGlobalQuotaByTarget st) GetOrgQuotaByTarget org scopes))"

text \<open>The answer the handler writes, or none when the request goes on.\<close>

definition Quota_handler :: "QuotaSettings \<Rightarrow> int \<Rightarrow> string \<Rightarrow> (int \<times> string) option op" where
  "Quota_handler st org target =
     bindS (tryS (QuotaReached st org target)) (\<lambda>r. returnS (case r of
       Inl e \<Rightarrow> Some (500, ''failed to get quota: '' @ error_string e)
     | Inr True \<Rightarrow> Some (403, target @ '' Quota reached'')
     | Inr False \<Rightarrow> None))"

end
