(* ===== verification/QuotaProps.thy ===== *)
theory QuotaProps
  imports QuotaStore EndpointProps
begin

text \<open>
  The properties of the quota component: the decision of the middleware, what an update of a quota
  leaves for the next decision, that the usage report counts every row once, and that the
  scheduler's value is read back.
\<close>

section \<open>The decision\<close>

text \<open>
  What the middleware needs of its two queries: they leave the database alone and report a count and
  a limit that are functions of the database.
\<close>

locale quota_source =
  fixes global_quota :: "string \<Rightarrow> GlobalQuotaDTO op"
    and org_quota :: "int \<Rightarrow> string \<Rightarrow> int \<Rightarrow> OrgQuotaDTO op"
    and used_by_all :: "string \<Rightarrow> db \<Rightarrow> int"
    and used_by_org :: "string \<Rightarrow> int \<Rightarrow> db \<Rightarrow> int"
    and limit_of_org :: "int \<Rightarrow> string \<Rightarrow> int \<Rightarrow> db \<Rightarrow> int"
  assumes global_reads: "global_quota t env w = (Inr q, w') \<Longrightarrow>
      w_db w' = w_db w \<and> gq_Used q = used_by_all t (w_db w)"
    and org_reads: "org_quota org t def env w = (Inr oq, w') \<Longrightarrow>
      w_db w' = w_db w \<and> oq_Used oq = used_by_org t org (w_db w) \<and>
      oq_Limit oq = limit_of_org org t def (w_db w)"
begin

definition blocks :: "int \<Rightarrow> QuotaScope \<Rightarrow> db \<Rightarrow> bool" where
  "blocks org s d \<longleftrightarrow>
     qs_Name s = ''global'' \<and> 0 \<le> qs_DefaultLimit s \<and>
       (qs_DefaultLimit s = 0 \<or> qs_DefaultLimit s \<le> used_by_all (qs_Target s) d) \<or>
     qs_Name s = ''org'' \<and>
       (let l = limit_of_org org (qs_Target s) (qs_DefaultLimit s) d
        in 0 \<le> l \<and> (l = 0 \<or> l \<le> used_by_org (qs_Target s) org d))"

lemma reached_in_iff:
  "reached_in global_quota org_quota org ss env w = (Inr b, w') \<Longrightarrow>
     w_db w' = w_db w \<and> (b \<longleftrightarrow> (\<exists>s\<in>set ss. blocks org s (w_db w)))"
proof (induction ss arbitrary: w)
  case Nil
  then show ?case by (simp add: returnS_def)
next
  case (Cons s ss)
  show ?case
  proof (cases "qs_Name s = ''global''")
    case g: True
    show ?thesis
    proof (cases "qs_DefaultLimit s \<le> 0")
      case True
      with g Cons show ?thesis by (auto simp: blocks_def returnS_def split: if_splits)
    next
      case pos: False
      then obtain q w1 where q: "global_quota (qs_Target s) env w = (Inr q, w1)"
        using Cons.prems g by (auto simp: bindS_def split: prod.splits sum.splits)
      note r = global_reads[OF q]
      have "(if gq_Used q \<ge> qs_DefaultLimit s then returnS True
          else reached_in global_quota org_quota org ss) env w1 = (Inr b, w')"
        using Cons.prems g pos q by (simp add: bindS_def)
      then show ?thesis
        using g pos r Cons.IH[of w1] by (auto simp: blocks_def returnS_def split: if_splits)
    qed
  next
    case g: False
    show ?thesis
    proof (cases "qs_Name s = ''org''")
      case True
      then obtain q w1 where q: "org_quota org (qs_Target s) (qs_DefaultLimit s) env w = (Inr q, w1)"
        using Cons.prems g by (auto simp: bindS_def split: prod.splits sum.splits)
      note r = org_reads[OF q]
      have "(if oq_Limit q < 0 then reached_in global_quota org_quota org ss
          else if oq_Limit q = 0 then returnS True
          else if oq_Used q \<ge> oq_Limit q then returnS True
          else reached_in global_quota org_quota org ss) env w1 = (Inr b, w')"
        using Cons.prems g True q by (simp add: bindS_def)
      then show ?thesis
        using True r Cons.IH[of w1]
        by (auto simp: blocks_def returnS_def Let_def split: if_splits)
    next
      case False
      with g Cons show ?thesis by (auto simp: blocks_def)
    qed
  qed
qed

end

lemma stmt_Inr:
  "stmt f env w = (Inr x, w') \<Longrightarrow> \<exists>d. f env (w_db w) = Inr (x, d) \<and> w_db w' = d"
  by (auto simp: stmt_def Let_def split: if_splits sum.splits prod.splits)

lemma bindS_Inr:
  "bindS m f env w = (Inr y, w') \<longleftrightarrow> (\<exists>x w1. m env w = (Inr x, w1) \<and> f x env w1 = (Inr y, w'))"
  by (auto simp: bindS_def split: prod.splits sum.splits)

definition org_limit :: "int \<Rightarrow> string \<Rightarrow> int \<Rightarrow> db \<Rightarrow> int" where
  "org_limit org target def d =
     (case find_quota org target d of None \<Rightarrow> def | Some q \<Rightarrow> q_Limit q)"

definition org_used :: "string \<Rightarrow> int \<Rightarrow> db \<Rightarrow> int" where
  "org_used target org d = (if target = ''downloadLimit'' then 0 else rows_of_org target org d)"

lemma quota_used_Inr:
  "quota_used t org env w = (Inr n, w') \<Longrightarrow> w_db w' = w_db w \<and> n = org_used t org (w_db w)"
  by (auto simp: quota_used_def org_used_def returnS_def count_of_org_def split: if_splits
      dest!: stmt_Inr)

interpretation store_quotas: quota_source "GetGlobalQuotaByTarget st" GetOrgQuotaByTarget
  rows_in_all org_used org_limit
proof unfold_locales
  fix t env w q w'
  assume "GetGlobalQuotaByTarget st t env w = (Inr q, w')"
  then show "w_db w' = w_db w \<and> gq_Used q = rows_in_all t (w_db w)"
    by (auto simp: GetGlobalQuotaByTarget_def getGlobalQuotaByTarget_def bindS_Inr returnS_def
        count_all_def split: if_splits dest!: stmt_Inr)
next
  fix org t def env w oq w'
  assume "GetOrgQuotaByTarget org t def env w = (Inr oq, w')"
  then obtain has w1 n where
    a: "query (\<lambda>env d. find_quota org t d) env w = (Inr has, w1)"
      "quota_used t org env w1 = (Inr n, w')" "oq_Used oq = n"
      "oq_Limit oq = (case has of None \<Rightarrow> def | Some q \<Rightarrow> q_Limit q)"
    by (auto simp: GetOrgQuotaByTarget_def getOrgQuotaByTarget_def bindS_Inr returnS_def Let_def
        quota_bean_def split: option.splits)
  from a(1) have "w_db w1 = w_db w \<and> has = find_quota org t (w_db w)"
    by (auto simp: query_def dest!: stmt_Inr)
  with a quota_used_Inr[OF a(2)] show "w_db w' = w_db w \<and> oq_Used oq = org_used t org (w_db w) \<and>
      oq_Limit oq = org_limit org t def (w_db w)"
    by (simp add: org_limit_def)
qed

text \<open>The decision in terms of the limits and the rows.\<close>

definition at_limit :: "int \<Rightarrow> int \<Rightarrow> bool" where
  "at_limit limit used \<longleftrightarrow> limit = 0 \<or> 0 < limit \<and> limit \<le> used"

definition over_quota :: "QuotaSettings \<Rightarrow> int \<Rightarrow> string \<Rightarrow> db \<Rightarrow> bool" where
  "over_quota st org target d \<longleftrightarrow>
     target = ''endpoint'' \<and>
       (at_limit (gqs_Endpoint (qset_Global st)) (int (length (t_endpoint d))) \<or>
        at_limit (org_limit org target (oqs_Endpoint (qset_Org st)) d)
          (int (count_list (map e_OrgId (t_endpoint d)) org))) \<or>
     target = ''probe'' \<and>
       (at_limit (gqs_Probe (qset_Global st)) (int (length (t_probe d))) \<or>
        at_limit (org_limit org target (oqs_Probe (qset_Org st)) d)
          (int (count_list (map p_OrgId (t_probe d)) org))) \<or>
     target = ''downloadLimit'' \<and> org_limit org target (oqs_DownloadLimit (qset_Org st)) d = 0"

lemma blocks_at_limit:
  "store_quotas.blocks org \<lparr>qs_Name = ''global'', qs_Target = t, qs_DefaultLimit = l\<rparr> d \<longleftrightarrow>
     at_limit l (rows_in_all t d)"
  "store_quotas.blocks org \<lparr>qs_Name = ''org'', qs_Target = t, qs_DefaultLimit = l\<rparr> d \<longleftrightarrow>
     at_limit (org_limit org t l d) (org_used t org d)"
  by (auto simp: store_quotas.blocks_def at_limit_def Let_def)

text \<open>
  C13. When the decision succeeds it has not touched the database, and it says that the quota is
  reached exactly when quotas are enabled and some scope of the target is at its limit: a negative
  limit never blocks, zero always does, and otherwise the number of rows decides, over all
  organisations against the global limit and over the caller's against the stored limit of the
  organisation or, when it has none, the configured one.
\<close>

theorem QuotaReached_iff:
  assumes "QuotaReached st org target env w = (Inr b, w')"
  shows "w_db w' = w_db w \<and> (b \<longleftrightarrow> qset_Enabled st \<and> over_quota st org target (w_db w))"
proof (cases "qset_Enabled st")
  case True
  then obtain ss where ss: "GetQuotaScopes st target = Inr ss"
    using assms by (auto simp: QuotaReached_def bindS_Inr liftS_def)
  with True assms have "reached_in (GetGlobalQuotaByTarget st) GetOrgQuotaByTarget org ss env w = (Inr b, w')"
    by (simp add: QuotaReached_def bindS_Inr liftS_def)
  from store_quotas.reached_in_iff[OF this] ss True show ?thesis
    by (auto simp: GetQuotaScopes_def over_quota_def blocks_at_limit rows_in_all_def org_used_def
        rows_of_org_def org_tables_def at_limit_def split: if_splits)
next
  case False
  with assms show ?thesis by (simp add: QuotaReached_def returnS_def)
qed

definition small_limits :: QuotaSettings where
  "small_limits =
     \<lparr>qset_Enabled = True,
      qset_Org = \<lparr>oqs_Endpoint = 1, oqs_Probe = 10, oqs_DownloadLimit = 102400\<rparr>,
      qset_Global = \<lparr>gqs_Endpoint = -1, gqs_Probe = 10\<rparr>\<rparr>"

lemma reached_run_ok: "is_ok (fst (QuotaReached small_limits 1 ''endpoint'' plain_env (snd added_run)))"
  by code_simp

lemma QuotaReached_iff_witness:
  "fst (QuotaReached small_limits 1 ''endpoint'' plain_env (snd added_run)) = Inr True"
proof -
  let ?r = "QuotaReached small_limits 1 ''endpoint'' plain_env (snd added_run)"
  note r = run_parts[OF reached_run_ok]
  have over: "over_quota small_limits 1 ''endpoint'' (w_db (snd added_run))" by code_simp
  have "qset_Enabled small_limits" by (simp add: small_limits_def)
  with QuotaReached_iff[OF r] over have "projr (fst ?r)" by blast
  then show ?thesis using arg_cong[OF r, of fst] by simp
qed

section \<open>Updating a quota\<close>

definition quotas_ok :: "db \<Rightarrow> bool" where
  "quotas_ok d \<longleftrightarrow> quota_keys_ok (t_quota d)"

lemma find_quota_iff:
  assumes "quotas_ok d" and "org \<noteq> 0" and "t \<noteq> []"
  shows "find_quota org t d = Some q \<longleftrightarrow> q \<in> set (t_quota d) \<and> q_OrgId q = org \<and> q_Target q = t"
proof
  assume "find_quota org t d = Some q"
  then show "q \<in> set (t_quota d) \<and> q_OrgId q = org \<and> q_Target q = t"
    using assms find_Some_in by (fastforce simp: find_quota_def quota_matches_def)
next
  assume q: "q \<in> set (t_quota d) \<and> q_OrgId q = org \<and> q_Target q = t"
  then obtain q' where q': "find_quota org t d = Some q'"
    using find_None_all assms by (cases "find_quota org t d") (fastforce simp: find_quota_def quota_matches_def)+
  then have "q' \<in> set (t_quota d) \<and> q_OrgId q' = org \<and> q_Target q' = t"
    using assms find_Some_in by (fastforce simp: find_quota_def quota_matches_def)
  with q assms(1) have "q' = q"
    unfolding quotas_ok_def quota_keys_ok_def by (auto dest: unique_onD)
  with q' show "find_quota org t d = Some q" by simp
qed

text \<open>
  What an update asks for is what the organisation has afterwards, except that a limit of zero is
  dropped when a row exists.
\<close>

definition requested_limit :: "OrgQuotaDTO \<Rightarrow> db \<Rightarrow> int" where
  "requested_limit q d =
     (case find_quota (oq_OrgId q) (oq_Target q) d of
        None \<Rightarrow> oq_Limit q
      | Some r \<Rightarrow> if oq_Limit q = 0 then q_Limit r else oq_Limit q)"

definition quota_stored :: "OrgQuotaDTO \<Rightarrow> db \<Rightarrow> db \<Rightarrow> bool" where
  "quota_stored q d d' \<longleftrightarrow>
     quotas_ok d' \<and> d' = d\<lparr>t_quota := t_quota d'\<rparr> \<and>
     (\<forall>def. org_limit (oq_OrgId q) (oq_Target q) def d' = requested_limit q d) \<and>
     (\<forall>org t def. org \<noteq> 0 \<and> t \<noteq> [] \<and> (org, t) \<noteq> (oq_OrgId q, oq_Target q) \<longrightarrow>
        org_limit org t def d' = org_limit org t def d)"

lemma org_limit_member:
  assumes "quotas_ok d" and "org \<noteq> 0" and "t \<noteq> []"
    and "r \<in> set (t_quota d)" and "q_OrgId r = org" and "q_Target r = t"
  shows "org_limit org t def d = q_Limit r"
proof -
  have "find_quota org t d = Some r" using assms find_quota_iff by blast
  then show ?thesis by (simp add: org_limit_def)
qed

lemma find_quota_None_iff:
  assumes "quotas_ok d" and "org \<noteq> 0" and "t \<noteq> []"
  shows "find_quota org t d = None \<longleftrightarrow> (\<forall>r\<in>set (t_quota d). (q_OrgId r, q_Target r) \<noteq> (org, t))"
  using find_quota_iff[OF assms] by (cases "find_quota org t d") fastforce+

text \<open>Two tables with the same rows for a key give it the same limit.\<close>

lemma org_limit_cong:
  assumes "quotas_ok d" and "quotas_ok d'" and "org \<noteq> 0" and "t \<noteq> []"
    and "\<And>r. (q_OrgId r, q_Target r) = (org, t) \<Longrightarrow> r \<in> set (t_quota d') \<longleftrightarrow> r \<in> set (t_quota d)"
  shows "org_limit org t def d' = org_limit org t def d"
proof -
  have "find_quota org t d' = Some r \<longleftrightarrow> find_quota org t d = Some r" for r
    using find_quota_iff[of d org t r] find_quota_iff[of d' org t r] assms by auto
  then have "find_quota org t d' = find_quota org t d"
    by (metis not_None_eq)
  then show ?thesis by (simp add: org_limit_def)
qed

lemma merge_own_row:
  "merge_quota (r\<lparr>q_Limit := l\<rparr>) r = r\<lparr>q_Limit := if l = 0 then q_Limit r else l\<rparr>"
  by (simp add: merge_quota_def nz_def)

lemma quota_stored_update:
  assumes "orm_documented env" and "quotas_ok d" and "oq_OrgId q \<noteq> 0" and "oq_Target q \<noteq> []"
    and "find_quota (oq_OrgId q) (oq_Target q) d = Some r"
    and "t = map (\<lambda>x. if q_Id x = q_Id r then upd_quota env (r\<lparr>q_Limit := oq_Limit q\<rparr>) x else x) (t_quota d)"
    and "quota_keys_ok t"
  shows "quota_stored q d (d\<lparr>t_quota := t\<rparr>)"
proof -
  let ?r = "r\<lparr>q_Limit := if oq_Limit q = 0 then q_Limit r else oq_Limit q\<rparr>"
  have r: "r \<in> set (t_quota d)" "q_OrgId r = oq_OrgId q" "q_Target r = oq_Target q"
    using assms(2-5) find_quota_iff by blast+
  have same: "x = r" if "x \<in> set (t_quota d)" "q_Id x = q_Id r" for x
    using assms(2) that r unfolding quotas_ok_def quota_keys_ok_def by (auto dest: unique_onD)
  have t: "set t = insert ?r (set (t_quota d) - {r})"
    using assms(1,6) r(1) same by (force simp: orm_documented_def merge_own_row)
  have ok': "quotas_ok (d\<lparr>t_quota := t\<rparr>)" using assms(7) by (simp add: quotas_ok_def)
  have own: "org_limit (oq_OrgId q) (oq_Target q) def (d\<lparr>t_quota := t\<rparr>) = requested_limit q d" for def
  proof -
    have "org_limit (oq_OrgId q) (oq_Target q) def (d\<lparr>t_quota := t\<rparr>) = q_Limit ?r"
      by (rule org_limit_member[OF ok' assms(3,4)]) (use t r in simp_all)
    then show ?thesis using assms(5) by (simp add: requested_limit_def)
  qed
  have "org_limit org u def (d\<lparr>t_quota := t\<rparr>) = org_limit org u def d"
    if "org \<noteq> 0" "u \<noteq> []" "(org, u) \<noteq> (oq_OrgId q, oq_Target q)" for org u def
    by (rule org_limit_cong[OF assms(2) ok' that(1,2)]) (use t r that(3) in auto)
  with ok' own show ?thesis by (simp add: quota_stored_def)
qed

lemma quota_stored_insert:
  assumes "quotas_ok d" and "oq_OrgId q \<noteq> 0" and "oq_Target q \<noteq> []"
    and "find_quota (oq_OrgId q) (oq_Target q) d = None"
    and "t = t_quota d @ [(quota_bean (oq_OrgId q) (oq_Target q) (oq_Limit q))\<lparr>q_Id := k\<rparr>]"
    and "quota_keys_ok t"
  shows "quota_stored q d (d\<lparr>t_quota := t\<rparr>)"
proof -
  let ?r = "(quota_bean (oq_OrgId q) (oq_Target q) (oq_Limit q))\<lparr>q_Id := k\<rparr>"
  have t: "set t = insert ?r (set (t_quota d))" using assms(5) by auto
  have ok': "quotas_ok (d\<lparr>t_quota := t\<rparr>)" using assms(6) by (simp add: quotas_ok_def)
  have own: "org_limit (oq_OrgId q) (oq_Target q) def (d\<lparr>t_quota := t\<rparr>) = requested_limit q d" for def
  proof -
    have "org_limit (oq_OrgId q) (oq_Target q) def (d\<lparr>t_quota := t\<rparr>) = q_Limit ?r"
      by (rule org_limit_member[OF ok' assms(2,3)]) (use t in \<open>simp_all add: quota_bean_def\<close>)
    then show ?thesis using assms(4) by (simp add: requested_limit_def quota_bean_def)
  qed
  have "org_limit org u def (d\<lparr>t_quota := t\<rparr>) = org_limit org u def d"
    if "org \<noteq> 0" "u \<noteq> []" "(org, u) \<noteq> (oq_OrgId q, oq_Target q)" for org u def
    by (rule org_limit_cong[OF assms(1) ok' that(1,2)]) (use t that(3) in \<open>auto simp: quota_bean_def\<close>)
  with ok' own show ?thesis by (simp add: quota_stored_def)
qed

lemma post_updateOrgQuota:
  assumes "orm_documented env" and "quotas_ok d" and "oq_OrgId q \<noteq> 0" and "oq_Target q \<noteq> []"
  shows "post env ((=) d) (updateOrgQuota q) (\<lambda>_. quota_stored q d)"
  unfolding updateOrgQuota_def
proof (rule post_bind[where R = "\<lambda>has d'. has = find_quota (oq_OrgId q) (oq_Target q) d \<and> d = d'"])
  fix has
  show "post env (\<lambda>d'. has = find_quota (oq_OrgId q) (oq_Target q) d \<and> d = d')
     (case has of None \<Rightarrow> insert_quota (quota_bean (oq_OrgId q) (oq_Target q) (oq_Limit q))
      | Some quota \<Rightarrow> update_quota_row (quota\<lparr>q_Limit := oq_Limit q\<rparr>)) (\<lambda>_. quota_stored q d)"
  proof (rule post_assume, cases has)
    case None
    assume "has = find_quota (oq_OrgId q) (oq_Target q) d"
    with None quota_stored_insert[OF assms(2-4)] show "post env ((=) d) (case has of
        None \<Rightarrow> insert_quota (quota_bean (oq_OrgId q) (oq_Target q) (oq_Limit q))
      | Some quota \<Rightarrow> update_quota_row (quota\<lparr>q_Limit := oq_Limit q\<rparr>)) (\<lambda>_. quota_stored q d)"
      by (auto simp: insert_quota_def Let_def intro!: post_stmt)
  next
    case (Some r)
    assume "has = find_quota (oq_OrgId q) (oq_Target q) d"
    with Some quota_stored_update[OF assms, of r] show "post env ((=) d) (case has of
        None \<Rightarrow> insert_quota (quota_bean (oq_OrgId q) (oq_Target q) (oq_Limit q))
      | Some quota \<Rightarrow> update_quota_row (quota\<lparr>q_Limit := oq_Limit q\<rparr>)) (\<lambda>_. quota_stored q d)"
      by (auto simp: update_quota_row_def Let_def intro!: post_stmt)
  qed
qed (simp add: post_query)

text \<open>
  A committed \<open>UpdateOrgQuota\<close> gives the organisation the requested limit for the target, keeps
  every other limit and every other table, and keeps the keys unique. One request is lost: a limit of
  zero, which would block the organisation, leaves an existing limit as it was.
\<close>

theorem UpdateOrgQuota_stores:
  assumes "orm_documented env" and "quotas_ok (w_db w)" and "oq_OrgId q \<noteq> 0" and "oq_Target q \<noteq> []"
    and "UpdateOrgQuota q env w = (Inr u, w')" and "commits (updateOrgQuota q) env w"
  shows "quota_stored q (w_db w) (w_db w')"
  using committed_post[OF post_updateOrgQuota[OF assms(1-4)] assms(5)[unfolded UpdateOrgQuota_def] assms(6)] .

definition set_limit :: "int \<Rightarrow> OrgQuotaDTO" where
  "set_limit l = \<lparr>oq_OrgId = 1, oq_Target = ''endpoint'', oq_Limit = l, oq_Used = 0\<rparr>"

definition five_run :: "unit result \<times> world" where
  "five_run = UpdateOrgQuota (set_limit 5) plain_env start"

definition zero_run :: "unit result \<times> world" where
  "zero_run = UpdateOrgQuota (set_limit 0) plain_env (snd five_run)"

lemma zero_run_ok: "is_ok (fst zero_run)" "quotas_ok (w_db (snd five_run))"
  "find_quota 1 ''endpoint'' (w_db (snd five_run)) \<noteq> None" "org_limit 1 ''endpoint'' 9 (w_db (snd five_run)) = 5"
  by code_simp+

lemma zero_run_eq:
  "UpdateOrgQuota (set_limit 0) plain_env (snd five_run) = (Inr (projr (fst zero_run)), snd zero_run)"
  unfolding zero_run_def by (rule run_parts, fold zero_run_def) (rule zero_run_ok(1))

text \<open>The request to block organisation 1 succeeds and leaves its limit of five.\<close>

lemma UpdateOrgQuota_stores_witness:
  "is_ok (fst zero_run) \<and> org_limit 1 ''endpoint'' 9 (w_db (snd zero_run)) = 5"
proof -
  have "quota_stored (set_limit 0) (w_db (snd five_run)) (w_db (snd zero_run))"
    by (rule UpdateOrgQuota_stores[OF plain_env_documented zero_run_ok(2) _ _ zero_run_eq plain_commits])
      (simp_all add: set_limit_def)
  then have "org_limit 1 ''endpoint'' 9 (w_db (snd zero_run)) = requested_limit (set_limit 0) (w_db (snd five_run))"
    by (simp add: quota_stored_def set_limit_def)
  also have "\<dots> = org_limit 1 ''endpoint'' 9 (w_db (snd five_run))"
    using zero_run_ok(3) by (auto simp: requested_limit_def set_limit_def org_limit_def)
  finally show ?thesis using zero_run_ok by simp
qed

section \<open>The usage report\<close>

definition counts_rows :: "OrgUsage \<Rightarrow> int list \<Rightarrow> bool" where
  "counts_rows u orgs \<longleftrightarrow>
     u_Total u = int (length orgs) \<and>
     (\<forall>org. map_of (u_PerOrg u) (show_int org) =
        (if org \<in> set orgs then Some (int (count_list orgs org)) else None))"

lemma usage_of_fold:
  "distinct (map fst rows) \<Longrightarrow>
     u_Total (usage_of rows u) = u_Total u + sum_list (map snd rows) \<and>
     (\<forall>org. map_of (u_PerOrg (usage_of rows u)) (show_int org) =
        (case map_of rows org of None \<Rightarrow> map_of (u_PerOrg u) (show_int org) | Some n \<Rightarrow> Some n))"
proof (induction rows arbitrary: u)
  case Nil
  then show ?case by (simp add: usage_of_def)
next
  case (Cons row rows)
  have "usage_of (row # rows) u = usage_of rows (add_usage row u)" by (simp add: usage_of_def)
  moreover have "map_of rows (fst row) = None" using Cons.prems by (auto simp: map_of_eq_None_iff)
  ultimately show ?case
    using Cons by (auto simp: add_usage_def update_conv' dest: show_int_inj split: option.splits)
qed

lemma usage_of_counts: "counts_rows (usage_of (group_count orgs) no_usage) orgs"
proof -
  have keys: "map fst (group_count orgs) = remdups orgs"
    by (simp add: group_count_def comp_def)
  have "map_of (group_count orgs) org =
      (if org \<in> set orgs then Some (int (count_list orgs org)) else None)" for org
    using map_of_map_restrict[of "\<lambda>g. int (count_list orgs g)" "remdups orgs"]
    by (simp add: group_count_def restrict_map_def)
  moreover have "sum_list (map snd (group_count orgs)) = int (length orgs)"
    by (simp add: group_count_def comp_def sum_list_distinct_conv_sum_set sum_count_set
        of_nat_sum[symmetric] del: of_nat_sum)
  ultimately show ?thesis
    using usage_of_fold[of "group_count orgs" no_usage] keys
    by (simp add: counts_rows_def no_usage_def)
qed

lemma sum_rows_group: "sum_rows (group_count orgs) n = n + int (length orgs)"
proof -
  have "sum_rows rows n = n + sum_list (map snd rows)" for rows
    by (induction rows arbitrary: n) (simp_all add: sum_rows_def)
  moreover have "sum_list (map snd (group_count orgs)) = int (length orgs)"
    by (simp add: group_count_def comp_def sum_list_distinct_conv_sum_set sum_count_set
        of_nat_sum[symmetric] del: of_nat_sum)
  ultimately show ?thesis by simp
qed

lemma query_Inr: "query f env w = (Inr x, w') \<Longrightarrow> x = f env (w_db w) \<and> w_db w' = w_db w"
  by (auto simp: query_def dest!: stmt_Inr)

definition orgs_of_type :: "CheckType \<Rightarrow> db \<Rightarrow> int list" where
  "orgs_of_type t d = map c_OrgId (filter (\<lambda>c. c_Type c = t) (t_check d))"

text \<open>
  A usage report that succeeds counts every endpoint, every probe and every check of the four
  types once: the total is the number of rows, and the entry of an organisation, under the decimal
  text of its id, is the number of its rows (none when it has none). The total of the checks is the
  sum over the types. The report changes nothing.
\<close>

theorem GetUsage_counts:
  assumes "GetUsage env w = (Inr u, w')"
  defines "d \<equiv> w_db w"
  shows "w_db w' = d \<and>
     counts_rows (us_Endpoints u) (map e_OrgId (t_endpoint d)) \<and>
     counts_rows (us_Probes u) (map p_OrgId (t_probe d)) \<and>
     counts_rows (cu_HTTP (us_Checks u)) (orgs_of_type HTTP_CHECK d) \<and>
     counts_rows (cu_HTTPS (us_Checks u)) (orgs_of_type HTTPS_CHECK d) \<and>
     counts_rows (cu_PING (us_Checks u)) (orgs_of_type PING_CHECK d) \<and>
     counts_rows (cu_DNS (us_Checks u)) (orgs_of_type DNS_CHECK d) \<and>
     cu_Total (us_Checks u) = u_Total (cu_HTTP (us_Checks u)) + u_Total (cu_HTTPS (us_Checks u)) +
       u_Total (cu_PING (us_Checks u)) + u_Total (cu_DNS (us_Checks u))"
proof -
  let ?g = "\<lambda>t. group_count (orgs_of_type t d)"
  have "w_db w' = d \<and> u = \<lparr>us_Endpoints = usage_of (group_count (map e_OrgId (t_endpoint d))) no_usage,
      us_Probes = usage_of (group_count (map p_OrgId (t_probe d))) no_usage,
      us_Checks = \<lparr>cu_Total = sum_rows (?g DNS_CHECK) (sum_rows (?g PING_CHECK)
          (sum_rows (?g HTTPS_CHECK) (sum_rows (?g HTTP_CHECK) 0))),
        cu_HTTP = usage_of (?g HTTP_CHECK) no_usage, cu_HTTPS = usage_of (?g HTTPS_CHECK) no_usage,
        cu_PING = usage_of (?g PING_CHECK) no_usage, cu_DNS = usage_of (?g DNS_CHECK) no_usage\<rparr>\<rparr>"
    using assms(1)
    by (auto simp: GetUsage_def getUsage_def checks_of_type_def bindS_Inr returnS_def NewUsage_def
        orgs_of_type_def d_def Let_def dest!: query_Inr)
  moreover have "u_Total (usage_of (?g t) no_usage) = int (length (orgs_of_type t d))" for t
    using usage_of_counts by (simp add: counts_rows_def)
  ultimately show ?thesis
    using usage_of_counts by (simp add: sum_rows_group)
qed

lemma usage_run_ok: "is_ok (fst (GetUsage plain_env (snd added_run)))"
  by code_simp

lemma GetUsage_counts_witness:
  "counts_rows (us_Endpoints (projr (fst (GetUsage plain_env (snd added_run))))) [1]"
proof -
  have "map e_OrgId (t_endpoint (w_db (snd added_run))) = [1]" by code_simp
  with GetUsage_counts[OF run_parts[OF usage_run_ok]] show ?thesis by simp
qed

section \<open>The scheduler's value\<close>

text \<open>
  What the driver reports for the unconditional update of a table with no row or with the one row of
  the key: the row is rewritten, and it counts as affected at least when it changes (some drivers
  count the matching rows, some the changed ones).
\<close>

definition scheduler_documented :: "env \<Rightarrow> bool" where
  "scheduler_documented env \<longleftrightarrow>
     (\<forall>k v. upd_scheduler env (k, v) [] = ([], 0)) \<and>
     (\<forall>k u v. fst (upd_scheduler env (k, v) [(k, u)]) = [(k, v)] \<and>
        (u \<noteq> v \<longrightarrow> snd (upd_scheduler env (k, v) [(k, u)]) \<noteq> 0))"

lemma plain_env_scheduler: "scheduler_documented plain_env"
  by (simp add: scheduler_documented_def plain_env_def)

definition only_key :: "string \<Rightarrow> db \<Rightarrow> bool" where
  "only_key k d \<longleftrightarrow> (\<forall>e\<in>set (t_scheduler d). fst e = k) \<and> length (t_scheduler d) \<le> 1"

lemma only_key_cases:
  assumes "only_key k d"
  obtains "t_scheduler d = []" | u where "t_scheduler d = [(k, u)]"
proof (cases "t_scheduler d")
  case (Cons e es)
  with assms have "es = []" "fst e = k" by (auto simp: only_key_def)
  with Cons that(2)[of "snd e"] show ?thesis by (metis prod.collapse)
qed (use that in simp)

lemma post_updateAlertSchedulerValue:
  assumes "scheduler_documented env" and "only_key k d"
  shows "post env ((=) d) (updateAlertSchedulerValue k v)
     (\<lambda>_ d'. d' = d\<lparr>t_scheduler := [(k, v)]\<rparr>)"
proof (rule only_key_cases[OF assms(2)])
  assume e: "t_scheduler d = []"
  show ?thesis
    unfolding updateAlertSchedulerValue_def
    by (rule post_bind[where R = "\<lambda>n d'. n = 0 \<and> d' = d"])
      (use assms(1) e in \<open>auto simp: scheduler_documented_def Let_def intro!: post_stmt post_assume post_return\<close>)
next
  fix u assume e: "t_scheduler d = [(k, u)]"
  obtain t n where tn: "upd_scheduler env (k, v) [(k, u)] = (t, n)" by fastforce
  with assms(1) have t: "t = [(k, v)]" "u \<noteq> v \<longrightarrow> n \<noteq> 0"
    unfolding scheduler_documented_def by (metis fst_conv snd_conv)+
  show ?thesis
    unfolding updateAlertSchedulerValue_def
  proof (rule post_bind[where R = "\<lambda>m d'. m = n \<and> d' = d\<lparr>t_scheduler := [(k, v)]\<rparr>"])
    show "post env ((=) d) (stmt (\<lambda>env d. let (t, n) = upd_scheduler env (k, v) (t_scheduler d)
        in checked (unique_on fst t) (n, d\<lparr>t_scheduler := t\<rparr>)))
        (\<lambda>m d'. m = n \<and> d' = d\<lparr>t_scheduler := [(k, v)]\<rparr>)"
      by (rule post_stmt) (auto simp: e tn t)
    fix m
    show "post env (\<lambda>d'. m = n \<and> d' = d\<lparr>t_scheduler := [(k, v)]\<rparr>) (if m = 0
         then stmt (\<lambda>env d. let t = t_scheduler d @ [(k, v)]
            in checked (unique_on fst t) ((), d\<lparr>t_scheduler := t\<rparr>))
         else returnS ()) (\<lambda>_ d'. d' = d\<lparr>t_scheduler := [(k, v)]\<rparr>)"
      by (intro post_if post_stmt post_return) (auto simp: unique_on_def Let_def)
  qed
qed

end
