(* ===== verification/AlertEval.thy ===== *)
theory AlertEval
  imports CheckQueries
begin

text \<open>
  \<open>pkg/alerting\<close>: the decision of the alert executor (\<open>eval\<close> of \<open>executor.go\<close>) with its reference
  specification, the jobs made of the checks that are due (\<open>getJobs\<close> of \<open>schedule.go\<close>) and the
  metrics of a result (\<open>StoreResult\<close>).
\<close>

section \<open>Numbers in a response\<close>

text \<open>
  A value of a graphite response is a \<open>json.Number\<close>: a JSON number literal, or empty for \<open>null\<close>.
  \<open>Float64\<close> is \<open>strconv.ParseFloat\<close>; the code asks whether it succeeds and whether the value is
  positive, that is above half of the smallest \<open>float64\<close>, and it fails beyond the largest.
\<close>

definition exp10 :: "int \<Rightarrow> rat" where
  "exp10 k = (if k < 0 then 1 / 10 ^ nat (- k) else 10 ^ nat k)"

definition exponent :: "string \<Rightarrow> int option" where
  "exponent s =
     (case s of
        [] \<Rightarrow> Some 0
      | c # r \<Rightarrow>
          let ds = (if has_prefix r ''-'' \<or> has_prefix r ''+'' then tl r else r);
              n = int (digits_val ds)
          in if c \<in> {CHR ''e'', CHR ''E''} \<and> ds \<noteq> [] \<and> list_all is_digit ds
             then Some (if has_prefix r ''-'' then - n else n) else None)"

definition number_value :: "string \<Rightarrow> rat option" where
  "number_value s =
     (let neg = has_prefix s ''-'';
          body = (if neg then tl s else s);
          whole = takeWhile is_digit body;
          rest = dropWhile is_digit body;
          point = has_prefix rest ''.'';
          frac = (if point then takeWhile is_digit (tl rest) else []);
          tail = (if point then dropWhile is_digit (tl rest) else rest)
      in if whole @ frac = [] then None
         else (case exponent tail of
             None \<Rightarrow> None
           | Some e \<Rightarrow> Some ((if neg then -1 else 1) * of_nat (digits_val (whole @ frac)) *
                 exp10 (e - int (length frac)))))"

definition tiny :: rat where
  "tiny = 1 / 2 ^ 1075"

definition huge :: rat where
  "huge = 2 ^ 1024 - 2 ^ 970"

definition Float64_positive :: "string \<Rightarrow> bool result" where
  "Float64_positive s =
     (case number_value s of
        None \<Rightarrow> Inl (Error (OtherError (''strconv.ParseFloat: parsing '' @ s @ '': invalid syntax'')))
      | Some v \<Rightarrow>
          if huge \<le> \<bar>v\<bar> then Inl (Error (OtherError (''strconv.ParseFloat: parsing '' @ s @ '': value out of range'')))
          else Inr (tiny < v))"

section \<open>The decision (eval)\<close>

type_synonym datapoint = "string list"

record series =
  sr_Target :: string
  sr_Datapoints :: "datapoint list"

definition ErrNoData :: fault where
  "ErrNoData = Error (OtherError ''fatal: no data returned for job'')"

text \<open>The local variables of the loop over the points of a series.\<close>

record streak =
  curStreak :: int
  maxStreak :: int
  nonNullPoints :: int

definition is_null :: "string \<Rightarrow> bool" where
  "is_null v \<longleftrightarrow> v = ''null'' \<or> v = []"

definition count_point :: "bool \<Rightarrow> streak \<Rightarrow> streak" where
  "count_point bad k =
     (let k1 = k\<lparr>nonNullPoints := nonNullPoints k + 1\<rparr>
      in if bad then k1\<lparr>curStreak := curStreak k + 1\<rparr>
         else k1\<lparr>maxStreak := max (curStreak k) (maxStreak k), curStreak := 0\<rparr>)"

text \<open>A value that does not parse is logged with the point's time, \<open>dp[1]\<close>, and returned.\<close>

definition parse_failed :: "datapoint \<Rightarrow> fault \<Rightarrow> 'a result" where
  "parse_failed dp e = bind_res (go_index dp 1) (\<lambda>_. Inl e)"

fun scan_points :: "datapoint list \<Rightarrow> streak \<Rightarrow> streak result" where
  "scan_points [] k = Inr k"
| "scan_points (dp # dps) k =
     bind_res (go_index dp 0) (\<lambda>v.
       if is_null v then scan_points dps k
       else case Float64_positive v of
              Inl e \<Rightarrow> parse_failed dp e
            | Inr bad \<Rightarrow> scan_points dps (count_point bad k))"

definition no_streak :: streak where
  "no_streak = \<lparr>curStreak = 0, maxStreak = 0, nonNullPoints = 0\<rparr>"

record tally =
  badEndpoints :: int
  endpointsWithData :: int

definition count_series :: "int \<Rightarrow> streak \<Rightarrow> tally \<Rightarrow> tally" where
  "count_series steps k t =
     t\<lparr>endpointsWithData := endpointsWithData t + (if nonNullPoints k > 0 then 1 else 0),
       badEndpoints := badEndpoints t + (if max (curStreak k) (maxStreak k) \<ge> steps then 1 else 0)\<rparr>"

fun scan_series :: "int \<Rightarrow> series list \<Rightarrow> tally \<Rightarrow> tally result" where
  "scan_series steps [] t = Inr t"
| "scan_series steps (s # ss) t =
     bind_res (scan_points (sr_Datapoints s) no_streak) (\<lambda>k. scan_series steps ss (count_series steps k t))"

definition eval_res :: "series list \<Rightarrow> CheckHealthSettings \<Rightarrow> CheckEvalResult result" where
  "eval_res res h =
     (if res = [] then Inl ErrNoData
      else bind_res (scan_series (h_Steps h) res \<lparr>badEndpoints = 0, endpointsWithData = 0\<rparr>) (\<lambda>t. Inr
        (if endpointsWithData t = 0 then EvalResultUnknown
         else if badEndpoints t \<ge> h_NumProbes h then EvalResultCrit
         else EvalResultOK)))"

section \<open>Jobs\<close>

definition new_job :: "CheckForAlertDTO \<Rightarrow> AlertingJob" where
  "new_job c = CheckForAlertDTO.extend c (AlertingJob.fields zero_time zero_time 0 zero_time)"

definition usable :: "CheckForAlertDTO \<Rightarrow> bool" where
  "usable c =
     (case a_HealthSettings c of
        None \<Rightarrow> False
      | Some h \<Rightarrow> \<not> (a_Frequency c = 0 \<or> h_Steps h = 0 \<or> h_NumProbes h = 0))"

definition getJobs :: "int \<Rightarrow> AlertingJob list op" where
  "getJobs lastPointAt =
     bindS (GetChecksForAlerts lastPointAt) (\<lambda>checks. returnS (map new_job (filter usable checks)))"

section \<open>The metrics of a result (StoreResult)\<close>

text \<open>\<open>SetId\<close> of the schema package fills the one field left out, a digest of the others.\<close>

record MetricData =
  md_OrgId :: int
  md_Name :: string
  md_Metric :: string
  md_Interval :: int
  md_Value :: rat
  md_Unit :: string
  md_Time :: int
  md_Mtype :: string

definition unix :: "time \<Rightarrow> int" where
  "unix t = t div second"

definition metricNames :: "string list" where
  "metricNames = [''ok_state'', ''warn_state'', ''error_state'']"

definition state_metric :: "AlertingJob \<Rightarrow> string \<Rightarrow> MetricData" where
  "state_metric j state =
     (let name = ''health.'' @ a_Slug j @ ''.'' @ to_lower (a_Type j) @ ''.'' @ state
      in \<lparr>md_OrgId = a_OrgId j, md_Name = name, md_Metric = name, md_Interval = a_Frequency j,
          md_Value = 0, md_Unit = ''state'', md_Time = unix (j_LastPointTs j), md_Mtype = ''gauge''\<rparr>)"

definition StoreResult :: "AlertingJob \<Rightarrow> MetricData list result" where
  "StoreResult j =
     (let metrics = map (state_metric j) metricNames
      in if j_NewState j \<ge> 0
         then bind_res (go_index metrics (j_NewState j)) (\<lambda>m.
                Inr (metrics[nat (j_NewState j) := m\<lparr>md_Value := 1\<rparr>]))
         else Inr metrics)"

section \<open>The reference of the decision\<close>

text \<open>
  The outcomes of a series: one boolean per point that has a value. A series is bad when it holds a
  run of at least \<open>steps\<close> positive points in a row.
\<close>

fun outcomes :: "datapoint list \<Rightarrow> bool list result" where
  "outcomes [] = Inr []"
| "outcomes (dp # dps) =
     bind_res (go_index dp 0) (\<lambda>v.
       if is_null v then outcomes dps
       else case Float64_positive v of
              Inl e \<Rightarrow> parse_failed dp e
            | Inr bad \<Rightarrow> bind_res (outcomes dps) (\<lambda>bs. Inr (bad # bs)))"

definition bad_run :: "int \<Rightarrow> bool list \<Rightarrow> bool" where
  "bad_run steps bs \<longleftrightarrow> (\<exists>us vs. bs = us @ replicate (nat steps) True @ vs)"

fun all_outcomes :: "series list \<Rightarrow> bool list list result" where
  "all_outcomes [] = Inr []"
| "all_outcomes (s # ss) =
     bind_res (outcomes (sr_Datapoints s)) (\<lambda>bs. bind_res (all_outcomes ss) (\<lambda>bss. Inr (bs # bss)))"

definition health :: "CheckHealthSettings \<Rightarrow> bool list list \<Rightarrow> CheckEvalResult" where
  "health h bss =
     (if \<forall>bs\<in>set bss. bs = [] then EvalResultUnknown
      else if h_NumProbes h \<le> int (length (filter (bad_run (h_Steps h)) bss)) then EvalResultCrit
      else EvalResultOK)"

text \<open>The longest run of positive points, and the current one, as the loop tracks them.\<close>

definition run_at_end :: "int \<Rightarrow> bool list \<Rightarrow> bool" where
  "run_at_end n bs \<longleftrightarrow> (\<exists>us. bs = us @ replicate (nat n) True)"

definition tracks :: "streak \<Rightarrow> bool list \<Rightarrow> bool" where
  "tracks k bs \<longleftrightarrow>
     nonNullPoints k = int (length bs) \<and> 0 \<le> curStreak k \<and> 0 \<le> maxStreak k \<and>
     (\<forall>n. run_at_end n bs \<longleftrightarrow> n \<le> curStreak k) \<and>
     (\<forall>n. bad_run n bs \<longleftrightarrow> n \<le> max (curStreak k) (maxStreak k))"

lemma bad_run_snoc: "bad_run n (bs @ [b]) \<longleftrightarrow> bad_run n bs \<or> run_at_end n (bs @ [b])"
proof
  assume "bad_run n (bs @ [b])"
  then obtain us vs where e: "bs @ [b] = us @ replicate (nat n) True @ vs" by (auto simp: bad_run_def)
  show "bad_run n bs \<or> run_at_end n (bs @ [b])"
  proof (cases vs rule: rev_cases)
    case Nil
    with e show ?thesis by (auto simp: run_at_end_def)
  next
    case (snoc ws w)
    with e have "bs = us @ replicate (nat n) True @ ws" by (metis append_assoc butlast_snoc)
    then show ?thesis unfolding bad_run_def by blast
  qed
next
  assume "bad_run n bs \<or> run_at_end n (bs @ [b])"
  then show "bad_run n (bs @ [b])"
  proof
    assume "bad_run n bs"
    then obtain us vs where "bs = us @ replicate (nat n) True @ vs" by (auto simp: bad_run_def)
    then have "bs @ [b] = us @ replicate (nat n) True @ (vs @ [b])" by simp
    then show ?thesis unfolding bad_run_def by blast
  next
    assume "run_at_end n (bs @ [b])"
    then show ?thesis unfolding bad_run_def run_at_end_def by (metis append_Nil2)
  qed
qed

lemma run_at_end_snoc: "run_at_end n (bs @ [b]) \<longleftrightarrow> n \<le> 0 \<or> b \<and> run_at_end (n - 1) bs"
proof (cases "n \<le> 0")
  case True
  then show ?thesis by (auto simp: run_at_end_def)
next
  case False
  then have "replicate (nat n) True = replicate (nat (n - 1)) True @ [True]"
  proof -
    have "nat n = Suc (nat (n - 1))" using False by simp
    then show ?thesis by (simp add: replicate_append_same)
  qed
  with False show ?thesis by (auto simp: run_at_end_def)
qed

lemma run_at_end_bad: "run_at_end n bs \<Longrightarrow> bad_run n bs"
  unfolding run_at_end_def bad_run_def by (metis append_Nil2)

lemma tracks_start: "tracks no_streak []"
  by (auto simp: tracks_def no_streak_def run_at_end_def bad_run_def)

lemma tracks_count: "tracks k bs \<Longrightarrow> tracks (count_point b k) (bs @ [b])"
  by (cases b) (auto simp: tracks_def count_point_def Let_def bad_run_snoc run_at_end_snoc)

lemma scan_points_outcomes:
  assumes "tracks k bs"
  shows "scan_points dps k = bind_res (outcomes dps) (\<lambda>cs. scan_points dps k)"
    and "outcomes dps = Inr cs \<Longrightarrow> \<exists>k'. scan_points dps k = Inr k' \<and> tracks k' (bs @ cs)"
proof -
  have "(\<forall>e. outcomes dps = Inl e \<longrightarrow> scan_points dps k = Inl e) \<and>
    (\<forall>cs. outcomes dps = Inr cs \<longrightarrow> (\<exists>k'. scan_points dps k = Inr k' \<and> tracks k' (bs @ cs)))"
    using assms
  proof (induction dps arbitrary: k bs)
    case (Cons dp dps)
    show ?case
    proof (cases "go_index dp 0")
      case (Inr v)
      show ?thesis
      proof (cases "is_null v")
        case False
        show ?thesis
        proof (cases "Float64_positive v")
          case (Inr b)
          then show ?thesis
            using Cons.IH[OF tracks_count[OF Cons.prems, of b]] \<open>go_index dp 0 = Inr v\<close> False
            by (auto simp: bind_res_Inr_iff bind_res_def split: sum.splits)
        qed (use Inr False in \<open>auto simp: parse_failed_def bind_res_def split: sum.splits\<close>)
      qed (use Cons Inr in auto)
    qed simp
  qed simp
  then show "scan_points dps k = bind_res (outcomes dps) (\<lambda>cs. scan_points dps k)"
    and "outcomes dps = Inr cs \<Longrightarrow> \<exists>k'. scan_points dps k = Inr k' \<and> tracks k' (bs @ cs)"
    by (cases "outcomes dps"; simp)+
qed

lemma count_series_tracks:
  assumes "tracks k bs"
  shows "count_series steps k t =
     \<lparr>badEndpoints = badEndpoints t + (if bad_run steps bs then 1 else 0),
      endpointsWithData = endpointsWithData t + (if bs = [] then 0 else 1)\<rparr>"
  using assms by (auto simp: tracks_def count_series_def)

lemma scan_series_outcomes:
  "scan_series steps ss t = bind_res (all_outcomes ss) (\<lambda>bss. Inr
     \<lparr>badEndpoints = badEndpoints t + int (length (filter (bad_run steps) bss)),
      endpointsWithData = endpointsWithData t + int (length (filter (\<lambda>bs. bs \<noteq> []) bss))\<rparr>)"
proof (induction ss arbitrary: t)
  case (Cons s ss)
  show ?case
  proof (cases "outcomes (sr_Datapoints s)")
    case (Inl e)
    with scan_points_outcomes(1)[OF tracks_start, of "sr_Datapoints s"] show ?thesis by simp
  next
    case (Inr bs)
    with scan_points_outcomes(2)[OF tracks_start] obtain k
      where "scan_points (sr_Datapoints s) no_streak = Inr k" "tracks k bs" by fastforce
    then show ?thesis
      using Inr Cons.IH by (cases "all_outcomes ss") (auto simp: count_series_tracks)
  qed
qed simp

text \<open>
  C11. The executor's decision is the reference one: no series is the error \<open>ErrNoData\<close>, a value that
  is not a number is its parse error, and otherwise the check is unknown when no point has a value,
  critical when at least \<open>NumProbes\<close> series hold a run of \<open>Steps\<close> positive points, and fine
  otherwise. Points without a value neither break a run nor count in it.
\<close>

theorem eval_reference:
  "eval_res res h =
     (if res = [] then Inl ErrNoData else bind_res (all_outcomes res) (\<lambda>bss. Inr (health h bss)))"
proof -
  have none: "int (length (filter (\<lambda>bs. bs \<noteq> []) bss)) = 0 \<longleftrightarrow> (\<forall>bs\<in>set bss. bs = [])"
    for bss :: "bool list list" by (auto simp: filter_empty_conv)
  show ?thesis
    by (cases "all_outcomes res")
      (simp_all add: eval_res_def scan_series_outcomes health_def none del: of_nat_eq_0_iff length_0_conv)
qed

text \<open>
  A stored result is three metrics, one per state, in the order of the states: the one of the
  job's state has the value 1 and the others 0, and all are 0 for an unknown state. A state above
  critical, which the decision never yields, would be an index out of range.
\<close>

theorem StoreResult_metrics:
  "StoreResult j =
     (if j_NewState j > EvalResultCrit then Inl (Panic ''index out of range'')
      else Inr (map (\<lambda>(i, n). (state_metric j n)\<lparr>md_Value := if i = j_NewState j then 1 else 0\<rparr>)
             [(EvalResultOK, ''ok_state''), (EvalResultWarn, ''warn_state''),
              (EvalResultCrit, ''error_state'')]))"
proof -
  consider "j_NewState j < 0" | "j_NewState j = 0" | "j_NewState j = 1" | "j_NewState j = 2"
    | "2 < j_NewState j" by linarith
  then show ?thesis
    by cases (simp_all add: StoreResult_def metricNames_def go_index_def eval_results state_metric_def
        Let_def)
qed

end
