(* ===== verification/Queues.thy ===== *)
theory Queues
  imports Models
begin

text \<open>
  Go channels, and the queue of alerting jobs on top of them (\<open>pkg/alerting/jobqueue\<close>). The
  contract of a bounded queue is a locale: whatever is sent comes out once and in order, and the
  buffer never exceeds its capacity, whatever the interleaving of senders and receivers.
\<close>

section \<open>The contract\<close>

text \<open>
  \<open>send\<close> fails when the sender would block, \<open>recv\<close> when the receiver would. A sender and a receiver
  that meet on an empty buffer hand the item over directly.
\<close>

locale bounded_queue =
  fixes send :: "'q \<Rightarrow> 'a \<Rightarrow> 'q option"
    and recv :: "'q \<Rightarrow> ('a \<times> 'q) option"
    and items :: "'q \<Rightarrow> 'a list"
    and capacity :: "'q \<Rightarrow> nat"
  assumes send_iff: "send q x = Some q' \<Longrightarrow> items q' = items q @ [x] \<and> capacity q' = capacity q \<and>
      length (items q) < capacity q"
    and send_room: "length (items q) < capacity q \<Longrightarrow> send q x \<noteq> None"
    and recv_iff: "recv q = Some (y, q') \<Longrightarrow> items q = y # items q' \<and> capacity q' = capacity q"
    and recv_some: "items q \<noteq> [] \<Longrightarrow> recv q \<noteq> None"
begin

text \<open>The state of a queue in use: the queue, what has been sent and what has been received.\<close>

inductive use :: "'q \<times> 'a list \<times> 'a list \<Rightarrow> 'q \<times> 'a list \<times> 'a list \<Rightarrow> bool" where
  sent: "send q x = Some q' \<Longrightarrow> use (q, ins, outs) (q', ins @ [x], outs)"
| received: "recv q = Some (y, q') \<Longrightarrow> use (q, ins, outs) (q', ins, outs @ [y])"
| handed: "items q = [] \<Longrightarrow> use (q, ins, outs) (q, ins @ [x], outs @ [x])"

inductive_cases useE: "use s s'"

lemma use_fifo:
  assumes "use\<^sup>*\<^sup>* (q0, [], []) s" and "items q0 = []"
  shows "fst (snd s) = snd (snd s) @ items (fst s) \<and> capacity (fst s) = capacity q0 \<and>
     length (items (fst s)) \<le> capacity q0"
  using assms(1)
proof (induction rule: rtranclp_induct)
  case base
  with assms(2) show ?case by simp
next
  case (step s s')
  from step.hyps(2) step.IH show ?case
    by cases (auto dest: send_iff recv_iff)
qed

text \<open>A queue is never stuck: a receiver can go on, or the buffer is empty and a sender can.\<close>

lemma use_live: "recv q \<noteq> None \<or> (\<forall>x. \<exists>s'. use (q, ins, outs) s')"
  using recv_some handed by blast

end

section \<open>Channels\<close>

record 'a chan =
  ch_cap :: nat
  ch_items :: "'a list"

definition make_chan :: "nat \<Rightarrow> 'a chan" where
  "make_chan n = \<lparr>ch_cap = n, ch_items = []\<rparr>"

definition chan_send :: "'a chan \<Rightarrow> 'a \<Rightarrow> 'a chan option" where
  "chan_send c x =
     (if length (ch_items c) < ch_cap c then Some (c\<lparr>ch_items := ch_items c @ [x]\<rparr>) else None)"

definition chan_recv :: "'a chan \<Rightarrow> ('a \<times> 'a chan) option" where
  "chan_recv c = (case ch_items c of [] \<Rightarrow> None | x # xs \<Rightarrow> Some (x, c\<lparr>ch_items := xs\<rparr>))"

interpretation channel: bounded_queue chan_send chan_recv ch_items ch_cap
  by unfold_locales
    (auto simp: chan_send_def chan_recv_def split: if_splits list.splits)

section \<open>The job queue (jobqueue.go)\<close>

text \<open>
  A local queue is one channel for both ends; a distributed one has a channel on each side of Kafka.
\<close>

datatype 'a JobQueue =
    Local "'a chan"
  | Distributed "'a chan" "'a chan" \<comment> \<open>jobsIn, jobsOut\<close>

definition NewJobQueue :: "bool \<Rightarrow> nat \<Rightarrow> 'a JobQueue" where
  "NewJobQueue distributed cap =
     (if distributed then Distributed (make_chan cap) (make_chan cap) else Local (make_chan cap))"

fun QueueJob :: "'a JobQueue \<Rightarrow> 'a \<Rightarrow> 'a JobQueue option" where
  "QueueJob (Local c) j = map_option Local (chan_send c j)"
| "QueueJob (Distributed i out) j = map_option (\<lambda>i'. Distributed i' out) (chan_send i j)"

fun next_job :: "'a JobQueue \<Rightarrow> ('a \<times> 'a JobQueue) option" where
  "next_job (Local c) = map_option (\<lambda>(j, c'). (j, Local c')) (chan_recv c)"
| "next_job (Distributed i out) = map_option (\<lambda>(j, out'). (j, Distributed i out')) (chan_recv out)"

section \<open>The Kafka consumer (pubsub.go, ConsumeClaim)\<close>

text \<open>
  The consumer decodes each message, offers the job to the worker without blocking and marks the
  message. The offer succeeds when the buffer has room or a worker is waiting. The steps of a claim
  are the messages and, between them, the jobs the workers take.
\<close>

datatype 'm claim_event =
    Message 'm bool \<comment> \<open>whether a worker is waiting on an empty buffer\<close>
  | WorkerTakes

record ('m, 'j) claim_state =
  cl_sub :: "'j chan"
  cl_taken :: "'j list"
  cl_consumed :: nat
  cl_dropped :: "'j list"
  cl_bad :: nat
  cl_marked :: "'m list"

definition offer_job :: "bool \<Rightarrow> 'j \<Rightarrow> ('m, 'j) claim_state \<Rightarrow> ('m, 'j) claim_state" where
  "offer_job waiting j s =
     (case chan_send (cl_sub s) j of
        Some c \<Rightarrow> s\<lparr>cl_sub := c, cl_consumed := cl_consumed s + 1\<rparr>
      | None \<Rightarrow>
          if waiting \<and> ch_items (cl_sub s) = []
          then s\<lparr>cl_taken := cl_taken s @ [j], cl_consumed := cl_consumed s + 1\<rparr>
          else s\<lparr>cl_dropped := cl_dropped s @ [j]\<rparr>)"

fun claim_step ::
  "('m \<Rightarrow> 'j option) \<Rightarrow> 'm claim_event \<Rightarrow> ('m, 'j) claim_state \<Rightarrow> ('m, 'j) claim_state" where
  "claim_step decode (Message m waiting) s =
     (let s1 = (case decode m of
                  None \<Rightarrow> s\<lparr>cl_bad := cl_bad s + 1\<rparr>
                | Some j \<Rightarrow> offer_job waiting j s)
      in s1\<lparr>cl_marked := cl_marked s1 @ [m]\<rparr>)"
| "claim_step decode WorkerTakes s =
     (case chan_recv (cl_sub s) of
        None \<Rightarrow> s
      | Some (j, c) \<Rightarrow> s\<lparr>cl_sub := c, cl_taken := cl_taken s @ [j]\<rparr>)"

definition ConsumeClaim ::
  "('m \<Rightarrow> 'j option) \<Rightarrow> nat \<Rightarrow> 'm claim_event list \<Rightarrow> ('m, 'j) claim_state" where
  "ConsumeClaim decode cap es =
     fold (claim_step decode) es
       \<lparr>cl_sub = make_chan cap, cl_taken = [], cl_consumed = 0, cl_dropped = [], cl_bad = 0,
        cl_marked = []\<rparr>"

section \<open>What the consumer guarantees\<close>

fun messages :: "'m claim_event list \<Rightarrow> 'm list" where
  "messages [] = []"
| "messages (Message m w # es) = m # messages es"
| "messages (WorkerTakes # es) = messages es"

lemma messages_append: "messages (es @ fs) = messages es @ messages fs"
  by (induction es rule: messages.induct) auto

definition claim_inv :: "('m \<Rightarrow> 'j option) \<Rightarrow> nat \<Rightarrow> 'm list \<Rightarrow> ('m, 'j) claim_state \<Rightarrow> bool" where
  "claim_inv decode cap ms s \<longleftrightarrow>
     cl_marked s = ms \<and> ch_cap (cl_sub s) = cap \<and> length (ch_items (cl_sub s)) \<le> cap \<and>
     cl_consumed s = length (cl_taken s @ ch_items (cl_sub s)) \<and>
     List.map_filter decode ms \<in> shuffles (cl_taken s @ ch_items (cl_sub s)) (cl_dropped s) \<and>
     length ms = cl_consumed s + length (cl_dropped s) + cl_bad s"

lemma shuffles_snoc_left: "xs \<in> shuffles ys zs \<Longrightarrow> xs @ [x] \<in> shuffles (ys @ [x]) zs"
proof (induction ys zs arbitrary: xs rule: shuffles.induct)
  case (1 zs)
  then show ?case by (induction zs arbitrary: xs) (auto intro: Cons_in_shuffles_rightI)
next
  case (3 y ys z zs)
  then show ?case by (auto simp: shuffles.simps(3) image_iff)
qed auto

lemma shuffles_snoc_right: "xs \<in> shuffles ys zs \<Longrightarrow> xs @ [x] \<in> shuffles ys (zs @ [x])"
  using shuffles_snoc_left[of xs zs ys x] by (simp add: shuffles_commutes)

lemma map_filter_snoc:
  "List.map_filter f (xs @ [x]) = List.map_filter f xs @ (case f x of None \<Rightarrow> [] | Some y \<Rightarrow> [y])"
  by (induction xs) (auto simp: List.map_filter_simps split: option.splits)

lemma claim_step_inv:
  "claim_inv decode cap ms s \<Longrightarrow> claim_inv decode cap (ms @ messages [e]) (claim_step decode e s)"
proof (cases e)
  case (Message m waiting)
  assume inv: "claim_inv decode cap ms s"
  show ?thesis
  proof (cases "decode m")
    case None
    with inv Message show ?thesis by (simp add: claim_inv_def map_filter_snoc)
  next
    case (Some j)
    with inv Message show ?thesis
      by (auto simp: claim_inv_def map_filter_snoc offer_job_def chan_send_def
          intro: shuffles_snoc_right dest: shuffles_snoc_left[of _ _ _ j])
  qed
next
  case WorkerTakes
  assume "claim_inv decode cap ms s"
  with WorkerTakes show ?thesis
    by (auto simp: claim_inv_def chan_recv_def split: list.splits)
qed

text \<open>
  C14. Whatever the interleaving of messages and workers, the consumer marks every message in order,
  never overfills the buffer, and accounts for each: the decoded jobs are those delivered (taken or
  still buffered) and those dropped, each in the order of the messages, and every message is
  consumed, dropped or undecodable.
\<close>

theorem ConsumeClaim_accounts: "claim_inv decode cap (messages es) (ConsumeClaim decode cap es)"
proof -
  have "claim_inv decode cap ms s \<Longrightarrow>
      claim_inv decode cap (ms @ messages es) (fold (claim_step decode) es s)" for ms s
  proof (induction es arbitrary: ms s)
    case (Cons e es)
    from Cons.IH[OF claim_step_inv[OF Cons.prems, of e]] show ?case
      using messages_append[of "[e]" es] by simp
  qed simp
  moreover have "claim_inv decode cap [] \<lparr>cl_sub = make_chan cap, cl_taken = [], cl_consumed = 0,
      cl_dropped = [], cl_bad = 0, cl_marked = []\<rparr>"
    by (simp add: claim_inv_def make_chan_def List.map_filter_simps)
  ultimately show ?thesis unfolding ConsumeClaim_def by fastforce
qed

end
