(* ===== verification/Alerting.thy ===== *)
theory Alerting
  imports AlertEval Queues QuotaStore
begin

text \<open>
  \<open>pkg/alerting\<close>: the offset of the dispatcher (\<open>offset.go\<close>), the dispatcher itself
  (\<open>schedule.go\<close>), the execution of a job (\<open>executor.go\<close>), the storing of its result and the mail
  of a change of state (\<open>check_state.go\<close>), the start-up decision (\<open>init.go\<close>) and the Kafka
  producer (\<open>jobqueue/pubsub.go\<close>). Counters, timers and traces are left out.
\<close>

section \<open>The offset (offset.go)\<close>

definition setOffset :: "(string \<Rightarrow> string \<Rightarrow> unit op) \<Rightarrow> int \<Rightarrow> unit op" where
  "setOffset put offset = bindS (tryS (put ''offset'' (show_int offset))) (\<lambda>_. returnS ())"

definition load_offset :: "(string \<Rightarrow> string op) \<Rightarrow> (string \<Rightarrow> string \<Rightarrow> unit op) \<Rightarrow> int op" where
  "load_offset get put =
     bindS (tryS (get ''offset'')) (\<lambda>r. case r of
       Inl e \<Rightarrow> returnS 30
     | Inr offset \<Rightarrow>
         if offset = [] then thenS (setOffset put 30) (returnS 30)
         else (case parse_int64 offset of
                 (i, None) \<Rightarrow> returnS i
               | (_, Some e) \<Rightarrow> failS (Panic (''failure reading in offset: '' @ e))))"

definition LoadOrSetOffset :: "int op" where
  "LoadOrSetOffset = load_offset GetAlertSchedulerValue UpdateAlertSchedulerValue"

section \<open>The dispatcher (schedule.go)\<close>

text \<open>One second: the jobs of the checks due at it, or none when the query fails.\<close>

definition dispatch_second :: "int \<Rightarrow> AlertingJob list option op" where
  "dispatch_second next =
     bindS (tryS (getJobs next)) (\<lambda>r. case r of
       Inl e \<Rightarrow> returnS None
     | Inr jobs \<Rightarrow>
         bindS (map_each (\<lambda>j. bindS time_Now (\<lambda>t.
             returnS (j\<lparr>j_GeneratedAt := t, j_LastPointTs := next * second\<rparr>))) jobs)
           (\<lambda>js. returnS (Some js)))"

text \<open>The loop of a tick: it advances \<open>next\<close> past the limit, with one log entry per second.\<close>

type_synonym dispatch_log = "(int \<times> AlertingJob list option) list"

function catch_up :: "int \<Rightarrow> int \<Rightarrow> (int \<times> dispatch_log) op" where
  "catch_up limit next =
     (if next \<le> limit
      then bindS (dispatch_second next) (\<lambda>r.
           bindS (catch_up limit (next + 1)) (\<lambda>(n, es). returnS (n, (next, r) # es)))
      else returnS (next, []))"
  by pat_completeness auto

termination by (relation "measure (\<lambda>(limit, next). nat (limit + 1 - next))") auto

declare catch_up.simps [simp del]

record dispatcher =
  ds_next :: int
  ds_offset :: int
  ds_log :: dispatch_log
  ds_world :: world

text \<open>
  The cases of the dispatcher's \<open>select\<close>: a tick with the time of the ticker, a new offset from the
  goroutine that reads it; between them the rest of the program changes the world.
\<close>

inductive dispatch :: "env \<Rightarrow> dispatcher \<Rightarrow> dispatcher \<Rightarrow> bool" for env where
  tick: "catch_up (lastPointAt - ds_offset s) (ds_next s) env (ds_world s) = (Inr (n, es), w') \<Longrightarrow>
     dispatch env s (s\<lparr>ds_next := n, ds_log := ds_log s @ es, ds_world := w'\<rparr>)"
| new_offset: "dispatch env s (s\<lparr>ds_offset := newOffset\<rparr>)"
| elsewhere: "dispatch env s (s\<lparr>ds_world := w'\<rparr>)"

definition dispatcher_start :: "int \<Rightarrow> int \<Rightarrow> world \<Rightarrow> dispatcher" where
  "dispatcher_start t0 offset w =
     \<lparr>ds_next = t0 - offset, ds_offset = offset, ds_log = [], ds_world = w\<rparr>"

inductive_cases dispatchE: "dispatch env s s'"

section \<open>Executing a job (executor.go)\<close>

text \<open>\<open>Time.Sub\<close> saturates.\<close>

definition time_Sub :: "time \<Rightarrow> time \<Rightarrow> int" where
  "time_Sub a b = max min_int64 (min max_int64 (a - b))"

record graphite_request =
  gr_OrgId :: string \<comment> \<open>the header \<open>x-org-id\<close>\<close>
  gr_Start :: time
  gr_End :: time
  gr_Target :: string

datatype outcome =
    TooOld
  | AlreadyDone
  | QueryFailed go_error
  | EvalFailed fault
  | Executed AlertingJob bool "MetricData list" \<comment> \<open>the job, whether it was queued as a result, the metrics\<close>

definition job_key :: "AlertingJob \<Rightarrow> string" where
  "job_key j = show_int (a_Id j) @ ''-'' @ show_int (unix (j_LastPointTs j))"

definition graphite_query :: "AlertingJob \<Rightarrow> CheckHealthSettings \<Rightarrow> graphite_request" where
  "graphite_query j h =
     \<lparr>gr_OrgId = show_int (a_OrgId j),
      gr_Start = j_LastPointTs j + wrap64 (wrap64 (- a_Frequency j * h_Steps h) * second),
      gr_End = j_LastPointTs j,
      gr_Target = ''worldping.'' @ a_Slug j @ ''.*.'' @ to_lower (a_Type j) @ ''.error_state''\<rparr>"

definition nil_deref :: fault where
  "nil_deref = Panic ''invalid memory address or nil pointer dereference''"

definition store_needed :: "AlertingJob \<Rightarrow> bool" where
  "store_needed j \<longleftrightarrow>
     a_State j \<noteq> j_NewState j \<or>
     time_Sub (j_TimeExec j) (a_StateCheck j) > wrap64 (wrap64 (a_Frequency j * 2) * second)"

definition finish_job :: "AlertingJob \<Rightarrow> CheckEvalResult \<Rightarrow> time \<Rightarrow> outcome result" where
  "finish_job j newState preExec =
     (let j' = j\<lparr>j_NewState := newState, j_TimeExec := preExec\<rparr>
      in bind_res (StoreResult j') (\<lambda>ms. Inr (Executed j' (store_needed j') ms)))"

text \<open>
  \<open>seen\<close> is the cache's \<open>ContainsOrAdd\<close>, \<open>graphite\<close> the query, \<open>t\<close> and \<open>preExec\<close> the two readings
  of the clock.
\<close>

definition execute ::
  "('c \<Rightarrow> string \<Rightarrow> bool \<times> 'c) \<Rightarrow> (graphite_request \<Rightarrow> go_error + series list) \<Rightarrow> time \<Rightarrow> time \<Rightarrow>
   'c \<Rightarrow> AlertingJob \<Rightarrow> outcome result \<times> 'c" where
  "execute seen graphite t preExec cache j =
     (if time_Sub t (j_GeneratedAt j) > 10 * 60 * second then (Inr TooOld, cache)
      else let (found, cache') = seen cache (job_key j)
           in (if found then Inr AlreadyDone
               else case a_HealthSettings j of
                      None \<Rightarrow> Inl nil_deref
                    | Some h \<Rightarrow>
                        (case graphite (graphite_query j h) of
                           Inl e \<Rightarrow> Inr (QueryFailed e)
                         | Inr res \<Rightarrow>
                             (case eval_res res h of
                                Inl (Panic p) \<Rightarrow> Inl (Panic p)
                              | Inl (Error e) \<Rightarrow> Inr (EvalFailed (Error e))
                              | Inr newState \<Rightarrow> finish_job j newState preExec)),
               cache'))"

section \<open>Results (check_state.go)\<close>

text \<open>The retry loop of a result: at most \<open>n\<close> attempts; \<open>None\<close> when none was saved.\<close>

fun store_attempts :: "nat \<Rightarrow> AlertingJob \<Rightarrow> bool option op" where
  "store_attempts 0 j = returnS None"
| "store_attempts (Suc n) j =
     bindS (tryS (UpdateCheckState j)) (\<lambda>r. case r of
       Inl e \<Rightarrow> store_attempts n j
     | Inr change \<Rightarrow> returnS (Some change))"

text \<open>The results in the order of the queue; the jobs handed on as changes of state.\<close>

definition storeResults :: "AlertingJob list \<Rightarrow> AlertingJob list op" where
  "storeResults jobs =
     bindS (map_each (\<lambda>j. bindS (store_attempts 3 j) (\<lambda>saved.
         returnS (if saved = Some True then [j] else []))) jobs)
       (\<lambda>changes. returnS (concat changes))"

record SendEmailCommand =
  em_To :: "string list"
  em_Template :: string
  em_EndpointId :: int
  em_EndpointName :: string
  em_EndpointSlug :: string
  em_Settings :: settings
  em_CheckType :: string
  em_State :: string
  em_TimeLastData :: time
  em_TimeExec :: time

definition mail_recipients :: "string \<Rightarrow> string list" where
  "mail_recipients addresses = filter (\<lambda>a. a \<noteq> []) (map trim_space (split_char (CHR '','') addresses))"

definition handleStateChange :: "AlertingJob \<Rightarrow> SendEmailCommand option result" where
  "handleStateChange j =
     bind_res (eval_result_string (j_NewState j)) (\<lambda>state.
     case a_HealthSettings j of
       None \<Rightarrow> Inl nil_deref
     | Some h \<Rightarrow>
         (let emailTo = mail_recipients (n_Addresses (h_Notifications h))
          in if \<not> n_Enabled (h_Notifications h) \<or> emailTo = [] then Inr None
             else Inr (Some
               \<lparr>em_To = emailTo, em_Template = ''alerting_notification.html'',
                em_EndpointId = a_EndpointId j, em_EndpointName = a_Name j, em_EndpointSlug = a_Slug j,
                em_Settings = a_Settings j, em_CheckType = a_Type j, em_State = state,
                em_TimeLastData = j_LastPointTs j, em_TimeExec = j_TimeExec j\<rparr>)))"

section \<open>Start-up (init.go)\<close>

record AlertingSettings =
  as_Distributed :: bool
  as_InternalJobQueueSize :: nat
  as_ExecutorLRUSize :: int
  as_EnableScheduler :: bool
  as_EnableWorker :: bool

datatype routine = DispatchJobs | ChanExecutor | ResultHandler

text \<open>\<open>lru_New\<close> is the cache's constructor: its error, if any. \<open>log.Fatal\<close> ends the process.\<close>

definition Construct :: "(int \<Rightarrow> string option) \<Rightarrow> AlertingSettings \<Rightarrow> (AlertingJob JobQueue \<times> routine list) result" where
  "Construct lru_New st =
     (case lru_New (as_ExecutorLRUSize st) of
        Some e \<Rightarrow> Inl (Panic (''Can't create LRU: '' @ e))
      | None \<Rightarrow>
          if \<not> as_Distributed st \<and> \<not> (as_EnableScheduler st \<and> as_EnableWorker st)
          then Inl (Panic ''exit: Alerting in standalone mode requires a scheduler and a worker'')
          else if \<not> as_EnableScheduler st \<and> \<not> as_EnableWorker st
          then Inl (Panic ''exit: Alerting requires a scheduler or a worker'')
          else Inr (NewJobQueue (as_Distributed st) (as_InternalJobQueueSize st),
            (if as_EnableScheduler st then [DispatchJobs] else []) @
            (if as_EnableWorker st then [ChanExecutor] else []) @ [ResultHandler]))"

section \<open>The Kafka producer (pubsub.go)\<close>

text \<open>\<open>sendMessage\<close> retries until the broker accepts; \<open>accepts n\<close> is its answer to attempt \<open>n\<close>.\<close>

partial_function (option) sendMessage :: "(nat \<Rightarrow> bool) \<Rightarrow> nat \<Rightarrow> nat option" where
  [code]: "sendMessage accepts n = (if accepts n then Some n else sendMessage accepts (Suc n))"

datatype 'j publish_event = Publish_job 'j | Pub_closed | Shutdown

text \<open>The messages handed to \<open>sendMessage\<close>: key and encoded job. The loop ends when the channel is
  closed or on shutdown; a job that cannot be encoded is skipped.\<close>

fun produce ::
  "(AlertingJob \<Rightarrow> 'd option) \<Rightarrow> (time \<Rightarrow> string) \<Rightarrow> AlertingJob publish_event list \<Rightarrow> (string \<times> 'd) list" where
  "produce encode time_String [] = []"
| "produce encode time_String (Publish_job j # es) =
     (case encode j of
        None \<Rightarrow> produce encode time_String es
      | Some d \<Rightarrow> (show_int (a_Id j) @ ''-'' @ time_String (j_LastPointTs j), d) # produce encode time_String es)"
| "produce encode time_String (Pub_closed # es) = []"
| "produce encode time_String (Shutdown # es) = []"

end
