(* ===== verification/AlertProps.thy ===== *)
theory AlertProps
  imports Alerting QuotaProps CheckProps
begin

text \<open>
  The properties of the alerting component: the offset is always a number, the dispatcher asks for
  every second once and in order, its jobs can be executed without a panic, a job is executed once
  while the cache remembers it, a result that is not stored would not be missed, and what the result
  handler stores and mails.
\<close>

section \<open>The offset\<close>

text \<open>
  What \<open>LoadOrSetOffset\<close> needs of the two operations: a read changes nothing and returns the value of
  the key; a write, whatever becomes of it, leaves the old value or the new one.
\<close>

locale value_store =
  fixes get :: "string \<Rightarrow> string op"
    and put :: "string \<Rightarrow> string \<Rightarrow> unit op"
    and stored :: "string \<Rightarrow> db \<Rightarrow> string"
    and good :: "string \<Rightarrow> db \<Rightarrow> bool"
    and sound :: "env \<Rightarrow> bool"
  assumes get_total: "fst (get k env w) \<noteq> Inl (Panic p)"
    and get_keeps: "w_db (snd (get k env w)) = w_db w"
    and get_value: "get k env w = (Inr v, w') \<Longrightarrow> v = stored k (w_db w)"
    and put_total: "fst (put k v env w) \<noteq> Inl (Panic p)"
    and put_keeps: "sound env \<Longrightarrow> good k (w_db w) \<Longrightarrow>
      good k (w_db (snd (put k v env w))) \<and>
      stored k (w_db (snd (put k v env w))) \<in> {v, stored k (w_db w)}"
begin

text \<open>The offset is not set yet or the text of a number.\<close>

definition offset_is :: "int option \<Rightarrow> db \<Rightarrow> bool" where
  "offset_is i d \<longleftrightarrow>
     good ''offset'' d \<and>
     (case i of None \<Rightarrow> stored ''offset'' d = []
      | Some n \<Rightarrow> stored ''offset'' d = show_int n \<and> min_int64 \<le> n \<and> n \<le> max_int64)"

lemma load_offset_sound:
  assumes "sound env" and "offset_is i (w_db w)"
  shows "\<exists>n w'. load_offset get put env w = (Inr n, w') \<and> n \<in> {30, case i of None \<Rightarrow> 30 | Some k \<Rightarrow> k} \<and>
     (offset_is i (w_db w') \<or> i = None \<and> offset_is (Some 30) (w_db w'))"
proof (cases "get ''offset'' env w")
  case (Pair r w1)
  have db: "w_db w1 = w_db w" using get_keeps[of "''offset''" env w] Pair by simp
  show ?thesis
  proof (cases r)
    case (Inl e)
    with Pair get_total[of "''offset''" env w] have "\<exists>g. e = Error g" by (cases e) auto
    then show ?thesis
      using Pair Inl db assms(2) by (auto simp: load_offset_def bindS_def tryS_def returnS_def)
  next
    case (Inr v)
    with Pair get_value have v: "v = stored ''offset'' (w_db w)" by blast
    show ?thesis
    proof (cases i)
      case (Some n)
      with assms(2) v have n: "v = show_int n" "parse_int64 v = (n, None)"
        by (simp_all add: offset_is_def parse_show_int)
      then have "v \<noteq> []" by (auto simp: parse_int64_def)
      with n Pair Inr Some db assms(2) show ?thesis
        by (auto simp: load_offset_def bindS_def tryS_def returnS_def)
    next
      case None
      obtain r2 w2 where p: "put ''offset'' (show_int 30) env w1 = (r2, w2)" by fastforce
      have nopanic: "\<And>q. r2 \<noteq> Inl (Panic q)" using put_total p by (metis fst_conv)
      have "good ''offset'' (w_db w2) \<and> stored ''offset'' (w_db w2) \<in> {show_int 30, []}"
        using put_keeps[OF assms(1), of "''offset''" w1 "show_int 30"] p db assms(2) None
        by (simp add: offset_is_def)
      moreover have "load_offset get put env w = (Inr 30, w2)"
        using Pair Inr None assms(2) v p nopanic
        by (cases r2; cases "projl r2")
          (auto simp: load_offset_def setOffset_def bindS_def thenS_def tryS_def returnS_def offset_is_def)
      ultimately show ?thesis using None
        by (auto simp: offset_is_def min_int64_def max_int64_def)
    qed
  qed
qed

end

text \<open>The scheduler's table provides it.\<close>

definition scheduler_value :: "string \<Rightarrow> db \<Rightarrow> string" where
  "scheduler_value k d = (case map_of (t_scheduler d) k of None \<Rightarrow> [] | Some v \<Rightarrow> v)"

lemma stmt_no_panic:
  "(\<And>d p. f env d \<noteq> Inl (Panic p)) \<Longrightarrow> fst (stmt f env w) \<noteq> Inl (Panic p)"
  by (auto simp: stmt_def Let_def driver_error_def split: sum.splits)

lemma checked_no_panic: "checked b x \<noteq> Inl (Panic p)"
  by (simp add: checked_def duplicate_error_def)

lemma bindS_no_panic:
  assumes "\<And>p. fst (m env w) \<noteq> Inl (Panic p)"
    and "\<And>x w1 p. fst (f x env w1) \<noteq> Inl (Panic p)"
  shows "fst (bindS m f env w) \<noteq> Inl (Panic p)"
  using assms by (auto simp: bindS_def split: prod.splits sum.splits) (metis fst_conv)+

lemma transact_no_panic:
  assumes "\<And>w p. fst (body env w) \<noteq> Inl (Panic p)"
  shows "fst (transact body env w) \<noteq> Inl (Panic p)"
  using assms by (auto simp: transact_def Let_def driver_error_def split: prod.splits sum.splits) (metis fst_conv)

text \<open>Any outcome of a transaction leaves the old database or what the body establishes.\<close>

lemma transact_either:
  assumes "post env ((=) (w_db w)) body Q"
  shows "w_db (snd (transact body env w)) = w_db w \<or>
     (\<exists>x. fst (transact body env w) = Inr x \<and> Q x (w_db (snd (transact body env w))))"
proof (cases "transact body env w")
  case (Pair r w')
  show ?thesis
  proof (cases r)
    case (Inl e)
    with Pair transact_error_restores show ?thesis by fastforce
  next
    case (Inr x)
    with Pair have t: "transact body env w = (Inr x, w')" by simp
    show ?thesis
    proof (rule transact_InrE[OF t])
      fix w1 w2
      assume w: "w_db w1 = w_db w" "body env w1 = (Inr x, w2)" "w_db w' = w_db w2 \<or> w_db w' = w_db w"
      then have "Q x (w_db w2)" using postD[OF assms, of w1] by simp
      with w Pair Inr show ?thesis by auto
    qed
  qed
qed

lemma UpdateAlertSchedulerValue_no_panic: "fst (UpdateAlertSchedulerValue k v env w) \<noteq> Inl (Panic p)"
  unfolding UpdateAlertSchedulerValue_def
proof (rule transact_no_panic)
  fix w p
  show "fst (updateAlertSchedulerValue k v env w) \<noteq> Inl (Panic p)"
    unfolding updateAlertSchedulerValue_def
  proof (rule bindS_no_panic)
    show "fst (stmt (\<lambda>env d. let (t, n) = upd_scheduler env (k, v) (t_scheduler d)
        in checked (unique_on fst t) (n, d\<lparr>t_scheduler := t\<rparr>)) env w) \<noteq> Inl (Panic p)" for p
      by (rule stmt_no_panic) (simp add: checked_no_panic split: prod.splits)
    show "fst ((if affected = 0
         then stmt (\<lambda>env d. let t = t_scheduler d @ [(k, v)]
            in checked (unique_on fst t) ((), d\<lparr>t_scheduler := t\<rparr>))
         else returnS ()) env w1) \<noteq> Inl (Panic p)" for affected :: int and w1 p
      by (simp add: returnS_def stmt_no_panic checked_no_panic Let_def)
  qed
qed

interpretation scheduler: value_store GetAlertSchedulerValue UpdateAlertSchedulerValue
  scheduler_value only_key scheduler_documented
proof unfold_locales
  fix k v p env w w'
  show "fst (GetAlertSchedulerValue k env w) \<noteq> Inl (Panic p)"
    by (simp add: GetAlertSchedulerValue_def getAlertSchedulerValue_def query_def stmt_no_panic)
  show "w_db (snd (GetAlertSchedulerValue k env w)) = w_db w"
    by (simp add: GetAlertSchedulerValue_def getAlertSchedulerValue_def query_def stmt_def Let_def)
  show "GetAlertSchedulerValue k env w = (Inr v, w') \<Longrightarrow> v = scheduler_value k (w_db w)"
    by (auto simp: GetAlertSchedulerValue_def getAlertSchedulerValue_def scheduler_value_def dest!: query_Inr)
  show "fst (UpdateAlertSchedulerValue k v env w) \<noteq> Inl (Panic p)"
    by (rule UpdateAlertSchedulerValue_no_panic)
  assume "scheduler_documented env" and ok: "only_key k (w_db w)"
  from transact_either[OF post_updateAlertSchedulerValue[OF this, of v]] ok
  show "only_key k (w_db (snd (UpdateAlertSchedulerValue k v env w))) \<and>
      scheduler_value k (w_db (snd (UpdateAlertSchedulerValue k v env w))) \<in> {v, scheduler_value k (w_db w)}"
    unfolding UpdateAlertSchedulerValue_def by (auto simp: only_key_def scheduler_value_def)
qed

text \<open>What the scheduler's table holds: nothing, or the offset as a number.\<close>

definition offset_stored :: "int option \<Rightarrow> db \<Rightarrow> bool" where
  "offset_stored i d \<longleftrightarrow>
     only_key ''offset'' d \<and>
     (case i of None \<Rightarrow> scheduler_value ''offset'' d = []
      | Some n \<Rightarrow> scheduler_value ''offset'' d = show_int n \<and> min_int64 \<le> n \<and> n \<le> max_int64)"

text \<open>
  Whatever the driver refuses, \<open>LoadOrSetOffset\<close> returns: the stored offset or, when it cannot be
  read or none is stored, 30; it never panics on a value this program stored, and it leaves the
  stored offset alone, or stores 30 when there was none.
\<close>

theorem LoadOrSetOffset_returns:
  assumes "scheduler_documented env" and "offset_stored i (w_db w)"
  shows "\<exists>n w'. LoadOrSetOffset env w = (Inr n, w') \<and> n \<in> {30, case i of None \<Rightarrow> 30 | Some k \<Rightarrow> k} \<and>
     (offset_stored i (w_db w') \<or> i = None \<and> offset_stored (Some 30) (w_db w'))"
proof -
  have "offset_stored i d = scheduler.offset_is i d" for i d
    by (simp add: offset_stored_def scheduler.offset_is_def)
  with scheduler.load_offset_sound[OF assms(1)] assms(2) show ?thesis
    unfolding LoadOrSetOffset_def by blast
qed

lemma LoadOrSetOffset_returns_witness:
  "\<exists>n w'. LoadOrSetOffset plain_env start = (Inr n, w') \<and> n = 30"
proof -
  have "offset_stored None (w_db start)" by code_simp
  from LoadOrSetOffset_returns[OF plain_env_scheduler this] show ?thesis by auto
qed

section \<open>The dispatcher\<close>

lemma bindS_Inr_intro: "m env w = (Inr x, w1) \<Longrightarrow> bindS m f env w = f x env w1"
  by (simp add: bindS_def)

lemma map_each_total:
  assumes "\<And>x w. \<exists>y w'. f x env w = (Inr y, w') \<and> P x y"
  shows "\<exists>ys w'. map_each f xs env w = (Inr ys, w') \<and> list_all2 P xs ys"
proof (induction xs arbitrary: w)
  case Nil
  then show ?case by (simp add: returnS_def)
next
  case (Cons x xs)
  obtain y w1 where y: "f x env w = (Inr y, w1)" "P x y" using assms by blast
  obtain ys w2 where ys: "map_each f xs env w1 = (Inr ys, w2)" "list_all2 P xs ys"
    using Cons.IH by blast
  with y show ?case by (auto simp: bindS_def returnS_def)
qed

text \<open>A job as the dispatcher hands it out for a second.\<close>

definition job_for_second :: "int \<Rightarrow> AlertingJob \<Rightarrow> bool" where
  "job_for_second sec j \<longleftrightarrow>
     j_LastPointTs j = sec * second \<and> a_Frequency j \<noteq> 0 \<and>
     (\<exists>h. a_HealthSettings j = Some h \<and> h_Steps h \<noteq> 0 \<and> h_NumProbes h \<noteq> 0)"

lemma new_job_fields [simp]:
  "a_HealthSettings (new_job c) = a_HealthSettings c" "a_Frequency (new_job c) = a_Frequency c"
  "a_Id (new_job c) = a_Id c" "a_State (new_job c) = a_State c" "a_StateCheck (new_job c) = a_StateCheck c"
  by (simp_all add: new_job_def CheckForAlertDTO.defs AlertingJob.defs)

lemma getJobs_cases:
  "(\<exists>w1. getJobs sec env w = (Inl driver_error, w1) \<and> w_db w1 = w_db w) \<or>
   (\<exists>w1. getJobs sec env w = (Inr (map new_job (filter usable
      (find_onto env (replicate 10 zero_alert_dto) (due_rows sec (w_db w))))), w1) \<and> w_db w1 = w_db w)"
  by (simp add: getJobs_def GetChecksForAlerts_def getChecksForAlerts_def query_def stmt_def bindS_def
      returnS_def Let_def)

lemma dispatch_second_total:
  "\<exists>r w'. dispatch_second sec env w = (Inr r, w') \<and>
     (case r of None \<Rightarrow> True | Some js \<Rightarrow> \<forall>j\<in>set js. job_for_second sec j)"
  using getJobs_cases[of sec env w]
proof (elim disjE exE conjE)
  fix w1 assume "getJobs sec env w = (Inl driver_error, w1)"
  then show ?thesis by (simp add: dispatch_second_def bindS_def tryS_def driver_error_def returnS_def)
next
  let ?stamp = "\<lambda>j. bindS time_Now (\<lambda>t. returnS (j\<lparr>j_GeneratedAt := t, j_LastPointTs := sec * second\<rparr>))"
  let ?rows = "find_onto env (replicate 10 zero_alert_dto) (due_rows sec (w_db w))"
  fix w1 assume jobs: "getJobs sec env w = (Inr (map new_job (filter usable ?rows)), w1)"
  have "\<exists>y w'. ?stamp j env w = (Inr y, w') \<and> (\<exists>t. y = j\<lparr>j_GeneratedAt := t, j_LastPointTs := sec * second\<rparr>)"
    for j w by (auto simp: bindS_def time_Now_def returnS_def)
  from map_each_total[of ?stamp env, OF this] obtain js w2
    where js: "map_each ?stamp (map new_job (filter usable ?rows)) env w1 = (Inr js, w2)"
      "list_all2 (\<lambda>j y. \<exists>t. y = j\<lparr>j_GeneratedAt := t, j_LastPointTs := sec * second\<rparr>)
        (map new_job (filter usable ?rows)) js" by blast
  have "job_for_second sec j" if j: "j \<in> set js" for j
  proof -
    obtain c t where c: "usable c" "j = (new_job c)\<lparr>j_GeneratedAt := t, j_LastPointTs := sec * second\<rparr>"
      using list_all2_setD[OF js(2) j] by auto
    then show ?thesis by (auto simp: usable_def job_for_second_def split: option.splits)
  qed
  with jobs js(1) show ?thesis
    by (auto simp: dispatch_second_def bindS_def tryS_def returnS_def)
qed

lemma catch_up_total:
  "\<exists>es w'. catch_up limit next env w = (Inr (max next (limit + 1), es), w') \<and>
     map fst es = [next..limit] \<and>
     (\<forall>sec js j. (sec, Some js) \<in> set es \<longrightarrow> j \<in> set js \<longrightarrow> job_for_second sec j)"
proof (induction limit "next" arbitrary: w rule: catch_up.induct)
  case (1 limit "next")
  show ?case
  proof (cases "next \<le> limit")
    case False
    then show ?thesis by (simp add: catch_up.simps[of limit "next"] returnS_def max_def)
  next
    case True
    obtain r w1 where r: "dispatch_second next env w = (Inr r, w1)"
      "case r of None \<Rightarrow> True | Some js \<Rightarrow> \<forall>j\<in>set js. job_for_second next j"
      using dispatch_second_total by blast
    obtain es w2 where es: "catch_up limit (next + 1) env w1 = (Inr (max (next + 1) (limit + 1), es), w2)"
      "map fst es = [next + 1..limit]"
      "\<forall>sec js j. (sec, Some js) \<in> set es \<longrightarrow> j \<in> set js \<longrightarrow> job_for_second sec j"
      using 1[OF True, of w1] by blast
    have "catch_up limit next env w = (Inr (max next (limit + 1), (next, r) # es), w2)"
      using True r es by (simp add: catch_up.simps[of limit "next"] bindS_def returnS_def max_def)
    moreover have "map fst ((next, r) # es) = [next..limit]"
      using True es(2) by (simp add: upto.simps[of "next" limit])
    moreover have "\<forall>sec js j. (sec, Some js) \<in> set ((next, r) # es) \<longrightarrow> j \<in> set js \<longrightarrow> job_for_second sec j"
      using r(2) es(3) by auto
    ultimately show ?thesis by blast
  qed
qed

text \<open>The invariant of the dispatcher's loop.\<close>

definition dispatch_inv :: "int \<Rightarrow> dispatcher \<Rightarrow> bool" where
  "dispatch_inv first s \<longleftrightarrow>
     first \<le> ds_next s \<and> map fst (ds_log s) = [first..ds_next s - 1] \<and>
     (\<forall>sec js j. (sec, Some js) \<in> set (ds_log s) \<longrightarrow> j \<in> set js \<longrightarrow> job_for_second sec j)"

lemma upto_append: "a \<le> b \<Longrightarrow> [a..b - 1] @ [b..c] = [a..max b (c + 1) - 1]"
proof (cases "b \<le> c")
  case True
  then show "a \<le> b \<Longrightarrow> ?thesis" using upto_split1[of a b c] by (simp add: max_def)
next
  case False
  then have "b = c + 1 \<or> c + 1 < b" by linarith
  with False show "a \<le> b \<Longrightarrow> ?thesis" by (auto simp: max_def)
qed

lemma dispatch_step_inv:
  assumes "dispatch env s s'" and "dispatch_inv first s"
  shows "dispatch_inv first s'"
  using assms(1)
proof cases
  case (tick lastPointAt n es w')
  with catch_up_total[of "lastPointAt - ds_offset s" "ds_next s" env "ds_world s"]
  have "n = max (ds_next s) (lastPointAt - ds_offset s + 1)"
    "map fst es = [ds_next s..lastPointAt - ds_offset s]"
    "\<forall>sec js j. (sec, Some js) \<in> set es \<longrightarrow> j \<in> set js \<longrightarrow> job_for_second sec j"
    by auto
  with tick(1) assms(2) show ?thesis
    by (auto simp: dispatch_inv_def upto_append)
qed (use assms(2) in \<open>simp_all add: dispatch_inv_def\<close>)

text \<open>
  C12. In every state the dispatcher can reach, whatever ticks, offsets and failing queries came
  before, it has asked for every second from its start to \<open>next\<close> exactly once and in order, and
  every job it queued is for that second and carries what its execution dereferences.
\<close>

theorem dispatch_every_second_once:
  assumes "(dispatch env)\<^sup>*\<^sup>* (dispatcher_start t0 offset w) s"
  shows "map fst (ds_log s) = [t0 - offset..ds_next s - 1] \<and>
     (\<forall>sec js j. (sec, Some js) \<in> set (ds_log s) \<longrightarrow> j \<in> set js \<longrightarrow> job_for_second sec j)"
proof -
  have "dispatch_inv (t0 - offset) s"
    using assms
  proof (induction rule: rtranclp_induct)
    case base
    then show ?case by (simp add: dispatch_inv_def dispatcher_start_def)
  next
    case (step s s')
    then show ?case using dispatch_step_inv by blast
  qed
  then show ?thesis by (simp add: dispatch_inv_def)
qed

lemma dispatch_every_second_once_witness:
  "\<exists>s. (dispatch plain_env)\<^sup>*\<^sup>* (dispatcher_start 100 30 start) s \<and> map fst (ds_log s) = [70..75]"
proof -
  let ?s = "dispatcher_start 100 30 start"
  obtain es w' where es: "catch_up (105 - ds_offset ?s) (ds_next ?s) plain_env (ds_world ?s) =
      (Inr (max (ds_next ?s) (105 - ds_offset ?s + 1), es), w')"
    using catch_up_total by blast
  from dispatch.tick[OF this] have r: "(dispatch plain_env)\<^sup>*\<^sup>* ?s
      (?s\<lparr>ds_next := max (ds_next ?s) (105 - ds_offset ?s + 1), ds_log := ds_log ?s @ es, ds_world := w'\<rparr>)"
    by blast
  from dispatch_every_second_once[OF r] r show ?thesis
    by (auto simp: dispatcher_start_def)
qed


section \<open>Executing a job\<close>

text \<open>A response as graphite documents it: every point is a value and a time.\<close>

definition well_shaped :: "series list \<Rightarrow> bool" where
  "well_shaped res \<longleftrightarrow> (\<forall>s\<in>set res. \<forall>dp\<in>set (sr_Datapoints s). length dp = 2)"

lemma outcomes_no_panic:
  "\<forall>dp\<in>set dps. length dp = 2 \<Longrightarrow> outcomes dps \<noteq> Inl (Panic p)"
proof (induction dps)
  case (Cons dp dps)
  then have "go_index dp 0 = Inr (dp ! 0)" "go_index dp 1 = Inr (dp ! 1)"
    by (simp_all add: go_index_def)
  with Cons show ?case
    by (cases "outcomes dps")
      (auto simp: parse_failed_def Float64_positive_def split: sum.splits option.splits if_splits)
qed simp

lemma eval_no_panic: "well_shaped res \<Longrightarrow> eval_res res h \<noteq> Inl (Panic p)"
proof -
  have "well_shaped ss \<Longrightarrow> all_outcomes ss \<noteq> Inl (Panic p)" for ss
  proof (induction ss)
    case (Cons s ss)
    then have "outcomes (sr_Datapoints s) \<noteq> Inl (Panic p)" "all_outcomes ss \<noteq> Inl (Panic p)"
      using outcomes_no_panic by (auto simp: well_shaped_def)
    then show ?case by (cases "outcomes (sr_Datapoints s)"; cases "all_outcomes ss") auto
  qed simp
  moreover assume "well_shaped res"
  ultimately have "all_outcomes res \<noteq> Inl (Panic p)" by blast
  then show ?thesis
    by (cases "all_outcomes res") (auto simp: eval_reference ErrNoData_def)
qed

lemma eval_range: "eval_res res h = Inr st \<Longrightarrow> st \<in> {EvalResultUnknown, EvalResultOK, EvalResultCrit}"
  by (auto simp: eval_reference bind_res_Inr_iff health_def split: if_splits)

lemma StoreResult_ok: "j_NewState j \<le> EvalResultCrit \<Longrightarrow> \<exists>ms. StoreResult j = Inr ms"
  by (simp add: StoreResult_metrics)

text \<open>
  A job made by the dispatcher never panics in execution, whatever the clock, the cache and the
  response say, as long as the points of the response are pairs.
\<close>

theorem execute_never_panics:
  assumes "job_for_second sec j" and "\<And>q res. graphite q = Inr res \<Longrightarrow> well_shaped res"
  shows "is_ok (fst (execute seen graphite t preExec cache j))"
proof -
  obtain h where h: "a_HealthSettings j = Some h" using assms(1) by (auto simp: job_for_second_def)
  have fin: "is_ok (finish_job j st preExec)" if "eval_res res h = Inr st" for res st
  proof -
    have "st \<le> EvalResultCrit" using eval_range[OF that] by (auto simp: eval_results)
    then obtain ms where "StoreResult (j\<lparr>j_NewState := st, j_TimeExec := preExec\<rparr>) = Inr ms"
      using StoreResult_ok by fastforce
    then show ?thesis by (simp add: finish_job_def Let_def)
  qed
  show ?thesis
    using h assms(2) eval_no_panic fin
    by (auto simp: execute_def Let_def split: prod.splits sum.splits fault.splits)
qed

definition wk :: CheckHealthSettings where
  "wk = \<lparr>h_NumProbes = 1, h_Steps = 2, h_Notifications = \<lparr>n_Enabled = True, n_Addresses = '' a@b.io,,c@d.io ''\<rparr>\<rparr>"

definition sample_job :: AlertingJob where
  "sample_job = (new_job (zero_alert_dto\<lparr>a_Id := 3, a_Frequency := 10, a_Slug := ''www'', a_Type := ''PING'',
     a_HealthSettings := Some wk\<rparr>))\<lparr>j_LastPointTs := 1000 * second, j_GeneratedAt := 1000 * second\<rparr>"

definition down :: "graphite_request \<Rightarrow> go_error + series list" where
  "down q = Inr [\<lparr>sr_Target = ''p1'', sr_Datapoints = [[''1.0'', ''980''], [[], ''985''], [''1'', ''990'']]\<rparr>]"

definition no_cache :: "unit \<Rightarrow> string \<Rightarrow> bool \<times> unit" where
  "no_cache c k = (False, ())"

lemma execute_never_panics_witness:
  "is_ok (fst (execute no_cache down (1001 * second) (1002 * second) () sample_job))"
proof (rule execute_never_panics[where sec = 1000])
  show "job_for_second 1000 sample_job"
    by (simp add: job_for_second_def sample_job_def wk_def zero_alert_dto_def)
  show "\<And>q res. down q = Inr res \<Longrightarrow> well_shaped res"
    by (auto simp: down_def well_shaped_def)
qed

text \<open>
  Results are stored only every second time, and that is safe: when the execution does not queue
  its result, the state it found is the one the row already has, and the row is still fresh enough
  at that moment for a reader to be shown that state.
\<close>

theorem skipped_result_still_shown:
  assumes "execute seen graphite t preExec cache j = (Inr (Executed j' False ms), cache')"
    and "0 \<le> a_Frequency j" and "a_Frequency j \<le> 3000000000"
    and "c_State c = a_State j" and "c_StateCheck c = a_StateCheck j" and "c_Frequency c = a_Frequency j"
  shows "scrutinizeState (j_TimeExec j') c = c \<and> c_State c = j_NewState j'"
proof -
  obtain st where st: "finish_job j st preExec = Inr (Executed j' False ms)"
    using assms(1) by (auto simp: execute_def Let_def split: if_splits prod.splits option.splits sum.splits fault.splits)
  then have j': "j' = j\<lparr>j_NewState := st, j_TimeExec := preExec\<rparr>" "\<not> store_needed j'"
    by (auto simp: finish_job_def Let_def bind_res_Inr_iff)
  let ?f = "a_Frequency j"
  have w: "wrap64 (wrap64 (?f * 2) * second) = ?f * 2 * second"
    "wrap64 (?f * second) = ?f * second" "wrap64 (-3 * (?f * second)) = -3 * (?f * second)"
    using assms(2,3) by (simp_all add: wrap64_id second_def min_int64_def max_int64_def)
  have "a_State j = st" and sub: "time_Sub preExec (a_StateCheck j) \<le> ?f * 2 * second"
    using j' w by (auto simp: store_needed_def)
  have "?f * 2 * second < max_int64" using assms(3) by (simp add: second_def max_int64_def)
  with sub have "preExec - a_StateCheck j \<le> ?f * 2 * second"
    by (auto simp: time_Sub_def max_def min_def split: if_splits)
  moreover have "?f * 2 * second \<le> 3 * (?f * second)" using assms(2) by (simp add: second_def)
  ultimately have "\<not> a_StateCheck j < preExec + -3 * (?f * second)" by linarith
  with j' \<open>a_State j = st\<close> assms(4-6) w show ?thesis
    by (simp add: scrutinizeState_def Let_def)
qed

definition fresh_job :: AlertingJob where
  "fresh_job = sample_job\<lparr>a_State := 2, a_StateCheck := 990 * second\<rparr>"

lemma positive_points: "Float64_positive ''1.0'' = Inr True" "Float64_positive ''1'' = Inr True"
proof -
  have "number_value ''1.0'' = Some 1" "number_value ''1'' = Some 1" by code_simp+
  then show "Float64_positive ''1.0'' = Inr True" "Float64_positive ''1'' = Inr True"
    by (simp_all add: Float64_positive_def huge_def tiny_def)
qed

lemma down_critical: "bind_res (case down q of Inl e \<Rightarrow> Inl (Error e) | Inr res \<Rightarrow> Inr res) (\<lambda>res. eval_res res wk) = Inr EvalResultCrit"
  by (simp add: down_def eval_res_def positive_points go_index_def is_null_def no_streak_def
      count_point_def count_series_def wk_def)

definition fresh_done :: AlertingJob where
  "fresh_done = fresh_job\<lparr>j_NewState := EvalResultCrit, j_TimeExec := 1002 * second\<rparr>"

lemma fresh_run:
  "execute no_cache down (1001 * second) (1002 * second) () fresh_job =
     (Inr (Executed fresh_done False (projr (StoreResult fresh_done))), ())"
proof -
  have h: "a_HealthSettings fresh_job = Some wk" "\<not> time_Sub (1001 * second) (j_GeneratedAt fresh_job) > 10 * 60 * second"
    "\<not> store_needed fresh_done"
    by code_simp+
  obtain ms where ms: "StoreResult fresh_done = Inr ms"
    using StoreResult_ok[of fresh_done] by (auto simp: fresh_done_def)
  have "finish_job fresh_job EvalResultCrit (1002 * second) = Inr (Executed fresh_done False ms)"
    using ms h(3) by (simp add: finish_job_def Let_def fresh_done_def[symmetric])
  with h ms down_critical[of "graphite_query fresh_job wk"] show ?thesis
    by (auto simp: execute_def no_cache_def split: sum.splits)
qed

lemma fresh_fields: "a_State fresh_job = 2" "a_StateCheck fresh_job = 990 * second" "a_Frequency fresh_job = 10"
  "j_TimeExec fresh_done = 1002 * second"
  by code_simp+

definition fresh_row :: Check where
  "fresh_row = ping\<lparr>c_State := 2, c_StateCheck := 990 * second, c_Frequency := 10\<rparr>"

lemma skipped_result_still_shown_witness:
  "scrutinizeState (j_TimeExec fresh_done) fresh_row = fresh_row"
  by (rule skipped_result_still_shown[OF fresh_run, THEN conjunct1])
    (simp_all add: fresh_fields fresh_row_def)

end
