(* ===== verification/AlertHandling.thy ===== *)
theory AlertHandling
  imports AlertProps ResultProps
begin

text \<open>
  More of the alerting component: a job is executed once while the cache remembers it, a due check
  is dispatched when its query succeeds, results are stored in order whatever fails, a mail goes to
  exactly the addresses given, and a message is sent as soon as the broker accepts it.
\<close>

section \<open>A job is executed once\<close>

lemma show_nat_split:
  assumes "show_nat a @ CHR ''-'' # s = show_nat b @ CHR ''-'' # t"
  shows "a = b \<and> s = t"
proof -
  have dash: "\<not> is_digit (CHR ''-'')" by (simp add: is_digit_def)
  have tw: "takeWhile is_digit (show_nat n @ CHR ''-'' # r) = show_nat n" for n r
  proof -
    have "takeWhile is_digit (show_nat n @ CHR ''-'' # r) = show_nat n @ takeWhile is_digit (CHR ''-'' # r)"
      by (rule takeWhile_append2) (use show_nat_digits in blast)
    with dash show ?thesis by simp
  qed
  have eq: "show_nat a = show_nat b" using tw[of a s] tw[of b t] unfolding assms by simp
  then have "a = b" by (metis digits_val_show_nat)
  with assms show ?thesis by simp
qed

lemma show_nat_head: "show_nat n \<noteq> CHR ''-'' # r"
proof
  assume "show_nat n = CHR ''-'' # r"
  then have "is_digit (CHR ''-'')" using show_nat_digits[of n] by (metis list.set_intros(1))
  then show False by (simp add: is_digit_def)
qed

lemma show_int_split:
  assumes "show_int a @ CHR ''-'' # s = show_int b @ CHR ''-'' # t"
  shows "a = b \<and> s = t"
proof -
  have head: "show_nat n @ r \<noteq> CHR ''-'' # r'" for n r r'
    by (cases "show_nat n") (use show_nat_head[of n] show_nat_not_Nil[of n] in auto)
  show ?thesis
    using assms head[of "nat a" "CHR ''-'' # s"] head[of "nat b" "CHR ''-'' # t"]
    by (auto simp: show_int_def split: if_splits dest!: show_nat_split dest: sym)
qed

text \<open>The cache's key names the check and the second.\<close>

lemma job_key_inj: "job_key i = job_key j \<Longrightarrow> a_Id i = a_Id j \<and> unix (j_LastPointTs i) = unix (j_LastPointTs j)"
  using show_int_split[of "a_Id i" "show_int (unix (j_LastPointTs i))" "a_Id j" "show_int (unix (j_LastPointTs j))"]
  by (auto simp: job_key_def dest: show_int_inj)

fun execute_all ::
  "('c \<Rightarrow> string \<Rightarrow> bool \<times> 'c) \<Rightarrow> (graphite_request \<Rightarrow> go_error + series list) \<Rightarrow>
   (AlertingJob \<times> time \<times> time) list \<Rightarrow> 'c \<Rightarrow> (AlertingJob \<times> outcome result) list" where
  "execute_all ContainsOrAdd graphite [] cache = []"
| "execute_all ContainsOrAdd graphite ((j, t, preExec) # js) cache =
     (let (out, cache') = execute ContainsOrAdd graphite t preExec cache j
      in (j, out) # execute_all ContainsOrAdd graphite js cache')"

definition went_through :: "outcome result \<Rightarrow> bool" where
  "went_through out \<longleftrightarrow> out \<noteq> Inr TooOld \<and> out \<noteq> Inr AlreadyDone"

text \<open>A cache that has not evicted anything: it reports what has been added, and remembers it.\<close>

definition remembers :: "('c \<Rightarrow> string \<Rightarrow> bool \<times> 'c) \<Rightarrow> ('c \<Rightarrow> string set) \<Rightarrow> bool" where
  "remembers ContainsOrAdd known \<longleftrightarrow>
     (\<forall>c k. (fst (ContainsOrAdd c k) \<longleftrightarrow> k \<in> known c) \<and> known (snd (ContainsOrAdd c k)) = insert k (known c))"

lemma finish_job_went_through: "went_through (finish_job j st pre)"
  by (auto simp: went_through_def finish_job_def Let_def bind_res_def split: sum.splits)

lemma execute_cache:
  assumes "remembers ContainsOrAdd known" and "execute ContainsOrAdd graphite t pre cache j = (out, cache')"
  shows "known cache \<subseteq> known cache'" and "went_through out \<Longrightarrow> job_key j \<notin> known cache \<and> job_key j \<in> known cache'"
proof -
  obtain found c1 where f: "ContainsOrAdd cache (job_key j) = (found, c1)" by fastforce
  with assms(1) have k: "found \<longleftrightarrow> job_key j \<in> known cache" "known c1 = insert (job_key j) (known cache)"
    unfolding remembers_def by (metis fst_conv snd_conv)+
  show "known cache \<subseteq> known cache'" using assms(2) f k by (auto simp: execute_def split: if_splits)
  show "went_through out \<Longrightarrow> job_key j \<notin> known cache \<and> job_key j \<in> known cache'"
    using assms(2) f k by (auto simp: execute_def went_through_def split: if_splits)
qed

lemma execute_all_keys:
  fixes graphite :: "graphite_request \<Rightarrow> go_error + series list"
  assumes "remembers ContainsOrAdd known"
  defines "keys js c \<equiv> map (job_key \<circ> fst) (filter (went_through \<circ> snd) (execute_all ContainsOrAdd graphite js c))"
  shows "distinct (keys js c) \<and> set (keys js c) \<inter> known c = {}"
proof (induction js arbitrary: c)
  case Nil
  show ?case by (simp add: keys_def)
next
  case (Cons jt js)
  obtain j t p where jt: "jt = (j, t, p)" by (cases jt)
  obtain out c1 where e: "execute ContainsOrAdd graphite t p c j = (out, c1)" by fastforce
  note ec = execute_cache[OF assms(1) e]
  have "keys (jt # js) c = (if went_through out then [job_key j] else []) @ keys js c1"
    by (simp add: keys_def jt e)
  with Cons.IH[of c1] ec show ?case by auto
qed

text \<open>
  As long as the cache has not evicted their keys, of any sequence of jobs, duplicates and
  redeliveries included, no two for the same check and the same second get past it.
\<close>

theorem job_executed_once:
  assumes "remembers ContainsOrAdd known"
  shows "distinct (map (\<lambda>(j, out). (a_Id j, unix (j_LastPointTs j)))
     (filter (went_through \<circ> snd) (execute_all ContainsOrAdd graphite js cache)))"
proof -
  let ?es = "filter (went_through \<circ> snd) (execute_all ContainsOrAdd graphite js cache)"
  let ?pair = "\<lambda>(j, out). (a_Id j, unix (j_LastPointTs j))"
  let ?key = "\<lambda>(i, t). show_int i @ ''-'' @ show_int t"
  have keys: "map (job_key \<circ> fst) es = map ?key (map ?pair es)" for es :: "(AlertingJob \<times> outcome result) list"
    by (induction es) (auto simp: job_key_def)
  have "distinct (map (job_key \<circ> fst) ?es)" using execute_all_keys[OF assms] by blast
  then have "distinct (map ?key (map ?pair ?es))" unfolding keys .
  then show ?thesis unfolding distinct_map[of ?key] by blast
qed

definition set_cache :: "string list \<Rightarrow> string \<Rightarrow> bool \<times> string list" where
  "set_cache c k = (k \<in> set c, k # c)"

lemma job_executed_once_witness:
  "distinct (map (\<lambda>(j, out). (a_Id j, unix (j_LastPointTs j))) (filter (went_through \<circ> snd)
     (execute_all set_cache down [(sample_job, 1001 * second, 1002 * second), (sample_job, 1001 * second, 1003 * second)] [])))"
  by (rule job_executed_once[where known = set]) (auto simp: remembers_def set_cache_def)

section \<open>A due check is dispatched\<close>

lemma getJobs_reliable:
  assumes "reliable env"
  shows "\<exists>w1. getJobs sec env w = (Inr (map new_job (filter usable
      (find_onto env (replicate 10 zero_alert_dto) (due_rows sec (w_db w))))), w1) \<and> w_db w1 = w_db w"
  using assms by (simp add: reliable_def getJobs_def GetChecksForAlerts_def getChecksForAlerts_def query_def
      stmt_def bindS_def returnS_def Let_def)

lemma dispatch_second_reliable:
  assumes "reliable env" and "orm_documented env" and "r \<in> set (due_rows sec (w_db w))" and "usable r"
  shows "\<exists>js w'. dispatch_second sec env w = (Inr (Some js), w') \<and> w_db w' = w_db w \<and>
     (\<exists>j\<in>set js. a_Id j = a_Id r)"
proof -
  let ?jobs = "map new_job (filter usable (find_onto env (replicate 10 zero_alert_dto) (due_rows sec (w_db w))))"
  let ?stamp = "\<lambda>j. bindS time_Now (\<lambda>t. returnS (j\<lparr>j_GeneratedAt := t, j_LastPointTs := sec * second\<rparr>))"
  obtain w1 where w1: "getJobs sec env w = (Inr ?jobs, w1)" "w_db w1 = w_db w"
    using getJobs_reliable[OF assms(1)] by blast
  have r: "new_job r \<in> set ?jobs" using assms(2-4) by (auto simp: orm_documented_def)
  have each: "\<exists>js w2. map_each ?stamp jobs env w = (Inr js, w2) \<and> w_db w2 = w_db w \<and>
      map a_Id js = map a_Id jobs" for jobs w
  proof (induction jobs arbitrary: w)
    case (Cons j jobs)
    obtain js w2 where "map_each ?stamp jobs env (w\<lparr>w_clock := Suc (w_clock w)\<rparr>) = (Inr js, w2)"
      "w_db w2 = w_db w" "map a_Id js = map a_Id jobs"
      using Cons.IH[of "w\<lparr>w_clock := Suc (w_clock w)\<rparr>"] by auto
    then show ?case by (simp add: bindS_def time_Now_def returnS_def)
  qed (simp add: returnS_def)
  obtain js w2 where js: "map_each ?stamp ?jobs env w1 = (Inr js, w2)" "w_db w2 = w_db w1"
    "map a_Id js = map a_Id ?jobs"
    using each by blast
  have "a_Id r \<in> set (map a_Id js)" using r js(3) by (metis imageI list.set_map new_job_fields(3))
  then obtain j where j: "j \<in> set js" "a_Id j = a_Id r" by auto
  have "dispatch_second sec env w = (Inr (Some js), w2)"
    unfolding dispatch_second_def using w1(1) js(1) by (simp add: bindS_def tryS_def returnS_def)
  with j js(2) w1(2) show ?thesis by auto
qed

lemma dispatch_second_keeps: "reliable env \<Longrightarrow> dispatch_second sec env w = (Inr r, w') \<Longrightarrow> w_db w' = w_db w"
proof -
  have each: "map_each (\<lambda>j. bindS time_Now (\<lambda>t. returnS (f j t))) jobs env w = (Inr js, w2) \<Longrightarrow> w_db w2 = w_db w"
    for f :: "AlertingJob \<Rightarrow> time \<Rightarrow> AlertingJob" and jobs w js w2
    by (induction jobs arbitrary: w js) (auto simp: bindS_Inr time_Now_def returnS_def)
  assume "reliable env" and d: "dispatch_second sec env w = (Inr r, w')"
  from getJobs_cases[of sec env w] show ?thesis
  proof (elim disjE exE conjE)
    fix w1 assume "getJobs sec env w = (Inl driver_error, w1)" "w_db w1 = w_db w"
    with d show ?thesis by (simp add: dispatch_second_def bindS_def tryS_def driver_error_def returnS_def)
  next
    let ?jobs = "map new_job (filter usable (find_onto env (replicate 10 zero_alert_dto) (due_rows sec (w_db w))))"
    fix w1 assume g: "getJobs sec env w = (Inr ?jobs, w1)" "w_db w1 = w_db w"
    then obtain js where "map_each (\<lambda>j. bindS time_Now (\<lambda>t.
        returnS (j\<lparr>j_GeneratedAt := t, j_LastPointTs := sec * second\<rparr>))) ?jobs env w1 = (Inr js, w')"
      using d unfolding dispatch_second_def by (auto simp: bindS_Inr tryS_def returnS_def)
    from each[OF this] g(2) show ?thesis by simp
  qed
qed

lemma due_rowsI:
  assumes "c \<in> set (t_check d)" and "due sec c" and "e \<in> set (t_endpoint d)" and "e_Id e = c_EndpointId c"
  shows "alert_dto c e \<in> set (due_rows sec d)"
  using assms by (force simp: due_rows_def)

text \<open>
  As long as the driver answers and the table stays as it is, a tick turns every stored, enabled
  check with health settings, and with a stored endpoint, into a job at each of its due seconds that
  the tick covers.
\<close>

theorem due_check_dispatched:
  assumes "reliable env" and "orm_documented env"
    and "c \<in> set (t_check (w_db w))" and "due sec c" and "e \<in> set (t_endpoint (w_db w))"
    and "e_Id e = c_EndpointId c" and "usable (alert_dto c e)" and "next \<le> sec" and "sec \<le> limit"
  shows "\<exists>n es w' js j. catch_up limit next env w = (Inr (n, es), w') \<and> w_db w' = w_db w \<and>
     (sec, Some js) \<in> set es \<and> j \<in> set js \<and> a_Id j = c_Id c"
  using assms(3,5,8,9)
proof (induction limit "next" arbitrary: w rule: catch_up.induct)
  case (1 limit "next")
  have lim: "next \<le> limit" using "1.prems" by simp
  obtain r w1 where r: "dispatch_second next env w = (Inr r, w1)" using dispatch_second_total by blast
  have db: "w_db w1 = w_db w" using dispatch_second_keeps[OF assms(1) r] .
  obtain n es w2 where es: "catch_up limit (next + 1) env w1 = (Inr (n, es), w2)"
    using catch_up_total by blast
  have step: "catch_up limit next env w = (Inr (n, (next, r) # es), w2)"
    using lim r es by (simp add: catch_up.simps[of limit "next"] bindS_def returnS_def)
  show ?case
  proof (cases "sec = next")
    case True
    have "alert_dto c e \<in> set (due_rows next (w_db w))"
      using due_rowsI[OF "1.prems"(1) assms(4) "1.prems"(2) assms(6)] True by simp
    from dispatch_second_reliable[OF assms(1,2) this assms(7)] r obtain js j
      where "r = Some js" "j \<in> set js" "a_Id j = c_Id c" by (auto simp: alert_dto_def)
    moreover have "w_db w2 = w_db w1"
    proof -
      have "catch_up limit k env v = (Inr (m, fs), v') \<Longrightarrow> w_db v' = w_db v" for k v m fs v'
      proof (induction limit k arbitrary: v m fs v' rule: catch_up.induct)
        case (1 limit k)
        show ?case
          using "1.prems" "1.IH" dispatch_second_keeps[OF assms(1)]
          by (fastforce simp: catch_up.simps[of limit k] bindS_Inr returnS_def split: if_splits)
      qed
      with es show ?thesis by blast
    qed
    ultimately show ?thesis using step True db by auto
  next
    case False
    then have "next + 1 \<le> sec" using "1.prems" by simp
    from "1.IH"[OF lim, of w1] this "1.prems" db es obtain js j where
      "w_db w2 = w_db w1" "(sec, Some js) \<in> set es" "j \<in> set js" "a_Id j = c_Id c" by auto
    with step db show ?thesis by auto
  qed
qed

definition watched_world :: world where
  "watched_world = start\<lparr>w_db := empty_db
     \<lparr>t_endpoint := [\<lparr>e_Id = 4, e_OrgId = 1, e_Name = ''w'', e_Slug = ''w'', e_Created = 0, e_Updated = 0\<rparr>],
      t_check := [ping\<lparr>c_Id := 9, c_EndpointId := 4, c_OrgId := 1, c_HealthSettings := Some wk, c_Offset := 5\<rparr>]\<rparr>\<rparr>"

lemma due_check_dispatched_witness:
  "\<exists>n es w' js j. catch_up 70 60 plain_env watched_world = (Inr (n, es), w') \<and>
     (65, Some js) \<in> set es \<and> j \<in> set js \<and> a_Id j = 9"
proof -
  let ?d = "w_db watched_world"
  have "hd (t_check ?d) \<in> set (t_check ?d)" "hd (t_endpoint ?d) \<in> set (t_endpoint ?d)"
    by (simp_all add: watched_world_def)
  moreover have "due 65 (hd (t_check ?d))" "e_Id (hd (t_endpoint ?d)) = c_EndpointId (hd (t_check ?d))"
    "usable (alert_dto (hd (t_check ?d)) (hd (t_endpoint ?d)))" "c_Id (hd (t_check ?d)) = 9"
    by code_simp+
  ultimately show ?thesis
    using due_check_dispatched[OF plain_reliable plain_env_documented, of "hd (t_check ?d)" watched_world 65
        "hd (t_endpoint ?d)" 60 70] by auto
qed

section \<open>Storing the results\<close>

definition apply_to_checks :: "AlertingJob \<Rightarrow> db \<Rightarrow> db" where
  "apply_to_checks j d = d\<lparr>t_check := map (apply_result j) (t_check d)\<rparr>"

lemma UpdateCheckState_outcomes:
  "\<exists>w'. (UpdateCheckState j env w = (Inl driver_error, w') \<and> w_db w' = w_db w) \<or>
     (\<exists>b. UpdateCheckState j env w = (Inr b, w') \<and> w_db w' \<in> {w_db w, apply_to_checks j (w_db w)} \<and>
        (b \<longleftrightarrow> (\<exists>c\<in>set (t_check (w_db w)). state_hit j c)) \<and>
        (reliable env \<longrightarrow> w_db w' = apply_to_checks j (w_db w)))"
proof -
  have len: "0 < int (length (filter P xs)) \<longleftrightarrow> (\<exists>x\<in>set xs. P x)" for P and xs :: "Check list"
    by (simp add: filter_empty_conv)
  show ?thesis
    by (auto simp: UpdateCheckState_def transact_def updateCheckState_def exec_state_def exec_checked_def
        exec_def stmt_def bindS_def thenS_def returnS_def Let_def reliable_def apply_to_checks_def
        apply_result_def comp_def len simp del: of_nat_0_less_iff length_greater_0_conv split: prod.splits sum.splits)
qed

lemma store_attempts_outcomes:
  "\<exists>r w'. store_attempts n j env w = (Inr r, w') \<and>
     (r = None \<longrightarrow> w_db w' = w_db w) \<and> w_db w' \<in> {w_db w, apply_to_checks j (w_db w)} \<and>
     (r = Some True \<longrightarrow> (\<exists>c\<in>set (t_check (w_db w)). state_hit j c)) \<and>
     (reliable env \<and> 0 < n \<longrightarrow> w_db w' = apply_to_checks j (w_db w) \<and>
        (r = Some True \<longleftrightarrow> (\<exists>c\<in>set (t_check (w_db w)). state_hit j c)))"
proof (induction n arbitrary: w)
  case 0
  then show ?case by (simp add: returnS_def)
next
  case (Suc n)
  obtain w1 where "(UpdateCheckState j env w = (Inl driver_error, w1) \<and> w_db w1 = w_db w) \<or>
     (\<exists>b. UpdateCheckState j env w = (Inr b, w1) \<and> w_db w1 \<in> {w_db w, apply_to_checks j (w_db w)} \<and>
        (b \<longleftrightarrow> (\<exists>c\<in>set (t_check (w_db w)). state_hit j c)) \<and>
        (reliable env \<longrightarrow> w_db w1 = apply_to_checks j (w_db w)))"
    using UpdateCheckState_outcomes by blast
  then show ?case
  proof (elim disjE exE conjE)
    assume u: "UpdateCheckState j env w = (Inl driver_error, w1)" "w_db w1 = w_db w"
    have "\<not> reliable env"
      using u(1) UpdateCheckState_outcomes[of j env w]
      by (auto simp: UpdateCheckState_def transact_def updateCheckState_def exec_state_def exec_checked_def
          exec_def stmt_def bindS_def thenS_def returnS_def Let_def reliable_def driver_error_def
          split: prod.splits sum.splits if_splits)
    with u Suc.IH[of w1] show ?thesis
      by (auto simp: bindS_def tryS_def driver_error_def)
  next
    fix b assume "UpdateCheckState j env w = (Inr b, w1)" "w_db w1 \<in> {w_db w, apply_to_checks j (w_db w)}"
      "b \<longleftrightarrow> (\<exists>c\<in>set (t_check (w_db w)). state_hit j c)"
      "reliable env \<longrightarrow> w_db w1 = apply_to_checks j (w_db w)"
    then show ?thesis by (auto simp: bindS_def tryS_def returnS_def)
  qed
qed

text \<open>
  The result handler always goes through its queue, whatever the driver refuses. What it has
  stored at the end is the results of some of the jobs, in their order, each as a whole; a job is
  announced as a change only if it is one of the queue and only when it changed a state; and when
  nothing is refused every result is stored.
\<close>

theorem storeResults_in_order:
  "\<exists>changes w' stored. storeResults jobs env w = (Inr changes, w') \<and> subseq stored jobs \<and>
     w_db w' = fold apply_to_checks stored (w_db w) \<and> subseq changes jobs \<and>
     (reliable env \<longrightarrow> stored = jobs)"
proof -
  let ?f = "\<lambda>j. bindS (store_attempts 3 j) (\<lambda>saved. returnS (if saved = Some True then [j] else []))"
  have "\<exists>cs w' stored. map_each ?f jobs env w = (Inr cs, w') \<and> subseq stored jobs \<and>
     w_db w' = fold apply_to_checks stored (w_db w) \<and> subseq (concat cs) jobs \<and>
     (reliable env \<longrightarrow> stored = jobs)"
  proof (induction jobs arbitrary: w)
    case Nil
    show ?case by (auto simp: returnS_def intro!: exI[of _ "[]"])
  next
    case (Cons j jobs)
    obtain r w1 where r: "store_attempts 3 j env w = (Inr r, w1)"
      "w_db w1 \<in> {w_db w, apply_to_checks j (w_db w)}"
      "reliable env \<longrightarrow> w_db w1 = apply_to_checks j (w_db w)"
      using store_attempts_outcomes[of 3 j env w] by auto
    obtain cs w2 stored where cs: "map_each ?f jobs env w1 = (Inr cs, w2)" "subseq stored jobs"
      "w_db w2 = fold apply_to_checks stored (w_db w1)" "subseq (concat cs) jobs"
      "reliable env \<longrightarrow> stored = jobs"
      using Cons.IH[of w1] by blast
    define first where "first = (if w_db w1 = apply_to_checks j (w_db w) then [j] else [])"
    have "w_db w2 = fold apply_to_checks (first @ stored) (w_db w)"
      using r(2) cs(3) by (auto simp: first_def)
    moreover have "subseq (first @ stored) (j # jobs)" "reliable env \<longrightarrow> first @ stored = j # jobs"
      using cs(2,5) r(3) by (auto simp: first_def)
    moreover have "map_each ?f (j # jobs) env w = (Inr ((if r = Some True then [j] else []) # cs), w2)"
      using r(1) cs(1) by (simp add: bindS_def returnS_def)
    moreover have "subseq (concat ((if r = Some True then [j] else []) # cs)) (j # jobs)"
      using cs(4) by auto
    ultimately show ?case by blast
  qed
  then show ?thesis
    by (auto simp: storeResults_def bindS_def returnS_def)
qed

lemma storeResults_in_order_witness:
  "\<exists>changes w'. storeResults [sample_job, fresh_done] plain_env watched_world = (Inr changes, w') \<and>
     w_db w' = apply_to_checks fresh_done (apply_to_checks sample_job (w_db watched_world))"
proof -
  obtain changes w' stored where "storeResults [sample_job, fresh_done] plain_env watched_world = (Inr changes, w')"
    "w_db w' = fold apply_to_checks stored (w_db watched_world)" "reliable plain_env \<longrightarrow> stored = [sample_job, fresh_done]"
    using storeResults_in_order by blast
  then show ?thesis using plain_reliable by (intro exI[of _ changes] exI[of _ w']) simp
qed

section \<open>The mail of a change\<close>

lemma trim_space_Nil_iff: "trim_space s = [] \<longleftrightarrow> (\<forall>c\<in>set s. is_space c)"
proof -
  have "trim_space s = [] \<longleftrightarrow> (\<forall>c\<in>set (dropWhile is_space s). is_space c)"
    by (simp add: trim_space_def dropWhile_eq_Nil_conv)
  also have "\<dots> \<longleftrightarrow> dropWhile is_space s = []"
    using hd_dropWhile[of is_space s] by (cases "dropWhile is_space s") (auto dest: set_dropWhileD)
  finally show ?thesis by (simp add: dropWhile_eq_Nil_conv)
qed

lemma split_char_chars: "c \<noteq> sep \<Longrightarrow> (\<exists>p\<in>set (split_char sep s). c \<in> set p) \<longleftrightarrow> c \<in> set s"
proof (induction s)
  case (Cons x xs)
  obtain p ps where "split_char sep xs = p # ps" by (meson list.exhaust split_char_not_Nil)
  with Cons show ?case by auto
qed simp

lemma trim_space_set: "set (trim_space s) \<subseteq> set s"
  unfolding trim_space_def by (metis set_dropWhileD set_rev subsetI)

text \<open>An address as it is mailed: not empty, without commas, no blank at either end.\<close>

definition clean_address :: "string \<Rightarrow> bool" where
  "clean_address a \<longleftrightarrow> a \<noteq> [] \<and> CHR '','' \<notin> set a \<and> \<not> is_space (hd a) \<and> \<not> is_space (last a)"

lemma mail_recipients_clean: "a \<in> set (mail_recipients s) \<Longrightarrow> clean_address a"
  using trim_space_ends trim_space_set split_char_parts
  by (fastforce simp: mail_recipients_def clean_address_def)

lemma mail_recipients_none:
  "mail_recipients s = [] \<longleftrightarrow> (\<forall>c\<in>set s. is_space c \<or> c = CHR '','')"
proof -
  have "mail_recipients s = [] \<longleftrightarrow> (\<forall>p\<in>set (split_char (CHR '','') s). \<forall>c\<in>set p. is_space c)"
    by (auto simp: mail_recipients_def filter_empty_conv trim_space_Nil_iff)
  also have "\<dots> \<longleftrightarrow> (\<forall>c\<in>set s. is_space c \<or> c = CHR '','')"
    using split_char_chars[of _ "CHR '',''" s] split_char_parts[of _ "CHR '',''" s] by metis
  finally show ?thesis .
qed

text \<open>
  A change of state of a job the executor produced never panics the handler. A mail goes out
  exactly when notifications are on and the address list holds something besides blanks and commas;
  it names the state, and each recipient is a trimmed, non-empty piece of the list.
\<close>

theorem handleStateChange_mails:
  assumes "a_HealthSettings j = Some h" and "eval_res res h = Inr (j_NewState j)"
  shows "\<exists>m. handleStateChange j = Inr m \<and>
     (m = None \<longleftrightarrow> \<not> n_Enabled (h_Notifications h) \<or>
        (\<forall>c\<in>set (n_Addresses (h_Notifications h)). is_space c \<or> c = CHR '','')) \<and>
     (\<forall>mail. m = Some mail \<longrightarrow>
        em_To mail = mail_recipients (n_Addresses (h_Notifications h)) \<and>
        (\<forall>a\<in>set (em_To mail). clean_address a) \<and> Inr (em_State mail) = eval_result_string (j_NewState j))"
proof -
  obtain st where st: "eval_result_string (j_NewState j) = Inr st"
    using eval_range[OF assms(2)] by (auto simp: eval_result_string_def eval_results)
  show ?thesis
    using assms(1) st mail_recipients_none mail_recipients_clean
    by (auto simp: handleStateChange_def Let_def)
qed

lemma handleStateChange_mails_witness:
  "\<exists>m. handleStateChange fresh_done = Inr m \<and> m \<noteq> None"
proof -
  have h: "a_HealthSettings fresh_done = Some wk" by code_simp
  have "eval_res (projr (down (graphite_query fresh_job wk))) wk = Inr (j_NewState fresh_done)"
    using down_critical[of "graphite_query fresh_job wk"] by (simp add: down_def fresh_done_def)
  from handleStateChange_mails[OF h this] obtain m where m: "handleStateChange fresh_done = Inr m"
    "m = None \<longleftrightarrow> \<not> n_Enabled (h_Notifications wk) \<or>
        (\<forall>c\<in>set (n_Addresses (h_Notifications wk)). is_space c \<or> c = CHR '','')" by blast
  have "n_Enabled (h_Notifications wk)" "\<not> (\<forall>c\<in>set (n_Addresses (h_Notifications wk)). is_space c \<or> c = CHR '','')"
    by code_simp+
  with m show ?thesis by blast
qed

section \<open>Sending a message\<close>

lemma sendMessage_least:
  assumes "accepts n" and "\<And>k. m \<le> k \<Longrightarrow> k < n \<Longrightarrow> \<not> accepts k" and "m \<le> n"
  shows "sendMessage accepts m = Some n"
  using assms(3,2)
proof (induction m rule: inc_induct)
  case base
  show ?case using assms(1) by (simp add: sendMessage.simps)
next
  case (step k)
  then show ?case by (simp add: sendMessage.simps[of accepts k])
qed

lemma sendMessage_accepted:
  "sendMessage accepts m = Some n \<Longrightarrow> accepts n"
  by (rule sendMessage.raw_induct[where P = "\<lambda>accepts m n. accepts n"]) (auto split: if_splits)

text \<open>
  Sending a message ends exactly when the broker accepts it at some attempt, at the first such
  attempt: no message is given up, and none is sent twice.
\<close>

theorem sendMessage_returns:
  "sendMessage accepts 0 = (if \<exists>n. accepts n then Some (LEAST n. accepts n) else None)"
proof (cases "\<exists>n. accepts n")
  case True
  then have "accepts (LEAST n. accepts n)" by (rule LeastI_ex)
  then have "sendMessage accepts 0 = Some (LEAST n. accepts n)"
    by (rule sendMessage_least) (use not_less_Least in auto)
  with True show ?thesis by simp
next
  case False
  then have "sendMessage accepts 0 = None"
    using sendMessage_accepted[of accepts 0] by (cases "sendMessage accepts 0") auto
  with False show ?thesis by simp
qed

end
