(* ===== verification/EventBus.thy ===== *)
theory EventBus
  imports Events Queues "HOL-Library.Multiset"
begin

text \<open>
  \<open>pkg/events/events.go\<close>: the registry of listeners, \<open>Publish\<close> and the dispatch of messages, in the
  mode without Kafka, where the publish channel is the one \<open>handleMessages\<close> reads.
\<close>

section \<open>Listeners\<close>

type_synonym 'ch listeners = "(string, 'ch list) gomap"

definition Handlers_Add :: "string \<Rightarrow> 'ch \<Rightarrow> 'ch listeners \<Rightarrow> 'ch listeners" where
  "Handlers_Add key ch h =
     (let h1 = (if map_of h key = None then AList.update key [] h else h)
      in AList.update key (the (map_of h1 key) @ [ch]) h1)"

definition GetListeners :: "'ch listeners \<Rightarrow> string \<Rightarrow> 'ch list" where
  "GetListeners h key = concat (map snd (filter (\<lambda>(rk, l). rk = ''*'' \<or> rk = key) h))"

section \<open>Publishing\<close>

record Message =
  msg_Id :: string
  msg_Payload :: "RawEvent"

text \<open>
  The message \<open>Publish\<close> puts on its channel. The payload is the JSON of the raw event, represented by
  the raw event itself: what the code reads back is what it wrote.
\<close>

definition publish_message :: "(time \<Rightarrow> string) \<Rightarrow> string \<Rightarrow> event \<Rightarrow> int \<Rightarrow> Message" where
  "publish_message ft hostname e attempts =
     \<lparr>msg_Id = event_Id e, msg_Payload = (NewRawEventFromEvent ft hostname e)\<lparr>re_Attempts := attempts + 1\<rparr>\<rparr>"

section \<open>The running bus\<close>

text \<open>
  \<open>bus_tasks\<close> are the goroutines of \<open>handleMessages\<close>: each has an event and the listeners it still has
  to send it to. \<open>bus_sent\<close> and \<open>bus_got\<close> record what has been published and what each channel has
  accepted, in order. \<open>Init\<close> makes the publish channel with 100 places.
\<close>

record 'ch bus =
  bus_pub :: "Message chan"
  bus_tasks :: "(RawEvent \<times> 'ch list) list"
  bus_box :: "'ch \<Rightarrow> RawEvent chan"
  bus_sent :: "Message list"
  bus_got :: "'ch \<Rightarrow> RawEvent list"

definition bus_start :: "nat \<Rightarrow> ('ch \<Rightarrow> nat) \<Rightarrow> 'ch bus" where
  "bus_start n cap =
     \<lparr>bus_pub = make_chan n, bus_tasks = [], bus_box = (\<lambda>ch. make_chan (cap ch)), bus_sent = [],
      bus_got = (\<lambda>ch. [])\<rparr>"

inductive bus_step :: "'ch listeners \<Rightarrow> 'ch bus \<Rightarrow> 'ch bus \<Rightarrow> bool" for h where
  publish: "chan_send (bus_pub b) m = Some c \<Longrightarrow>
     bus_step h b (b\<lparr>bus_pub := c, bus_sent := bus_sent b @ [m]\<rparr>)"
| take_message: "chan_recv (bus_pub b) = Some (m, c) \<Longrightarrow>
     bus_step h b (b\<lparr>bus_pub := c,
       bus_tasks := bus_tasks b @ [(msg_Payload m, GetListeners h (re_Type (msg_Payload m)))]\<rparr>)"
| deliver: "bus_tasks b = ts @ (e, ch # chs) # us \<Longrightarrow> chan_send (bus_box b ch) e = Some c \<Longrightarrow>
     bus_step h b (b\<lparr>bus_tasks := ts @ (e, chs) # us, bus_box := (bus_box b)(ch := c),
       bus_got := (bus_got b)(ch := bus_got b ch @ [e])\<rparr>)"
| finish: "bus_tasks b = ts @ (e, []) # us \<Longrightarrow> bus_step h b (b\<lparr>bus_tasks := ts @ us\<rparr>)"
| consume: "chan_recv (bus_box b ch) = Some (e, c) \<Longrightarrow>
     bus_step h b (b\<lparr>bus_box := (bus_box b)(ch := c)\<rparr>)"

inductive_cases bus_stepE: "bus_step h b b'"

section \<open>What the bus guarantees\<close>

text \<open>The events a channel is owed for a list of messages, with multiplicity.\<close>

definition owed :: "'ch listeners \<Rightarrow> 'ch \<Rightarrow> RawEvent \<Rightarrow> RawEvent multiset" where
  "owed h ch e = replicate_mset (count_list (GetListeners h (re_Type e)) ch) e"

definition pending :: "'ch \<Rightarrow> (RawEvent \<times> 'ch list) list \<Rightarrow> RawEvent multiset" where
  "pending ch ts = (\<Sum>(e, chs) \<leftarrow> ts. replicate_mset (count_list chs ch) e)"

definition bus_inv :: "nat \<Rightarrow> 'ch listeners \<Rightarrow> 'ch bus \<Rightarrow> bool" where
  "bus_inv n h b \<longleftrightarrow>
     length (ch_items (bus_pub b)) \<le> n \<and> ch_cap (bus_pub b) = n \<and>
     (\<forall>ch. mset (bus_got b ch) + pending ch (bus_tasks b) +
        (\<Sum>m \<leftarrow> ch_items (bus_pub b). owed h ch (msg_Payload m)) =
      (\<Sum>m \<leftarrow> bus_sent b. owed h ch (msg_Payload m)))"

lemma bus_start_inv: "bus_inv n h (bus_start n cap)"
  by (simp add: bus_inv_def bus_start_def make_chan_def pending_def)

lemma bus_step_inv:
  assumes "bus_step h b b'" and inv: "bus_inv n h b"
  shows "bus_inv n h b'"
  using assms(1)
proof cases
  case (publish m c)
  then show ?thesis using inv channel.send_iff[OF publish(2)]
    by (auto simp: bus_inv_def add.assoc[symmetric])
next
  case (take_message m c)
  from channel.recv_iff[OF take_message(2)] have c: "ch_items (bus_pub b) = m # ch_items c" "ch_cap c = ch_cap (bus_pub b)"
    by auto
  with take_message(1) inv show ?thesis
    by (auto simp: bus_inv_def pending_def owed_def ac_simps)
next
  case (deliver ts e ch chs us c)
  have "mset (bus_got b' x) + pending x (bus_tasks b') = mset (bus_got b x) + pending x (bus_tasks b)" for x
    using deliver(1,2) by (cases "x = ch") (simp_all add: pending_def)
  with deliver(1) inv show ?thesis by (simp add: bus_inv_def)
next
  case (finish ts e us)
  with inv show ?thesis by (auto simp: bus_inv_def pending_def)
next
  case (consume ch e c)
  with inv show ?thesis by (auto simp: bus_inv_def)
qed


definition sample_message :: Message where
  "sample_message =
     \<lparr>msg_Id = ''7'', msg_Payload = \<lparr>re_Id = ''7'', re_Type = ''Probe.updated'', re_Timestamp = 0,
        re_Body = JNull, re_Source = ''h'', re_Attempts = 1\<rparr>\<rparr>"

definition one_listener :: "nat listeners" where
  "one_listener = Handlers_Add ''*'' 3 []"


section \<open>Subscribing\<close>

lemma GetListeners_Add:
  assumes "gomap_ok h"
  shows "count_list (GetListeners (Handlers_Add key ch h) t) c =
     count_list (GetListeners h t) c + (if (key = ''*'' \<or> key = t) \<and> c = ch then 1 else 0)"
proof -
  have upd: "count_list (GetListeners (AList.update key (l @ [ch]) h) t) c =
      count_list (GetListeners h t) c + (if (key = ''*'' \<or> key = t) \<and> c = ch then 1 else 0)"
    if "gomap_ok h" "map_of h key = Some l" for h l
    using that
    by (induction h) (auto simp: GetListeners_def gomap_ok_def count_list_append split: if_splits)
  have new: "count_list (GetListeners (AList.update key [] h) t) c = count_list (GetListeners h t) c"
    if "map_of h key = None" for h
    using that by (induction h) (auto simp: GetListeners_def split: if_splits)
  show ?thesis
  proof (cases "map_of h key")
    case None
    then have "Handlers_Add key ch h = AList.update key ([] @ [ch]) (AList.update key [] h)"
      by (simp add: Handlers_Add_def update_conv')
    with upd[of "AList.update key [] h" "[]"] new[OF None] assms show ?thesis
      by (simp add: update_conv')
  next
    case (Some l)
    then have "Handlers_Add key ch h = AList.update key (l @ [ch]) h" by (simp add: Handlers_Add_def)
    with upd[OF assms Some] show ?thesis by simp
  qed
qed

end
