(* ===== verification/Monitors.thy ===== *)
theory Monitors
  imports ProbeStore CheckValidation Codec
begin

text \<open>
  \<open>pkg/models/monitor.go\<close> and \<open>pkg/models/v1Api.go\<close>: the monitors and settings of the version 1 API,
  which old probes are sent as well, their conversion from and to checks, and the table of monitor
  types the API publishes.
\<close>

section \<open>Monitors (monitor.go)\<close>

record MonitorSettingDTO =
  ms_Variable :: string
  ms_Value :: string

record MonitorDTO =
  m_Id :: int
  m_OrgId :: int
  m_EndpointId :: int
  m_EndpointSlug :: string
  m_MonitorTypeId :: int
  m_MonitorTypeName :: string
  m_CollectorIds :: "int list"
  m_CollectorTags :: "string list"
  m_Collectors :: "int list"
  m_State :: CheckEvalResult
  m_StateChange :: time
  m_StateCheck :: time
  m_Settings :: "MonitorSettingDTO list"
  m_HealthSettings :: "CheckHealthSettings option"
  m_Frequency :: int
  m_Enabled :: bool
  m_Offset :: int
  m_Updated :: time

definition MonitorTypeToCheckTypeMap :: "CheckType list" where
  "MonitorTypeToCheckTypeMap = [HTTP_CHECK, HTTPS_CHECK, PING_CHECK, DNS_CHECK]"

text \<open>The lookup of a missing key of a Go map is the zero value.\<close>

definition CheckTypeToMonitorTypeMap :: "CheckType \<Rightarrow> int" where
  "CheckTypeToMonitorTypeMap t =
     (if t = HTTP_CHECK then 1 else if t = HTTPS_CHECK then 2 else if t = PING_CHECK then 3
      else if t = DNS_CHECK then 4 else 0)"

text \<open>\<open>fmt.Sprintf("%v", v)\<close> of a setting.\<close>

fun fmt_v :: "floats \<Rightarrow> iface \<Rightarrow> string" where
  "fmt_v fl INil = ''<nil>''"
| "fmt_v fl (IBool b) = (if b then ''true'' else ''false'')"
| "fmt_v fl (IStr s) = s"
| "fmt_v fl (IFloat q) = fmtv fl q"
| "fmt_v fl (IInt i) = show_int i"
| "fmt_v fl (IInt64 i) = show_int i"
| "fmt_v fl (IList xs) = ''['' @ join '' '' (map (fmt_v fl) xs) @ '']''"
| "fmt_v fl (IObj kvs) = ''map['' @ join '' '' (map (\<lambda>(k, v). k @ '':'' @ fmt_v fl v) kvs) @ '']''"

definition monitor_settings :: "floats \<Rightarrow> settings \<Rightarrow> MonitorSettingDTO list" where
  "monitor_settings fl s = map (\<lambda>(k, v). \<lparr>ms_Variable = k, ms_Value = fmt_v fl v\<rparr>) s"

definition MonitorDTOFromCheck :: "floats \<Rightarrow> Check \<Rightarrow> string \<Rightarrow> MonitorDTO result" where
  "MonitorDTOFromCheck fl c slug =
     (let m = \<lparr>m_Id = c_Id c, m_OrgId = c_OrgId c, m_EndpointId = c_EndpointId c, m_EndpointSlug = slug,
               m_MonitorTypeId = CheckTypeToMonitorTypeMap (c_Type c), m_MonitorTypeName = c_Type c,
               m_CollectorIds = [], m_CollectorTags = [], m_Collectors = [], m_State = c_State c,
               m_StateChange = c_StateChange c, m_StateCheck = c_StateCheck c,
               m_Settings = monitor_settings fl (c_Settings c), m_HealthSettings = c_HealthSettings c,
               m_Frequency = c_Frequency c, m_Enabled = c_Enabled c, m_Offset = c_Offset c,
               m_Updated = c_Updated c\<rparr>
      in bind_res (route_of c) (\<lambda>r.
           if r_Type r = RouteByIds then bind_res (config_ids r) (\<lambda>ids. Inr (m\<lparr>m_CollectorIds := ids\<rparr>))
           else if r_Type r = RouteByTags then bind_res (config_tags r) (\<lambda>ts. Inr (m\<lparr>m_CollectorTags := ts\<rparr>))
           else Inr m))"

definition MonitorDTOFromCheckWithSlug :: "floats \<Rightarrow> CheckWithSlug \<Rightarrow> MonitorDTO result" where
  "MonitorDTOFromCheckWithSlug fl c = MonitorDTOFromCheck fl (cs_Check c) (cs_Slug c)"

record AddMonitorCommand =
  am_OrgId :: int
  am_EndpointId :: int
  am_MonitorTypeId :: int
  am_CollectorIds :: "int list"
  am_CollectorTags :: "string list"
  am_Settings :: "MonitorSettingDTO list"
  am_HealthSettings :: "CheckHealthSettings option"
  am_Frequency :: int
  am_Enabled :: bool

record UpdateMonitorCommand =
  um_Id :: int
  um_EndpointId :: int
  um_OrgId :: int
  um_MonitorTypeId :: int
  um_CollectorIds :: "int list"
  um_CollectorTags :: "string list"
  um_Settings :: "MonitorSettingDTO list"
  um_HealthSettings :: "CheckHealthSettings option"
  um_Frequency :: int
  um_Enabled :: bool

section \<open>Settings (v1Api.go)\<close>

text \<open>
  \<open>ToV2Setting\<close> drops the errors of the parsers: \<open>pf\<close> is the value \<open>strconv.ParseFloat\<close> returns,
  \<open>fst (parse_int64 v)\<close> the one of \<open>ParseInt\<close>; \<open>ParseBool\<close> returns false with its error.
\<close>

definition parse_bool_value :: "string \<Rightarrow> bool" where
  "parse_bool_value s = (case ParseBool s of Inl _ \<Rightarrow> False | Inr b \<Rightarrow> b)"

definition string_variables :: "CheckType \<Rightarrow> string list" where
  "string_variables t =
     (if t = HTTP_CHECK \<or> t = HTTPS_CHECK then [''host'', ''path'', ''method'', ''headers'', ''expectRegex'']
      else if t = PING_CHECK then [''hostname'']
      else if t = DNS_CHECK then [''name'', ''type'', ''server'', ''protocol'']
      else [])"

definition v2_value :: "(string \<Rightarrow> rat) \<Rightarrow> CheckType \<Rightarrow> string \<Rightarrow> string \<Rightarrow> iface option" where
  "v2_value pf t var v =
     (if var \<in> set (string_variables t) then Some (IStr v)
      else if var = ''port'' \<and> t \<in> set [HTTP_CHECK, HTTPS_CHECK, DNS_CHECK]
        then Some (IInt64 (fst (parse_int64 v)))
      else if var = ''validateCert'' \<and> t = HTTPS_CHECK then Some (IBool (parse_bool_value v))
      else if var = ''timeout'' \<and> t \<in> set [HTTP_CHECK, HTTPS_CHECK, PING_CHECK, DNS_CHECK]
        then Some (IFloat (pf v))
      else None)"

definition add_v2_setting :: "(string \<Rightarrow> rat) \<Rightarrow> CheckType \<Rightarrow> MonitorSettingDTO \<Rightarrow> settings \<Rightarrow> settings" where
  "add_v2_setting pf t ms s =
     (case v2_value pf t (ms_Variable ms) (ms_Value ms) of
        None \<Rightarrow> s
      | Some v \<Rightarrow> AList.update (ms_Variable ms) v s)"

definition ToV2Setting :: "(string \<Rightarrow> rat) \<Rightarrow> MonitorSettingDTO list \<Rightarrow> CheckType \<Rightarrow> settings" where
  "ToV2Setting pf mss t = fold (add_v2_setting pf t) mss []"

section \<open>The published types (MonitorTypes)\<close>

record MonitorTypeSettingDTO =
  mts_Variable :: string
  mts_Description :: string
  mts_Required :: bool
  mts_DataType :: string
  mts_Conditions :: "(string \<times> string list) list"
  mts_DefaultValue :: string

record MonitorTypeDTO =
  mt_Id :: int
  mt_Name :: string
  mt_Settings :: "MonitorTypeSettingDTO list"

definition type_setting ::
  "string \<Rightarrow> string \<Rightarrow> bool \<Rightarrow> string \<Rightarrow> (string \<times> string list) list \<Rightarrow> string \<Rightarrow> MonitorTypeSettingDTO" where
  "type_setting var desc req dt cond dflt =
     \<lparr>mts_Variable = var, mts_Description = desc, mts_Required = req, mts_DataType = dt,
      mts_Conditions = cond, mts_DefaultValue = dflt\<rparr>"

definition http_monitor_type :: MonitorTypeDTO where
  "http_monitor_type =
    \<lparr>mt_Id = 1, mt_Name = ''HTTP'', mt_Settings = [
      type_setting ''host'' ''Hostname'' True ''String'' [] '''',
      type_setting ''path'' ''Path'' True ''String'' [] ''/'',
      type_setting ''port'' ''Port'' False ''Number'' [] ''80'',
      type_setting ''method'' ''Method'' False ''Enum'' [(''values'', [''GET'', ''POST'', ''PUT'', ''DELETE'', ''HEAD''])] ''GET'',
      type_setting ''headers'' ''Headers'' False ''Text'' [] (''Accept-Encoding: gzip'' @ [CHR 0x0A] @ ''User-Agent: raintank collector'' @ [CHR 0x0A]),
      type_setting ''expectRegex'' ''Content Match'' False ''String'' [] '''',
      type_setting ''timeout'' ''Timeout'' True ''Number'' [] ''5'']\<rparr>"

definition https_monitor_type :: MonitorTypeDTO where
  "https_monitor_type =
    \<lparr>mt_Id = 2, mt_Name = ''HTTPS'', mt_Settings = [
      type_setting ''host'' ''Hostname'' True ''String'' [] '''',
      type_setting ''path'' ''Path'' True ''String'' [] ''/'',
      type_setting ''port'' ''Port'' False ''Number'' [] ''443'',
      type_setting ''method'' ''Method'' False ''Enum'' [(''values'', [''GET'', ''POST'', ''PUT'', ''DELETE'', ''HEAD''])] ''GET'',
      type_setting ''headers'' ''Headers'' False ''Text'' [] (''Accept-Encoding: gzip'' @ [CHR 0x0A] @ ''User-Agent: raintank collector'' @ [CHR 0x0A]),
      type_setting ''expectRegex'' ''Content Match'' False ''String'' [] '''',
      type_setting ''validateCert'' ''Validate SSL Certificate'' False ''Boolean'' [] ''true'',
      type_setting ''timeout'' ''Timeout'' True ''Number'' [] ''5'']\<rparr>"

definition ping_monitor_type :: MonitorTypeDTO where
  "ping_monitor_type =
    \<lparr>mt_Id = 3, mt_Name = ''Ping'', mt_Settings = [
      type_setting ''hostname'' ''Hostname'' True ''String'' [] '''',
      type_setting ''timeout'' ''Timeout'' True ''Number'' [] ''5'']\<rparr>"

definition dns_monitor_type :: MonitorTypeDTO where
  "dns_monitor_type =
    \<lparr>mt_Id = 4, mt_Name = ''DNS'', mt_Settings = [
      type_setting ''name'' ''Record Name'' True ''String'' [] '''',
      type_setting ''type'' ''Record Type'' True ''Enum'' [(''values'', [''A'', ''AAAA'', ''CNAME'', ''MX'', ''NS'', ''PTR'', ''SOA'', ''SRV'', ''TXT''])] ''A'',
      type_setting ''server'' ''Server'' True ''String'' [] '''',
      type_setting ''port'' ''Port'' False ''Number'' [] ''53'',
      type_setting ''protocol'' ''Protocol'' False ''Enum'' [(''values'', [''tcp'', ''udp''])] ''udp'',
      type_setting ''timeout'' ''Timeout'' True ''Number'' [] ''5'']\<rparr>"

definition MonitorTypes :: "MonitorTypeDTO list" where
  "MonitorTypes = [http_monitor_type, https_monitor_type, ping_monitor_type, dns_monitor_type]"

section \<open>Properties\<close>

text \<open>
  The text a probe or a client of version 1 gets for a stored setting, read back: what \<open>%v\<close> writes
  for a \<open>float64\<close> of the settings is read back exactly, and whole numbers are written without a point.
\<close>

definition formats_back :: "floats \<Rightarrow> (string \<Rightarrow> rat) \<Rightarrow> settings \<Rightarrow> bool" where
  "formats_back fl pf s \<longleftrightarrow>
     (\<forall>var q. (var, IFloat q) \<in> set s \<longrightarrow> pf (fmtv fl q) = q) \<and>
     (\<forall>i. 0 \<le> i \<and> i \<le> 65535 \<longrightarrow> fmtv fl (of_int i) = show_int i)"

text \<open>The type a stored setting has, after validation and the trip through the JSON column.\<close>

definition stored_value :: "CheckType \<Rightarrow> string \<Rightarrow> iface \<Rightarrow> bool" where
  "stored_value t var v \<longleftrightarrow>
     (if var \<in> set (string_variables t) then \<exists>s. v = IStr s
      else if var = ''port'' then \<exists>i. v = IFloat (of_int i) \<and> 0 \<le> i \<and> i \<le> 65535
      else if var = ''validateCert'' then \<exists>b. v = IBool b
      else if var = ''timeout'' then \<exists>q. v = IFloat q
      else True)"

definition v1_variables :: "CheckType \<Rightarrow> string list" where
  "v1_variables t =
     string_variables t @ (if t \<in> set [HTTP_CHECK, HTTPS_CHECK, DNS_CHECK] then [''port''] else []) @
     (if t = HTTPS_CHECK then [''validateCert''] else []) @
     (if t \<in> set [HTTP_CHECK, HTTPS_CHECK, PING_CHECK, DNS_CHECK] then [''timeout''] else [])"

lemma v2_value_kept: "v2_value pf t var v \<noteq> None \<longleftrightarrow> var \<in> set (v1_variables t)"
  by (auto simp: v2_value_def v1_variables_def)

lemma map_of_ToV2Setting_gen:
  assumes "distinct (map ms_Variable mss)"
  shows "map_of (fold (add_v2_setting pf t) mss s) k =
     (case map_of (map (\<lambda>m. (ms_Variable m, ms_Value m)) mss) k of
        None \<Rightarrow> map_of s k
      | Some v \<Rightarrow> (case v2_value pf t k v of None \<Rightarrow> map_of s k | Some x \<Rightarrow> Some x))"
  using assms
proof (induction mss arbitrary: s)
  case (Cons m mss)
  have "map_of (map (\<lambda>m. (ms_Variable m, ms_Value m)) mss) (ms_Variable m) = None"
    using Cons.prems by (force simp: map_of_eq_None_iff)
  with Cons show ?case
    by (auto simp: add_v2_setting_def update_conv' split: option.splits)
qed simp

lemma map_of_monitor_settings:
  "map_of (map (\<lambda>m. (ms_Variable m, ms_Value m)) (monitor_settings fl s)) k = map_option (fmt_v fl) (map_of s k)"
  by (induction s) (auto simp: monitor_settings_def)

lemma read_back:
  assumes "formats_back fl pf s" and "(var, v) \<in> set s" and "stored_value t var v" and "v2_value pf t var (fmt_v fl v) = Some x"
    and "\<And>i. f i = of_int i"
  shows "column_value f x = v"
proof -
  have "parse_int64 (show_int i) = (i, None)" if "0 \<le> i" "i \<le> 65535" for i
    using that by (simp add: parse_show_int min_int64_def max_int64_def)
  with assms show ?thesis
    by (auto simp: formats_back_def stored_value_def v2_value_def parse_bool_value_def ParseBool_def
        split: if_splits)
qed


definition whole_floats :: floats where
  "whole_floats = \<lparr>f2i = (\<lambda>q. \<lfloor>q\<rfloor>), fmt2 = (\<lambda>q. []), fmtv = (\<lambda>q. show_int \<lfloor>q\<rfloor>)\<rparr>"

definition whole_value :: "string \<Rightarrow> rat" where
  "whole_value s = of_int (fst (parse_int64 s))"

definition http_settings :: settings where
  "http_settings = [(''host'', IStr ''a.io''), (''path'', IStr ''/''), (''port'', IFloat 80),
     (''timeout'', IFloat 5), (''body'', IStr ''x'')]"


text \<open>
  The table of monitor types, the conversion and the validators agree: the types are numbered as
  the code converts them, each type offers exactly the variables the conversion keeps, the variables
  the validator requires are marked required, and the record types offered are those it accepts.
\<close>

theorem MonitorTypes_agree:
  "list_all (\<lambda>mt.
      (case go_index MonitorTypeToCheckTypeMap (mt_Id mt - 1) of
         Inl e \<Rightarrow> False
       | Inr t \<Rightarrow>
           CheckTypeToMonitorTypeMap t = mt_Id mt \<and> to_lower (mt_Name mt) = t \<and>
           list_all (\<lambda>v. v \<in> set (map mts_Variable (mt_Settings mt))) (v1_variables t) \<and>
           list_all (\<lambda>st. mts_Variable st \<in> set (v1_variables t)) (mt_Settings mt) \<and>
           list_all (\<lambda>(f, _). f \<in> set (map mts_Variable (filter mts_Required (mt_Settings mt))))
             (if t = PING_CHECK then ping_required else if t = DNS_CHECK then dns_required else http_required)))
     MonitorTypes \<and>
   map mt_Id MonitorTypes = [1, 2, 3, 4] \<and>
   (let dns = last MonitorTypes; ty = hd (filter (\<lambda>st. mts_Variable st = ''type'') (mt_Settings dns))
    in map_of (mts_Conditions ty) ''values'' = Some validRecordTypes)"
  by code_simp

end
