(* ===== verification/Api.thy ===== *)
theory Api
  imports QuotaStore Monitors ProbeStore
begin

text \<open>
  The HTTP API: \<open>pkg/middleware\<close> (who is asking), \<open>pkg/api/rbody\<close> and \<open>handleError\<close> (what is
  answered), the handlers of version 2 and version 1, and the routing table of \<open>api.go\<close>, which says
  for every request the chain of handlers it passes. The request bodies are those the binding library
  has decoded.
\<close>

section \<open>Answers (rbody.go, handleError)\<close>

record ProbeLocationDTO =
  pl_Key :: string
  pl_Latitude :: rat
  pl_Longitude :: rat
  pl_Name :: string

record BillingUsage =
  bu_OrgId :: int
  bu_ChecksPerMinute :: rat

record SuggestedMonitor =
  sm_MonitorTypeId :: int
  sm_Settings :: "MonitorSettingDTO list"

datatype body =
    BNull
  | BText string
  | BEndpoint EndpointDTO
  | BEndpoints "EndpointDTO list"
  | BProbe ProbeDTO
  | BProbes "ProbeDTO list"
  | BLocations "ProbeLocationDTO list"
  | BMonitor MonitorDTO
  | BMonitors "MonitorDTO list"
  | BMonitorTypes "MonitorTypeDTO list"
  | BSuggested "SuggestedMonitor list"
  | BQuota OrgQuotaDTO
  | BQuotas "OrgQuotaDTO list"
  | BUsage Usage
  | BBilling "BillingUsage list"
  | BApiKey string
  | BError go_error
  | BDisabled "(string, string list) gomap"

record ApiResponse =
  ar_Code :: int
  ar_Message :: string
  ar_Type :: string
  ar_Body :: body

text \<open>What a handler writes: \<open>c.JSON(status, body)\<close>, or a version 2 response under status 200.\<close>

datatype reply =
    JSON int body
  | Wrapped ApiResponse

definition OkResp :: "string \<Rightarrow> body \<Rightarrow> ApiResponse" where
  "OkResp t b = \<lparr>ar_Code = 200, ar_Message = ''success'', ar_Type = t, ar_Body = b\<rparr>"

definition ErrResp :: "go_error \<Rightarrow> ApiResponse" where
  "ErrResp e =
     (case app_code e of
        None \<Rightarrow> \<lparr>ar_Code = 500, ar_Message = error_string e, ar_Type = ''error'', ar_Body = BNull\<rparr>
      | Some code \<Rightarrow> \<lparr>ar_Code = code, ar_Message = app_message e, ar_Type = ''error'', ar_Body = BNull\<rparr>)"

definition handleError :: "go_error \<Rightarrow> reply" where
  "handleError e =
     (case app_code e of
        None \<Rightarrow> JSON 500 (BText (''Fatal error. '' @ error_string e))
      | Some code \<Rightarrow> JSON code (BText (app_message e)))"

text \<open>Version 2 returns the response of an error, version 1 writes it.\<close>

definition respond :: "string \<Rightarrow> ('a \<Rightarrow> body) \<Rightarrow> 'a op \<Rightarrow> reply op" where
  "respond t f m = bindS (tryS m) (\<lambda>r. returnS (Wrapped (case r of
     Inl e \<Rightarrow> ErrResp e
   | Inr x \<Rightarrow> OkResp t (f x))))"

definition v1_respond :: "reply op \<Rightarrow> reply op" where
  "v1_respond m = bindS (tryS m) (\<lambda>r. returnS (case r of
     Inl e \<Rightarrow> handleError e
   | Inr x \<Rightarrow> x))"

definition ok :: "body \<Rightarrow> reply op" where
  "ok b = returnS (JSON 200 b)"

definition bad_request :: "string \<Rightarrow> reply op" where
  "bad_request s = returnS (JSON 400 (BText s))"

definition invalid :: "string \<Rightarrow> 'a op" where
  "invalid s = failS (Error (ValidationError s))"

section \<open>Who is asking (middleware.go)\<close>

record user =
  us_ID :: int
  us_IsAdmin :: bool
  us_Role :: string

record ctx =
  x_User :: user
  x_ApiKey :: string

text \<open>
  The server's parameters: settings, the authentication plugin and its constants, base64, the text and
  the parsing of numbers, the order of map walks, and the discovery of an endpoint.
\<close>

record server =
  sv_quota :: QuotaSettings
  sv_auth :: "string \<Rightarrow> go_error + user"
  sv_invalid :: go_error
  sv_editor :: string
  sv_admin :: string
  sv_base64 :: "string \<Rightarrow> go_error + string"
  sv_floats :: floats
  sv_order :: order
  sv_parse_float :: "string \<Rightarrow> rat"
  sv_discover :: "string \<Rightarrow> EndpointDTO result"

definition getApiKey :: "server \<Rightarrow> string \<Rightarrow> (go_error + string) result" where
  "getApiKey sv header =
     (case split2 (CHR '' '') header of
        [scheme, cred] \<Rightarrow>
          if scheme = ''Bearer'' then Inr (Inr cred)
          else if scheme = ''Basic'' then
            (case sv_base64 sv cred of
               Inl e \<Rightarrow> Inr (Inl e)
             | Inr decoded \<Rightarrow>
                 let userAndPass = split2 (CHR '':'') decoded
                 in bind_res (go_index userAndPass 0) (\<lambda>u.
                      if u = ''api_key'' then bind_res (go_index userAndPass 1) (\<lambda>p. Inr (Inr p))
                      else Inr (Inr [])))
          else Inr (Inr [])
      | _ \<Rightarrow> Inr (Inr []))"

record http_head =
  hh_Authorization :: string
  hh_Org :: string

text \<open>An admin may name another organisation.\<close>

definition impersonate :: "string \<Rightarrow> user \<Rightarrow> user" where
  "impersonate header u =
     (if us_IsAdmin u \<and> header \<noteq> [] then
        (case parse_int64 header of
           (org, None) \<Rightarrow> if org \<noteq> 0 then u\<lparr>us_ID := org\<rparr> else u
         | (_, Some e) \<Rightarrow> u)
      else u)"

definition Auth :: "server \<Rightarrow> http_head \<Rightarrow> (reply + ctx) result" where
  "Auth sv h =
     bind_res (getApiKey sv (hh_Authorization h)) (\<lambda>r. Inr (case r of
       Inl e \<Rightarrow> Inl (JSON 401 (BText ''Invalid Authentication header.''))
     | Inr key \<Rightarrow>
         if key = [] then Inl (JSON 401 (BText ''Unauthorized''))
         else (case sv_auth sv key of
             Inl e \<Rightarrow> if e = sv_invalid sv then Inl (JSON 401 (BText ''Unauthorized''))
                      else Inl (JSON 500 (BError e))
           | Inr u \<Rightarrow> Inr \<lparr>x_User = impersonate (hh_Org h) u, x_ApiKey = key\<rparr>)))"

text \<open>A handler of a chain: it answers, which ends the chain, or lets the request pass.\<close>

type_synonym handler = "ctx \<Rightarrow> reply option op"

definition RequireAdmin :: handler where
  "RequireAdmin x = returnS (if us_IsAdmin (x_User x) then None else Some (JSON 403 (BText ''Permission denied'')))"

definition RoleAuth :: "string list \<Rightarrow> handler" where
  "RoleAuth roles x =
     returnS (if us_Role (x_User x) \<in> set roles then None else Some (JSON 403 (BText ''Permission denied'')))"

definition quota :: "server \<Rightarrow> string \<Rightarrow> handler" where
  "quota sv target x =
     bindS (Quota_handler (sv_quota sv) (us_ID (x_User x)) target) (\<lambda>r.
       returnS (map_option (\<lambda>(status, text). JSON status (BText text)) r))"

definition final :: "(ctx \<Rightarrow> reply op) \<Rightarrow> handler" where
  "final f x = bindS (f x) (\<lambda>r. returnS (Some r))"

abbreviation org_of :: "ctx \<Rightarrow> int" where
  "org_of x \<equiv> us_ID (x_User x)"

section \<open>Version 2: endpoints (v2_endpoint.go)\<close>

definition V2_GetEndpoints :: "GetEndpointsQuery \<Rightarrow> ctx \<Rightarrow> reply op" where
  "V2_GetEndpoints q x = respond ''endpoints'' BEndpoints (GetEndpoints (q\<lparr>qe_OrgId := org_of x\<rparr>))"

definition V2_GetEndpointById :: "int \<Rightarrow> ctx \<Rightarrow> reply op" where
  "V2_GetEndpointById i x = respond ''endpoint'' BEndpoint (GetEndpointById (org_of x) i)"

definition V2_DeleteEndpoint :: "int \<Rightarrow> ctx \<Rightarrow> reply op" where
  "V2_DeleteEndpoint i x = respond ''endpoint'' (\<lambda>_. BNull) (DeleteEndpoint (org_of x) i)"

definition request_quotas :: "server \<Rightarrow> int \<Rightarrow> OrgQuotaDTO list op" where
  "request_quotas sv org = bindS (tryS (GetOrgQuotas (sv_quota sv) org)) (\<lambda>r. case r of
     Inl e \<Rightarrow> invalid ''Error checking quota''
   | Inr qs \<Rightarrow> returnS qs)"

text \<open>
  The loop copies each check, so only what the copy shares with the request stays: the settings map and
  the route.
\<close>

definition validate_new_check :: "server \<Rightarrow> int \<Rightarrow> OrgQuotaDTO list \<Rightarrow> Check \<Rightarrow> Check op" where
  "validate_new_check sv org quotas c =
     (if \<not> c_Enabled c then returnS c
      else bindS (liftS (Check_Validate (sv_floats sv) (sv_order sv) quotas (c\<lparr>c_OrgId := org\<rparr>))) (\<lambda>s.
           bindS (ValidateCheckRoute (c\<lparr>c_OrgId := org, c_Settings := s\<rparr>)) (\<lambda>c'.
             returnS (c\<lparr>c_Settings := s, c_Route := c_Route c'\<rparr>))))"

definition V2_AddEndpoint :: "server \<Rightarrow> EndpointDTO \<Rightarrow> ctx \<Rightarrow> reply op" where
  "V2_AddEndpoint sv e x = respond ''endpoint'' BEndpoint
     (if ed_Name e = [] then invalid ''Endpoint name not set.''
      else bindS (request_quotas sv (org_of x)) (\<lambda>quotas.
           bindS (map_each (validate_new_check sv (org_of x) quotas) (ed_Checks e)) (\<lambda>checks.
             AddEndpoint (e\<lparr>ed_OrgId := org_of x, ed_Checks := checks\<rparr>))))"

definition validate_changed_check :: "server \<Rightarrow> OrgQuotaDTO list \<Rightarrow> Check \<Rightarrow> Check op" where
  "validate_changed_check sv quotas c =
     (if \<not> c_Enabled c then returnS c
      else bindS (liftS (Check_Validate (sv_floats sv) (sv_order sv) quotas c)) (\<lambda>s.
             returnS (c\<lparr>c_Settings := s\<rparr>)))"

definition V2_UpdateEndpoint :: "server \<Rightarrow> EndpointDTO \<Rightarrow> ctx \<Rightarrow> reply op" where
  "V2_UpdateEndpoint sv e x = respond ''endpoint'' BEndpoint
     (if ed_Name e = [] then invalid ''Endpoint name not set.''
      else if ed_Id e = 0 then invalid ''Endpoint id not set.''
      else bindS (request_quotas sv (org_of x)) (\<lambda>quotas.
           bindS (map_each (validate_changed_check sv quotas) (ed_Checks e)) (\<lambda>checks.
             UpdateEndpoint (e\<lparr>ed_OrgId := org_of x, ed_Checks := checks\<rparr>))))"

definition V2_DiscoverEndpoint :: "server \<Rightarrow> string \<Rightarrow> ctx \<Rightarrow> reply op" where
  "V2_DiscoverEndpoint sv name x = respond ''endpoint'' BEndpoint (liftS (sv_discover sv name))"

definition disable_checks :: "EndpointDTO \<Rightarrow> EndpointDTO" where
  "disable_checks e = e\<lparr>ed_Checks := map (\<lambda>c. c\<lparr>c_Enabled := False\<rparr>) (ed_Checks e)\<rparr>"

definition note_disabled :: "EndpointDTO \<Rightarrow> (string, string list) gomap \<Rightarrow> (string, string list) gomap" where
  "note_disabled e m = fold (\<lambda>c m. AList.update (ed_Slug e)
       ((case map_of m (ed_Slug e) of None \<Rightarrow> [] | Some l \<Rightarrow> l) @ [c_Type c]) m)
     (filter c_Enabled (ed_Checks e)) m"

definition V2_DisableEndpoints :: "ctx \<Rightarrow> reply op" where
  "V2_DisableEndpoints x = respond ''disabledChecks'' BDisabled
     (bindS (GetEndpoints \<lparr>qe_OrgId = org_of x, qe_Name = [], qe_Tag = [], qe_OrderBy = []\<rparr>) (\<lambda>es.
      bindS (map_each (\<lambda>e. UpdateEndpoint (disable_checks e)) es) (\<lambda>_.
        returnS (fold note_disabled es []))))"

section \<open>Version 2: probes (v2_probe.go)\<close>

definition V2_GetProbes :: "GetProbesQuery \<Rightarrow> ctx \<Rightarrow> reply op" where
  "V2_GetProbes q x = respond ''probes'' BProbes (GetProbes (q\<lparr>gp_OrgId := org_of x\<rparr>))"

definition V2_GetProbeById :: "int \<Rightarrow> ctx \<Rightarrow> reply op" where
  "V2_GetProbeById i x = respond ''probe'' BProbe (GetProbeById i (org_of x))"

definition V2_DeleteProbe :: "int \<Rightarrow> ctx \<Rightarrow> reply op" where
  "V2_DeleteProbe i x = respond ''probe'' (\<lambda>_. BNull) (DeleteProbe i (org_of x))"

definition V2_AddProbe :: "ProbeDTO \<Rightarrow> ctx \<Rightarrow> reply op" where
  "V2_AddProbe p x = respond ''probe'' BProbe
     (if pd_Id p \<noteq> 0 then invalid ''Id already set. Try update instead of create.''
      else if pd_Name p = [] then invalid ''Probe name not set.''
      else if pd_Public p \<and> \<not> us_IsAdmin (x_User x) then invalid ''Only admins can make public probes.''
      else AddProbe (p\<lparr>pd_OrgId := org_of x\<rparr>))"

definition V2_UpdateProbe :: "ProbeDTO \<Rightarrow> ctx \<Rightarrow> reply op" where
  "V2_UpdateProbe p x = respond ''probe'' BProbe
     (if pd_Name p = [] then invalid ''Probe name not set.''
      else UpdateProbe (p\<lparr>pd_OrgId := org_of x\<rparr>))"

section \<open>Quotas and administration (quota.go, admin.go)\<close>

definition unlimited :: "int \<Rightarrow> string \<Rightarrow> int \<Rightarrow> OrgQuotaDTO" where
  "unlimited org target used = \<lparr>oq_OrgId = org, oq_Target = target, oq_Limit = -1, oq_Used = used\<rparr>"

definition V1GetOrgQuotas :: "server \<Rightarrow> ctx \<Rightarrow> reply op" where
  "V1GetOrgQuotas sv x = v1_respond
     (bindS (if qset_Enabled (sv_quota sv) then GetOrgQuotas (sv_quota sv) (org_of x)
             else returnS [unlimited (org_of x) ''endpoint'' (-10), unlimited (org_of x) ''probe'' (-10),
                           unlimited (org_of x) ''downloadLimit'' (-1)])
        (\<lambda>qs. ok (BQuotas qs)))"

definition V2_GetQuotas :: "server \<Rightarrow> ctx \<Rightarrow> reply op" where
  "V2_GetQuotas sv x = respond ''quotas'' BQuotas
     (if qset_Enabled (sv_quota sv) then GetOrgQuotas (sv_quota sv) (org_of x)
      else returnS [unlimited (org_of x) ''endpoint'' (-1), unlimited (org_of x) ''probe'' (-1),
                    unlimited (org_of x) ''downloadLimit'' (-1)])"

definition V2_GetOrgQuotas :: "server \<Rightarrow> int \<Rightarrow> ctx \<Rightarrow> reply op" where
  "V2_GetOrgQuotas sv org x = respond ''quotas'' BQuotas
     (if qset_Enabled (sv_quota sv) then GetOrgQuotas (sv_quota sv) org
      else returnS [unlimited org ''endpoint'' (-1), unlimited org ''probe'' (-1),
                    unlimited (org_of x) ''downloadLimit'' (-1)])"

definition V2_UpdateOrgQuota :: "server \<Rightarrow> int \<Rightarrow> string \<Rightarrow> int \<Rightarrow> ctx \<Rightarrow> reply op" where
  "V2_UpdateOrgQuota sv org target limit x = respond ''quota'' BQuota
     (if map_of (OrgQuota_ToMap (qset_Org (sv_quota sv))) target = None
      then failS (Error (NotFoundError ''quota target not found''))
      else let q = \<lparr>oq_OrgId = org, oq_Target = target, oq_Limit = limit, oq_Used = 0\<rparr>
           in thenS (UpdateOrgQuota q) (returnS q))"

definition V2_GetUsage :: "ctx \<Rightarrow> reply op" where
  "V2_GetUsage x = respond ''usage'' BUsage GetUsage"

text \<open>
  The rates are exact where Go's \<open>float64\<close> rounds; a frequency of 0 makes the sum infinite, which
  \<open>json.Marshal\<close> refuses.
\<close>

definition add_rate :: "Check \<Rightarrow> (int, rat) gomap \<Rightarrow> (int, rat) gomap" where
  "add_rate c m =
     AList.update (c_OrgId c) ((case map_of m (c_OrgId c) of None \<Rightarrow> 0 | Some r \<Rightarrow> r) + 60 / of_int (c_Frequency c)) m"

definition probe_of_id :: "int \<Rightarrow> ProbeDTO" where
  "probe_of_id i =
     \<lparr>pd_Id = i, pd_OrgId = 0, pd_Slug = [], pd_Name = [], pd_Tags = [], pd_Public = False, pd_Latitude = 0,
      pd_Longitude = 0, pd_Online = False, pd_OnlineChange = zero_time, pd_Enabled = False,
      pd_EnabledChange = zero_time, pd_Created = zero_time, pd_Updated = zero_time, pd_RemoteIp = []\<rparr>"

definition V2_GetBilling :: "ctx \<Rightarrow> reply op" where
  "V2_GetBilling x = respond ''billing'' BBilling
     (bindS GetOnlineProbes (\<lambda>probes.
      bindS (map_each (\<lambda>p. GetProbeChecks (probe_of_id (p_Id p))) probes) (\<lambda>css.
        if \<exists>c\<in>set (concat css). c_Frequency c = 0
        then failS (Error (OtherError ''json: unsupported value: +Inf''))
        else returnS (map (\<lambda>(org, r). \<lparr>bu_OrgId = org, bu_ChecksPerMinute = r\<rparr>) (fold add_rate (concat css) [])))))"

definition V2_GetApiKey :: "ctx \<Rightarrow> reply op" where
  "V2_GetApiKey x = respond ''apiKey'' BApiKey (returnS (x_ApiKey x))"

section \<open>Version 1: endpoints (endpoint.go)\<close>

definition V1GetEndpointById :: "int \<Rightarrow> ctx \<Rightarrow> reply op" where
  "V1GetEndpointById i x = v1_respond (bindS (GetEndpointById (org_of x) i) (\<lambda>e. ok (BEndpoint e)))"

definition V1GetEndpoints :: "GetEndpointsQuery \<Rightarrow> ctx \<Rightarrow> reply op" where
  "V1GetEndpoints q x = v1_respond (bindS (GetEndpoints (q\<lparr>qe_OrgId := org_of x\<rparr>)) (\<lambda>es. ok (BEndpoints es)))"

definition V1DeleteEndpoint :: "int \<Rightarrow> ctx \<Rightarrow> reply op" where
  "V1DeleteEndpoint i x = v1_respond (thenS (DeleteEndpoint (org_of x) i) (ok (BText ''endpoint deleted'')))"

text \<open>The commands; a monitor of a request may be null.\<close>

record AddEndpointCommand =
  ae_Name :: string
  ae_Tags :: "string list"
  ae_Monitors :: "AddMonitorCommand option list"

record UpdateEndpointCommand =
  ue_Id :: int
  ue_Name :: string
  ue_Tags :: "string list"

definition check_type_of :: "int \<Rightarrow> CheckType result" where
  "check_type_of typeId = go_index MonitorTypeToCheckTypeMap (typeId - 1)"

definition collector_route :: "string list \<Rightarrow> int list \<Rightarrow> CheckRoute" where
  "collector_route tags ids =
     (if tags \<noteq> [] then \<lparr>r_Type = RouteByTags, r_Config = [(''tags'', CStrings tags)]\<rparr>
      else \<lparr>r_Type = RouteByIds, r_Config = [(''ids'', CInts ids)]\<rparr>)"

definition monitor_check :: "server \<Rightarrow> int \<Rightarrow> int \<Rightarrow> time \<Rightarrow> AddMonitorCommand \<Rightarrow> CheckType \<Rightarrow> Check" where
  "monitor_check sv org eid t mon ty =
     \<lparr>c_Id = 0, c_OrgId = org, c_EndpointId = eid,
      c_Route = Some (collector_route (am_CollectorTags mon) (am_CollectorIds mon)), c_Type = ty,
      c_Frequency = am_Frequency mon, c_Offset = 0, c_Enabled = am_Enabled mon, c_State = 0,
      c_StateChange = zero_time, c_StateCheck = zero_time,
      c_Settings = ToV2Setting (sv_parse_float sv) (am_Settings mon) ty,
      c_HealthSettings = am_HealthSettings mon, c_Created = t, c_Updated = t\<rparr>"

definition check_of_monitor :: "server \<Rightarrow> int \<Rightarrow> AddMonitorCommand option \<Rightarrow> Check op" where
  "check_of_monitor sv org m =
     (case m of
        None \<Rightarrow> failS (Panic ''nil pointer dereference'')
      | Some mon \<Rightarrow> bindS (liftS (check_type_of (am_MonitorTypeId mon))) (\<lambda>ty.
          ValidateCheckRoute (monitor_check sv org 0 zero_time mon ty)))"

definition V1AddEndpoint :: "server \<Rightarrow> AddEndpointCommand \<Rightarrow> ctx \<Rightarrow> reply op" where
  "V1AddEndpoint sv cmd x = v1_respond
     (if ae_Name cmd = [] then bad_request ''Endpoint name not set.''
      else bindS (map_each (check_of_monitor sv (org_of x)) (ae_Monitors cmd)) (\<lambda>checks.
           bindS time_Now (\<lambda>t1. bindS time_Now (\<lambda>t2.
           bindS (AddEndpoint \<lparr>ed_Id = 0, ed_OrgId = org_of x, ed_Name = ae_Name cmd, ed_Slug = [],
               ed_Checks = checks, ed_Tags = ae_Tags cmd, ed_Created = t1, ed_Updated = t2\<rparr>)
             (\<lambda>e. ok (BEndpoint e))))))"

definition V1UpdateEndpoint :: "UpdateEndpointCommand \<Rightarrow> ctx \<Rightarrow> reply op" where
  "V1UpdateEndpoint cmd x = v1_respond
     (if ue_Name cmd = [] then bad_request ''Endpoint name not set.''
      else bindS (GetEndpointById (org_of x) (ue_Id cmd)) (\<lambda>e.
           thenS (UpdateEndpoint (e\<lparr>ed_Name := ue_Name cmd, ed_Tags := ue_Tags cmd\<rparr>))
             (ok (BText ''Endpoint updated''))))"

definition checkTypeToId :: "CheckType \<Rightarrow> int" where
  "checkTypeToId t =
     (case map_of [(HTTP_CHECK, 1), (HTTPS_CHECK, 2), (PING_CHECK, 3), (DNS_CHECK, 4)] t of
        None \<Rightarrow> 0 | Some n \<Rightarrow> n)"

definition checkSettingToMonitorSetting :: "floats \<Rightarrow> settings \<Rightarrow> MonitorSettingDTO list" where
  "checkSettingToMonitorSetting fl s = map (\<lambda>(k, v). \<lparr>ms_Variable = k, ms_Value = fmt_v fl v\<rparr>) s"

definition V1DiscoverEndpoint :: "server \<Rightarrow> string \<Rightarrow> ctx \<Rightarrow> reply op" where
  "V1DiscoverEndpoint sv name x = v1_respond
     (bindS (liftS (sv_discover sv name)) (\<lambda>e. ok (BSuggested (map (\<lambda>c.
        \<lparr>sm_MonitorTypeId = checkTypeToId (c_Type c),
         sm_Settings = checkSettingToMonitorSetting (sv_floats sv) (c_Settings c)\<rparr>) (ed_Checks e)))))"

section \<open>Version 1: monitors (monitor.go)\<close>

definition with_collectors :: "server \<Rightarrow> string \<Rightarrow> Check \<Rightarrow> MonitorDTO op" where
  "with_collectors sv slug c =
     bindS (liftS (MonitorDTOFromCheck (sv_floats sv) c slug)) (\<lambda>m.
       if c_Enabled c then bindS (GetProbesForCheck c) (\<lambda>ps. returnS (m\<lparr>m_Collectors := ps\<rparr>)) else returnS m)"

definition V1GetMonitors :: "server \<Rightarrow> int \<Rightarrow> ctx \<Rightarrow> reply op" where
  "V1GetMonitors sv eid x = v1_respond
     (bindS (GetEndpointById (org_of x) eid) (\<lambda>e.
      bindS (map_each (with_collectors sv (ed_Slug e)) (ed_Checks e)) (\<lambda>ms. ok (BMonitors ms))))"

definition V1GetMonitorTypes :: "ctx \<Rightarrow> reply op" where
  "V1GetMonitorTypes x = ok (BMonitorTypes MonitorTypes)"

definition V1DeleteMonitor :: "int \<Rightarrow> ctx \<Rightarrow> reply op" where
  "V1DeleteMonitor i x = v1_respond
     (bindS (GetCheckById (org_of x) i) (\<lambda>c.
      bindS (GetEndpointById (org_of x) (c_EndpointId c)) (\<lambda>e.
      thenS (UpdateEndpoint (e\<lparr>ed_Checks := filter (\<lambda>ch. c_Id ch \<noteq> i) (ed_Checks e)\<rparr>))
        (ok (BText ''monitor deleted'')))))"

text \<open>The tests both monitor commands make first; the answer is the text of the first that fails.\<close>

definition monitor_command_error :: "int \<Rightarrow> int \<Rightarrow> int \<Rightarrow> string option" where
  "monitor_command_error eid typeId freq =
     (if eid = 0 then Some ''EndpointId not set.''
      else if typeId = 0 then Some ''MonitorTypeId not set.''
      else if typeId > 4 then Some ''Invlaid MonitorTypeId.''
      else if freq = 0 then Some ''Frequency not set.''
      else None)"

definition zero_monitor :: MonitorDTO where
  "zero_monitor =
     \<lparr>m_Id = 0, m_OrgId = 0, m_EndpointId = 0, m_EndpointSlug = [], m_MonitorTypeId = 0,
      m_MonitorTypeName = [], m_CollectorIds = [], m_CollectorTags = [], m_Collectors = [], m_State = 0,
      m_StateChange = zero_time, m_StateCheck = zero_time, m_Settings = [], m_HealthSettings = None,
      m_Frequency = 0, m_Enabled = False, m_Offset = 0, m_Updated = zero_time\<rparr>"

definition added_monitor :: "server \<Rightarrow> CheckType \<Rightarrow> EndpointDTO \<Rightarrow> reply op" where
  "added_monitor sv ty e =
     (case List.find (\<lambda>c. c_Type c = ty) (ed_Checks e) of
        None \<Rightarrow> ok (BMonitor zero_monitor)
      | Some c \<Rightarrow> bindS (with_collectors sv (ed_Slug e) c) (\<lambda>m. ok (BMonitor m)))"

definition V1AddMonitor :: "server \<Rightarrow> AddMonitorCommand \<Rightarrow> ctx \<Rightarrow> reply op" where
  "V1AddMonitor sv cmd x = v1_respond
     (case monitor_command_error (am_EndpointId cmd) (am_MonitorTypeId cmd) (am_Frequency cmd) of
        Some e \<Rightarrow> bad_request e
      | None \<Rightarrow>
          bindS (GetEndpointById (org_of x) (am_EndpointId cmd)) (\<lambda>e.
          case List.find (\<lambda>c. checkTypeToId (c_Type c) = am_MonitorTypeId cmd) (ed_Checks e) of
            Some c \<Rightarrow> bad_request (''Endpoint already has a '' @ c_Type c @ '' check.'')
          | None \<Rightarrow>
              bindS (liftS (check_type_of (am_MonitorTypeId cmd))) (\<lambda>ty.
              bindS time_Now (\<lambda>t1. bindS time_Now (\<lambda>t2.
              bindS (ValidateCheckRoute
                  ((monitor_check sv (org_of x) (am_EndpointId cmd) t1 cmd ty)\<lparr>c_Updated := t2\<rparr>)) (\<lambda>c.
              bindS (UpdateEndpoint (e\<lparr>ed_Checks := ed_Checks e @ [c]\<rparr>)) (\<lambda>e'.
                added_monitor sv ty e')))))))"

definition updated_check :: "server \<Rightarrow> UpdateMonitorCommand \<Rightarrow> time \<Rightarrow> CheckType \<Rightarrow> Check \<Rightarrow> Check" where
  "updated_check sv cmd t ty c =
     c\<lparr>c_Frequency := um_Frequency cmd, c_Enabled := um_Enabled cmd,
       c_HealthSettings := um_HealthSettings cmd, c_Updated := t,
       c_Route := Some (collector_route (um_CollectorTags cmd) (um_CollectorIds cmd)),
       c_Settings := ToV2Setting (sv_parse_float sv) (um_Settings cmd) ty\<rparr>"

definition V1UpdateMonitor :: "server \<Rightarrow> UpdateMonitorCommand \<Rightarrow> ctx \<Rightarrow> reply op" where
  "V1UpdateMonitor sv cmd x = v1_respond
     (case monitor_command_error (um_EndpointId cmd) (um_MonitorTypeId cmd) (um_Frequency cmd) of
        Some e \<Rightarrow> bad_request e
      | None \<Rightarrow>
          bindS (GetEndpointById (org_of x) (um_EndpointId cmd)) (\<lambda>e.
          case List.find (\<lambda>(pos, c). c_Id c = um_Id cmd) (enumerate 0 (ed_Checks e)) of
            None \<Rightarrow> bad_request ''check does not exist in endpoint.''
          | Some (pos, c) \<Rightarrow>
              bindS (liftS (check_type_of (um_MonitorTypeId cmd))) (\<lambda>ty.
              if c_Type c \<noteq> ty then bad_request ''monitor Type cant be changed.''
              else bindS time_Now (\<lambda>t.
                   bindS (ValidateCheckRoute (updated_check sv cmd t ty c)) (\<lambda>c'.
                   thenS (UpdateEndpoint (e\<lparr>ed_Checks := (ed_Checks e)[pos := c']\<rparr>))
                     (ok (BText ''Monitor updated'')))))))"

section \<open>Version 1: collectors (collector.go)\<close>

definition V1GetCollectors :: "GetProbesQuery \<Rightarrow> ctx \<Rightarrow> reply op" where
  "V1GetCollectors q x = v1_respond (bindS (GetProbes (q\<lparr>gp_OrgId := org_of x\<rparr>)) (\<lambda>ps. ok (BProbes ps)))"

definition V1GetCollectorLocations :: "ctx \<Rightarrow> reply op" where
  "V1GetCollectorLocations x = v1_respond
     (bindS (GetProbes \<lparr>gp_OrgId = org_of x, gp_Public = [], gp_Enabled = [], gp_Online = [], gp_Name = [],
         gp_Slug = [], gp_Tag = [], gp_OrderBy = []\<rparr>) (\<lambda>ps.
       ok (BLocations (map (\<lambda>p. \<lparr>pl_Key = pd_Slug p, pl_Latitude = pd_Latitude p,
         pl_Longitude = pd_Longitude p, pl_Name = pd_Name p\<rparr>) ps))))"

definition V1GetCollectorById :: "int \<Rightarrow> ctx \<Rightarrow> reply op" where
  "V1GetCollectorById i x = v1_respond (bindS (GetProbeById i (org_of x)) (\<lambda>p. ok (BProbe p)))"

definition V1DeleteCollector :: "int \<Rightarrow> ctx \<Rightarrow> reply op" where
  "V1DeleteCollector i x = v1_respond (thenS (DeleteProbe i (org_of x)) (ok (BText ''collector deleted'')))"

definition V1AddCollector :: "ProbeDTO \<Rightarrow> ctx \<Rightarrow> reply op" where
  "V1AddCollector p x = v1_respond
     (if pd_Id p \<noteq> 0 then bad_request ''Id already set. Try update instead of create.''
      else if pd_Name p = [] then bad_request ''Collector Name not set.''
      else bindS (AddProbe (p\<lparr>pd_OrgId := org_of x\<rparr>)) (\<lambda>p'. ok (BProbe p')))"

definition V1UpdateCollector :: "ProbeDTO \<Rightarrow> ctx \<Rightarrow> reply op" where
  "V1UpdateCollector p x = v1_respond
     (if pd_Name p = [] then bad_request ''Collector Name not set.''
      else if pd_Public p \<and> \<not> us_IsAdmin (x_User x) then bad_request ''Only admins can make public collectors''
      else bindS (UpdateProbe (p\<lparr>pd_OrgId := org_of x\<rparr>)) (\<lambda>p'. ok (BProbe p')))"

section \<open>The routing table (api.go)\<close>

datatype action =
    GetQuotasA
  | AdminGetOrgQuotasA int
  | AdminUpdateOrgQuotaA int string int
  | AdminUsageA
  | AdminBillingA
  | GetEndpointsA GetEndpointsQuery
  | AddEndpointA EndpointDTO
  | UpdateEndpointA EndpointDTO
  | DeleteEndpointA int
  | DiscoverA string
  | GetEndpointA int
  | DisableEndpointsA
  | GetProbesA GetProbesQuery
  | AddProbeA ProbeDTO
  | UpdateProbeA ProbeDTO
  | DeleteProbeA int
  | LocationsA
  | GetProbeA int
  | ApiKeyA
  | V1GetOrgQuotasA
  | V1GetCollectorsA GetProbesQuery
  | V1AddCollectorA ProbeDTO
  | V1UpdateCollectorA ProbeDTO
  | V1LocationsA
  | V1GetCollectorA int
  | V1DeleteCollectorA int
  | V1GetMonitorsA int
  | V1AddMonitorA AddMonitorCommand
  | V1UpdateMonitorA UpdateMonitorCommand
  | V1DeleteMonitorA int
  | V1GetEndpointsA GetEndpointsQuery
  | V1AddEndpointA AddEndpointCommand
  | V1UpdateEndpointA UpdateEndpointCommand
  | V1GetEndpointA int
  | V1DeleteEndpointA int
  | V1DiscoverA string
  | V1MonitorTypesA

definition reqEditorRole :: "server \<Rightarrow> handler" where
  "reqEditorRole sv = RoleAuth [sv_editor sv, sv_admin sv]"

text \<open>The handlers a request passes after \<open>middleware.Auth\<close>.\<close>

fun handlers :: "server \<Rightarrow> action \<Rightarrow> handler list" where
  "handlers sv GetQuotasA = [final (V2_GetQuotas sv)]"
| "handlers sv (AdminGetOrgQuotasA org) = [RequireAdmin, final (V2_GetOrgQuotas sv org)]"
| "handlers sv (AdminUpdateOrgQuotaA org target limit) = [RequireAdmin, final (V2_UpdateOrgQuota sv org target limit)]"
| "handlers sv AdminUsageA = [RequireAdmin, final V2_GetUsage]"
| "handlers sv AdminBillingA = [RequireAdmin, final V2_GetBilling]"
| "handlers sv (GetEndpointsA q) = [final (V2_GetEndpoints q)]"
| "handlers sv (AddEndpointA e) = [reqEditorRole sv, quota sv ''endpoint'', final (V2_AddEndpoint sv e)]"
| "handlers sv (UpdateEndpointA e) = [reqEditorRole sv, final (V2_UpdateEndpoint sv e)]"
| "handlers sv (DeleteEndpointA i) = [reqEditorRole sv, final (V2_DeleteEndpoint i)]"
| "handlers sv (DiscoverA name) = [reqEditorRole sv, final (V2_DiscoverEndpoint sv name)]"
| "handlers sv (GetEndpointA i) = [final (V2_GetEndpointById i)]"
| "handlers sv DisableEndpointsA = [reqEditorRole sv, final V2_DisableEndpoints]"
| "handlers sv (GetProbesA q) = [final (V2_GetProbes q)]"
| "handlers sv (AddProbeA p) = [reqEditorRole sv, quota sv ''probe'', final (V2_AddProbe p)]"
| "handlers sv (UpdateProbeA p) = [reqEditorRole sv, final (V2_UpdateProbe p)]"
| "handlers sv (DeleteProbeA i) = [reqEditorRole sv, final (V2_DeleteProbe i)]"
| "handlers sv LocationsA = [final V1GetCollectorLocations]"
| "handlers sv (GetProbeA i) = [final (V2_GetProbeById i)]"
| "handlers sv ApiKeyA = [final V2_GetApiKey]"
| "handlers sv V1GetOrgQuotasA = [final (V1GetOrgQuotas sv)]"
| "handlers sv (V1GetCollectorsA q) = [final (V1GetCollectors q)]"
| "handlers sv (V1AddCollectorA p) = [reqEditorRole sv, quota sv ''probe'', final (V1AddCollector p)]"
| "handlers sv (V1UpdateCollectorA p) = [reqEditorRole sv, final (V1UpdateCollector p)]"
| "handlers sv V1LocationsA = [final V1GetCollectorLocations]"
| "handlers sv (V1GetCollectorA i) = [final (V1GetCollectorById i)]"
| "handlers sv (V1DeleteCollectorA i) = [reqEditorRole sv, final (V1DeleteCollector i)]"
| "handlers sv (V1GetMonitorsA eid) = [final (V1GetMonitors sv eid)]"
| "handlers sv (V1AddMonitorA cmd) = [reqEditorRole sv, final (V1AddMonitor sv cmd)]"
| "handlers sv (V1UpdateMonitorA cmd) = [reqEditorRole sv, final (V1UpdateMonitor sv cmd)]"
| "handlers sv (V1DeleteMonitorA i) = [reqEditorRole sv, final (V1DeleteMonitor i)]"
| "handlers sv (V1GetEndpointsA q) = [final (V1GetEndpoints q)]"
| "handlers sv (V1AddEndpointA cmd) = [reqEditorRole sv, quota sv ''endpoint'', final (V1AddEndpoint sv cmd)]"
| "handlers sv (V1UpdateEndpointA cmd) = [reqEditorRole sv, final (V1UpdateEndpoint cmd)]"
| "handlers sv (V1GetEndpointA i) = [final (V1GetEndpointById i)]"
| "handlers sv (V1DeleteEndpointA i) = [reqEditorRole sv, final (V1DeleteEndpoint i)]"
| "handlers sv (V1DiscoverA name) = [reqEditorRole sv, final (V1DiscoverEndpoint sv name)]"
| "handlers sv V1MonitorTypesA = [final V1GetMonitorTypes]"

text \<open>The framework calls the handlers in order until one has written an answer.\<close>

fun run_chain :: "handler list \<Rightarrow> ctx \<Rightarrow> reply option op" where
  "run_chain [] x = returnS None"
| "run_chain (h # hs) x = bindS (h x) (\<lambda>r. case r of None \<Rightarrow> run_chain hs x | Some a \<Rightarrow> returnS (Some a))"

definition serve :: "server \<Rightarrow> http_head \<Rightarrow> action \<Rightarrow> reply option op" where
  "serve sv h a = bindS (liftS (Auth sv h)) (\<lambda>r. case r of
     Inl answer \<Rightarrow> returnS (Some answer)
   | Inr x \<Rightarrow> run_chain (handlers sv a) x)"

end
