(* ===== verification/Sockets.thy ===== *)
theory Sockets
  imports QuotaStore Monitors EventBus
begin

text \<open>
  \<open>pkg/api/sockets\<close> and \<open>pkg/api/socketio.go\<close>: the cache of the sockets connected to this instance,
  the refresh that hands a socket its share of the checks of its probe, and the controller that turns
  the events of the bus into messages to the one socket that runs the check.

  The objects of type \<open>ProbeSocket\<close> are kept by their socket id in \<open>k_objs\<close>; \<open>k_cache\<close> lists the ids
  in \<open>Cache.Sockets\<close>, in the order a \<open>range\<close> loop meets them. \<open>k_sent\<close> records every message the
  socket library accepted.
\<close>

section \<open>State\<close>

datatype payload =
    PCheck CheckWithSlug
  | PMonitor MonitorDTO
  | PChecks "CheckWithSlug list"
  | PMonitors "MonitorDTO list"
  | PReady ProbeDTO "MonitorTypeDTO list" string
  | PText string

record ProbeSocket =
  ps_User :: int
  ps_Probe :: ProbeDTO
  ps_Session :: ProbeSession
  ps_closed :: bool
  ps_lastRefresh :: time
  ps_refreshing :: bool

record controller =
  k_world :: world
  k_objs :: "(string, ProbeSocket) gomap"
  k_cache :: "string list"
  k_refresh :: "int list"
  k_emits :: nat
  k_sent :: "(string \<times> string \<times> payload) list"

text \<open>
  What the controller relies on outside the repository: \<open>setting.InstanceId\<close>, the version library
  (\<open>older v w\<close> is \<open>v < w\<close>, none if \<open>v\<close> is no version), the socket library (\<open>refuses\<close> says which
  messages it rejects), the text of a number, and the order in which Go walks the map of old checks.
\<close>

record net =
  n_instance :: string
  n_older :: "string \<Rightarrow> string \<Rightarrow> bool option"
  n_refuses :: "nat \<Rightarrow> bool"
  n_floats :: floats
  n_order :: "(int \<times> Check) list \<Rightarrow> (int \<times> Check) list"

type_synonym 'a cop = "net \<Rightarrow> env \<Rightarrow> controller \<Rightarrow> 'a result \<times> controller"

definition returnC :: "'a \<Rightarrow> 'a cop" where
  "returnC x = (\<lambda>net env k. (Inr x, k))"

definition liftC :: "'a result \<Rightarrow> 'a cop" where
  "liftC r = (\<lambda>net env k. (r, k))"

definition bindC :: "'a cop \<Rightarrow> ('a \<Rightarrow> 'b cop) \<Rightarrow> 'b cop" where
  "bindC m f = (\<lambda>net env k. case m net env k of (Inl e, k') \<Rightarrow> (Inl e, k') | (Inr x, k') \<Rightarrow> f x net env k')"

definition thenC :: "'a cop \<Rightarrow> 'b cop \<Rightarrow> 'b cop" where
  "thenC m n = bindC m (\<lambda>_. n)"

fun for_eachC :: "('a \<Rightarrow> unit cop) \<Rightarrow> 'a list \<Rightarrow> unit cop" where
  "for_eachC f [] = returnC ()"
| "for_eachC f (x # xs) = thenC (f x) (for_eachC f xs)"

definition askC :: "(net \<Rightarrow> 'a) \<Rightarrow> 'a cop" where
  "askC f = (\<lambda>net env k. (Inr (f net), k))"

definition getC :: "(controller \<Rightarrow> 'a) \<Rightarrow> 'a cop" where
  "getC f = (\<lambda>net env k. (Inr (f k), k))"

definition modifyC :: "(controller \<Rightarrow> controller) \<Rightarrow> unit cop" where
  "modifyC f = (\<lambda>net env k. (Inr (), f k))"

text \<open>A call of the store.\<close>

definition storeC :: "'a op \<Rightarrow> 'a cop" where
  "storeC m = (\<lambda>net env k. case m env (k_world k) of (r, w) \<Rightarrow> (r, k\<lparr>k_world := w\<rparr>))"

text \<open>A call whose error the caller tests, and one whose deferred function runs in any case.\<close>

definition tryC :: "'a cop \<Rightarrow> (go_error + 'a) cop" where
  "tryC m = (\<lambda>net env k. case m net env k of
     (Inr x, k') \<Rightarrow> (Inr (Inr x), k')
   | (Inl (Error e), k') \<Rightarrow> (Inr (Inl e), k')
   | (Inl (Panic p), k') \<Rightarrow> (Inl (Panic p), k'))"

definition deferC :: "(controller \<Rightarrow> controller) \<Rightarrow> 'a cop \<Rightarrow> 'a cop" where
  "deferC f m = (\<lambda>net env k. case m net env k of (r, k') \<Rightarrow> (r, f k'))"

section \<open>A socket (sockets/probe.go)\<close>

definition heartbeatInterval :: int where
  "heartbeatInterval = 30 * second"

definition NewProbeSocket :: "int \<Rightarrow> ProbeDTO \<Rightarrow> ProbeSession \<Rightarrow> ProbeSocket" where
  "NewProbeSocket user probe session =
     \<lparr>ps_User = user, ps_Probe = probe, ps_Session = session, ps_closed = False,
      ps_lastRefresh = zero_time, ps_refreshing = False\<rparr>"

definition socket_of :: "controller \<Rightarrow> string \<Rightarrow> ProbeSocket result" where
  "socket_of k sid =
     (case map_of (k_objs k) sid of
        None \<Rightarrow> Inl (Panic ''nil pointer dereference'')
      | Some p \<Rightarrow> Inr p)"

definition the_socket :: "string \<Rightarrow> ProbeSocket cop" where
  "the_socket sid = bindC (getC (\<lambda>k. socket_of k sid)) liftC"

definition upd_socket :: "string \<Rightarrow> (ProbeSocket \<Rightarrow> ProbeSocket) \<Rightarrow> controller \<Rightarrow> controller" where
  "upd_socket sid f k = k\<lparr>k_objs := map (\<lambda>(i, p). (i, if i = sid then f p else p)) (k_objs k)\<rparr>"

definition socket_error :: fault where
  "socket_error = Error (OtherError ''socket.io: emit failed'')"

definition ProbeSocket_emit :: "string \<Rightarrow> string \<Rightarrow> payload \<Rightarrow> unit cop" where
  "ProbeSocket_emit sid message pl = (\<lambda>net env k.
     let k1 = k\<lparr>k_emits := Suc (k_emits k)\<rparr>
     in if n_refuses net (k_emits k) then (Inl socket_error, k1)
        else (Inr (), k1\<lparr>k_sent := k_sent k @ [(sid, message, pl)]\<rparr>))"

definition EmitReady :: "string \<Rightarrow> unit cop" where
  "EmitReady sid =
     bindC (the_socket sid) (\<lambda>p.
       ProbeSocket_emit sid ''ready'' (PReady (ps_Probe p) MonitorTypes (s_SocketId (ps_Session p))))"

definition ProbeSocket_Remove :: "string \<Rightarrow> unit cop" where
  "ProbeSocket_Remove sid = bindC (the_socket sid) (\<lambda>p. storeC (DeleteProbeSession (ps_Session p)))"

text \<open>\<open>v.LessThan(newVer)\<close>, with \<open>v\<close> nil when the version does not parse.\<close>

definition older_than :: "string \<Rightarrow> string \<Rightarrow> bool cop" where
  "older_than v w = bindC (askC (\<lambda>net. n_older net v w)) (\<lambda>r. liftC (case r of
     None \<Rightarrow> Inl (Panic ''nil pointer dereference'')
   | Some b \<Rightarrow> Inr b))"

fun map_res :: "('a \<Rightarrow> 'b result) \<Rightarrow> 'a list \<Rightarrow> 'b list result" where
  "map_res f [] = Inr []"
| "map_res f (x # xs) = bind_res (f x) (\<lambda>y. bind_res (map_res f xs) (\<lambda>ys. Inr (y # ys)))"

text \<open>The checks of the session at position \<open>pos\<close> of \<open>n\<close>.\<close>

definition share :: "int \<Rightarrow> int \<Rightarrow> CheckWithSlug list \<Rightarrow> CheckWithSlug list" where
  "share n pos checks =
     filter (\<lambda>c. c_Enabled (cs_Check c) \<and> go_rem (c_Id (cs_Check c)) n = Inr pos) checks"

definition refresh_payload :: "floats \<Rightarrow> bool \<Rightarrow> CheckWithSlug list \<Rightarrow> payload result" where
  "refresh_payload fl old cs =
     (if old then bind_res (map_res (\<lambda>c. MonitorDTOFromCheck fl (cs_Check c) (cs_Slug c)) cs)
        (\<lambda>ms. Inr (PMonitors ms))
      else Inr (PChecks cs))"

definition refresh_body :: "string \<Rightarrow> ProbeSocket \<Rightarrow> unit cop" where
  "refresh_body sid p =
     bindC (storeC time_Now) (\<lambda>t.
     bindC (tryC (storeC (GetProbeSessions (pd_Id (ps_Probe p)) [] (t - 2 * heartbeatInterval)))) (\<lambda>r.
     case r of
       Inl e \<Rightarrow> returnC ()
     | Inr sessions \<Rightarrow>
         if sessions = [] then returnC ()
         else (case List.find (\<lambda>(pos, s). s_SocketId s = s_SocketId (ps_Session p)) (enumerate 0 sessions) of
             None \<Rightarrow> returnC ()
           | Some (pos, s) \<Rightarrow>
               bindC (tryC (storeC (GetProbeChecksWithEndpointSlug (ps_Probe p)))) (\<lambda>r.
               case r of
                 Inl e \<Rightarrow> returnC ()
               | Inr checks \<Rightarrow>
                   bindC (older_than (s_Version (ps_Session p)) ''0.9.1'') (\<lambda>old.
                   bindC (askC n_floats) (\<lambda>fl.
                   bindC (liftC (refresh_payload fl old (share (int (length sessions)) (int pos) checks))) (\<lambda>pl.
                   bindC (tryC (ProbeSocket_emit sid ''refresh'' pl)) (\<lambda>_. returnC ()))))))))"

definition ProbeSocket_Refresh :: "string \<Rightarrow> unit cop" where
  "ProbeSocket_Refresh sid =
     bindC (the_socket sid) (\<lambda>p.
     if ps_closed p then returnC ()
     else bindC (storeC time_Now) (\<lambda>pre.
       if ps_refreshing p then returnC ()
       else thenC (modifyC (upd_socket sid (\<lambda>p. p\<lparr>ps_refreshing := True, ps_lastRefresh := pre\<rparr>)))
         (deferC (upd_socket sid (\<lambda>p. p\<lparr>ps_refreshing := False\<rparr>)) (refresh_body sid p))))"

section \<open>The cache (sockets/sockets.go)\<close>

definition Cache_Set :: "string \<Rightarrow> ProbeSocket \<Rightarrow> unit cop" where
  "Cache_Set sid p = modifyC (\<lambda>k. k\<lparr>k_objs := AList.update sid p (k_objs k),
     k_cache := (if sid \<in> set (k_cache k) then k_cache k else k_cache k @ [sid])\<rparr>)"

definition Cache_Remove :: "string \<Rightarrow> unit cop" where
  "Cache_Remove sid = modifyC (\<lambda>k. k\<lparr>k_cache := removeAll sid (k_cache k)\<rparr>)"

definition Cache_Emit :: "string \<Rightarrow> string \<Rightarrow> payload \<Rightarrow> unit cop" where
  "Cache_Emit sid event pl =
     bindC (getC k_cache) (\<lambda>ids.
       if sid \<in> set ids then bindC (tryC (ProbeSocket_emit sid event pl)) (\<lambda>_. returnC ())
       else returnC ())"

text \<open>The channel and the buffer of \<open>refreshQueue\<close> are one queue.\<close>

definition Cache_Refresh :: "int \<Rightarrow> unit cop" where
  "Cache_Refresh pid = modifyC (\<lambda>k. k\<lparr>k_refresh := k_refresh k @ [pid]\<rparr>)"

definition local_sockets :: "int \<Rightarrow> string list cop" where
  "local_sockets pid = getC (\<lambda>k. filter (\<lambda>sid. case map_of (k_objs k) sid of
     None \<Rightarrow> False | Some p \<Rightarrow> pd_Id (ps_Probe p) = pid) (k_cache k))"

definition Cache_refresh :: "int \<Rightarrow> unit cop" where
  "Cache_refresh pid = bindC (local_sockets pid) (for_eachC ProbeSocket_Refresh)"

definition refreshQueue_tick :: "unit cop" where
  "refreshQueue_tick =
     bindC (getC k_refresh) (\<lambda>buffer.
       if buffer = [] then returnC ()
       else thenC (for_eachC Cache_refresh (remdups buffer)) (modifyC (\<lambda>k. k\<lparr>k_refresh := []\<rparr>)))"

text \<open>\<open>jitter\<close> stands for \<open>rand.Intn(240)\<close>.\<close>

definition refreshLoop_tick :: "(string \<Rightarrow> int) \<Rightarrow> unit cop" where
  "refreshLoop_tick jitter =
     bindC (getC k_cache) (for_eachC (\<lambda>sid.
       bindC (the_socket sid) (\<lambda>p.
       bindC (storeC time_Now) (\<lambda>t.
         if t - ps_lastRefresh p \<ge> second * (300 + jitter sid) then ProbeSocket_Refresh sid else returnC ()))))"

definition Cache_UpdateProbe :: "ProbeDTO \<Rightarrow> unit cop" where
  "Cache_UpdateProbe probe =
     bindC (local_sockets (pd_Id probe)) (for_eachC (\<lambda>sid.
       thenC (modifyC (upd_socket sid (\<lambda>p. p\<lparr>ps_Probe := probe\<rparr>)))
         (bindC (tryC (EmitReady sid)) (\<lambda>_. returnC ()))))"

definition Cache_Shutdown :: "unit cop" where
  "Cache_Shutdown =
     bindC (getC k_cache) (\<lambda>ids.
     thenC (modifyC (\<lambda>k. k\<lparr>k_cache := []\<rparr>))
       (for_eachC (\<lambda>sid. bindC (tryC (ProbeSocket_Remove sid)) (\<lambda>_. returnC ())) ids))"

section \<open>The life of a socket\<close>

definition OnDisconnection :: "string \<Rightarrow> unit cop" where
  "OnDisconnection sid =
     thenC (modifyC (upd_socket sid (\<lambda>p. p\<lparr>ps_closed := True\<rparr>)))
       (thenC (Cache_Remove sid)
         (bindC (tryC (ProbeSocket_Remove sid)) (\<lambda>_. returnC ())))"

definition Start :: "string \<Rightarrow> ProbeSocket \<Rightarrow> unit cop" where
  "Start sid p =
     thenC (Cache_Set sid p)
       (bindC (tryC (EmitReady sid)) (\<lambda>r. case r of
          Inl e \<Rightarrow> returnC ()
        | Inr _ \<Rightarrow>
            bindC (tryC (storeC (AddProbeSession (ps_Session p)))) (\<lambda>r. case r of
              Inl e \<Rightarrow> bindC (tryC (ProbeSocket_emit sid ''error''
                  (PText (''internal server error. '' @ error_string e)))) (\<lambda>_. returnC ())
            | Inr s \<Rightarrow> modifyC (upd_socket sid (\<lambda>p. p\<lparr>ps_Session := s\<rparr>)))))"

definition heartbeat :: "string \<Rightarrow> unit cop" where
  "heartbeat sid =
     bindC (storeC time_Now) (\<lambda>t.
     thenC (modifyC (upd_socket sid (\<lambda>p. p\<lparr>ps_Session := (ps_Session p)\<lparr>s_Updated := t\<rparr>\<rparr>)))
       (bindC (the_socket sid) (\<lambda>p.
        bindC (tryC (storeC (UpdateProbeSession (ps_Session p)))) (\<lambda>_. returnC ()))))"

text \<open>Results and events of a private probe are booked on the organisation of its key.\<close>

record ProbeEvent =
  pe_OrgId :: int
  pe_Body :: json

definition OnEvent :: "ProbeSocket \<Rightarrow> ProbeEvent \<Rightarrow> ProbeEvent" where
  "OnEvent p msg = (if \<not> pd_Public (ps_Probe p) then msg\<lparr>pe_OrgId := ps_User p\<rparr> else msg)"

record ProbeMetric =
  md_Id :: string
  md_Name :: string
  md_Metric :: string
  md_Interval :: int
  md_OrgId :: int
  md_Value :: rat
  md_Time :: int
  md_Unit :: string
  md_Mtype :: string
  md_Tags :: "string list"

text \<open>\<open>strings.Replace(s, old, new, 1)\<close>.\<close>

fun replace_first :: "string \<Rightarrow> string \<Rightarrow> string \<Rightarrow> string" where
  "replace_first old new [] = (if old = [] then new else [])"
| "replace_first old new (c # cs) =
     (if prefix old (c # cs) then new @ drop (length old) (c # cs) else c # replace_first old new cs)"

text \<open>\<open>SetId\<close> of the schema library computes the id from the other fields.\<close>

definition OnResults :: "(ProbeMetric \<Rightarrow> string) \<Rightarrow> ProbeSocket \<Rightarrow> ProbeMetric list \<Rightarrow> ProbeMetric list" where
  "OnResults id_of p results = map (\<lambda>m.
     let m1 = m\<lparr>md_Name := replace_first ''litmus.'' ''worldping.'' (md_Name m),
                md_Metric := replace_first ''litmus.'' ''worldping.'' (md_Metric m)\<rparr>;
         m2 = m1\<lparr>md_Id := id_of m1\<rparr>
     in if \<not> pd_Public (ps_Probe p) then m2\<lparr>md_OrgId := ps_User p\<rparr> else m2) results"

section \<open>Connecting (api/socketio.go)\<close>

text \<open>
  The request of a connecting probe. \<open>cn_user\<close> is what \<open>middleware.GetUser\<close> makes of the key,
  \<open>cn_ip\<close> the parsed remote address, \<open>cn_location\<close> the answer of the GEOIP database.
\<close>

record connection =
  cn_id :: string
  cn_key :: string
  cn_user :: "int result"
  cn_name :: string
  cn_lastSocketId :: string
  cn_version :: string
  cn_ip :: "string option"
  cn_location :: "(rat \<times> rat) option"

definition text_error :: "string \<Rightarrow> fault" where
  "text_error s = Error (OtherError s)"

definition authenticate :: "connection \<Rightarrow> int result" where
  "authenticate cn =
     (if cn_key cn \<noteq> [] then cn_user cn else Inl (text_error ''invalid authentication credentials''))"

definition create_probe :: "QuotaSettings \<Rightarrow> int \<Rightarrow> string \<Rightarrow> ProbeDTO cop" where
  "create_probe st user name =
     bindC (storeC (QuotaReached st user ''probe'')) (\<lambda>reached.
     if reached then liftC (Inl (text_error ''Probe cant be created due to quota restriction''))
     else bindC (storeC time_Now) (\<lambda>t. storeC (AddProbe
       \<lparr>pd_Id = 0, pd_OrgId = user, pd_Slug = [], pd_Name = name, pd_Tags = [], pd_Public = False,
        pd_Latitude = 0, pd_Longitude = 0, pd_Online = True, pd_OnlineChange = t, pd_Enabled = True,
        pd_EnabledChange = zero_time, pd_Created = zero_time, pd_Updated = zero_time,
        pd_RemoteIp = []\<rparr>)))"

definition find_or_create :: "QuotaSettings \<Rightarrow> int \<Rightarrow> string \<Rightarrow> ProbeDTO cop" where
  "find_or_create st user name =
     bindC (tryC (storeC (GetProbeByName name user))) (\<lambda>r. case r of
       Inr probe \<Rightarrow> returnC probe
     | Inl e \<Rightarrow> if Error e = ErrProbeNotFound then create_probe st user name else liftC (Inl (Error e)))"

definition locate :: "connection \<Rightarrow> ProbeDTO \<Rightarrow> ProbeDTO cop" where
  "locate cn probe =
     (case cn_ip cn of
        None \<Rightarrow> returnC probe
      | Some ip \<Rightarrow>
          if pd_Latitude probe = 0 \<or> pd_Longitude probe = 0 then
            (case cn_location cn of
               None \<Rightarrow> returnC probe
             | Some (lat, long) \<Rightarrow>
                 storeC (UpdateProbe (probe\<lparr>pd_Latitude := lat, pd_Longitude := long\<rparr>)))
          else returnC probe)"

definition register :: "QuotaSettings \<Rightarrow> connection \<Rightarrow> ProbeSocket cop" where
  "register st cn =
     bindC (liftC (authenticate cn)) (\<lambda>user.
     if cn_name cn = [] then liftC (Inl (text_error ''probe name not provided''))
     else if cn_version cn = [] then liftC (Inl (text_error ''version number not provided''))
     else bindC (askC (\<lambda>net. n_older net (cn_version cn) ''0.1.4'')) (\<lambda>v. case v of
       None \<Rightarrow> liftC (Inl (text_error (''Malformed version: '' @ cn_version cn)))
     | Some True \<Rightarrow> liftC (Inl (text_error ''invalid probe version. Please upgrade''))
     | Some False \<Rightarrow>
         bindC (find_or_create st user (cn_name cn)) (\<lambda>found.
         bindC (locate cn found) (\<lambda>probe.
         bindC (askC n_instance) (\<lambda>inst.
         let sess = \<lparr>s_Id = 0, s_OrgId = user, s_ProbeId = pd_Id probe, s_SocketId = cn_id cn,
                     s_Version = cn_version cn, s_InstanceId = inst,
                     s_RemoteIp = (case cn_ip cn of None \<Rightarrow> ''0.0.0.0'' | Some ip \<Rightarrow> ip),
                     s_Updated = zero_time\<rparr>
         in thenC (if cn_lastSocketId cn \<noteq> []
                   then storeC (DeleteProbeSession (sess\<lparr>s_SocketId := cn_lastSocketId cn,
                          s_Version := [], s_InstanceId := [], s_RemoteIp := []\<rparr>))
                   else returnC ())
              (returnC (NewProbeSocket user probe sess)))))))"

text \<open>The handler of \<open>connection\<close>.\<close>

definition on_connection :: "QuotaSettings \<Rightarrow> connection \<Rightarrow> unit cop" where
  "on_connection st cn =
     bindC (tryC (register st cn)) (\<lambda>r. case r of
       Inl e \<Rightarrow> bindC (tryC (ProbeSocket_emit (cn_id cn) ''error'' (PText (error_string e)))) (\<lambda>_. returnC ())
     | Inr p \<Rightarrow> Start (cn_id cn) p)"

section \<open>Events to messages (api/socketio.go)\<close>

definition event_payload :: "floats \<Rightarrow> bool \<Rightarrow> CheckWithSlug \<Rightarrow> payload result" where
  "event_payload fl old c =
     (if old then bind_res (MonitorDTOFromCheckWithSlug fl c) (\<lambda>m. Inr (PMonitor m)) else Inr (PCheck c))"

definition EmitCheckEvent :: "int \<Rightarrow> int \<Rightarrow> string \<Rightarrow> CheckWithSlug \<Rightarrow> unit cop" where
  "EmitCheckEvent probeId checkId eventName c =
     bindC (storeC time_Now) (\<lambda>t.
     bindC (storeC (GetProbeSessions probeId [] (t - 2 * heartbeatInterval))) (\<lambda>sessions.
     if length sessions < 1 then returnC ()
     else bindC (liftC (go_rem checkId (int (length sessions)))) (\<lambda>pos.
          bindC (liftC (go_index sessions pos)) (\<lambda>s.
          bindC (askC n_instance) (\<lambda>inst.
          if s_InstanceId s = inst then
            bindC (older_than (s_Version s) ''0.9.1'') (\<lambda>old.
            bindC (askC n_floats) (\<lambda>fl.
            bindC (liftC (event_payload fl old c)) (\<lambda>pl.
              Cache_Emit (s_SocketId s) eventName pl)))
          else returnC ())))))"

definition emit_to :: "string \<Rightarrow> string \<Rightarrow> Check \<Rightarrow> int list \<Rightarrow> unit cop" where
  "emit_to eventName slug c probes =
     for_eachC (\<lambda>p. EmitCheckEvent p (c_Id c) eventName \<lparr>cs_Check = c, cs_Slug = slug\<rparr>) probes"

definition emit_check :: "string \<Rightarrow> string \<Rightarrow> Check \<Rightarrow> unit cop" where
  "emit_check eventName slug c = bindC (storeC (GetProbesForCheck c)) (emit_to eventName slug c)"

definition HandleEndpointCreated :: "EndpointDTO \<Rightarrow> unit cop" where
  "HandleEndpointCreated e = for_eachC (emit_check ''created'' (ed_Slug e)) (filter c_Enabled (ed_Checks e))"

definition HandleEndpointDeleted :: "EndpointDTO \<Rightarrow> unit cop" where
  "HandleEndpointDeleted e = for_eachC (emit_check ''removed'' (ed_Slug e)) (filter c_Enabled (ed_Checks e))"

definition old_checks :: "EndpointDTO \<Rightarrow> (int, Check) gomap" where
  "old_checks prev = fold (\<lambda>c. AList.update (c_Id c) c) (filter c_Enabled (ed_Checks prev)) []"

definition touched_checks :: "EndpointDTO \<Rightarrow> Check list" where
  "touched_checks current = filter (\<lambda>c. c_Enabled c \<and> \<not> c_Updated c < ed_Updated current) (ed_Checks current)"

definition changed_checks :: "EndpointDTO \<Rightarrow> EndpointDTO \<Rightarrow> Check list" where
  "changed_checks prev current =
     filter (\<lambda>c. map_of (old_checks prev) (c_Id c) \<noteq> None) (touched_checks current)"

definition new_checks :: "EndpointDTO \<Rightarrow> EndpointDTO \<Rightarrow> Check list" where
  "new_checks prev current = filter (\<lambda>c. map_of (old_checks prev) (c_Id c) = None) (touched_checks current)"

definition emit_changed :: "EndpointDTO \<Rightarrow> EndpointDTO \<Rightarrow> Check \<Rightarrow> unit cop" where
  "emit_changed prev current c =
     bindC (storeC (GetProbesForCheck c)) (\<lambda>probes.
     thenC (emit_to ''updated'' (ed_Slug current) c probes)
       (bindC (storeC (GetProbesForCheck (the (map_of (old_checks prev) (c_Id c))))) (\<lambda>old_probes.
        emit_to ''removed'' (ed_Slug prev) c (filter (\<lambda>p. p \<notin> set probes) old_probes))))"

definition removed_checks :: "net \<Rightarrow> EndpointDTO \<Rightarrow> EndpointDTO \<Rightarrow> Check list" where
  "removed_checks net prev current =
     filter (\<lambda>c. c_Id c \<notin> c_Id ` set (filter c_Enabled (ed_Checks current)))
       (map snd (n_order net (old_checks prev)))"

definition HandleEndpointUpdated :: "EndpointDTO \<Rightarrow> EndpointDTO \<Rightarrow> unit cop" where
  "HandleEndpointUpdated prev current =
     thenC (for_eachC (emit_changed prev current) (changed_checks prev current))
       (thenC (for_eachC (emit_check ''created'' (ed_Slug current)) (new_checks prev current))
         (bindC (askC (\<lambda>net. removed_checks net prev current))
           (for_eachC (emit_check ''removed'' (ed_Slug prev)))))"

definition HandleProbeSessionCreated :: "ProbeSession \<Rightarrow> unit cop" where
  "HandleProbeSessionCreated s = Cache_Refresh (s_ProbeId s)"

definition HandleProbeSessionDeleted :: "ProbeSession \<Rightarrow> unit cop" where
  "HandleProbeSessionDeleted s = Cache_Refresh (s_ProbeId s)"

definition HandleProbeUpdated :: "ProbeDTO \<Rightarrow> unit cop" where
  "HandleProbeUpdated current = Cache_UpdateProbe current"

text \<open>The dispatch on the type of a raw event; \<open>encoding/json\<close> decodes the bodies.\<close>

record decoders =
  dec_endpoint :: "json \<Rightarrow> EndpointDTO option"
  dec_endpoints :: "json \<Rightarrow> (EndpointDTO \<times> EndpointDTO) option"
  dec_session :: "json \<Rightarrow> ProbeSession option"
  dec_probes :: "json \<Rightarrow> (ProbeDTO \<times> ProbeDTO) option"

definition logged :: "unit cop \<Rightarrow> unit cop" where
  "logged m = bindC (tryC m) (\<lambda>_. returnC ())"

definition handle_body :: "'a option \<Rightarrow> ('a \<Rightarrow> unit cop) \<Rightarrow> unit cop" where
  "handle_body body f = (case body of None \<Rightarrow> returnC () | Some x \<Rightarrow> logged (f x))"

definition eventConsumer :: "decoders \<Rightarrow> RawEvent \<Rightarrow> unit cop" where
  "eventConsumer dec e =
     (if re_Type e = ''Endpoint.updated'' then
        handle_body (dec_endpoints dec (re_Body e)) (\<lambda>(prev, current). HandleEndpointUpdated prev current)
      else if re_Type e = ''Endpoint.created'' then
        handle_body (dec_endpoint dec (re_Body e)) HandleEndpointCreated
      else if re_Type e = ''Endpoint.deleted'' then
        handle_body (dec_endpoint dec (re_Body e)) HandleEndpointDeleted
      else if re_Type e = ''ProbeSession.created'' then
        handle_body (dec_session dec (re_Body e)) HandleProbeSessionCreated
      else if re_Type e = ''ProbeSession.deleted'' then
        handle_body (dec_session dec (re_Body e)) HandleProbeSessionDeleted
      else if re_Type e = ''Probe.updated'' then
        handle_body (dec_probes dec (re_Body e)) (\<lambda>(prev, current). HandleProbeUpdated current)
      else returnC ())"

text \<open>The state changes of \<open>InitCollectorController\<close>: stale sessions go, the channel is subscribed.\<close>

definition controller_events :: "string list" where
  "controller_events =
     [''Endpoint.created'', ''Endpoint.updated'', ''Endpoint.deleted'', ''ProbeSession.created'',
      ''ProbeSession.deleted'', ''Probe.updated'']"

definition InitCollectorController :: "'ch \<Rightarrow> 'ch listeners \<Rightarrow> 'ch listeners cop" where
  "InitCollectorController ch h =
     bindC (askC n_instance) (\<lambda>inst.
     thenC (storeC (ClearProbeSessions inst))
       (returnC (fold (\<lambda>t. Handlers_Add t ch) controller_events h)))"

end
