(* ===== verification/SocketProps.thy ===== *)
theory SocketProps
  imports Sockets QuotaProps ProbeProps
begin

text \<open>
  What reaches a connected probe. \<open>sends\<close> states of an operation which messages it delivers to one
  socket; the handlers are taken apart with its rules. The properties: an update event moves a probe
  from its share of the old endpoint to its share of the new one, the share of a refresh is the one
  the events keep up to date, and a connecting probe acts on its own organisation only.
\<close>

section \<open>Runs of controller operations\<close>

lemma bindC_Inr:
  "bindC m f net env k = (Inr y, k') \<longleftrightarrow> (\<exists>x k1. m net env k = (Inr x, k1) \<and> f x net env k1 = (Inr y, k'))"
  by (auto simp: bindC_def split: prod.splits sum.splits)

lemma storeC_Inr:
  "storeC m net env k = (Inr x, k') \<longleftrightarrow> (\<exists>w. m env (k_world k) = (Inr x, w) \<and> k' = k\<lparr>k_world := w\<rparr>)"
  by (auto simp: storeC_def split: prod.splits)

lemmas plainC = returnC_def liftC_def askC_def getC_def modifyC_def

section \<open>Queries that only read\<close>

locale read_query =
  fixes ask :: "'q \<Rightarrow> 'a op" and answer :: "'q \<Rightarrow> db \<Rightarrow> 'a result"
  assumes reads: "ask q env w = (Inr x, w') \<Longrightarrow> answer q (w_db w) = Inr x \<and> w_db w' = w_db w"

definition probes_for :: "Check \<Rightarrow> db \<Rightarrow> int list result" where
  "probes_for c d =
     bind_res (route_of c) (\<lambda>r.
       if r_Type r = RouteByTags then bind_res (config_tags r) (\<lambda>ts. Inr (probes_with_tags (c_OrgId c) ts d))
       else if r_Type r = RouteByIds then config_ids r
       else Inl unknown_routeType)"

interpretation check_probes: read_query GetProbesForCheck probes_for
proof
  fix q env w x w'
  assume "GetProbesForCheck q env w = (Inr x, w')"
  then show "probes_for q (w_db w) = Inr x \<and> w_db w' = w_db w"
    by (cases "c_Route q")
       (auto simp: route_of_def GetProbesForCheck_def getProbesForCheck_def probes_for_def bindS_Inr liftS_def failS_def
          split: if_splits dest!: query_Inr)
qed

interpretation live_sessions: read_query
  "\<lambda>(p, t). GetProbeSessions p [] (t - 2 * heartbeatInterval)"
  "\<lambda>(p, t) d. Inr (sessions_where p [] (t - 2 * heartbeatInterval) d)"
  by unfold_locales (auto simp: GetProbeSessions_def getProbeSessions_def dest!: query_Inr)

definition slugged_checks :: "int \<Rightarrow> db \<Rightarrow> CheckWithSlug list" where
  "slugged_checks p d =
     [\<lparr>cs_Check = c, cs_Slug = e_Slug e\<rparr>. c \<leftarrow> t_check d, c_Id c \<in> set (probe_check_ids p d) \<and> c_Enabled c,
        e \<leftarrow> t_endpoint d, c_EndpointId c = e_Id e]"

interpretation probe_checks: read_query GetProbeChecksWithEndpointSlug "\<lambda>p d. Inr (slugged_checks (pd_Id p) d)"
proof
  fix q env w x w'
  assume run: "GetProbeChecksWithEndpointSlug q env w = (Inr x, w')"
  from run show "Inr (slugged_checks (pd_Id q) (w_db w)) = Inr x \<and> w_db w' = w_db w"
    by (auto simp: GetProbeChecksWithEndpointSlug_def getProbeChecksWithEndpointSlug_def bindS_Inr returnS_def
        slugged_checks_def split: if_splits cong: if_cong dest!: query_Inr)
qed

section \<open>Messages to one socket\<close>

definition inbox :: "string \<Rightarrow> controller \<Rightarrow> (string \<times> payload) list" where
  "inbox sid k = map snd (filter (\<lambda>m. fst m = sid) (k_sent k))"

text \<open>
  \<open>sends net env d sid m es\<close>: in a database \<open>d\<close> and with the socket connected, a run of \<open>m\<close> without
  error delivers the messages \<open>es\<close> to the socket and leaves the database and the connection alone.
\<close>

definition sends :: "net \<Rightarrow> env \<Rightarrow> db \<Rightarrow> string \<Rightarrow> unit cop \<Rightarrow> (string \<times> payload) list \<Rightarrow> bool" where
  "sends net env d sid m es \<longleftrightarrow>
     (\<forall>k k'. w_db (k_world k) = d \<longrightarrow> sid \<in> set (k_cache k) \<longrightarrow> m net env k = (Inr (), k') \<longrightarrow>
        w_db (k_world k') = d \<and> sid \<in> set (k_cache k') \<and> inbox sid k' = inbox sid k @ es)"

lemma sendsI:
  "(\<And>k k'. w_db (k_world k) = d \<Longrightarrow> sid \<in> set (k_cache k) \<Longrightarrow> m net env k = (Inr (), k') \<Longrightarrow>
      w_db (k_world k') = d \<and> sid \<in> set (k_cache k') \<and> inbox sid k' = inbox sid k @ es) \<Longrightarrow>
   sends net env d sid m es"
  unfolding sends_def by blast

lemma sendsD:
  assumes "sends net env d sid m es" and "w_db (k_world k) = d" and "sid \<in> set (k_cache k)"
    and "m net env k = (Inr (), k')"
  shows "w_db (k_world k') = d" and "sid \<in> set (k_cache k')" and "inbox sid k' = inbox sid k @ es"
  using assms unfolding sends_def by blast+

named_theorems sends_intros \<open>which messages an operation delivers\<close>

lemma sends_return [sends_intros]: "sends net env d sid (returnC ()) []"
  by (rule sendsI) (simp add: returnC_def)

lemma sends_then [sends_intros]:
  assumes "sends net env d sid m es" and "sends net env d sid n fs"
  shows "sends net env d sid (thenC m n) (es @ fs)"
proof (rule sendsI)
  fix k k'
  assume k: "w_db (k_world k) = d" "sid \<in> set (k_cache k)" and "thenC m n net env k = (Inr (), k')"
  then obtain k1 where m: "m net env k = (Inr (), k1)" and n: "n net env k1 = (Inr (), k')"
    by (auto simp: thenC_def bindC_Inr)
  note k1 = sendsD[OF assms(1) k m]
  from sendsD[OF assms(2) k1(1,2) n] k1(3)
  show "w_db (k_world k') = d \<and> sid \<in> set (k_cache k') \<and> inbox sid k' = inbox sid k @ es @ fs" by simp
qed

lemma sends_for_each:
  assumes "\<And>x. x \<in> set xs \<Longrightarrow> sends net env d sid (f x) (g x)"
  shows "sends net env d sid (for_eachC f xs) (concat (map g xs))"
  using assms by (induction xs) (auto intro!: sends_intros)

lemma sends_ask: "sends net env d sid (f (q net)) es \<Longrightarrow> sends net env d sid (bindC (askC q) f) es"
  by (rule sendsI) (auto simp: bindC_Inr askC_def dest: sendsD)

lemma sends_lift:
  "(\<And>x. r = Inr x \<Longrightarrow> sends net env d sid (f x) es) \<Longrightarrow> sends net env d sid (bindC (liftC r) f) es"
  by (rule sendsI) (auto simp: bindC_Inr liftC_def dest: sendsD)

lemma sends_now:
  assumes "\<And>n. sends net env d sid (f (now env n)) es"
  shows "sends net env d sid (bindC (storeC time_Now) f) es"
proof (rule sendsI)
  fix k k'
  assume k: "w_db (k_world k) = d" "sid \<in> set (k_cache k)"
    and "bindC (storeC time_Now) f net env k = (Inr (), k')"
  then have "f (now env (w_clock (k_world k))) net env
      (k\<lparr>k_world := (k_world k)\<lparr>w_clock := Suc (w_clock (k_world k))\<rparr>\<rparr>) = (Inr (), k')"
    by (auto simp: bindC_Inr storeC_Inr time_Now_def)
  from sendsD[OF assms _ _ this] k
  show "w_db (k_world k') = d \<and> sid \<in> set (k_cache k') \<and> inbox sid k' = inbox sid k @ es"
    by (simp add: inbox_def)
qed

context read_query
begin

lemma sends_query:
  assumes "\<And>x. answer q d = Inr x \<Longrightarrow> sends net env d sid (f x) es"
  shows "sends net env d sid (bindC (storeC (ask q)) f) es"
proof (rule sendsI)
  fix k k'
  assume k: "w_db (k_world k) = d" "sid \<in> set (k_cache k)"
    and "bindC (storeC (ask q)) f net env k = (Inr (), k')"
  then obtain x w where ask: "ask q env (k_world k) = (Inr x, w)" and f: "f x net env (k\<lparr>k_world := w\<rparr>) = (Inr (), k')"
    by (auto simp: bindC_Inr storeC_Inr)
  from reads[OF ask] k have x: "answer q d = Inr x" "w_db w = d" by auto
  from sendsD[OF assms[OF x(1)] _ _ f] k x(2)
  show "w_db (k_world k') = d \<and> sid \<in> set (k_cache k') \<and> inbox sid k' = inbox sid k @ es"
    by (simp add: inbox_def)
qed

end

section \<open>One event for one check\<close>

text \<open>
  What a session is shown of a check: the monitor of version 1 or the check. When neither can be made,
  the event fails and nothing is sent.
\<close>

definition shown :: "net \<Rightarrow> ProbeSession \<Rightarrow> CheckWithSlug \<Rightarrow> payload" where
  "shown net s c =
     (case n_older net (s_Version s) ''0.9.1'' of
        None \<Rightarrow> PCheck c
      | Some old \<Rightarrow> (case event_payload (n_floats net) old c of Inl e \<Rightarrow> PCheck c | Inr pl \<Rightarrow> pl))"

text \<open>
  The socket \<open>sid\<close> is the session at position \<open>pos\<close> of probe \<open>P\<close> and no other session of a probe,
  lives on this instance, and the sessions of every probe stay \<open>sess\<close> whenever the clock is read.
\<close>

definition connected :: "net \<Rightarrow> env \<Rightarrow> db \<Rightarrow> (int \<Rightarrow> ProbeSession list) \<Rightarrow> string \<Rightarrow> int \<Rightarrow> nat \<Rightarrow> bool" where
  "connected net env d sess sid P pos \<longleftrightarrow>
     (\<forall>p n. sessions_where p [] (now env n - 2 * heartbeatInterval) d = sess p) \<and>
     P \<noteq> 0 \<and> pos < length (sess P) \<and> s_SocketId (sess P ! pos) = sid \<and>
     s_InstanceId (sess P ! pos) = n_instance net \<and> (\<forall>n. \<not> n_refuses net n) \<and>
     (\<forall>p i. p \<noteq> 0 \<longrightarrow> i < length (sess p) \<longrightarrow> s_SocketId (sess p ! i) = sid \<longrightarrow> p = P \<and> i = pos)"

lemma connectedD:
  assumes "connected net env d sess sid P pos"
  shows "sessions_where p [] (now env n - 2 * heartbeatInterval) d = sess p" and "P \<noteq> 0"
    and "pos < length (sess P)" and "s_SocketId (sess P ! pos) = sid"
    and "s_InstanceId (sess P ! pos) = n_instance net" and "\<not> n_refuses net m"
    and "p \<noteq> 0 \<Longrightarrow> i < length (sess p) \<Longrightarrow> s_SocketId (sess p ! i) = sid \<Longrightarrow> p = P \<and> i = pos"
  using assms by (auto simp: connected_def)

definition mine :: "(int \<Rightarrow> ProbeSession list) \<Rightarrow> int \<Rightarrow> nat \<Rightarrow> int \<Rightarrow> bool" where
  "mine sess P pos cid \<longleftrightarrow> go_rem cid (int (length (sess P))) = Inr (int pos)"

lemma emit_accepted:
  assumes "\<And>n. \<not> n_refuses net n"
  shows "ProbeSocket_emit s ev pl net env k =
     (Inr (), k\<lparr>k_emits := Suc (k_emits k), k_sent := k_sent k @ [(s, ev, pl)]\<rparr>)"
  using assms by (simp add: ProbeSocket_emit_def Let_def)

lemma sends_Cache_Emit:
  assumes "\<And>n. \<not> n_refuses net n"
  shows "sends net env d sid (Cache_Emit s ev pl) (if s = sid then [(ev, pl)] else [])"
  by (rule sendsI)
     (auto simp: Cache_Emit_def bindC_Inr getC_def tryC_def emit_accepted[OF assms] returnC_def inbox_def
        split: if_splits)

lemma older_than_Inr: "older_than v w net env k = (Inr b, k') \<longleftrightarrow> n_older net v w = Some b \<and> k' = k"
  by (auto simp: older_than_def bindC_Inr askC_def liftC_def split: option.splits)

lemma sends_older:
  "(\<And>b. n_older net v w = Some b \<Longrightarrow> sends net env d sid (f b) es) \<Longrightarrow>
   sends net env d sid (bindC (older_than v w) f) es"
  by (rule sendsI) (auto simp: bindC_Inr older_than_Inr dest: sendsD)

lemma sends_EmitCheckEvent:
  assumes con: "connected net env d sess sid P pos" and p: "p \<noteq> 0"
  shows "sends net env d sid (EmitCheckEvent p cid ev c)
     (if p = P \<and> mine sess P pos cid then [(ev, shown net (sess P ! pos) c)] else [])"
    (is "sends _ _ _ _ _ ?es")
  unfolding EmitCheckEvent_def
proof (rule sends_now)
  fix n
  let ?f = "\<lambda>sessions. if length sessions < 1 then returnC ()
     else bindC (liftC (go_rem cid (int (length sessions)))) (\<lambda>i.
          bindC (liftC (go_index sessions i)) (\<lambda>s.
          bindC (askC n_instance) (\<lambda>inst.
          if s_InstanceId s = inst then
            bindC (older_than (s_Version s) ''0.9.1'') (\<lambda>old.
            bindC (askC n_floats) (\<lambda>fl.
            bindC (liftC (event_payload fl old c)) (\<lambda>pl.
              Cache_Emit (s_SocketId s) ev pl)))
          else returnC ())))"
  note D = connectedD[OF con]
  have body: "sends net env d sid (?f (sess p)) ?es"
  proof (cases "sess p = []")
    case True
    moreover from this have "p \<noteq> P" using D(3) by auto
    ultimately show ?thesis by (simp add: sends_return)
  next
    case False
    have "sends net env d sid (bindC (liftC (go_index (sess p) i)) (\<lambda>s.
          bindC (askC n_instance) (\<lambda>inst.
          if s_InstanceId s = inst then
            bindC (older_than (s_Version s) ''0.9.1'') (\<lambda>old.
            bindC (askC n_floats) (\<lambda>fl.
            bindC (liftC (event_payload fl old c)) (\<lambda>pl.
              Cache_Emit (s_SocketId s) ev pl)))
          else returnC ()))) ?es" if rem: "go_rem cid (int (length (sess p))) = Inr i" for i
    proof (rule sends_lift)
      fix s assume s: "go_index (sess p) i = Inr s"
      then have i: "0 \<le> i" "nat i < length (sess p)" "s = sess p ! nat i"
        by (auto simp: go_index_def split: if_splits)
      have hit: "s_SocketId s = sid \<longleftrightarrow> p = P \<and> mine sess P pos cid"
        using D(4) D(7)[OF p i(2)] i(1,3) rem by (auto simp: mine_def)
      show "sends net env d sid (bindC (askC n_instance) (\<lambda>inst.
          if s_InstanceId s = inst then
            bindC (older_than (s_Version s) ''0.9.1'') (\<lambda>old.
            bindC (askC n_floats) (\<lambda>fl.
            bindC (liftC (event_payload fl old c)) (\<lambda>pl.
              Cache_Emit (s_SocketId s) ev pl)))
          else returnC ())) ?es"
      proof (rule sends_ask, cases "s_InstanceId s = n_instance net")
        case True
        have "sends net env d sid (Cache_Emit (s_SocketId s) ev pl) ?es"
          if "n_older net (s_Version s) ''0.9.1'' = Some old" "event_payload (n_floats net) old c = Inr pl" for old pl
        proof (cases "s_SocketId s = sid")
          case True
          with hit have h: "p = P" "mine sess P pos cid" by auto
          then have "s = sess P ! pos" using D(7)[OF p i(2)] i(3) True by auto
          with that h True sends_Cache_Emit[OF D(6), of env d sid sid ev pl] show ?thesis
            by (simp add: shown_def)
        next
          case False
          with hit sends_Cache_Emit[OF D(6), of env d sid "s_SocketId s" ev pl] show ?thesis by auto
        qed
        with True show "sends net env d sid (if s_InstanceId s = n_instance net then
            bindC (older_than (s_Version s) ''0.9.1'') (\<lambda>old.
            bindC (askC n_floats) (\<lambda>fl.
            bindC (liftC (event_payload fl old c)) (\<lambda>pl.
              Cache_Emit (s_SocketId s) ev pl)))
          else returnC ()) ?es"
          by (simp add: sends_older sends_ask sends_lift)
      next
        case False
        then have "s_SocketId s \<noteq> sid" using D(5) D(7)[OF p i(2)] i(3) by auto
        with hit False show "sends net env d sid (if s_InstanceId s = n_instance net then
            bindC (older_than (s_Version s) ''0.9.1'') (\<lambda>old.
            bindC (askC n_floats) (\<lambda>fl.
            bindC (liftC (event_payload fl old c)) (\<lambda>pl.
              Cache_Emit (s_SocketId s) ev pl)))
          else returnC ()) ?es"
          by (auto simp: sends_return)
      qed
    qed
    with False show ?thesis by (simp add: sends_lift)
  qed
  show "sends net env d sid
     (bindC (storeC (GetProbeSessions p [] (now env n - 2 * heartbeatInterval))) ?f) ?es"
    using live_sessions.sends_query[of "(p, now env n)" d net env sid ?f ?es] body
    by (simp add: D(1))
qed

definition messages_of ::
  "net \<Rightarrow> db \<Rightarrow> (int \<Rightarrow> ProbeSession list) \<Rightarrow> int \<Rightarrow> nat \<Rightarrow> string \<Rightarrow> string \<Rightarrow> Check \<Rightarrow> int list \<Rightarrow>
   (string \<times> payload) list" where
  "messages_of net d sess P pos ev slug c ps =
     (if mine sess P pos (c_Id c)
      then replicate (count_list ps P) (ev, shown net (sess P ! pos) \<lparr>cs_Check = c, cs_Slug = slug\<rparr>) else [])"

lemma sends_emit_to:
  assumes "connected net env d sess sid P pos" and "0 \<notin> set ps"
  shows "sends net env d sid (emit_to ev slug c ps) (messages_of net d sess P pos ev slug c ps)"
proof -
  let ?c = "\<lparr>cs_Check = c, cs_Slug = slug\<rparr>"
  let ?g = "\<lambda>p. if p = P \<and> mine sess P pos (c_Id c) then [(ev, shown net (sess P ! pos) ?c)] else []"
  have "concat (map ?g ps) = messages_of net d sess P pos ev slug c ps"
    by (induction ps) (auto simp: messages_of_def)
  moreover have "sends net env d sid (emit_to ev slug c ps) (concat (map ?g ps))"
    unfolding emit_to_def
    by (rule sends_for_each, rule sends_EmitCheckEvent[OF assms(1)]) (use assms(2) in auto)
  ultimately show ?thesis by simp
qed

section \<open>What a probe holds\<close>

text \<open>
  The messages a probe gets tell it which checks to run: \<open>created\<close> and \<open>updated\<close> give it one,
  \<open>removed\<close> takes one away, \<open>refresh\<close> replaces them all.
\<close>

definition payload_Id :: "payload \<Rightarrow> int" where
  "payload_Id pl = (case pl of PCheck c \<Rightarrow> c_Id (cs_Check c) | PMonitor m \<Rightarrow> m_Id m | _ \<Rightarrow> 0)"

definition payload_items :: "payload \<Rightarrow> payload list" where
  "payload_items pl = (case pl of PChecks cs \<Rightarrow> map PCheck cs | PMonitors ms \<Rightarrow> map PMonitor ms | _ \<Rightarrow> [])"

definition receive :: "string \<times> payload \<Rightarrow> (int \<rightharpoonup> payload) \<Rightarrow> (int \<rightharpoonup> payload)" where
  "receive m h =
     (if fst m = ''created'' \<or> fst m = ''updated'' then h(payload_Id (snd m) \<mapsto> snd m)
      else if fst m = ''removed'' then h(payload_Id (snd m) := None)
      else if fst m = ''refresh'' then map_of (map (\<lambda>x. (payload_Id x, x)) (payload_items (snd m)))
      else h)"

text \<open>The effect of events on one check.\<close>

definition about :: "int \<Rightarrow> (string \<times> payload) list \<Rightarrow> (string \<times> payload) list" where
  "about i = filter (\<lambda>m. payload_Id (snd m) = i)"

lemma about_simps [simp]:
  "about i [] = []" "about i (es @ fs) = about i es @ about i fs" "about i (concat ess) = concat (map (about i) ess)"
  "about i (replicate n m) = (if payload_Id (snd m) = i then replicate n m else [])"
  by (simp_all add: about_def filter_concat)

definition event_messages :: "(string \<times> payload) list \<Rightarrow> bool" where
  "event_messages es \<longleftrightarrow> fst ` set es \<subseteq> {''created'', ''updated'', ''removed''}"

lemma receive_about:
  assumes "event_messages es"
  shows "fold receive es h i = fold receive (about i es) h i"
proof -
  have "fold receive es h i = fold receive (about i es) h' i" if "h i = h' i" for h h'
    using assms that
  proof (induction es arbitrary: h h')
    case (Cons m es)
    have es: "event_messages es" and m: "fst m \<in> {''created'', ''updated'', ''removed''}"
      using Cons.prems(1) by (auto simp: event_messages_def)
    show ?case
    proof (cases "payload_Id (snd m) = i")
      case True
      then have "receive m h i = receive m h' i" using m by (auto simp: receive_def)
      with Cons.IH[OF es] True show ?thesis by (simp add: about_def)
    next
      case False
      then have "receive m h i = h' i" using m Cons.prems(2) by (auto simp: receive_def)
      with Cons.IH[OF es] False show ?thesis by (simp add: about_def)
    qed
  qed (simp add: about_def)
  then show ?thesis by simp
qed

lemma receive_replicate:
  "fold receive (replicate n m) h = (if n = 0 then h else receive m h)"
proof -
  have "receive m (receive m h) = receive m h" for h by (auto simp: receive_def)
  then have "fold receive (replicate n m) (receive m h) = receive m h" for n
    by (induction n) simp_all
  then show ?thesis by (cases n) simp_all
qed

lemma MonitorDTOFromCheck_Id: "MonitorDTOFromCheck fl c slug = Inr m \<Longrightarrow> m_Id m = c_Id c"
  by (auto simp: MonitorDTOFromCheck_def bind_res_Inr_iff Let_def split: if_splits)

lemma shown_Id [simp]: "payload_Id (shown net s c) = c_Id (cs_Check c)"
  by (auto simp: shown_def event_payload_def MonitorDTOFromCheckWithSlug_def bind_res_Inr_iff payload_Id_def
      dest: MonitorDTOFromCheck_Id split: option.splits sum.splits if_splits)

section \<open>Created, updated and removed checks\<close>

lemma about_messages_of [simp]:
  "about i (messages_of net d sess P pos ev slug c ps) =
     (if c_Id c = i then messages_of net d sess P pos ev slug c ps else [])"
  by (simp add: messages_of_def)

lemma messages_of_events:
  "ev \<in> {''created'', ''updated'', ''removed''} \<Longrightarrow> event_messages (messages_of net d sess P pos ev slug c ps)"
  by (auto simp: messages_of_def event_messages_def)

text \<open>No route leads to the probe id 0.\<close>

definition routed_ok :: "db \<Rightarrow> Check \<Rightarrow> bool" where
  "routed_ok d c \<longleftrightarrow> (\<forall>ps. probes_for c d = Inr ps \<longrightarrow> 0 \<notin> set ps)"

lemma sends_emit_check:
  assumes "connected net env d sess sid P pos" and "routed_ok d c"
  shows "sends net env d sid (emit_check ev slug c)
     (messages_of net d sess P pos ev slug c (projr (probes_for c d)))"
  unfolding emit_check_def
proof (rule check_probes.sends_query)
  fix ps assume "probes_for c d = Inr ps"
  with assms sends_emit_to[OF assms(1), of ps ev slug c]
  show "sends net env d sid (emit_to ev slug c ps) (messages_of net d sess P pos ev slug c (projr (probes_for c d)))"
    by (simp add: routed_ok_def messages_of_def)
qed

definition change_messages ::
  "net \<Rightarrow> db \<Rightarrow> (int \<Rightarrow> ProbeSession list) \<Rightarrow> int \<Rightarrow> nat \<Rightarrow> EndpointDTO \<Rightarrow> EndpointDTO \<Rightarrow> Check \<Rightarrow>
   (string \<times> payload) list" where
  "change_messages net d sess P pos prev current c =
     (let ps = projr (probes_for c d);
          old = projr (probes_for (the (map_of (old_checks prev) (c_Id c))) d)
      in messages_of net d sess P pos ''updated'' (ed_Slug current) c ps @
         messages_of net d sess P pos ''removed'' (ed_Slug prev) c (filter (\<lambda>p. p \<notin> set ps) old))"

lemma sends_emit_changed:
  assumes con: "connected net env d sess sid P pos" and new: "routed_ok d c"
    and old: "routed_ok d (the (map_of (old_checks prev) (c_Id c)))"
  shows "sends net env d sid (emit_changed prev current c) (change_messages net d sess P pos prev current c)"
  unfolding emit_changed_def change_messages_def Let_def
proof (rule check_probes.sends_query)
  fix ps assume ps: "probes_for c d = Inr ps"
  let ?old = "the (map_of (old_checks prev) (c_Id c))"
  let ?gone = "\<lambda>qs. filter (\<lambda>p. p \<notin> set ps) qs"
  have first: "sends net env d sid (emit_to ''updated'' (ed_Slug current) c ps)
      (messages_of net d sess P pos ''updated'' (ed_Slug current) c ps)"
    using new ps by (intro sends_emit_to[OF con]) (simp add: routed_ok_def)
  have "sends net env d sid (bindC (storeC (GetProbesForCheck ?old)) (\<lambda>qs.
      emit_to ''removed'' (ed_Slug prev) c (?gone qs)))
    (messages_of net d sess P pos ''removed'' (ed_Slug prev) c (?gone (projr (probes_for ?old d))))"
  proof (rule check_probes.sends_query)
    fix qs assume "probes_for ?old d = Inr qs"
    with old show "sends net env d sid (emit_to ''removed'' (ed_Slug prev) c (?gone qs))
        (messages_of net d sess P pos ''removed'' (ed_Slug prev) c (?gone (projr (probes_for ?old d))))"
      using sends_emit_to[OF con, of "?gone qs" "''removed''" "ed_Slug prev" c] by (simp add: routed_ok_def)
  qed
  from sends_then[OF first this] show "sends net env d sid
     (thenC (emit_to ''updated'' (ed_Slug current) c ps)
       (bindC (storeC (GetProbesForCheck ?old)) (\<lambda>qs. emit_to ''removed'' (ed_Slug prev) c (?gone qs))))
     (messages_of net d sess P pos ''updated'' (ed_Slug current) c (projr (probes_for c d)) @
      messages_of net d sess P pos ''removed'' (ed_Slug prev) c
        (filter (\<lambda>p. p \<notin> set (projr (probes_for c d))) (projr (probes_for ?old d))))"
    by (simp add: ps)
qed

text \<open>The lists the handler sorts the checks into.\<close>

definition check_of :: "int \<Rightarrow> Check list \<Rightarrow> Check option" where
  "check_of i cs = List.find (\<lambda>c. c_Enabled c \<and> c_Id c = i) cs"

lemma check_of_iff:
  assumes "distinct (map c_Id cs)"
  shows "check_of i cs = Some c \<longleftrightarrow> c \<in> set cs \<and> c_Enabled c \<and> c_Id c = i"
proof
  assume r: "c \<in> set cs \<and> c_Enabled c \<and> c_Id c = i"
  then obtain b where b: "check_of i cs = Some b"
    by (cases "check_of i cs") (auto simp: check_of_def find_None_iff)
  then have "b \<in> set cs \<and> c_Id b = i" unfolding check_of_def by (auto dest!: find_Some_in)
  with r b distinct_map_unique[OF assms] show "check_of i cs = Some c" by metis
qed (unfold check_of_def, auto dest!: find_Some_in)

lemma check_of_None: "check_of i cs = None \<longleftrightarrow> i \<notin> c_Id ` set (filter c_Enabled cs)"
  by (auto simp: check_of_def find_None_iff)

lemma find_filter: "List.find R (filter Q xs) = List.find (\<lambda>x. Q x \<and> R x) xs"
  by (induction xs) auto

lemma map_of_old_checks:
  assumes "distinct (map c_Id (ed_Checks prev))"
  shows "map_of (old_checks prev) i = check_of i (ed_Checks prev)"
proof -
  have "map_of (fold (\<lambda>c. AList.update (c_Id c) c) cs m) i =
      (case List.find (\<lambda>c. c_Id c = i) cs of None \<Rightarrow> map_of m i | Some c \<Rightarrow> Some c)"
    if "distinct (map c_Id cs)" for cs :: "Check list" and m
    using that
  proof (induction cs arbitrary: m)
    case (Cons c cs)
    then show ?case by (cases "c_Id c = i") (auto simp: update_conv' find_None_iff split: option.splits dest!: find_Some_in, metis imageI)
  qed simp
  from this[of "filter c_Enabled (ed_Checks prev)" "[]"] assms
  have "map_of (old_checks prev) i = List.find (\<lambda>c. c_Id c = i) (filter c_Enabled (ed_Checks prev))"
    by (auto simp: old_checks_def distinct_map_filter split: option.splits)
  also have "\<dots> = check_of i (ed_Checks prev)"
    by (simp add: check_of_def find_filter)
  finally show ?thesis .
qed

lemma old_checks_values:
  assumes "distinct (map c_Id (ed_Checks prev))"
  shows "snd ` set (old_checks prev) = set (filter c_Enabled (ed_Checks prev))"
    and "distinct (map fst (old_checks prev))" and "\<forall>(i, c) \<in> set (old_checks prev). c_Id c = i"
proof -
  have g: "distinct (map fst (fold (\<lambda>c. AList.update (c_Id c) c) cs m))" if "distinct (map fst m)" for cs and m :: "(int, Check) gomap"
    using that by (induction cs arbitrary: m) (simp_all add: distinct_update)
  then show dist: "distinct (map fst (old_checks prev))" by (simp add: old_checks_def)
  have m: "(i, c) \<in> set (old_checks prev) \<longleftrightarrow> check_of i (ed_Checks prev) = Some c" for i c
    using map_of_old_checks[OF assms] dist by (metis map_of_eq_Some_iff)
  have "set (old_checks prev) = (\<lambda>c. (c_Id c, c)) ` set (filter c_Enabled (ed_Checks prev))"
    unfolding set_eq_iff split_paired_All m check_of_iff[OF assms] by auto
  then show "snd ` set (old_checks prev) = set (filter c_Enabled (ed_Checks prev))"
    and "\<forall>(i, c) \<in> set (old_checks prev). c_Id c = i"
    by (simp_all add: image_image)
qed

section \<open>An update event moves the probe to its new share\<close>

lemma pick_one:
  assumes "distinct (map c_Id cs)"
  shows "concat (map (\<lambda>c. if c_Id c = i then g c else []) cs) =
     (case List.find (\<lambda>c. c_Id c = i) cs of None \<Rightarrow> [] | Some c \<Rightarrow> g c)"
proof -
  have none: "concat (map (\<lambda>c. if c_Id c = i then g c else []) cs) = []" if "i \<notin> c_Id ` set cs" for cs
    using that by (induction cs) auto
  from assms show ?thesis
  proof (induction cs)
    case (Cons c cs)
    then show ?case using none[of cs] by auto
  qed simp
qed

definition update_messages ::
  "net \<Rightarrow> db \<Rightarrow> (int \<Rightarrow> ProbeSession list) \<Rightarrow> int \<Rightarrow> nat \<Rightarrow> EndpointDTO \<Rightarrow> EndpointDTO \<Rightarrow> (string \<times> payload) list" where
  "update_messages net d sess P pos prev current =
     concat (map (change_messages net d sess P pos prev current) (changed_checks prev current)) @
     concat (map (\<lambda>c. messages_of net d sess P pos ''created'' (ed_Slug current) c (projr (probes_for c d)))
       (new_checks prev current)) @
     concat (map (\<lambda>c. messages_of net d sess P pos ''removed'' (ed_Slug prev) c (projr (probes_for c d)))
       (removed_checks net prev current))"

text \<open>The checks of an endpoint are stored once, their routes lead to stored probes, the map is walked in some order.\<close>

definition update_ok :: "net \<Rightarrow> db \<Rightarrow> EndpointDTO \<Rightarrow> EndpointDTO \<Rightarrow> bool" where
  "update_ok net d prev current \<longleftrightarrow>
     distinct (map c_Id (ed_Checks prev)) \<and> distinct (map c_Id (ed_Checks current)) \<and>
     (\<forall>c\<in>set (ed_Checks prev) \<union> set (ed_Checks current). routed_ok d c) \<and>
     (\<forall>m. mset (n_order net m) = mset m)"

lemma removed_checks_set:
  assumes "update_ok net d prev current"
  shows "c \<in> set (removed_checks net prev current) \<longleftrightarrow>
      c \<in> set (ed_Checks prev) \<and> c_Enabled c \<and> c_Id c \<notin> c_Id ` set (filter c_Enabled (ed_Checks current))"
    and "distinct (map c_Id (removed_checks net prev current))"
proof -
  have d: "distinct (map c_Id (ed_Checks prev))" and o: "mset (n_order net (old_checks prev)) = mset (old_checks prev)"
    using assms by (auto simp: update_ok_def)
  have s: "snd ` set (n_order net (old_checks prev)) = set (filter c_Enabled (ed_Checks prev))"
    using old_checks_values(1)[OF d] mset_eq_setD[OF o] by simp
  then show "c \<in> set (removed_checks net prev current) \<longleftrightarrow>
      c \<in> set (ed_Checks prev) \<and> c_Enabled c \<and> c_Id c \<notin> c_Id ` set (filter c_Enabled (ed_Checks current))"
    by (auto simp: removed_checks_def)
  have ids: "map c_Id (map snd m) = map fst m" if "\<forall>(i, c)\<in>set m. c_Id c = i" for m
    using that by auto
  have "distinct (map fst (n_order net (old_checks prev)))"
    using old_checks_values(2)[OF d] o by (metis mset_map distinct_count_atmost_1 mset_eq_imp_distinct_iff)
  moreover have "map c_Id (map snd (n_order net (old_checks prev))) = map fst (n_order net (old_checks prev))"
    by (rule ids) (unfold mset_eq_setD[OF o], rule old_checks_values(3)[OF d])
  ultimately have "distinct (map c_Id (map snd (n_order net (old_checks prev))))" by (simp only:)
  then show "distinct (map c_Id (removed_checks net prev current))"
    unfolding removed_checks_def by (rule distinct_map_filter)
qed

lemma sends_HandleEndpointUpdated:
  assumes con: "connected net env d sess sid P pos" and ok: "update_ok net d prev current"
  shows "sends net env d sid (HandleEndpointUpdated prev current) (update_messages net d sess P pos prev current)"
  unfolding HandleEndpointUpdated_def update_messages_def
proof (intro sends_then sends_ask sends_for_each)
  have d: "distinct (map c_Id (ed_Checks prev))"
    and r: "\<And>c. c \<in> set (ed_Checks prev) \<or> c \<in> set (ed_Checks current) \<Longrightarrow> routed_ok d c"
    using ok by (auto simp: update_ok_def)
  show "sends net env d sid (emit_changed prev current c) (change_messages net d sess P pos prev current c)"
    if "c \<in> set (changed_checks prev current)" for c
  proof (rule sends_emit_changed[OF con])
    from that show "routed_ok d c" by (auto simp: changed_checks_def touched_checks_def intro: r)
    from that obtain b where b: "map_of (old_checks prev) (c_Id c) = Some b" by (auto simp: changed_checks_def)
    then have "b \<in> set (ed_Checks prev)" using map_of_old_checks[OF d] check_of_iff[OF d] by metis
    with b show "routed_ok d (the (map_of (old_checks prev) (c_Id c)))" by (simp add: r)
  qed
  show "sends net env d sid (emit_check ''created'' (ed_Slug current) c)
      (messages_of net d sess P pos ''created'' (ed_Slug current) c (projr (probes_for c d)))"
    if "c \<in> set (new_checks prev current)" for c
    using that by (intro sends_emit_check[OF con]) (auto simp: new_checks_def touched_checks_def intro: r)
  show "sends net env d sid (emit_check ''removed'' (ed_Slug prev) c)
      (messages_of net d sess P pos ''removed'' (ed_Slug prev) c (projr (probes_for c d)))"
    if "c \<in> set (removed_checks net prev current)" for c
    using that by (intro sends_emit_check[OF con]) (auto simp: removed_checks_set[OF ok] intro: r)
qed

text \<open>
  What the probe should run of one check of the endpoint: the check, shown to its session, when it is
  enabled, routed to the probe, and in the share of the session.
\<close>

definition runs_on :: "db \<Rightarrow> int \<Rightarrow> Check \<Rightarrow> bool" where
  "runs_on d P c \<longleftrightarrow> P \<in> set (projr (probes_for c d))"

definition wanted ::
  "net \<Rightarrow> db \<Rightarrow> (int \<Rightarrow> ProbeSession list) \<Rightarrow> int \<Rightarrow> nat \<Rightarrow> (Check \<Rightarrow> string) \<Rightarrow> Check list \<Rightarrow> int \<rightharpoonup> payload" where
  "wanted net d sess P pos slug cs i =
     (case check_of i cs of
        None \<Rightarrow> None
      | Some c \<Rightarrow> if runs_on d P c \<and> mine sess P pos i
                  then Some (shown net (sess P ! pos) \<lparr>cs_Check = c, cs_Slug = slug c\<rparr>) else None)"

lemma receive_messages_of:
  "fold receive (messages_of net d sess P pos ev slug c ps) h =
     (if mine sess P pos (c_Id c) \<and> P \<in> set ps
      then receive (ev, shown net (sess P ! pos) \<lparr>cs_Check = c, cs_Slug = slug\<rparr>) h else h)"
  by (auto simp: messages_of_def receive_replicate count_list_0_iff simp del: fold_replicate)

lemma receive_change_messages:
  assumes "map_of (old_checks prev) (c_Id c) = Some b"
  shows "fold receive (change_messages net d sess P pos prev current c) h (c_Id c) =
     (if mine sess P pos (c_Id c) \<and> runs_on d P c
      then Some (shown net (sess P ! pos) \<lparr>cs_Check = c, cs_Slug = ed_Slug current\<rparr>)
      else if mine sess P pos (c_Id c) \<and> runs_on d P b then None
      else h (c_Id c))"
  using assms by (simp add: change_messages_def Let_def receive_messages_of runs_on_def receive_def)

lemma find_id:
  assumes "distinct (map c_Id cs)"
  shows "List.find (\<lambda>c. c_Id c = i) cs = Some c \<longleftrightarrow> c \<in> set cs \<and> c_Id c = i"
proof
  assume r: "c \<in> set cs \<and> c_Id c = i"
  then obtain b where b: "List.find (\<lambda>c. c_Id c = i) cs = Some b"
    by (cases "List.find (\<lambda>c. c_Id c = i) cs") (auto simp: find_None_iff)
  with r find_Some_in[OF b] distinct_map_unique[OF assms] show "List.find (\<lambda>c. c_Id c = i) cs = Some c" by metis
qed (auto dest!: find_Some_in)

lemma find_sorted:
  assumes "distinct (map c_Id cs)"
  shows "List.find (\<lambda>c. c_Id c = i) (filter Q (filter (\<lambda>c. c_Enabled c \<and> R c) cs)) =
     (case check_of i cs of None \<Rightarrow> None | Some c \<Rightarrow> if R c \<and> Q c then Some c else None)"
proof (cases "check_of i cs")
  case None
  then have "i \<notin> c_Id ` set (filter c_Enabled cs)" by (simp only: check_of_None not_False_eq_True)
  with None show ?thesis by (auto simp: find_None_iff)
next
  case (Some c)
  then have c: "c \<in> set cs" "c_Enabled c" "c_Id c = i" using check_of_iff[OF assms] by auto
  have one: "x = c" if "x \<in> set cs" "c_Id x = i" for x using that c distinct_map_unique[OF assms] by metis
  have d: "distinct (map c_Id (filter Q (filter (\<lambda>c. c_Enabled c \<and> R c) cs)))"
    using assms by (simp add: distinct_map_filter)
  show ?thesis
  proof (cases "R c \<and> Q c")
    case True
    with c have "List.find (\<lambda>c. c_Id c = i) (filter Q (filter (\<lambda>c. c_Enabled c \<and> R c) cs)) = Some c"
      unfolding find_id[OF d] by simp
    with Some True show ?thesis by simp
  next
    case False
    with one have "i \<notin> c_Id ` set (filter Q (filter (\<lambda>c. c_Enabled c \<and> R c) cs))" by auto
    then have "List.find (\<lambda>c. c_Id c = i) (filter Q (filter (\<lambda>c. c_Enabled c \<and> R c) cs)) = None"
      unfolding find_None_iff by blast
    with Some False show ?thesis by simp
  qed
qed

lemma find_handled:
  fixes i :: int
  assumes ok: "update_ok net d prev current"
  defines "was \<equiv> check_of i (ed_Checks prev)" and "nxt \<equiv> check_of i (ed_Checks current)"
  shows "List.find (\<lambda>c. c_Id c = i) (changed_checks prev current) =
      (case nxt of None \<Rightarrow> None | Some c \<Rightarrow> if \<not> c_Updated c < ed_Updated current \<and> was \<noteq> None then Some c else None)"
    and "List.find (\<lambda>c. c_Id c = i) (new_checks prev current) =
      (case nxt of None \<Rightarrow> None | Some c \<Rightarrow> if \<not> c_Updated c < ed_Updated current \<and> was = None then Some c else None)"
    and "List.find (\<lambda>c. c_Id c = i) (removed_checks net prev current) = (if nxt = None then was else None)"
proof -
  have dp: "distinct (map c_Id (ed_Checks prev))" and dc: "distinct (map c_Id (ed_Checks current))"
    using ok by (auto simp: update_ok_def)
  have id: "c_Id c = i" if "check_of i (ed_Checks current) = Some c" for c
    using that check_of_iff[OF dc] by blast
  show "List.find (\<lambda>c. c_Id c = i) (changed_checks prev current) =
      (case nxt of None \<Rightarrow> None | Some c \<Rightarrow> if \<not> c_Updated c < ed_Updated current \<and> was \<noteq> None then Some c else None)"
    "List.find (\<lambda>c. c_Id c = i) (new_checks prev current) =
      (case nxt of None \<Rightarrow> None | Some c \<Rightarrow> if \<not> c_Updated c < ed_Updated current \<and> was = None then Some c else None)"
    unfolding changed_checks_def new_checks_def touched_checks_def find_sorted[OF dc] was_def nxt_def
    by (auto simp: map_of_old_checks[OF dp] id split: option.splits)
  show "List.find (\<lambda>c. c_Id c = i) (removed_checks net prev current) = (if nxt = None then was else None)"
  proof (cases "nxt = None \<and> was \<noteq> None")
    case True
    then obtain b where b: "was = Some b" by blast
    with True have "b \<in> set (removed_checks net prev current)" "c_Id b = i"
      by (auto simp: removed_checks_set(1)[OF ok] check_of_iff[OF dp] check_of_None was_def nxt_def)
    with True b show ?thesis by (simp add: find_id[OF removed_checks_set(2)[OF ok]])
  next
    case False
    then have "i \<notin> c_Id ` set (removed_checks net prev current)"
      by (auto simp: removed_checks_set(1)[OF ok] check_of_None was_def nxt_def)
    with False show ?thesis by (auto simp: find_None_iff)
  qed
qed

lemma about_update_messages:
  assumes ok: "update_ok net d prev current"
  shows "about i (update_messages net d sess P pos prev current) =
      (case List.find (\<lambda>c. c_Id c = i) (changed_checks prev current) of None \<Rightarrow> []
         | Some c \<Rightarrow> change_messages net d sess P pos prev current c) @
      (case List.find (\<lambda>c. c_Id c = i) (new_checks prev current) of None \<Rightarrow> []
         | Some c \<Rightarrow> messages_of net d sess P pos ''created'' (ed_Slug current) c (projr (probes_for c d))) @
      (case List.find (\<lambda>c. c_Id c = i) (removed_checks net prev current) of None \<Rightarrow> []
         | Some c \<Rightarrow> messages_of net d sess P pos ''removed'' (ed_Slug prev) c (projr (probes_for c d)))"
proof -
  have c: "about i (change_messages net d sess P pos prev current c) =
      (if c_Id c = i then change_messages net d sess P pos prev current c else [])" for c
    by (simp add: change_messages_def Let_def)
  have "distinct (map c_Id (changed_checks prev current))" "distinct (map c_Id (new_checks prev current))"
    using ok by (simp_all add: update_ok_def changed_checks_def new_checks_def touched_checks_def distinct_map_filter)
  then show ?thesis
    by (simp add: update_messages_def comp_def c pick_one removed_checks_set(2)[OF ok])
qed

lemma update_moves:
  assumes ok: "update_ok net d prev current"
    and kept: "\<And>c. c \<in> set (ed_Checks current) \<Longrightarrow> c_Enabled c \<Longrightarrow> c_Updated c < ed_Updated current \<Longrightarrow> c \<in> set (ed_Checks prev)"
    and h: "h i = wanted net d sess P pos (\<lambda>_. ed_Slug prev) (ed_Checks prev) i"
  shows "fold receive (update_messages net d sess P pos prev current) h i =
     wanted net d sess P pos (\<lambda>c. if c_Updated c < ed_Updated current then ed_Slug prev else ed_Slug current)
       (ed_Checks current) i"
proof -
  have dp: "distinct (map c_Id (ed_Checks prev))" and dc: "distinct (map c_Id (ed_Checks current))"
    using ok by (auto simp: update_ok_def)
  have prev_id: "c_Id b = i" if "check_of i (ed_Checks prev) = Some b" for b
    using that by (simp add: check_of_iff[OF dp])
  note step = about_update_messages[OF ok] find_handled[OF ok]
  have "event_messages (update_messages net d sess P pos prev current)"
    by (auto simp: update_messages_def change_messages_def Let_def event_messages_def messages_of_def)
  from receive_about[OF this]
  have "fold receive (update_messages net d sess P pos prev current) h i =
      fold receive (about i (update_messages net d sess P pos prev current)) h i" .
  also have "\<dots> = wanted net d sess P pos
      (\<lambda>c. if c_Updated c < ed_Updated current then ed_Slug prev else ed_Slug current) (ed_Checks current) i"
  proof (cases "check_of i (ed_Checks current)")
    case None
    then show ?thesis
      using h prev_id
      by (auto simp: step wanted_def receive_messages_of runs_on_def receive_def split: option.splits)
  next
    case (Some c)
    then have c: "c \<in> set (ed_Checks current)" "c_Enabled c" "c_Id c = i" by (auto simp: check_of_iff[OF dc])
    show ?thesis
    proof (cases "c_Updated c < ed_Updated current \<or> check_of i (ed_Checks prev) = None")
      case True
      then have "check_of i (ed_Checks prev) = Some c" if "c_Updated c < ed_Updated current"
        using that c kept[OF c(1,2)] by (simp add: check_of_iff[OF dp])
      with True Some c h show ?thesis
        by (auto simp: step wanted_def receive_messages_of runs_on_def receive_def)
    next
      case False
      then obtain b where b: "check_of i (ed_Checks prev) = Some b" by blast
      then show ?thesis
        using Some False h c receive_change_messages[of prev c b net d sess P pos current h]
        by (auto simp: step wanted_def map_of_old_checks[OF dp])
    qed
  qed
  finally show ?thesis .
qed

text \<open>
  C18. An update event moves every connected probe to the new endpoint: when a probe holds its share of
  the checks of the old endpoint and the handler ends without error, then after the messages the handler
  sent to its socket it holds exactly its share of the checks of the new one, neither one too many nor
  one too few, whatever checks were added, changed, enabled, disabled, rerouted or removed. An
  unchanged check keeps what the probe was shown of it. The probe's share are the enabled checks that are
  routed to it and whose id leaves its position when divided by the number of its sessions; the
  order in which Go walks the old checks does not matter.
\<close>

theorem endpoint_update_converges:
  assumes "connected net env d sess sid P pos" and "update_ok net d prev current"
    and "\<forall>c\<in>set (ed_Checks current). c_Enabled c \<longrightarrow> c_Updated c < ed_Updated current \<longrightarrow> c \<in> set (ed_Checks prev)"
    and "w_db (k_world k) = d" and "sid \<in> set (k_cache k)"
    and "HandleEndpointUpdated prev current net env k = (Inr (), k')"
    and "h i = wanted net d sess P pos (\<lambda>_. ed_Slug prev) (ed_Checks prev) i"
  shows "\<exists>es. inbox sid k' = inbox sid k @ es \<and>
     fold receive es h i =
       wanted net d sess P pos (\<lambda>c. if c_Updated c < ed_Updated current then ed_Slug prev else ed_Slug current)
         (ed_Checks current) i"
proof -
  have "inbox sid k' = inbox sid k @ update_messages net d sess P pos prev current"
    by (rule sendsD(3)[OF sends_HandleEndpointUpdated[OF assms(1,2)] assms(4,5,6)])
  with update_moves[where h = h and i = i, OF assms(2) _ assms(7)] assms(3) show ?thesis by blast
qed

section \<open>The share of a refresh\<close>

lemma find_position:
  assumes "pos < length ss" and "f (ss ! pos) = x" and "\<And>i. i < length ss \<Longrightarrow> f (ss ! i) = x \<Longrightarrow> i = pos"
  shows "List.find (\<lambda>(i, s). f s = x) (enumerate 0 ss) = Some (pos, ss ! pos)"
proof -
  have "enumerate 0 ss ! pos = (pos, ss ! pos)" using assms(1) by (simp add: nth_enumerate_eq)
  moreover have "f (ss ! i) \<noteq> x" if "i < pos" for i using that assms(1) assms(3)[of i] by auto
  ultimately show ?thesis
    using assms(1,2) by (auto simp: find_Some_iff nth_enumerate_eq intro!: exI[of _ pos])
qed

text \<open>The steps of a run, and the queries of a driver that answers.\<close>

lemma bindC_step: "m net env k = (Inr x, k1) \<Longrightarrow> bindC m f net env k = f x net env k1"
  by (simp add: bindC_def)

lemma query_answers: "\<not> faults env (w_calls w) \<Longrightarrow> query f env w = (Inr (f env (w_db w)), w\<lparr>w_calls := Suc (w_calls w)\<rparr>)"
  by (simp add: query_def stmt_def Let_def)

lemma slugged_answers:
  assumes "\<And>n. \<not> faults env n"
  shows "\<exists>n. GetProbeChecksWithEndpointSlug p env w = (Inr (slugged_checks (pd_Id p) (w_db w)), w\<lparr>w_calls := n\<rparr>)"
  using assms
  by (auto simp: GetProbeChecksWithEndpointSlug_def getProbeChecksWithEndpointSlug_def bindS_def query_answers
      returnS_def slugged_checks_def)

lemma refresh_body_run:
  assumes con: "connected net env d sess sid P pos" and p: "pd_Id (ps_Probe p) = P" "s_SocketId (ps_Session p) = sid"
    and v: "n_older net (s_Version (ps_Session p)) ''0.9.1'' = Some old" and nf: "\<And>n. \<not> faults env n"
    and pl: "refresh_payload (n_floats net) old (share (int (length (sess P))) (int pos) (slugged_checks P d)) = Inr pl"
    and k: "w_db (k_world k) = d"
  shows "\<exists>k'. refresh_body sid p net env k = (Inr (), k') \<and> inbox sid k' = inbox sid k @ [(''refresh'', pl)]"
proof -
  note D = connectedD[OF con]
  let ?w0 = "(k_world k)\<lparr>w_clock := Suc (w_clock (k_world k))\<rparr>"
  let ?t = "now env (w_clock (k_world k))"
  let ?w1 = "?w0\<lparr>w_calls := Suc (w_calls ?w0)\<rparr>"
  have ne: "sess P \<noteq> []" using D(3) by auto
  have find: "List.find (\<lambda>(i, s). s_SocketId s = sid) (enumerate 0 (sess P)) = Some (pos, sess P ! pos)"
    using find_position[where f = s_SocketId, OF D(3,4)] D(2) D(7)[of P] by blast
  obtain n where q: "GetProbeChecksWithEndpointSlug (ps_Probe p) env ?w1 = (Inr (slugged_checks P d), ?w1\<lparr>w_calls := n\<rparr>)"
    using slugged_answers[OF nf, of "ps_Probe p" ?w1] k p(1) by auto
  have "storeC time_Now net env k = (Inr ?t, k\<lparr>k_world := ?w0\<rparr>)"
    by (simp add: storeC_def time_Now_def)
  moreover have "tryC (storeC (GetProbeSessions P [] (?t - 2 * heartbeatInterval))) net env (k\<lparr>k_world := ?w0\<rparr>) =
      (Inr (Inr (sess P)), k\<lparr>k_world := ?w1\<rparr>)"
    using D(1)[of P "w_clock (k_world k)"] k
    by (simp add: tryC_def storeC_def GetProbeSessions_def getProbeSessions_def query_answers[OF nf])
  moreover have "tryC (storeC (GetProbeChecksWithEndpointSlug (ps_Probe p))) net env (k\<lparr>k_world := ?w1\<rparr>) =
      (Inr (Inr (slugged_checks P d)), k\<lparr>k_world := ?w1\<lparr>w_calls := n\<rparr>\<rparr>)"
    using q by (simp add: tryC_def storeC_def)
  ultimately show ?thesis
    using ne find v pl p
    by (simp add: refresh_body_def bindC_step older_than_def bindC_def askC_def liftC_def tryC_def returnC_def
        emit_accepted[OF D(6)] inbox_def)
qed

lemma map_res_ids:
  assumes "map_res (\<lambda>c. MonitorDTOFromCheck fl (cs_Check c) (cs_Slug c)) cs = Inr ms"
  shows "map m_Id ms = map (\<lambda>c. c_Id (cs_Check c)) cs"
  using assms by (induction cs arbitrary: ms) (auto simp: bind_res_Inr_iff dest: MonitorDTOFromCheck_Id)

lemma refresh_payload_ids:
  assumes "refresh_payload fl old cs = Inr pl"
  shows "payload_Id ` set (payload_items pl) = (\<lambda>c. c_Id (cs_Check c)) ` set cs"
proof (cases old)
  case True
  with assms obtain ms where ms: "map_res (\<lambda>c. MonitorDTOFromCheck fl (cs_Check c) (cs_Slug c)) cs = Inr ms"
    and pl: "pl = PMonitors ms" by (auto simp: refresh_payload_def bind_res_Inr_iff)
  have "m_Id ` set ms = (\<lambda>c. c_Id (cs_Check c)) ` set cs"
    using map_res_ids[OF ms] by (metis set_map)
  with pl show ?thesis by (simp add: payload_Id_def payload_items_def image_image)
next
  case False
  with assms show ?thesis by (auto simp: refresh_payload_def payload_Id_def payload_items_def image_image)
qed

lemma share_ids:
  assumes inv: "store_inv gone d" and c: "c \<in> set (t_check d)" "c_Enabled c"
  shows "c_Id c \<in> (\<lambda>x. c_Id (cs_Check x)) ` set (share n pos (slugged_checks P d)) \<longleftrightarrow>
     go_rem (c_Id c) n = Inr pos \<and> c_Id c \<in> set (probe_check_ids P d)"
proof -
  have ri: "route_inv {} gone (owners d) 0 d" using inv by (simp add: store_inv_def)
  from route_invD(2)[OF ri c(1)] have "(c_EndpointId c, c_OrgId c) \<in> owners d" by (simp add: check_ok_def)
  then obtain e where e: "e \<in> set (t_endpoint d)" "e_Id e = c_EndpointId c" by (auto simp: owners_def)
  show ?thesis
  proof
    assume r: "go_rem (c_Id c) n = Inr pos \<and> c_Id c \<in> set (probe_check_ids P d)"
    have "\<lparr>cs_Check = c, cs_Slug = e_Slug e\<rparr> \<in> set (share n pos (slugged_checks P d))"
      using c e r by (auto simp: share_def slugged_checks_def intro!: bexI[of _ c])
    from imageI[OF this, of "\<lambda>x. c_Id (cs_Check x)"]
    show "c_Id c \<in> (\<lambda>x. c_Id (cs_Check x)) ` set (share n pos (slugged_checks P d))" by simp
  qed (auto simp: share_def slugged_checks_def)
qed

text \<open>A socket that is not closed and not just refreshing.\<close>

definition idle :: "controller \<Rightarrow> string \<Rightarrow> ProbeSocket \<Rightarrow> bool" where
  "idle k sid p \<longleftrightarrow>
     map_of (k_objs k) sid = Some p \<and> s_SocketId (ps_Session p) = sid \<and> \<not> ps_closed p \<and> \<not> ps_refreshing p"

lemma Refresh_run:
  assumes "idle k sid p"
  shows "\<exists>k0. ProbeSocket_Refresh sid net env k =
       deferC (upd_socket sid (\<lambda>p. p\<lparr>ps_refreshing := False\<rparr>)) (refresh_body sid p) net env k0 \<and>
     w_db (k_world k0) = w_db (k_world k) \<and> k_sent k0 = k_sent k"
  using assms
  by (auto simp: idle_def ProbeSocket_Refresh_def the_socket_def socket_of_def bindC_def getC_def liftC_def storeC_def
      time_Now_def thenC_def modifyC_def upd_socket_def intro!: exI)

text \<open>
  C19. The refresh and the events agree on which session runs a check: with a driver and a socket library
  that answer, the refresh of a socket hands it one list of checks, and an enabled check of the store is
  in it exactly when an event for that check (created, updated or removed) is delivered to that socket.
  So an event never goes to a session other than the one the last refresh gave the check to.
\<close>

theorem refresh_matches_events:
  assumes "connected net env d sess sid P pos" and "\<forall>n. \<not> faults env n" and "store_inv gone d"
    and "c \<in> set (t_check d)" and "c_Enabled c" and "P \<in> p_Id ` set (t_probe d)" and "P \<notin> gone" and "routed_ok d c"
    and "idle k sid p" and "pd_Id (ps_Probe p) = P" and "n_older net (s_Version (ps_Session p)) ''0.9.1'' = Some old"
    and "refresh_payload (n_floats net) old (share (int (length (sess P))) (int pos) (slugged_checks P d)) = Inr pl"
    and "w_db (k_world k) = d" and "sid \<in> set (k_cache k)" and "emit_check ev slug c net env k = (Inr (), k2)"
  shows "\<exists>k1. ProbeSocket_Refresh sid net env k = (Inr (), k1) \<and> inbox sid k1 = inbox sid k @ [(''refresh'', pl)] \<and>
     (c_Id c \<in> payload_Id ` set (payload_items pl) \<longleftrightarrow> inbox sid k2 \<noteq> inbox sid k)"
proof -
  have nf: "\<And>n. \<not> faults env n" using assms(2) by blast
  obtain k0 where k0: "ProbeSocket_Refresh sid net env k =
       deferC (upd_socket sid (\<lambda>p. p\<lparr>ps_refreshing := False\<rparr>)) (refresh_body sid p) net env k0"
     "w_db (k_world k0) = d" "k_sent k0 = k_sent k"
    using Refresh_run[OF assms(9), of net env] assms(13) by auto
  have s: "s_SocketId (ps_Session p) = sid" using assms(9) by (simp add: idle_def)
  obtain k1 where k1: "refresh_body sid p net env k0 = (Inr (), k1)" "inbox sid k1 = inbox sid k0 @ [(''refresh'', pl)]"
    using refresh_body_run[OF assms(1,10) s assms(11) nf assms(12) k0(2)] by blast
  obtain r where r: "c_Route c = Some r"
    and ps: "\<exists>ps. probes_for c d = Inr ps \<and>
      (r_Type r = RouteByTags \<and> (\<exists>ts. config_tags r = Inr ts \<and> ps = probes_with_tags (c_OrgId c) ts d) \<or>
       r_Type r = RouteByIds \<and> config_ids r = Inr ps)"
    using assms(15) unfolding emit_check_def
    by (auto simp: bindC_Inr storeC_Inr probes_for_def bind_res_Inr_iff route_of_def assms(13) split: option.splits if_splits
        dest!: check_probes.reads)
  have runs: "P \<in> set (projr (probes_for c d)) \<longleftrightarrow> c_Id c \<in> set (probe_check_ids P d)"
    using ps assms(6) unfolding route_by_index[OF assms(3-5,7) r] by (auto simp: in_probes_with_tags)
  have "inbox sid k2 = inbox sid k @ messages_of net d sess P pos ev slug c (projr (probes_for c d))"
    by (rule sendsD(3)[OF sends_emit_check[OF assms(1,8)] assms(13,14,15)])
  then have "inbox sid k2 \<noteq> inbox sid k \<longleftrightarrow> mine sess P pos (c_Id c) \<and> c_Id c \<in> set (probe_check_ids P d)"
    using runs by (simp add: messages_of_def count_list_0_iff)
  also have "\<dots> \<longleftrightarrow> c_Id c \<in> payload_Id ` set (payload_items pl)"
    unfolding refresh_payload_ids[OF assms(12)] share_ids[OF assms(3-5)] by (simp add: mine_def)
  finally show ?thesis
    using k0 k1 by (auto simp: deferC_def upd_socket_def inbox_def)
qed

section \<open>A connected probe\<close>

definition still_env :: env where
  "still_env = plain_env\<lparr>now := (\<lambda>_. 1000 * second)\<rparr>"

definition live_session :: ProbeSession where
  "live_session = \<lparr>s_Id = 1, s_OrgId = 1, s_ProbeId = 7, s_SocketId = ''s1'', s_Version = ''1.0'',
     s_InstanceId = ''i'', s_RemoteIp = [], s_Updated = 1000 * second\<rparr>"

definition quiet_net :: net where
  "quiet_net = \<lparr>n_instance = ''i'', n_older = (\<lambda>v w. Some False), n_refuses = (\<lambda>n. False),
     n_floats = whole_floats, n_order = (\<lambda>m. m)\<rparr>"

definition live_socket :: ProbeSocket where
  "live_socket = NewProbeSocket 1 probe7_dto live_session"

definition live_check :: Check where
  "live_check = ping\<lparr>c_Id := 1, c_OrgId := 1, c_EndpointId := 1,
     c_Route := Some \<lparr>r_Type = RouteByIds, r_Config = [(''ids'', CInts [7, 8])]\<rparr>\<rparr>"

definition live_db :: db where
  "live_db = empty_db\<lparr>
     t_endpoint := [\<lparr>e_Id = 1, e_OrgId = 1, e_Name = ''w'', e_Slug = ''w'', e_Created = 0, e_Updated = 0\<rparr>],
     t_check := [live_check],
     t_route_id := [\<lparr>ri_ProbeId = 7, ri_CheckId = 1, ri_Created = 0\<rparr>, \<lparr>ri_ProbeId = 8, ri_CheckId = 1, ri_Created = 0\<rparr>],
     t_probe := [probe7], t_probe_session := [live_session]\<rparr>"

definition live_world :: world where
  "live_world = start\<lparr>w_db := live_db\<rparr>"

definition live_controller :: controller where
  "live_controller = \<lparr>k_world = live_world, k_objs = [(''s1'', live_socket)], k_cache = [''s1''], k_refresh = [],
     k_emits = 0, k_sent = []\<rparr>"

definition live_sess :: "int \<Rightarrow> ProbeSession list" where
  "live_sess p = (if p = 0 \<or> p = 7 then [live_session] else [])"

lemma live_connected: "connected quiet_net still_env live_db live_sess ''s1'' 7 0"
proof -
  have "sessions_where p [] (now still_env n - 2 * heartbeatInterval) live_db = live_sess p" for p n
    by (auto simp: sessions_where_def live_db_def still_env_def live_session_def live_sess_def
        heartbeatInterval_def second_def zero_time_def)
  then show ?thesis
    by (auto simp: connected_def live_sess_def live_session_def quiet_net_def split: if_splits)
qed

lemma live_store_inv: "store_inv {} live_db"
proof -
  have i: "id_index live_db 1 = {7, 8}" "tag_index live_db 1 = {}"
    by (auto simp: id_index_def tag_index_def live_db_def empty_db_def conj_disj_distribR Collect_disj_eq
        Collect_conv_if cong: conj_cong)
  have c: "c_Id live_check = 1" "c_OrgId live_check = 1" "c_EndpointId live_check = 1"
    "route_matches {} (c_Route live_check) {} {7, 8}"
    by (auto simp: live_check_def ping_def route_matches_def config_ids_def)
  show ?thesis
    using i c
    by (simp add: store_inv_def endpoints_ok_def route_inv_def check_keys_ok_def unique_on_def check_ok_def owners_def
        id_row_ok_def live_db_def empty_db_def)
qed

lemma live_facts:
  "live_check \<in> set (t_check live_db)" "c_Enabled live_check" "7 \<in> p_Id ` set (t_probe live_db)"
  "probes_for live_check live_db = Inr [7, 8]"
  "is_ok (fst (emit_check ''created'' ''w'' live_check quiet_net still_env live_controller))"
  "c_Id live_check = 1"
  by code_simp+

lemma run_unit: "is_ok (fst r) \<Longrightarrow> r = (Inr (), snd r)" for r :: "unit result \<times> 'w"
  by (cases r; cases "fst r") auto

lemma refresh_matches_events_witness:
  "\<exists>k1. ProbeSocket_Refresh ''s1'' quiet_net still_env live_controller = (Inr (), k1) \<and>
     (\<exists>pl. inbox ''s1'' k1 = [(''refresh'', pl)] \<and> 1 \<in> payload_Id ` set (payload_items pl))"
proof -
  let ?k2 = "snd (emit_check ''created'' ''w'' live_check quiet_net still_env live_controller)"
  have r: "routed_ok live_db live_check" by (simp add: routed_ok_def live_facts)
  have i: "idle live_controller ''s1'' live_socket" "pd_Id (ps_Probe live_socket) = 7"
    by (simp_all add: idle_def live_controller_def live_socket_def NewProbeSocket_def live_session_def probe7_dto_def)
  have v: "n_older quiet_net (s_Version (ps_Session live_socket)) ''0.9.1'' = Some False"
    by (simp add: quiet_net_def)
  have pl: "refresh_payload (n_floats quiet_net) False cs = Inr (PChecks cs)" for cs by (simp add: refresh_payload_def)
  have nf: "\<forall>n. \<not> faults still_env n" by (simp add: still_env_def plain_env_def)
  have w: "w_db (k_world live_controller) = live_db" "''s1'' \<in> set (k_cache live_controller)"
    "inbox ''s1'' live_controller = []"
    by (simp_all add: live_controller_def live_world_def inbox_def)
  have sent: "inbox ''s1'' ?k2 \<noteq> inbox ''s1'' live_controller"
    using sendsD(3)[OF sends_emit_check[OF live_connected r] w(1,2) run_unit[OF live_facts(5)]] live_facts(4,6)
    by (simp add: messages_of_def mine_def live_sess_def go_rem_def)
  show ?thesis
    using refresh_matches_events[OF live_connected nf live_store_inv live_facts(1,2,3) _ r i(1,2) v pl w(1,2)
        run_unit[OF live_facts(5)]] sent w(3) live_facts(6)
    by auto
qed

definition live_endpoint :: EndpointDTO where
  "live_endpoint = \<lparr>ed_Id = 1, ed_OrgId = 1, ed_Name = ''w'', ed_Slug = ''w'', ed_Checks = [live_check],
     ed_Tags = [], ed_Created = 0, ed_Updated = 0\<rparr>"

definition off_endpoint :: EndpointDTO where
  "off_endpoint = live_endpoint\<lparr>ed_Checks := map (\<lambda>c. c\<lparr>c_Enabled := False\<rparr>) (ed_Checks live_endpoint)\<rparr>"

text \<open>Switching the checks of the endpoint off.\<close>

abbreviation switch_off :: "unit result \<times> controller" where
  "switch_off \<equiv> HandleEndpointUpdated live_endpoint off_endpoint quiet_net still_env live_controller"

lemma off_facts:
  "is_ok (fst switch_off)"
  "list_all (\<lambda>c. case probes_for c live_db of Inl e \<Rightarrow> True | Inr ps \<Rightarrow> 0 \<notin> set ps)
     (ed_Checks live_endpoint @ ed_Checks off_endpoint)"
  "distinct (map c_Id (ed_Checks live_endpoint))" "distinct (map c_Id (ed_Checks off_endpoint))"
  "list_all (\<lambda>c. \<not> c_Enabled c) (ed_Checks off_endpoint)"
  "case check_of 1 (ed_Checks live_endpoint) of None \<Rightarrow> False | Some c \<Rightarrow>
     7 \<in> set (projr (probes_for c live_db))"
  by code_simp+

lemma off_update_ok: "update_ok quiet_net live_db live_endpoint off_endpoint"
  using off_facts(2-4)
  by (auto simp: update_ok_def routed_ok_def quiet_net_def list_all_iff split: sum.splits)

lemma endpoint_update_converges_witness:
  "\<exists>es. inbox ''s1'' (snd switch_off) = es \<and>
     (\<exists>h. h 1 \<noteq> None \<and> fold receive es h 1 = None)"
proof -
  let ?h = "wanted quiet_net live_db live_sess 7 0 (\<lambda>_. ed_Slug live_endpoint) (ed_Checks live_endpoint)"
  have kept: "\<forall>c\<in>set (ed_Checks off_endpoint). c_Enabled c \<longrightarrow> c_Updated c < ed_Updated off_endpoint \<longrightarrow>
      c \<in> set (ed_Checks live_endpoint)" using off_facts(5) by (auto simp: list_all_iff)
  have w: "w_db (k_world live_controller) = live_db" "''s1'' \<in> set (k_cache live_controller)"
    "inbox ''s1'' live_controller = []"
    by (simp_all add: live_controller_def live_world_def inbox_def)
  have off: "check_of 1 (ed_Checks off_endpoint) = None"
    using off_facts(5) by (auto simp: check_of_None list_all_iff)
  have "mine live_sess 7 0 1" by (simp add: mine_def live_sess_def go_rem_def)
  then have "?h 1 \<noteq> None"
    using off_facts(6) by (auto simp: wanted_def runs_on_def split: option.splits)
  moreover have "\<exists>es. inbox ''s1'' (snd switch_off) = inbox ''s1'' live_controller @ es \<and> fold receive es ?h 1 =
      wanted quiet_net live_db live_sess 7 0
       (\<lambda>c. if c_Updated c < ed_Updated off_endpoint then ed_Slug live_endpoint else ed_Slug off_endpoint)
         (ed_Checks off_endpoint) 1"
    by (rule endpoint_update_converges[OF live_connected off_update_ok kept w(1,2) run_unit[OF off_facts(1)], where h = ?h and i = 1, OF refl])
  ultimately obtain es where "inbox ''s1'' (snd switch_off) = es" "fold receive es ?h 1 = None" "?h 1 \<noteq> None"
    using off w(3) by (auto simp: wanted_def)
  then show ?thesis by blast
qed

section \<open>Connecting\<close>

lemma addProbe_returns: "addProbe p env w = (Inr p', w') \<Longrightarrow> pd_OrgId p' = pd_OrgId p"
  by (auto simp: addProbe_def bindS_Inr thenS_def returnS_def Let_def)

lemma updateProbe_returns: "updateProbe p env w = (Inr p', w') \<Longrightarrow> pd_OrgId p' = pd_OrgId p"
  by (auto simp: updateProbe_def update_own_probe_def bindS_Inr thenS_def returnS_def failS_def Let_def split: if_splits)

lemma AddProbe_returns: "AddProbe p env w = (Inr p', w') \<Longrightarrow> pd_OrgId p' = pd_OrgId p"
  unfolding AddProbe_def by (elim transact_InrE) (rule addProbe_returns)

lemma UpdateProbe_returns: "UpdateProbe p env w = (Inr p', w') \<Longrightarrow> pd_OrgId p' = pd_OrgId p"
  unfolding UpdateProbe_def by (elim transact_InrE) (rule updateProbe_returns)

lemma GetProbeByName_returns:
  assumes "GetProbeByName name org env w = (Inr p, w')"
  shows "pd_OrgId p = org \<and> (\<exists>q\<in>set (t_probe (w_db w)). p_Name q = name \<and> p_OrgId q = org)"
proof -
  from postD[OF post_first_probe[where P = "\<lambda>d. d = w_db w"] refl assms[unfolded GetProbeByName_def getProbeByName_def]]
  show ?thesis using shows_probe_fields by fastforce
qed

lemma find_or_create_returns:
  assumes "find_or_create st user name net env k = (Inr p, k')"
  shows "pd_OrgId p = user"
    and "(\<exists>q\<in>set (t_probe (w_db (k_world k))). p_Name q = name \<and> p_OrgId q = user) \<or>
      (\<exists>w w'. QuotaReached st user ''probe'' env w = (Inr False, w') \<and> w_db w = w_db (k_world k))"
proof -
  obtain r k1 where r: "tryC (storeC (GetProbeByName name user)) net env k = (Inr r, k1)"
    and rest: "(case r of Inr probe \<Rightarrow> returnC probe
       | Inl e \<Rightarrow> if Error e = ErrProbeNotFound then create_probe st user name else liftC (Inl (Error e))) net env k1 = (Inr p, k')"
    using assms unfolding find_or_create_def bindC_Inr by blast
  obtain q w where q: "GetProbeByName name user env (k_world k) = (q, w)" by fastforce
  have "pd_OrgId p = user \<and> ((\<exists>q\<in>set (t_probe (w_db (k_world k))). p_Name q = name \<and> p_OrgId q = user) \<or>
      (\<exists>w w'. QuotaReached st user ''probe'' env w = (Inr False, w') \<and> w_db w = w_db (k_world k)))"
  proof (cases r)
    case (Inr b)
    with r q have "q = Inr b" by (auto simp: tryC_def storeC_def split: sum.splits fault.splits)
    with GetProbeByName_returns q rest Inr show ?thesis by (fastforce simp: returnC_def)
  next
    case (Inl e)
    have "w_db w = w_db (k_world k)"
      using q by (auto simp: GetProbeByName_def getProbeByName_def first_probe_def bindS_def query_def stmt_def Let_def
          failS_def liftS_def split: if_splits)
    moreover have "k_world k1 = w"
      using r q by (auto simp: tryC_def storeC_def split: sum.splits fault.splits)
    ultimately have k1: "w_db (k_world k1) = w_db (k_world k)" by simp
    from rest Inl obtain w w' where "QuotaReached st user ''probe'' env (k_world k1) = (Inr False, w)" "pd_OrgId p = user"
      by (auto simp: create_probe_def bindC_Inr storeC_Inr liftC_def split: if_splits dest!: AddProbe_returns)
    with k1 show ?thesis by blast
  qed
  then show "pd_OrgId p = user" and "(\<exists>q\<in>set (t_probe (w_db (k_world k))). p_Name q = name \<and> p_OrgId q = user) \<or>
      (\<exists>w w'. QuotaReached st user ''probe'' env w = (Inr False, w') \<and> w_db w = w_db (k_world k))" by auto
qed

lemma locate_returns: "locate cn found net env k = (Inr p, k') \<Longrightarrow> pd_OrgId p = pd_OrgId found"
  by (auto simp: locate_def returnC_def storeC_Inr split: option.splits if_splits dest!: UpdateProbe_returns)

text \<open>
  C20. A probe that connects acts for the organisation of its key only: whatever the store refuses, a
  connection that is accepted has a version of at least 0.1.4 and a key, its socket is bound to a probe
  of the key's organisation and to a session of that organisation on this instance, the probe existed
  under that name or the organisation was below its quota of probes, and all results it sends while
  private are booked on that organisation, whatever organisation they name.
\<close>

theorem registered_for_own_org:
  assumes "register st cn net env k = (Inr p, k')"
  shows "cn_key cn \<noteq> [] \<and> cn_user cn = Inr (ps_User p) \<and> n_older net (cn_version cn) ''0.1.4'' = Some False \<and>
     pd_OrgId (ps_Probe p) = ps_User p \<and> s_OrgId (ps_Session p) = ps_User p \<and>
     s_ProbeId (ps_Session p) = pd_Id (ps_Probe p) \<and> s_SocketId (ps_Session p) = cn_id cn \<and>
     s_InstanceId (ps_Session p) = n_instance net \<and>
     ((\<exists>q\<in>set (t_probe (w_db (k_world k))). p_Name q = cn_name cn \<and> p_OrgId q = ps_User p) \<or>
      (\<exists>w w'. QuotaReached st (ps_User p) ''probe'' env w = (Inr False, w') \<and> w_db w = w_db (k_world k))) \<and>
     (\<not> pd_Public (ps_Probe p) \<longrightarrow>
        (\<forall>id_of ms. md_OrgId ` set (OnResults id_of p ms) \<subseteq> {ps_User p}) \<and> (\<forall>e. pe_OrgId (OnEvent p e) = ps_User p))"
proof -
  obtain user where user: "authenticate cn = Inr user" using assms by (auto simp: register_def bindC_Inr liftC_def)
  from assms obtain found probe k1 k2 where
    v: "n_older net (cn_version cn) ''0.1.4'' = Some False" and
    f: "find_or_create st user (cn_name cn) net env k = (Inr found, k1)" and
    l: "locate cn found net env k1 = (Inr probe, k2)" and
    p: "ps_User p = user" "ps_Probe p = probe" "s_OrgId (ps_Session p) = user"
      "s_ProbeId (ps_Session p) = pd_Id probe" "s_SocketId (ps_Session p) = cn_id cn"
      "s_InstanceId (ps_Session p) = n_instance net"
    unfolding register_def user
    by (auto simp: bindC_Inr thenC_def liftC_def askC_def returnC_def Let_def NewProbeSocket_def
        split: if_splits option.splits bool.splits)
  have a: "cn_key cn \<noteq> []" "cn_user cn = Inr user" using user by (auto simp: authenticate_def split: if_splits)
  have "pd_OrgId probe = user" using locate_returns[OF l] find_or_create_returns(1)[OF f] by simp
  with a v p find_or_create_returns(2)[OF f] show ?thesis
    by (auto simp: OnResults_def OnEvent_def Let_def)
qed

definition hello :: connection where
  "hello = \<lparr>cn_id = ''s2'', cn_key = ''key'', cn_user = Inr 1, cn_name = ''p'', cn_lastSocketId = [],
     cn_version = ''1.0'', cn_ip = None, cn_location = None\<rparr>"

lemma hello_ok: "is_ok (fst (register small_limits hello quiet_net still_env live_controller))"
  by code_simp

lemma registered_for_own_org_witness:
  "pd_OrgId (ps_Probe (projr (fst (register small_limits hello quiet_net still_env live_controller)))) = 1"
proof -
  let ?r = "register small_limits hello quiet_net still_env live_controller"
  have "?r = (Inr (projr (fst ?r)), snd ?r)" using hello_ok by (cases ?r; cases "fst ?r") auto
  from registered_for_own_org[OF this] show ?thesis by (simp add: hello_def)
qed

end
