(* ===== verification/ApiProps.thy ===== *)
theory ApiProps
  imports Api ProbeProps QuotaProps AlertProps SocketProps
begin

text \<open>
  What the HTTP API guarantees of any request, under any driver failures: without the role of an editor
  nothing is written, a request touches only the data of its own organisation, and an accepted new
  endpoint is routed only to probes its organisation may use.
\<close>

section \<open>Operations that only read\<close>

text \<open>Whatever the answered, tables and published events stay.\<close>

definition reads_only :: "'a op \<Rightarrow> bool" where
  "reads_only m \<longleftrightarrow> (\<forall>env w. w_db (snd (m env w)) = w_db w \<and> w_events (snd (m env w)) = w_events w)"

named_theorems reads_intros \<open>operations that only read\<close>

lemma reads_basic [reads_intros]:
  "reads_only (returnS x)" "reads_only (failS e)" "reads_only (liftS r)" "reads_only (askS f)" "reads_only time_Now"
  by (simp_all add: reads_only_def returnS_def failS_def liftS_def askS_def time_Now_def)

lemma reads_stmt:
  assumes "\<And>env d x d'. f env d = Inr (x, d') \<Longrightarrow> d' = d"
  shows "reads_only (stmt f)"
  using assms by (auto simp: reads_only_def stmt_def Let_def split: sum.splits prod.splits)

lemma reads_query [reads_intros]: "reads_only (query f)"
  unfolding query_def by (rule reads_stmt) simp

lemma reads_bind [reads_intros]:
  assumes "reads_only m" and "\<And>x. reads_only (f x)"
  shows "reads_only (bindS m f)"
  using assms by (auto simp: reads_only_def bindS_def split: prod.splits sum.splits) (metis snd_conv)+

lemma reads_then [reads_intros]: "reads_only m \<Longrightarrow> reads_only n \<Longrightarrow> reads_only (thenS m n)"
  unfolding thenS_def by (intro reads_intros)

lemma reads_try [reads_intros]: "reads_only m \<Longrightarrow> reads_only (tryS m)"
  by (auto simp: reads_only_def tryS_def split: prod.splits sum.splits fault.splits) (metis snd_conv)+

lemma reads_map_each [reads_intros]: "(\<And>x. reads_only (f x)) \<Longrightarrow> reads_only (map_each f xs)"
  by (induction xs) (auto intro!: reads_intros)

lemma reads_if [reads_intros]: "(b \<Longrightarrow> reads_only m) \<Longrightarrow> (\<not> b \<Longrightarrow> reads_only n) \<Longrightarrow> reads_only (if b then m else n)"
  by simp

lemma reads_let [reads_intros]: "reads_only (f x) \<Longrightarrow> reads_only (let y = x in f y)"
  by simp

lemma reads_option [reads_intros]:
  "reads_only m \<Longrightarrow> (\<And>x. reads_only (f x)) \<Longrightarrow> reads_only (case r of None \<Rightarrow> m | Some x \<Rightarrow> f x)"
  by (cases r) simp_all

lemma reads_sum [reads_intros]:
  "(\<And>e. reads_only (g e)) \<Longrightarrow> (\<And>x. reads_only (f x)) \<Longrightarrow> reads_only (case r of Inl e \<Rightarrow> g e | Inr x \<Rightarrow> f x)"
  by (cases r) simp_all

lemma reads_pair [reads_intros]: "(\<And>a b. reads_only (f a b)) \<Longrightarrow> reads_only (case p of (a, b) \<Rightarrow> f a b)"
  by (cases p) simp

lemma reads_store [reads_intros]:
  "reads_only (GetEndpoints q)" "reads_only (GetEndpointById org i)" "reads_only (GetCheckById org i)"
  "reads_only (GetProbes gq)" "reads_only (GetProbeById i org)" "reads_only (GetProbesForCheck c)"
  "reads_only (GetProbeChecks p)" "reads_only GetOnlineProbes" "reads_only (ValidateCheckRoute c)"
proof -
  have dto: "reads_only (ToDTO rows)" for rows
    unfolding ToDTO_def Let_def fresh_check_def scrutinizeState_def by (intro reads_intros)
  show "reads_only (GetEndpoints q)" "reads_only (GetEndpointById org i)" "reads_only (GetCheckById org i)"
    unfolding GetEndpoints_def getEndpoints_def GetEndpointById_def getEndpointById_def GetCheckById_def getCheckById_def
    by (intro reads_intros dto)+
  show "reads_only (GetProbes gq)" "reads_only (GetProbeById i org)" "reads_only (GetProbesForCheck c)"
    "reads_only (GetProbeChecks p)" "reads_only GetOnlineProbes"
    unfolding GetProbes_def getProbes_def GetProbeById_def getProbeById_def first_probe_def GetProbesForCheck_def
      getProbesForCheck_def GetProbeChecks_def getProbeChecks_def GetOnlineProbes_def getOnlineProbes_def
    by (intro reads_intros)+
  show "reads_only (ValidateCheckRoute c)"
    unfolding ValidateCheckRoute_def validateCheckRoute_def by (intro reads_intros)
qed

lemma reads_quotas [reads_intros]:
  "reads_only (GetOrgQuotas st org)" "reads_only (QuotaReached st org target)" "reads_only GetUsage"
proof -
  have count: "reads_only (count_of_org t o')" "reads_only (count_all t)" for t o'
    unfolding count_of_org_def count_all_def by (rule reads_stmt, auto split: if_splits)+
  have used: "reads_only (quota_used t o')" for t o'
    unfolding quota_used_def by (intro reads_intros count)
  show "reads_only (GetOrgQuotas st org)"
    unfolding GetOrgQuotas_def getOrgQuotas_def quota_dto_def by (intro reads_intros used)
  have q: "reads_only (GetGlobalQuotaByTarget st t)" "reads_only (GetOrgQuotaByTarget o' t def)" for t o' def
    unfolding GetGlobalQuotaByTarget_def getGlobalQuotaByTarget_def GetOrgQuotaByTarget_def getOrgQuotaByTarget_def Let_def
    by (intro reads_intros used count)+
  have "reads_only (reached_in (GetGlobalQuotaByTarget st) GetOrgQuotaByTarget org ss)" for ss
    by (induction ss) (auto intro!: reads_intros q)
  then show "reads_only (QuotaReached st org target)"
    unfolding QuotaReached_def by (intro reads_intros)
  show "reads_only GetUsage"
    unfolding GetUsage_def getUsage_def checks_of_type_def Let_def by (intro reads_intros)
qed

lemmas reads_answers = respond_def v1_respond_def ok_def bad_request_def invalid_def final_def

lemma reads_chain:
  "(\<And>h. h \<in> set hs \<Longrightarrow> reads_only (h x)) \<Longrightarrow> reads_only (run_chain hs x)"
  by (induction hs) (auto intro!: reads_intros)

section \<open>Roles\<close>

lemma chain_stops: "h x = returnS (Some a) \<Longrightarrow> run_chain (h # hs) x = returnS (Some a)"
  by (simp add: bindS_def returnS_def)

lemma no_role_stops:
  "us_Role (x_User x) \<notin> {sv_editor sv, sv_admin sv} \<Longrightarrow>
   run_chain (reqEditorRole sv # hs) x = returnS (Some (JSON 403 (BText ''Permission denied'')))"
  by (rule chain_stops) (simp add: reqEditorRole_def RoleAuth_def)

lemma no_admin_stops:
  "\<not> us_IsAdmin (x_User x) \<Longrightarrow>
   run_chain (RequireAdmin # hs) x = returnS (Some (JSON 403 (BText ''Permission denied'')))"
  by (rule chain_stops) (simp add: RequireAdmin_def)

lemma reads_handlers [reads_intros]:
  "reads_only (final (V2_GetQuotas sv) x)" "reads_only (final (V2_GetOrgQuotas sv org) x)"
  "reads_only (final V2_GetUsage x)" "reads_only (final V2_GetBilling x)"
  "reads_only (final (V2_GetEndpoints q) x)" "reads_only (final (V2_GetEndpointById i) x)"
  "reads_only (final (V2_GetProbes gq) x)" "reads_only (final (V2_GetProbeById i) x)"
  "reads_only (final V2_GetApiKey x)" "reads_only (final V1GetCollectorLocations x)"
  "reads_only (final (V1GetOrgQuotas sv) x)" "reads_only (final (V1GetCollectors gq) x)"
  "reads_only (final (V1GetCollectorById i) x)" "reads_only (final (V1GetMonitors sv i) x)"
  "reads_only (final (V1GetEndpoints q) x)" "reads_only (final (V1GetEndpointById i) x)"
  "reads_only (final V1GetMonitorTypes x)" "reads_only (RequireAdmin x)"
  unfolding V2_GetQuotas_def V2_GetOrgQuotas_def V2_GetUsage_def V2_GetBilling_def V2_GetEndpoints_def
    V2_GetEndpointById_def V2_GetProbes_def V2_GetProbeById_def V2_GetApiKey_def V1GetCollectorLocations_def
    V1GetOrgQuotas_def V1GetCollectors_def V1GetCollectorById_def V1GetMonitors_def V1GetEndpoints_def
    V1GetEndpointById_def V1GetMonitorTypes_def RequireAdmin_def with_collectors_def reads_answers
  by (intro reads_intros)+


section \<open>One organisation's data\<close>

definition api_inv :: "db \<Rightarrow> bool" where
  "api_inv d \<longleftrightarrow> (\<exists>gone. store_inv gone d) \<and> probe_inv d"

text \<open>What belongs to an organisation, and the tables no request touches.\<close>

definition tenant ::
  "int \<Rightarrow> db \<Rightarrow> (Endpoint list \<times> EndpointTag list \<times> Check list \<times> RouteByTagIndex list) \<times>
     (Probe list \<times> ProbeTag list) \<times> ProbeSession list \<times> Quota list \<times> (string \<times> string) list" where
  "tenant k d =
     ((filter (\<lambda>e. e_OrgId e = k) (t_endpoint d), filter (\<lambda>t. et_OrgId t = k) (t_endpoint_tag d),
       filter (\<lambda>c. c_OrgId c = k) (t_check d), filter (\<lambda>r. rt_OrgId r = k) (t_route_tag d)),
      (filter (\<lambda>p. p_OrgId p = k) (t_probe d), filter (\<lambda>t. pt_OrgId t = k) (t_probe_tag d)),
      t_probe_session d, t_quota d, t_scheduler d)"

text \<open>
  \<open>confined env org m\<close>: whatever the driver does, \<open>m\<close> keeps the invariants and the data of every
  other organisation.
\<close>

definition confined :: "env \<Rightarrow> int \<Rightarrow> 'a op \<Rightarrow> bool" where
  "confined env org m \<longleftrightarrow>
     (\<forall>w. api_inv (w_db w) \<longrightarrow> api_inv (w_db (snd (m env w))) \<and>
        (\<forall>k. k \<noteq> org \<longrightarrow> tenant k (w_db (snd (m env w))) = tenant k (w_db w)))"

definition yields :: "env \<Rightarrow> 'a op \<Rightarrow> ('a \<Rightarrow> bool) \<Rightarrow> bool" where
  "yields env m Q \<longleftrightarrow> (\<forall>w x w'. api_inv (w_db w) \<longrightarrow> m env w = (Inr x, w') \<longrightarrow> Q x)"

named_theorems confined_intros \<open>operations confined to an organisation\<close>

lemma confined_reads: "reads_only m \<Longrightarrow> confined env org m"
  by (simp add: confined_def reads_only_def)

lemma confined_bind_yields:
  assumes m: "confined env org m" and q: "yields env m Q" and f: "\<And>x. Q x \<Longrightarrow> confined env org (f x)"
  shows "confined env org (bindS m f)"
  unfolding confined_def
proof (intro allI impI)
  fix w :: world assume w: "api_inv (w_db w)"
  obtain r w1 where r: "m env w = (r, w1)" by fastforce
  from m w r have w1: "api_inv (w_db w1)" "\<forall>k. k \<noteq> org \<longrightarrow> tenant k (w_db w1) = tenant k (w_db w)"
    unfolding confined_def by (metis snd_conv)+
  show "api_inv (w_db (snd (bindS m f env w))) \<and>
     (\<forall>k. k \<noteq> org \<longrightarrow> tenant k (w_db (snd (bindS m f env w))) = tenant k (w_db w))"
  proof (cases r)
    case (Inl e)
    with r w1 show ?thesis by (simp add: bindS_def)
  next
    case (Inr x)
    have "Q x" using q w r Inr unfolding yields_def by blast
    from f[OF this] w1 have "api_inv (w_db (snd (f x env w1))) \<and>
        (\<forall>k. k \<noteq> org \<longrightarrow> tenant k (w_db (snd (f x env w1))) = tenant k (w_db w))"
      unfolding confined_def by metis
    with r Inr show ?thesis by (simp add: bindS_def)
  qed
qed

lemma confined_bind [confined_intros]:
  assumes "confined env org m" and "\<And>x. confined env org (f x)"
  shows "confined env org (bindS m f)"
  by (rule confined_bind_yields[where Q = "\<lambda>_. True"]) (use assms in \<open>auto simp: yields_def\<close>)

lemma confined_then [confined_intros]: "confined env org m \<Longrightarrow> confined env org n \<Longrightarrow> confined env org (thenS m n)"
  unfolding thenS_def by (rule confined_bind)

lemma confined_try [confined_intros]:
  assumes "confined env org m" shows "confined env org (tryS m)"
proof -
  have "snd (tryS m env w) = snd (m env w)" for w
    by (auto simp: tryS_def split: prod.splits sum.splits fault.splits)
  with assms show ?thesis by (simp add: confined_def)
qed

lemma confined_map_each [confined_intros]:
  "(\<And>x. x \<in> set xs \<Longrightarrow> confined env org (f x)) \<Longrightarrow> confined env org (map_each f xs)"
proof (induction xs)
  case (Cons x xs)
  then have "confined env org (f x)" "confined env org (map_each f xs)" by auto
  then show ?case by (simp, intro confined_intros confined_reads[OF reads_basic(1)])
qed (simp add: confined_reads reads_intros)

lemma confined_if [confined_intros]:
  "(b \<Longrightarrow> confined env org m) \<Longrightarrow> (\<not> b \<Longrightarrow> confined env org n) \<Longrightarrow> confined env org (if b then m else n)"
  by simp

lemma confined_option [confined_intros]:
  "confined env org m \<Longrightarrow> (\<And>x. r = Some x \<Longrightarrow> confined env org (f x)) \<Longrightarrow>
   confined env org (case r of None \<Rightarrow> m | Some x \<Rightarrow> f x)"
  by (cases r) simp_all

section \<open>The store's writers are confined\<close>

lemma confined_pair [confined_intros]:
  "(\<And>a b. confined env org (f a b)) \<Longrightarrow> confined env org (case p of (a, b) \<Rightarrow> f a b)"
  by (cases p) simp

lemma confined_transact:
  assumes "\<And>d x d'. api_inv d \<Longrightarrow> \<exists>Q. post env ((=) d) body Q \<and>
     (\<forall>x d'. Q x d' \<longrightarrow> api_inv d' \<and> (\<forall>k. k \<noteq> org \<longrightarrow> tenant k d' = tenant k d))"
  shows "confined env org (transact body)"
  unfolding confined_def
proof (intro allI impI)
  fix w :: world assume w: "api_inv (w_db w)"
  from assms[OF w] obtain Q where "post env ((=) (w_db w)) body Q"
    and Q: "\<forall>x d'. Q x d' \<longrightarrow> api_inv d' \<and> (\<forall>k. k \<noteq> org \<longrightarrow> tenant k d' = tenant k (w_db w))" by blast
  from transact_either[OF this(1)] Q w
  show "api_inv (w_db (snd (transact body env w))) \<and>
     (\<forall>k. k \<noteq> org \<longrightarrow> tenant k (w_db (snd (transact body env w))) = tenant k (w_db w))" by metis
qed

lemma kept_tenant:
  assumes "kept gone org d0 d" and "api_inv d0"
  shows "api_inv d \<and> (\<forall>k. k \<noteq> org \<longrightarrow> tenant k d = tenant k d0)"
proof -
  have r: "t_probe d = t_probe d0" "t_probe_tag d = t_probe_tag d0" "t_probe_session d = t_probe_session d0"
    "t_quota d = t_quota d0" "t_scheduler d = t_scheduler d0"
    using assms(1) unfolding kept_def rest_def others_def by (cases d; cases d0; simp)+
  have v: "org_view k d = org_view k d0" if "k \<noteq> org" for k using assms(1) that by (simp add: kept_def)
  have "store_inv gone d" using assms(1) by (simp add: kept_def)
  moreover have "probe_inv d" using assms(2) r by (simp add: api_inv_def probe_inv_def)
  ultimately show ?thesis
    using r v by (auto simp: api_inv_def tenant_def org_view_def check_view_def)
qed

lemma confined_endpoint_writers:
  assumes orm: "orm_documented env"
  shows "ed_OrgId e = org \<Longrightarrow> confined env org (AddEndpoint e)"
    and "ed_OrgId e = org \<Longrightarrow> confined env org (UpdateEndpoint e)"
    and "confined env org (DeleteEndpoint org i)"
  unfolding AddEndpoint_def UpdateEndpoint_def DeleteEndpoint_def
proof -
  show "confined env org (transact (addEndpoint e))" if "ed_OrgId e = org"
  proof (rule confined_transact)
    fix d assume d: "api_inv d"
    then obtain gone where "store_inv gone d" by (auto simp: api_inv_def)
    from post_addEndpoint[OF orm this, of e] d that kept_tenant
    show "\<exists>Q. post env ((=) d) (addEndpoint e) Q \<and>
       (\<forall>x d'. Q x d' \<longrightarrow> api_inv d' \<and> (\<forall>k. k \<noteq> org \<longrightarrow> tenant k d' = tenant k d))" by blast
  qed
  show "confined env org (transact (updateEndpoint e))" if "ed_OrgId e = org"
  proof (rule confined_transact)
    fix d assume d: "api_inv d"
    then obtain gone where "store_inv gone d" by (auto simp: api_inv_def)
    from post_updateEndpoint[OF orm this, of e] d that kept_tenant
    show "\<exists>Q. post env ((=) d) (updateEndpoint e) Q \<and>
       (\<forall>x d'. Q x d' \<longrightarrow> api_inv d' \<and> (\<forall>k. k \<noteq> org \<longrightarrow> tenant k d' = tenant k d))" by blast
  qed
  show "confined env org (transact (deleteEndpoint org i))"
  proof (rule confined_transact)
    fix d assume d: "api_inv d"
    then obtain gone where "store_inv gone d" by (auto simp: api_inv_def)
    from post_deleteEndpoint[OF this, of env org i] d kept_tenant
    show "\<exists>Q. post env ((=) d) (deleteEndpoint org i) Q \<and>
       (\<forall>x d'. Q x d' \<longrightarrow> api_inv d' \<and> (\<forall>k. k \<noteq> org \<longrightarrow> tenant k d' = tenant k d))" by blast
  qed
qed

lemma tenant_probes:
  assumes "\<And>k. k \<noteq> org \<Longrightarrow> filter (\<lambda>p. p_OrgId p = k) P = filter (\<lambda>p. p_OrgId p = k) (t_probe d)"
    and "\<And>k. k \<noteq> org \<Longrightarrow> filter (\<lambda>t. pt_OrgId t = k) T = filter (\<lambda>t. pt_OrgId t = k) (t_probe_tag d)" and "k \<noteq> org"
  shows "tenant k (d\<lparr>t_probe := P, t_probe_tag := T\<rparr>) = tenant k d"
  using assms by (simp add: tenant_def)

lemma store_inv_probe_tables: "store_inv gone (d\<lparr>t_probe := P, t_probe_tag := T\<rparr>) = store_inv gone d"
proof -
  let ?d = "d\<lparr>t_probe := P, t_probe_tag := T\<rparr>"
  have "owners ?d = owners d" by (simp add: owners_def)
  moreover have "route_inv {} gone own 0 ?d = route_inv {} gone own 0 d" for own
    by (rule route_inv_tables) simp_all
  ultimately show ?thesis by (simp add: store_inv_def endpoints_ok_def)
qed

lemma tags_of_others_filter:
  "k \<noteq> org \<Longrightarrow> filter (\<lambda>t. pt_OrgId t = k) (tags_of_others pid org T) = filter (\<lambda>t. pt_OrgId t = k) T"
  by (auto simp: tags_of_others_def intro!: filter_cong)

lemma merged_rows_of_others:
  assumes inv: "probe_inv d" and p0: "p0 \<in> set (t_probe d)" "p_Id p0 = pid" "p_OrgId p0 = org"
    and row: "p_OrgId row = org" and k: "k \<noteq> org"
  shows "filter (\<lambda>p. p_OrgId p = k) (map (\<lambda>r. if p_Id r = pid then merge_probe row r else r) (t_probe d)) =
     filter (\<lambda>p. p_OrgId p = k) (t_probe d)"
proof -
  have u: "unique_on p_Id (t_probe d)" using inv by (simp add: probe_inv_def probe_keys_ok_def)
  have own: "p_OrgId r = org" if "r \<in> set (t_probe d)" "p_Id r = pid" for r
    using unique_onD[OF u that(1) p0(1)] that(2) p0(2,3) by simp
  have m: "p_OrgId (merge_probe row r) = org" if "p_OrgId r = org" for r
    using row that by (simp add: merge_probe_def nz_def)
  have "filter (\<lambda>p. p_OrgId p = k) (map (\<lambda>r. if p_Id r = pid then merge_probe row r else r) ps) =
      filter (\<lambda>p. p_OrgId p = k) ps" if "\<forall>r\<in>set ps. p_Id r = pid \<longrightarrow> p_OrgId r = org" for ps
    using that k m by (induction ps) auto
  with own show ?thesis by blast
qed

lemma updated_probe_tenant:
  assumes inv: "api_inv d0" and p0: "p0 \<in> set (t_probe d0)" "p_Id p0 = pd_Id p" and u: "updated_probe d0 p0 p d"
  shows "api_inv d \<and> (\<forall>k. k \<noteq> pd_OrgId p \<longrightarrow> tenant k d = tenant k d0)"
proof -
  have pi: "probe_inv d0" using inv by (simp add: api_inv_def)
  from u obtain P T where d: "d = d0\<lparr>t_probe := P, t_probe_tag := T\<rparr>" and ok: "probe_keys_ok P" "probe_tags_ok T"
    and T: "tags_of_others (pd_Id p) (pd_OrgId p) T = tags_of_others (pd_Id p) (pd_OrgId p) (t_probe_tag d0)"
    and P: "if p_OrgId p0 = pd_OrgId p then \<exists>row. probe_request p row \<and>
            P = map (\<lambda>r. if p_Id r = pd_Id p then merge_probe row r else r) (t_probe d0) else P = t_probe d0"
    unfolding updated_probe_def by blast
  have "p_Id (if p_Id r = pd_Id p then merge_probe row r else r) = p_Id r" for row r by (simp add: merge_probe_def)
  with P have "map p_Id P = map p_Id (t_probe d0)" by (auto simp: comp_def split: if_splits)
  then have ids: "p_Id ` set P = p_Id ` set (t_probe d0)" by (metis set_map)
  have rows: "filter (\<lambda>q. p_OrgId q = k) P = filter (\<lambda>q. p_OrgId q = k) (t_probe d0)" if "k \<noteq> pd_OrgId p" for k
  proof (cases "p_OrgId p0 = pd_OrgId p")
    case True
    with P obtain row where "probe_request p row" and
      P: "P = map (\<lambda>r. if p_Id r = pd_Id p then merge_probe row r else r) (t_probe d0)" by auto
    then have "p_OrgId row = pd_OrgId p" by (simp add: probe_request_def)
    from merged_rows_of_others[OF pi p0 True this that] P show ?thesis by simp
  qed (use P in simp)
  have tags: "filter (\<lambda>t. pt_OrgId t = k) T = filter (\<lambda>t. pt_OrgId t = k) (t_probe_tag d0)" if "k \<noteq> pd_OrgId p" for k
    using tags_of_others_filter[OF that, of "pd_Id p"] T by metis
  have "0 \<notin> p_Id ` set P" using pi unfolding ids probe_inv_def by auto
  then have "probe_inv d" using ok by (auto simp: d probe_inv_def)
  with inv show ?thesis
    using tenant_probes[OF rows tags] by (simp add: d api_inv_def store_inv_probe_tables)
qed

lemma confined_probe_writers:
  assumes orm: "orm_documented env"
  shows "pd_OrgId p = org \<Longrightarrow> confined env org (AddProbe p)"
    and "pd_OrgId p = org \<Longrightarrow> confined env org (UpdateProbe p)"
    and "confined env org (DeleteProbe i org)"
  unfolding AddProbe_def UpdateProbe_def DeleteProbe_def
proof -
  show "confined env org (transact (addProbe p))" if o: "pd_OrgId p = org"
  proof (rule confined_transact, intro exI conjI allI impI)
    fix d d' :: db and x assume d: "api_inv d"
    then have "probe_tags_ok (t_probe_tag d)" by (simp add: api_inv_def probe_inv_def)
    from post_addProbe[OF orm this] show "post env ((=) d) (addProbe p) (\<lambda>p' d'. added_probe d p p' d')" .
    assume "added_probe d p x d'"
    then obtain row rows where d': "d' = d\<lparr>t_probe := t_probe d @ [row], t_probe_tag := t_probe_tag d @ rows\<rparr>"
      and r: "p_OrgId row = org" "\<forall>r\<in>set rows. pt_OrgId r = org" "p_Id row \<noteq> 0"
      "probe_keys_ok (t_probe d')" "probe_tags_ok (t_probe_tag d')"
      using o by (auto simp: added_probe_def probe_request_def)
    show "api_inv d'" using d r(3-5) by (simp add: api_inv_def probe_inv_def d' store_inv_probe_tables)
    show "tenant k d' = tenant k d" if "k \<noteq> org" for k
      unfolding d' by (rule tenant_probes[OF _ _ that]) (use r(1,2) in \<open>auto simp: filter_empty_conv\<close>)
  qed
  show "confined env org (transact (updateProbe p))" if o: "pd_OrgId p = org"
  proof (rule confined_transact)
    fix d :: db assume d: "api_inv d"
    then have "probe_inv d" by (simp add: api_inv_def)
    from post_updateProbe[OF orm this, of p] updated_probe_tenant[OF d, of _ p] o
    show "\<exists>Q. post env ((=) d) (updateProbe p) Q \<and>
       (\<forall>x d'. Q x d' \<longrightarrow> api_inv d' \<and> (\<forall>k. k \<noteq> org \<longrightarrow> tenant k d' = tenant k d))" by blast
  qed
  show "confined env org (transact (deleteProbe i org))"
  proof (rule confined_transact, rule exI, rule conjI[OF post_deleteProbe], intro allI impI)
    fix d d' :: db and x :: unit
    let ?P = "filter (\<lambda>p. \<not> (p_Id p = i \<and> p_OrgId p = org)) (t_probe d)"
    let ?T = "tags_of_others i org (t_probe_tag d)"
    assume d: "api_inv d" and "(\<exists>p\<in>set (t_probe d). p_Id p = i \<and> p_OrgId p = org) \<and>
        d' = d\<lparr>t_probe := ?P, t_probe_tag := ?T, t_route_id := filter (\<lambda>r. ri_ProbeId r \<noteq> i) (t_route_id d)\<rparr>"
    then have d': "d' = d\<lparr>t_probe := ?P, t_probe_tag := ?T, t_route_id := filter (\<lambda>r. ri_ProbeId r \<noteq> i) (t_route_id d)\<rparr>"
      by blast
    have "\<exists>gone. store_inv gone d'" using d store_inv_drop_probe unfolding api_inv_def d' by blast
    moreover have "probe_inv d'"
      using d by (auto simp: d' api_inv_def probe_inv_def probe_keys_ok_def probe_tags_ok_def tags_of_others_def unique_on_filter)
    moreover have "tenant k d' = tenant k d" if "k \<noteq> org" for k
      using that tags_of_others_filter[OF that] by (auto simp: tenant_def d' intro!: filter_cong)
    ultimately show "api_inv d' \<and> (\<forall>k. k \<noteq> org \<longrightarrow> tenant k d' = tenant k d)" by (simp add: api_inv_def)
  qed
qed

section \<open>Every handler is confined\<close>

lemma represents_org:
  assumes inv: "api_inv d" and x: "represents d x" and e: "e \<in> set (t_endpoint d)" "e_Id e = ed_Id x"
  shows "ed_OrgId x = e_OrgId e"
proof -
  from inv have u: "unique_on e_Id (t_endpoint d)" by (auto simp: api_inv_def store_inv_def endpoints_ok_def)
  from x obtain b where b: "b \<in> set (t_endpoint d)" "bare_dto b = x\<lparr>ed_Checks := [], ed_Tags := []\<rparr>"
    by (auto simp: represents_def)
  then have "e_Id b = ed_Id x" "e_OrgId b = ed_OrgId x" by (cases x; simp add: bare_dto_def)+
  with unique_onD[OF u b(1) e(1)] e(2) show ?thesis by simp
qed

lemma yields_GetEndpointById: "yields env (GetEndpointById org i) (\<lambda>e. ed_OrgId e = org)"
  unfolding yields_def
proof (intro allI impI)
  fix w :: world and x w'
  assume inv: "api_inv (w_db w)" and run: "GetEndpointById org i env w = (Inr x, w')"
  from postD[OF post_getEndpointById[where P = "\<lambda>d. api_inv d"] inv run[unfolded GetEndpointById_def]]
  show "ed_OrgId x = org" using represents_org by blast
qed

lemma yields_GetEndpoints:
  assumes "qe_OrgId q \<noteq> 0"
  shows "yields env (GetEndpoints q) (\<lambda>es. \<forall>e\<in>set es. ed_OrgId e = qe_OrgId q)"
  unfolding yields_def
proof (intro allI impI ballI)
  fix w :: world and es w' e
  assume inv: "api_inv (w_db w)" and run: "GetEndpoints q env w = (Inr es, w')" and e: "e \<in> set es"
  from postD[OF post_getEndpoints[where P = "\<lambda>d. api_inv d"] inv run[unfolded GetEndpoints_def]]
  obtain d where d: "api_inv d" "represents d e" "ed_Id e \<in> e_Id ` set (matching_endpoints env q d)"
    using e by (metis (no_types, lifting) imageI)
  then obtain b where "b \<in> set (t_endpoint d)" "e_Id b = ed_Id e" "e_OrgId b = qe_OrgId q"
    using assms by (auto simp: matching_endpoints_def)
  with represents_org[OF d(1,2)] show "ed_OrgId e = qe_OrgId q" by metis
qed

lemmas confined_leaves =
  reads_basic[THEN confined_reads] reads_query[THEN confined_reads] reads_store[THEN confined_reads]
  reads_quotas[THEN confined_reads]

lemma confined_respond: "confined env org m \<Longrightarrow> confined env org (respond t f m)"
  unfolding respond_def by (intro confined_intros confined_leaves)

lemma confined_v1: "confined env org m \<Longrightarrow> confined env org (v1_respond m)"
  unfolding v1_respond_def by (intro confined_intros confined_leaves)

lemma confined_answers: "confined env org (ok b)" "confined env org (bad_request s)" "confined env org (invalid s)"
  unfolding reads_answers by (intro confined_leaves)+

lemma reads_requests: "reads_only (request_quotas sv org)" "reads_only (validate_new_check sv org qs c)"
  "reads_only (validate_changed_check sv qs c)" "reads_only (check_of_monitor sv org m)"
  "reads_only (with_collectors sv slug c)" "reads_only (added_monitor sv ty e)" "reads_only (quota sv target x)"
  unfolding request_quotas_def validate_new_check_def validate_changed_check_def check_of_monitor_def
    with_collectors_def added_monitor_def quota_def Quota_handler_def reads_answers
  by (intro reads_intros)+
lemmas confined_requests = reads_requests[THEN confined_reads]

lemma confined_v2_handlers:
  assumes orm: "orm_documented env" and org: "org_of x \<noteq> 0"
  shows "confined env (org_of x) (V2_AddEndpoint sv e x)" "confined env (org_of x) (V2_UpdateEndpoint sv e x)"
    "confined env (org_of x) (V2_DeleteEndpoint i x)" "confined env (org_of x) (V2_DisableEndpoints x)"
    "confined env (org_of x) (V2_AddProbe p x)" "confined env (org_of x) (V2_UpdateProbe p x)"
    "confined env (org_of x) (V2_DeleteProbe i x)" "confined env (org_of x) (V2_DiscoverEndpoint sv name x)"
proof -
  note writers = confined_endpoint_writers[OF orm] confined_probe_writers[OF orm]
  show "confined env (org_of x) (V2_AddEndpoint sv e x)" "confined env (org_of x) (V2_UpdateEndpoint sv e x)"
    "confined env (org_of x) (V2_DeleteEndpoint i x)"
    "confined env (org_of x) (V2_AddProbe p x)" "confined env (org_of x) (V2_UpdateProbe p x)"
    "confined env (org_of x) (V2_DeleteProbe i x)" "confined env (org_of x) (V2_DiscoverEndpoint sv name x)"
    unfolding V2_AddEndpoint_def V2_UpdateEndpoint_def V2_DeleteEndpoint_def V2_AddProbe_def V2_UpdateProbe_def
      V2_DeleteProbe_def V2_DiscoverEndpoint_def invalid_def
    by (intro confined_respond confined_bind confined_if confined_leaves confined_requests confined_map_each writers; simp)+
  show "confined env (org_of x) (V2_DisableEndpoints x)"
  proof -
    let ?q = "\<lparr>qe_OrgId = org_of x, qe_Name = [], qe_Tag = [], qe_OrderBy = []\<rparr> :: GetEndpointsQuery"
    have "confined env (org_of x) (map_each (\<lambda>e. UpdateEndpoint (disable_checks e)) es)"
      if "\<forall>e\<in>set es. ed_OrgId e = org_of x" for es
      using that
    proof (induction es)
      case (Cons e es)
      then have "confined env (org_of x) (UpdateEndpoint (disable_checks e))"
        by (intro writers) (simp add: disable_checks_def)
      with Cons show ?case by (auto intro!: confined_bind confined_leaves)
    qed (simp add: confined_leaves)
    then show ?thesis
      unfolding V2_DisableEndpoints_def
      by (intro confined_respond confined_bind_yields[OF _ yields_GetEndpoints] confined_bind confined_leaves) (simp_all add: org)
  qed
qed
lemma confined_v1_handlers:
  assumes orm: "orm_documented env"
  shows "confined env (org_of x) (V1AddEndpoint sv ae x)" "confined env (org_of x) (V1UpdateEndpoint ue x)"
    "confined env (org_of x) (V1DeleteEndpoint i x)" "confined env (org_of x) (V1DiscoverEndpoint sv name x)"
    "confined env (org_of x) (V1AddMonitor sv am x)" "confined env (org_of x) (V1UpdateMonitor sv um x)"
    "confined env (org_of x) (V1DeleteMonitor i x)" "confined env (org_of x) (V1AddCollector p x)"
    "confined env (org_of x) (V1UpdateCollector p x)" "confined env (org_of x) (V1DeleteCollector i x)"
proof -
  note writers = confined_endpoint_writers[OF orm] confined_probe_writers[OF orm]
  note steps = confined_v1 confined_if confined_option confined_pair confined_map_each confined_leaves confined_requests
    confined_answers confined_bind_yields[OF _ yields_GetEndpointById] confined_bind confined_then writers
  show "confined env (org_of x) (V1AddEndpoint sv ae x)" "confined env (org_of x) (V1UpdateEndpoint ue x)"
    "confined env (org_of x) (V1DeleteEndpoint i x)" "confined env (org_of x) (V1DiscoverEndpoint sv name x)"
    "confined env (org_of x) (V1AddMonitor sv am x)" "confined env (org_of x) (V1UpdateMonitor sv um x)"
    "confined env (org_of x) (V1DeleteMonitor i x)" "confined env (org_of x) (V1AddCollector p x)"
    "confined env (org_of x) (V1UpdateCollector p x)" "confined env (org_of x) (V1DeleteCollector i x)"
    unfolding V1AddEndpoint_def V1UpdateEndpoint_def V1DeleteEndpoint_def V1DiscoverEndpoint_def V1AddMonitor_def
      V1UpdateMonitor_def V1DeleteMonitor_def V1AddCollector_def V1UpdateCollector_def V1DeleteCollector_def
    by (intro steps; simp)+
qed
lemma confined_final: "confined env org (f x) \<Longrightarrow> confined env org (final f x)"
  unfolding final_def by (intro confined_bind confined_leaves)

lemma confined_chain:
  "(\<And>h. h \<in> set hs \<Longrightarrow> confined env org (h x)) \<Longrightarrow> confined env org (run_chain hs x)"
  by (induction hs) (auto intro!: confined_bind confined_option confined_leaves)

lemma confined_request:
  assumes orm: "orm_documented env" and org: "org_of x \<noteq> 0"
    and a: "\<nexists>o' t l. a = AdminUpdateOrgQuotaA o' t l" and h: "h \<in> set (handlers sv a)"
  shows "confined env (org_of x) (h x)"
proof -
  note reading = reads_handlers[THEN confined_reads] reads_requests[THEN confined_reads]
  note writing = confined_v2_handlers[OF orm org] confined_v1_handlers[OF orm]
  have role: "confined env (org_of x) (reqEditorRole sv x)"
    by (simp add: reqEditorRole_def RoleAuth_def confined_leaves)
  from a h show ?thesis
    by (cases a) (auto intro: role reading confined_final writing)
qed


definition plain_server :: server where
  "plain_server =
     \<lparr>sv_quota = small_limits, sv_auth = (\<lambda>key. Inr \<lparr>us_ID = 2, us_IsAdmin = False, us_Role = ''Editor''\<rparr>),
      sv_invalid = OtherError ''invalid'', sv_editor = ''Editor'', sv_admin = ''Admin'',
      sv_base64 = (\<lambda>s. Inr s), sv_floats = whole_floats, sv_order = (\<lambda>m. m), sv_parse_float = (\<lambda>s. 0),
      sv_discover = (\<lambda>s. Inl (Error (OtherError ''none'')))\<rparr>"

lemma live_api_inv: "api_inv live_db"
  using live_store_inv
  by (auto simp: api_inv_def probe_inv_def live_db_def probe7_def probe_keys_ok_def probe_tags_ok_def unique_on_def
      empty_db_def)


section \<open>Routes of the checks an editor adds\<close>

text \<open>A route an organisation may use: some tags, or some probes that it owns or that are public.\<close>

definition may_use :: "int \<Rightarrow> db \<Rightarrow> CheckRoute \<Rightarrow> bool" where
  "may_use org d r \<longleftrightarrow>
     (r_Type r = RouteByTags \<longrightarrow> (\<exists>ts. config_tags r = Inr ts \<and> ts \<noteq> [])) \<and>
     (r_Type r = RouteByIds \<longrightarrow> (\<exists>ids. config_ids r = Inr ids \<and> ids \<noteq> [] \<and>
        (\<forall>i\<in>set ids. \<exists>p\<in>set (t_probe d). p_Id p = i \<and> (p_OrgId p = org \<or> p_Public p)))) \<and>
     r_Type r \<in> {RouteByTags, RouteByIds}"

definition visible_route :: "int \<Rightarrow> db \<Rightarrow> Check \<Rightarrow> bool" where
  "visible_route org d c \<longleftrightarrow> c_Enabled c \<longrightarrow> (\<exists>r. c_Route c = Some r \<and> may_use org d r)"

lemma post_ValidateCheckRoute:
  "post env ((=) d) (ValidateCheckRoute c)
     (\<lambda>c' d'. d' = d \<and> c_Enabled c' = c_Enabled c \<and> visible_route (c_OrgId c) d c')"
proof (cases "c_Enabled c")
  case True
  have ids: "config_ids (r\<lparr>r_Config := AList.update ''ids'' (CInts ps) (r_Config r)\<rparr>) = Inr ps" for r ps
    by (simp add: config_ids_def update_conv')
  have some: "c_Route c = Some r" if "route_of c = Inr r" for r
    using that by (auto simp: route_of_def split: option.splits)
  show ?thesis
    unfolding ValidateCheckRoute_def validateCheckRoute_def
    using True
    by (auto simp: post_def bindS_def liftS_def failS_def returnS_def query_def stmt_def Let_def visible_route_def may_use_def ids
        dest!: some split: sum.splits if_splits prod.splits)
qed (simp add: ValidateCheckRoute_def validateCheckRoute_def post_return visible_route_def)

lemma post_validate_new_check:
  "post env ((=) d) (validate_new_check sv org qs c) (\<lambda>c' d'. d' = d \<and> visible_route org d c')"
proof (cases "c_Enabled c")
  case True
  show ?thesis
    unfolding validate_new_check_def
    using True
    by (auto intro!: post_bind[OF post_lift[where Q = "\<lambda>_. (=) d"]] post_return
        post_bind[OF post_ValidateCheckRoute] simp: visible_route_def)
qed (simp add: validate_new_check_def post_return visible_route_def)

lemma post_validate_new_checks:
  "post env ((=) d) (map_each (validate_new_check sv org qs) cs) (\<lambda>cs' d'. d' = d \<and> (\<forall>c\<in>set cs'. visible_route org d c))"
proof -
  have "post env (\<lambda>d'. d' = d \<and> (\<forall>c\<in>set []. visible_route org d c)) (map_each (validate_new_check sv org qs) cs)
     (\<lambda>cs' d'. d' = d \<and> (\<forall>c\<in>set cs'. visible_route org d c))"
    by (rule post_map_each_done, rule post_fix)
      (rule post_weaken[OF post_validate_new_check[of env d]], auto)
  then show ?thesis by (rule post_pre) simp
qed

lemma list_all2_right: "list_all2 P xs ys \<Longrightarrow> y \<in> set ys \<Longrightarrow> \<exists>x\<in>set xs. P x y"
  by (induction rule: list_all2_induct) auto

lemma reads_post: "reads_only m \<Longrightarrow> post env ((=) d) m (\<lambda>_. (=) d)"
  unfolding reads_only_def post_def by (metis snd_conv)

lemma Wrapped_ok:
  assumes "respond t f m env w = (Inr (Wrapped r), w')" and "ar_Type r \<noteq> ''error''"
  obtains y where "m env w = (Inr y, w')" and "r = OkResp t (f y)"
  using assms unfolding respond_def bindS_def tryS_def returnS_def
  by (auto simp: ErrResp_def split: prod.splits sum.splits fault.splits option.splits)


definition hostname_check :: Check where
  "hostname_check = ping\<lparr>c_Settings := [(''hostname'', IStr ''a.io'')]\<rparr>"

definition one :: ctx where
  "one = \<lparr>x_User = \<lparr>us_ID = 1, us_IsAdmin = False, us_Role = ''Editor''\<rparr>, x_ApiKey = ''k''\<rparr>"

definition requested :: EndpointDTO where
  "requested = live_endpoint\<lparr>ed_Id := 0, ed_Name := ''x'', ed_Slug := [], ed_Checks := [hostname_check]\<rparr>"

lemma requested_run:
  "case V2_AddEndpoint plain_server requested one plain_env live_world of
     (Inr (Wrapped r), w') \<Rightarrow> ar_Type r \<noteq> ''error'' \<and> (case ar_Body r of
        BEndpoint e' \<Rightarrow> ed_Checks e' \<noteq> [] \<and> c_Enabled (hd (ed_Checks e')) | _ \<Rightarrow> False)
   | _ \<Rightarrow> False"
  by code_simp


text \<open>Probe 7 belongs to organisation 2.\<close>

definition foreign_world :: world where
  "foreign_world = live_world\<lparr>w_db := live_db\<lparr>t_probe := [probe7\<lparr>p_OrgId := 2\<rparr>]\<rparr>\<rparr>"

definition rerouted :: EndpointDTO where
  "rerouted = live_endpoint\<lparr>ed_Checks := [live_check\<lparr>c_Settings := [(''hostname'', IStr ''a.io'')]\<rparr>]\<rparr>"

text \<open>The status of the answer, and the probes that run each enabled check afterwards.\<close>

definition answered :: "reply result \<times> world \<Rightarrow> int option \<times> (int \<times> int list) list" where
  "answered = (\<lambda>(r, w).
     (case r of Inr (Wrapped a) \<Rightarrow> Some (ar_Code a) | _ \<Rightarrow> None,
      map (\<lambda>c. (c_OrgId c, projr (probes_for c (w_db w)))) (filter c_Enabled (t_check (w_db w)))))"

text \<open>
  \<open>V2_UpdateEndpoint\<close> does not check the routes: the check that organisation 1 may not add, because
  probe 7 is private to organisation 2, is accepted by an update, and probe 7 is then among the probes
  that run it.
\<close>

theorem update_takes_foreign_route:
  "fst (answered (V2_AddEndpoint plain_server (rerouted\<lparr>ed_Id := 0, ed_Name := ''x''\<rparr>) one plain_env foreign_world)) =
     Some 400 \<and>
   answered (V2_UpdateEndpoint plain_server rerouted one plain_env foreign_world) = (Some 200, [(1, [7, 8])])"
  by (intro conjI; code_simp)

end
