(* ===== verification/Dialects.thy ===== *)
theory Dialects
  imports GoText
begin

text \<open>
  The SQL of the schema migrations, \<open>sqlstore/migrator\<close>: columns, tables, indexes and the three
  dialects. The code passes pointers, and \<open>SqlType\<close> and \<open>XName\<close> write to what they are given, so
  the functions here return the changed column, table or index beside the text.
\<close>

section \<open>Types (types.go, column.go)\<close>

record Column =
  col_Name :: string
  col_Type :: string
  col_Length :: int
  col_Length2 :: int
  col_Nullable :: bool
  col_IsPrimaryKey :: bool
  col_IsAutoIncrement :: bool
  col_Default :: string

record Index =
  ix_Name :: string
  ix_Type :: int
  ix_Cols :: "string list"

record Table =
  tb_Name :: string
  tb_Columns :: "Column list"
  tb_PrimaryKeys :: "string list"
  tb_Indices :: "Index list"

definition IndexType :: int where "IndexType = 1"
definition UniqueIndex :: int where "UniqueIndex = 2"

definition DB_Bit :: string where "DB_Bit = ''BIT''"
definition DB_TinyInt :: string where "DB_TinyInt = ''TINYINT''"
definition DB_SmallInt :: string where "DB_SmallInt = ''SMALLINT''"
definition DB_MediumInt :: string where "DB_MediumInt = ''MEDIUMINT''"
definition DB_Int :: string where "DB_Int = ''INT''"
definition DB_Integer :: string where "DB_Integer = ''INTEGER''"
definition DB_BigInt :: string where "DB_BigInt = ''BIGINT''"
definition DB_Char :: string where "DB_Char = ''CHAR''"
definition DB_Varchar :: string where "DB_Varchar = ''VARCHAR''"
definition DB_NVarchar :: string where "DB_NVarchar = ''NVARCHAR''"
definition DB_TinyText :: string where "DB_TinyText = ''TINYTEXT''"
definition DB_Text :: string where "DB_Text = ''TEXT''"
definition DB_MediumText :: string where "DB_MediumText = ''MEDIUMTEXT''"
definition DB_LongText :: string where "DB_LongText = ''LONGTEXT''"
definition DB_Uuid :: string where "DB_Uuid = ''UUID''"
definition DB_Date :: string where "DB_Date = ''DATE''"
definition DB_DateTime :: string where "DB_DateTime = ''DATETIME''"
definition DB_Time :: string where "DB_Time = ''TIME''"
definition DB_TimeStamp :: string where "DB_TimeStamp = ''TIMESTAMP''"
definition DB_TimeStampz :: string where "DB_TimeStampz = ''TIMESTAMPZ''"
definition DB_Decimal :: string where "DB_Decimal = ''DECIMAL''"
definition DB_Numeric :: string where "DB_Numeric = ''NUMERIC''"
definition DB_Real :: string where "DB_Real = ''REAL''"
definition DB_Float :: string where "DB_Float = ''FLOAT''"
definition DB_Double :: string where "DB_Double = ''DOUBLE''"
definition DB_Binary :: string where "DB_Binary = ''BINARY''"
definition DB_VarBinary :: string where "DB_VarBinary = ''VARBINARY''"
definition DB_TinyBlob :: string where "DB_TinyBlob = ''TINYBLOB''"
definition DB_Blob :: string where "DB_Blob = ''BLOB''"
definition DB_MediumBlob :: string where "DB_MediumBlob = ''MEDIUMBLOB''"
definition DB_LongBlob :: string where "DB_LongBlob = ''LONGBLOB''"
definition DB_Bytea :: string where "DB_Bytea = ''BYTEA''"
definition DB_Bool :: string where "DB_Bool = ''BOOL''"
definition DB_Serial :: string where "DB_Serial = ''SERIAL''"
definition DB_BigSerial :: string where "DB_BigSerial = ''BIGSERIAL''"

lemmas DB_defs =
  DB_Bit_def DB_TinyInt_def DB_SmallInt_def DB_MediumInt_def DB_Int_def DB_Integer_def
  DB_BigInt_def DB_Char_def DB_Varchar_def DB_NVarchar_def DB_TinyText_def DB_Text_def
  DB_MediumText_def DB_LongText_def DB_Uuid_def DB_Date_def DB_DateTime_def DB_Time_def
  DB_TimeStamp_def DB_TimeStampz_def DB_Decimal_def DB_Numeric_def DB_Real_def DB_Float_def
  DB_Double_def DB_Binary_def DB_VarBinary_def DB_TinyBlob_def DB_Blob_def DB_MediumBlob_def
  DB_LongBlob_def DB_Bytea_def DB_Bool_def DB_Serial_def DB_BigSerial_def

text \<open>\<open>XName\<close> also stores the default name in the index.\<close>

definition XName :: "Index \<Rightarrow> string \<Rightarrow> string \<times> Index" where
  "XName ix table =
     (let ix1 = (if ix_Name ix = [] then ix\<lparr>ix_Name := join ''_'' (ix_Cols ix)\<rparr> else ix);
          n = ix_Name ix1
      in (if \<not> has_prefix n ''UQE_'' \<and> \<not> has_prefix n ''IDX_''
          then (if ix_Type ix1 = UniqueIndex then ''UQE_'' @ table @ ''_'' @ n else ''IDX_'' @ table @ ''_'' @ n)
          else n, ix1))"

section \<open>Dialects\<close>

datatype Dialect = Postgres | Mysql | Sqlite3

definition POSTGRES :: string where "POSTGRES = ''postgres''"
definition SQLITE :: string where "SQLITE = ''sqlite3''"
definition MYSQL :: string where "MYSQL = ''mysql''"

definition NewDialect :: "string \<Rightarrow> Dialect result" where
  "NewDialect name =
     (if name = MYSQL then Inr Mysql
      else if name = SQLITE then Inr Sqlite3
      else if name = POSTGRES then Inr Postgres
      else Inl (Panic (''Unsupported database type: '' @ name)))"

fun DriverName :: "Dialect \<Rightarrow> string" where
  "DriverName Mysql = MYSQL"
| "DriverName Sqlite3 = SQLITE"
| "DriverName Postgres = POSTGRES"

fun QuoteStr :: "Dialect \<Rightarrow> string" where
  "QuoteStr Postgres = [CHR 0x22]"
| "QuoteStr Mysql = ''`''"
| "QuoteStr Sqlite3 = ''`''"

fun Quote :: "Dialect \<Rightarrow> string \<Rightarrow> string" where
  "Quote Postgres s = [CHR 0x22] @ s @ [CHR 0x22]"
| "Quote Mysql s = ''`'' @ s @ ''`''"
| "Quote Sqlite3 s = ''`'' @ s @ ''`''"

fun SupportEngine :: "Dialect \<Rightarrow> bool" where
  "SupportEngine Postgres = False"
| "SupportEngine Mysql = True"
| "SupportEngine Sqlite3 = False"

fun AutoIncrStr :: "Dialect \<Rightarrow> string" where
  "AutoIncrStr Postgres = []"
| "AutoIncrStr Mysql = ''AUTO_INCREMENT''"
| "AutoIncrStr Sqlite3 = ''AUTOINCREMENT''"

text \<open>The lengths of a column behind its type.\<close>

definition sized :: "string \<Rightarrow> Column \<Rightarrow> string" where
  "sized res c =
     (if col_Length2 c > 0 then res @ ''('' @ show_int (col_Length c) @ '','' @ show_int (col_Length2 c) @ '')''
      else if col_Length c > 0 then res @ ''('' @ show_int (col_Length c) @ '')''
      else res)"

definition Postgres_SqlType :: "Column \<Rightarrow> string \<times> Column" where
  "Postgres_SqlType c =
     (let t = col_Type c in
      if t = DB_TinyInt then (DB_SmallInt, c)
      else if t \<in> {DB_MediumInt, DB_Int, DB_Integer} then (if col_IsAutoIncrement c then DB_Serial else DB_Integer, c)
      else if t \<in> {DB_Serial, DB_BigSerial} then
        let c' = c\<lparr>col_IsAutoIncrement := True, col_Nullable := False\<rparr> in (sized t c', c')
      else if t \<in> {DB_Binary, DB_VarBinary} then (DB_Bytea, c)
      else if t = DB_DateTime then (sized DB_TimeStamp c, c)
      else if t = DB_TimeStampz then (''timestamp with time zone'', c)
      else if t = DB_Float then (sized DB_Real c, c)
      else if t \<in> {DB_TinyText, DB_MediumText, DB_LongText} then (sized DB_Text c, c)
      else if t = DB_NVarchar then (sized DB_Varchar c, c)
      else if t = DB_Uuid then (sized DB_Uuid c, c)
      else if t \<in> {DB_Blob, DB_TinyBlob, DB_MediumBlob, DB_LongBlob} then (DB_Bytea, c)
      else if t = DB_Double then (''DOUBLE PRECISION'', c)
      else if col_IsAutoIncrement c then (DB_Serial, c)
      else (sized t c, c))"

definition mysql_type :: "Column \<Rightarrow> string \<times> Column" where
  "mysql_type c =
     (let t = col_Type c in
      if t = DB_Bool then (DB_TinyInt, c\<lparr>col_Length := 1\<rparr>)
      else if t = DB_Serial then
        (DB_Int, c\<lparr>col_IsAutoIncrement := True, col_IsPrimaryKey := True, col_Nullable := False\<rparr>)
      else if t = DB_BigSerial then
        (DB_BigInt, c\<lparr>col_IsAutoIncrement := True, col_IsPrimaryKey := True, col_Nullable := False\<rparr>)
      else if t = DB_Bytea then (DB_Blob, c)
      else if t = DB_TimeStampz then (DB_Char, c\<lparr>col_Length := 64\<rparr>)
      else if t = DB_NVarchar then (DB_Varchar, c)
      else (t, c))"

definition Mysql_SqlType :: "Column \<Rightarrow> string \<times> Column" where
  "Mysql_SqlType c =
     (let (res, c1) = mysql_type c;
          c2 = (if res = DB_BigInt \<and> \<not> col_Length c1 > 0 \<and> \<not> col_Length2 c1 > 0 then c1\<lparr>col_Length := 20\<rparr> else c1)
      in (sized res c2, c2))"

definition Sqlite3_SqlType :: "Column \<Rightarrow> string \<times> Column" where
  "Sqlite3_SqlType c =
     (let t = col_Type c in
      if t \<in> {DB_Date, DB_DateTime, DB_TimeStamp, DB_Time} then (DB_DateTime, c)
      else if t = DB_TimeStampz then (DB_Text, c)
      else if t \<in> {DB_Char, DB_Varchar, DB_NVarchar, DB_TinyText, DB_Text, DB_MediumText, DB_LongText} then (DB_Text, c)
      else if t \<in> {DB_Bit, DB_TinyInt, DB_SmallInt, DB_MediumInt, DB_Int, DB_Integer, DB_BigInt, DB_Bool}
        then (DB_Integer, c)
      else if t \<in> {DB_Float, DB_Double, DB_Real} then (DB_Real, c)
      else if t \<in> {DB_Decimal, DB_Numeric} then (DB_Numeric, c)
      else if t \<in> {DB_TinyBlob, DB_Blob, DB_MediumBlob, DB_LongBlob, DB_Bytea, DB_Binary, DB_VarBinary}
        then (DB_Blob, c)
      else if t \<in> {DB_Serial, DB_BigSerial} then
        (DB_Integer, c\<lparr>col_IsPrimaryKey := True, col_IsAutoIncrement := True, col_Nullable := False\<rparr>)
      else (t, c))"

fun SqlType :: "Dialect \<Rightarrow> Column \<Rightarrow> string \<times> Column" where
  "SqlType Postgres c = Postgres_SqlType c"
| "SqlType Mysql c = Mysql_SqlType c"
| "SqlType Sqlite3 c = Sqlite3_SqlType c"

text \<open>The query that tells whether a table exists, with its arguments.\<close>

definition information_schema_sql :: string where
  "information_schema_sql =
     ''SELECT `TABLE_NAME` from `INFORMATION_SCHEMA`.`TABLES` WHERE `TABLE_SCHEMA`=? and `TABLE_NAME`=?''"

fun TableCheckSql :: "Dialect \<Rightarrow> string \<Rightarrow> string \<times> string list" where
  "TableCheckSql Postgres table = (information_schema_sql, [''grafana'', table])"
| "TableCheckSql Mysql table = (information_schema_sql, [''grafana'', table])"
| "TableCheckSql Sqlite3 table = (''SELECT name FROM sqlite_master WHERE type='' @ [CHR 0x27] @ ''table'' @ [CHR 0x27] @ '' and name = ?'', [table])"

section \<open>Columns and statements (column.go, dialect.go)\<close>

definition ShowCreateNull :: "Dialect \<Rightarrow> bool" where
  "ShowCreateNull d = True"

definition null_and_default :: "Dialect \<Rightarrow> Column \<Rightarrow> string" where
  "null_and_default d c =
     (if ShowCreateNull d then (if col_Nullable c then ''NULL '' else ''NOT NULL '') else []) @
     (if col_Default c \<noteq> [] then ''DEFAULT '' @ col_Default c @ '' '' else [])"

definition Column_String :: "Dialect \<Rightarrow> Column \<Rightarrow> string \<times> Column" where
  "Column_String d c =
     (let (ty, c1) = SqlType d c
      in (QuoteStr d @ col_Name c @ QuoteStr d @ '' '' @ ty @ '' '' @
          (if col_IsPrimaryKey c1
           then ''PRIMARY KEY '' @ (if col_IsAutoIncrement c1 then AutoIncrStr d @ '' '' else []) else []) @
          null_and_default d c1, c1))"

definition StringNoPk :: "Dialect \<Rightarrow> Column \<Rightarrow> string \<times> Column" where
  "StringNoPk d c =
     (let (ty, c1) = SqlType d c
      in (QuoteStr d @ col_Name c @ QuoteStr d @ '' '' @ ty @ '' '' @ null_and_default d c1, c1))"

definition nl :: string where "nl = [CHR 0x0A]"

text \<open>The loop over the columns, with the text built so far.\<close>

fun columns_sql :: "Dialect \<Rightarrow> string list \<Rightarrow> string \<Rightarrow> Column list \<Rightarrow> string \<times> Column list" where
  "columns_sql d pks sql [] = (sql, [])"
| "columns_sql d pks sql (c # cs) =
     (let (s, c') = (if col_IsPrimaryKey c \<and> length pks = 1 then Column_String d c else StringNoPk d c);
          (sql', cs') = columns_sql d pks (trim_space (sql @ s) @ nl @ '', '') cs
      in (sql', c' # cs'))"

definition CreateTableSql :: "Dialect \<Rightarrow> Table \<Rightarrow> string \<times> Table" where
  "CreateTableSql d t =
     (let pks = tb_PrimaryKeys t;
          (sql, cs) = columns_sql d pks (''CREATE TABLE IF NOT EXISTS '' @ Quote d (tb_Name t) @ '' ('' @ nl) (tb_Columns t);
          sql1 = (if length pks > 1 then sql @ ''PRIMARY KEY ( '' @ Quote d (join (Quote d '','') pks) @ '' ), '' else sql)
      in (take (length sql1 - 2) sql1 @ '')'' @
          (if SupportEngine d then '' ENGINE=InnoDB DEFAULT CHARSET UTF8 '' else []) @ '';'',
          t\<lparr>tb_Columns := cs\<rparr>))"

definition AddColumnSql :: "Dialect \<Rightarrow> string \<Rightarrow> Column \<Rightarrow> string \<times> Column" where
  "AddColumnSql d table c =
     (let (s, c') = StringNoPk d c in (''alter table '' @ Quote d table @ '' ADD COLUMN '' @ s, c'))"

definition CreateIndexSql :: "Dialect \<Rightarrow> string \<Rightarrow> Index \<Rightarrow> string \<times> Index" where
  "CreateIndexSql d table ix =
     (let unique = (if ix_Type ix = UniqueIndex then '' UNIQUE'' else []);
          (n, ix') = XName ix table
      in (''CREATE'' @ unique @ '' INDEX '' @ Quote d n @ '' ON '' @ Quote d table @ '' ('' @
          Quote d (join (Quote d '','') (ix_Cols ix)) @ '');'', ix'))"

definition QuoteColList :: "Dialect \<Rightarrow> string list \<Rightarrow> string" where
  "QuoteColList d cols = trim_suffix (concat (map (\<lambda>c. Quote d c @ nl @ '', '') cols)) (nl @ '', '')"

definition CopyTableData :: "Dialect \<Rightarrow> string \<Rightarrow> string \<Rightarrow> string list \<Rightarrow> string list \<Rightarrow> string" where
  "CopyTableData d sourceTable targetTable sourceCols targetCols =
     ''INSERT INTO '' @ Quote d targetTable @ '' ('' @ QuoteColList d targetCols @ '') SELECT '' @
     QuoteColList d sourceCols @ '' FROM '' @ Quote d sourceTable"

definition DropTable :: "Dialect \<Rightarrow> string \<Rightarrow> string" where
  "DropTable d table = ''DROP TABLE IF EXISTS '' @ Quote d table"

definition RenameTable :: "Dialect \<Rightarrow> string \<Rightarrow> string \<Rightarrow> string" where
  "RenameTable d old new = ''ALTER TABLE '' @ Quote d old @ '' RENAME TO '' @ Quote d new"

fun DropIndexSql :: "Dialect \<Rightarrow> string \<Rightarrow> Index \<Rightarrow> string \<times> Index" where
  "DropIndexSql Mysql table ix =
     (let (n, ix') = XName ix table in (''DROP INDEX '' @ Quote Mysql n @ '' ON '' @ Quote Mysql table, ix'))"
| "DropIndexSql Sqlite3 table ix = (let (n, ix') = XName ix table in (''DROP INDEX '' @ Quote Sqlite3 n, ix'))"
| "DropIndexSql Postgres table ix = (let (n, ix') = XName ix table in (''DROP INDEX '' @ Quote Postgres n, ix'))"

end
