(* ===== verification/Migrator.thy ===== *)
theory Migrator
  imports Dialects Models
begin

text \<open>
  The migrator, \<open>sqlstore/migrator/migrations.go\<close> and \<open>migrator.go\<close>: the kinds of migrations with their
  SQL, and \<open>Start\<close>, which runs those that the log does not show as done, each in a transaction, and
  records it. The database is any type \<open>'d\<close>; what the ORM does with it is the \<open>engine\<close>.
\<close>

section \<open>Migrations (migrations.go, conditions.go)\<close>

datatype statement =
    RawSqlMigration string string string
  | AddColumnMigration string Column
  | AddIndexMigration string Index
  | DropIndexMigration string Index
  | AddTableMigration Table
  | DropTableMigration string
  | RenameTableMigration string string
  | CopyTableDataMigration string string "string list" "string list"

text \<open>\<open>RawSqlMigration sqlite mysql postgres\<close>; \<open>CopyTableDataMigration source target sourceCols targetCols\<close>.\<close>

definition NewAddTableMigration :: "Table \<Rightarrow> statement" where
  "NewAddTableMigration t =
     AddTableMigration (t\<lparr>tb_PrimaryKeys := tb_PrimaryKeys t @ map col_Name (filter col_IsPrimaryKey (tb_Columns t))\<rparr>)"

definition NewAddColumnMigration :: "Table \<Rightarrow> Column \<Rightarrow> statement" where
  "NewAddColumnMigration t c = AddColumnMigration (tb_Name t) c"

definition NewAddIndexMigration :: "Table \<Rightarrow> Index \<Rightarrow> statement" where
  "NewAddIndexMigration t ix = AddIndexMigration (tb_Name t) ix"

definition NewDropIndexMigration :: "Table \<Rightarrow> Index \<Rightarrow> statement" where
  "NewDropIndexMigration t ix = DropIndexMigration (tb_Name t) ix"

text \<open>Go walks the column map in any order; the model takes the order of the list.\<close>

definition NewCopyTableDataMigration :: "string \<Rightarrow> string \<Rightarrow> (string \<times> string) list \<Rightarrow> statement" where
  "NewCopyTableDataMigration target source colMap = CopyTableDataMigration source target (map snd colMap) (map fst colMap)"

text \<open>The SQL of a migration, and the migration with what rendering it changed.\<close>

fun Sql :: "Dialect \<Rightarrow> statement \<Rightarrow> string \<times> statement" where
  "Sql d (RawSqlMigration sqlite mysql postgres) =
     ((case d of Mysql \<Rightarrow> mysql | Sqlite3 \<Rightarrow> sqlite | Postgres \<Rightarrow> postgres), RawSqlMigration sqlite mysql postgres)"
| "Sql d (AddColumnMigration table c) = map_prod id (AddColumnMigration table) (AddColumnSql d table c)"
| "Sql d (AddIndexMigration table ix) = map_prod id (AddIndexMigration table) (CreateIndexSql d table ix)"
| "Sql d (DropIndexMigration table ix) =
     (let ix1 = (if ix_Name ix = [] then ix\<lparr>ix_Name := join ''_'' (ix_Cols ix)\<rparr> else ix)
      in map_prod id (DropIndexMigration table) (DropIndexSql d table ix1))"
| "Sql d (AddTableMigration t) = map_prod id AddTableMigration (CreateTableSql d t)"
| "Sql d (DropTableMigration table) = (DropTable d table, DropTableMigration table)"
| "Sql d (RenameTableMigration old new) = (RenameTable d old new, RenameTableMigration old new)"
| "Sql d (CopyTableDataMigration source target scols tcols) =
     (CopyTableData d source target scols tcols, CopyTableDataMigration source target scols tcols)"

text \<open>
  A session: the number of calls made to the driver, which decides whether it refuses one, and the
  tables as the transaction sees them.
\<close>

type_synonym ('d, 'a) sess = "(nat \<Rightarrow> go_error option) \<Rightarrow> nat \<times> 'd \<Rightarrow> (go_error + 'a) \<times> (nat \<times> 'd)"

record 'd Migration =
  mig_Id :: string
  mig_Condition :: "string option"
  mig_OnSuccess :: "('d, unit) sess option"
  mig_Stmt :: statement

text \<open>\<open>AddMigration\<close> sets the id; the only condition is that a table exists.\<close>

definition AddMigration :: "string \<Rightarrow> statement \<Rightarrow> 'd Migration" where
  "AddMigration i st = \<lparr>mig_Id = i, mig_Condition = None, mig_OnSuccess = None, mig_Stmt = st\<rparr>"

section \<open>Running a session\<close>

definition retQ :: "'a \<Rightarrow> ('d, 'a) sess" where
  "retQ x = (\<lambda>rf s. (Inr x, s))"

definition failQ :: "go_error \<Rightarrow> ('d, 'a) sess" where
  "failQ e = (\<lambda>rf s. (Inl e, s))"

definition bindQ :: "('d, 'a) sess \<Rightarrow> ('a \<Rightarrow> ('d, 'b) sess) \<Rightarrow> ('d, 'b) sess" where
  "bindQ m f = (\<lambda>rf s. case m rf s of (Inl e, s') \<Rightarrow> (Inl e, s') | (Inr x, s') \<Rightarrow> f x rf s')"

text \<open>One call of the driver.\<close>

definition callQ :: "('d \<Rightarrow> go_error + 'a \<times> 'd) \<Rightarrow> ('d, 'a) sess" where
  "callQ f = (\<lambda>rf (n, d). case rf n of
     Some e \<Rightarrow> (Inl e, (Suc n, d))
   | None \<Rightarrow> (case f d of Inl e \<Rightarrow> (Inl e, (Suc n, d)) | Inr (x, d') \<Rightarrow> (Inr x, (Suc n, d'))))"

fun eachQ :: "('b \<Rightarrow> ('d, unit) sess) \<Rightarrow> 'b list \<Rightarrow> ('d, unit) sess" where
  "eachQ f [] = retQ ()"
| "eachQ f (x # xs) = bindQ (f x) (\<lambda>_. eachQ f xs)"

section \<open>The migrator (migrator.go)\<close>

record MigrationLog =
  ml_Id :: int
  ml_MigrationId :: string
  ml_Sql :: string
  ml_Success :: bool
  ml_Error :: string
  ml_Timestamp :: int

text \<open>
  The tables as the ORM gives them to the migrator: the rows of \<open>migration_log\<close> when the table exists,
  the insertion of one, the rows a query returns, and the effect of a statement.
\<close>

record 'd engine =
  en_log :: "'d \<Rightarrow> MigrationLog list option"
  en_insert :: "MigrationLog \<Rightarrow> 'd \<Rightarrow> go_error + 'd"
  en_query :: "string \<Rightarrow> string list \<Rightarrow> 'd \<Rightarrow> go_error + nat"
  en_exec :: "string \<Rightarrow> 'd \<Rightarrow> go_error + 'd"
  en_now :: "nat \<Rightarrow> int"

definition log_table_exists :: "'d engine \<Rightarrow> ('d, bool) sess" where
  "log_table_exists E = callQ (\<lambda>d. Inr (en_log E d \<noteq> None, d))"

definition find_log :: "'d engine \<Rightarrow> ('d, MigrationLog list) sess" where
  "find_log E = callQ (\<lambda>d. Inr (case en_log E d of None \<Rightarrow> [] | Some rows \<Rightarrow> rows, d))"

definition exec_sql :: "'d engine \<Rightarrow> string \<Rightarrow> ('d, unit) sess" where
  "exec_sql E sql = callQ (\<lambda>d. case en_exec E sql d of Inl e \<Rightarrow> Inl e | Inr d' \<Rightarrow> Inr ((), d'))"

text \<open>The ids the log shows as done.\<close>

definition GetMigrationLog :: "'d engine \<Rightarrow> ('d, (string, MigrationLog) gomap) sess" where
  "GetMigrationLog E =
     bindQ (log_table_exists E) (\<lambda>exists.
       if \<not> exists then retQ []
       else bindQ (find_log E) (\<lambda>items.
         retQ (fold (\<lambda>r m. if ml_Success r then AList.update (ml_MigrationId r) r m else m) items [])))"

text \<open>
  \<open>inTransaction\<close>: a body that fails is rolled back; the body says whether it rolled back itself, in
  which case the session's \<open>Commit\<close> does nothing. A refused \<open>Commit\<close> leaves nothing of the body.
\<close>

definition inTransaction :: "('d, bool) sess \<Rightarrow> ('d, unit) sess" where
  "inTransaction body = (\<lambda>rf (n, d). case callQ (\<lambda>d. Inr ((), d)) rf (n, d) of
     (Inl e, s) \<Rightarrow> (Inl e, s)
   | (Inr _, s) \<Rightarrow> (case body rf s of
       (Inl e, (n', d')) \<Rightarrow> (Inl e, (Suc n', d))
     | (Inr rolled_back, (n', d')) \<Rightarrow>
         if rolled_back then (Inr (), (n', d))
         else (case rf n' of Some e \<Rightarrow> (Inl e, (Suc n', d)) | None \<Rightarrow> (Inr (), (Suc n', d')))))"

definition ExecOnSuccess :: "'d Migration \<Rightarrow> ('d, unit) sess" where
  "ExecOnSuccess m = (case mig_OnSuccess m of None \<Rightarrow> retQ () | Some f \<Rightarrow> f)"

text \<open>The condition holds when its query succeeds and returns a row.\<close>

definition fulfilled :: "'d engine \<Rightarrow> Dialect \<Rightarrow> 'd Migration \<Rightarrow> ('d, bool) sess" where
  "fulfilled E dia m = (case mig_Condition m of
     None \<Rightarrow> retQ True
   | Some table \<Rightarrow> (\<lambda>rf s. case callQ (\<lambda>d. case en_query E (fst (TableCheckSql dia table)) (snd (TableCheckSql dia table)) d of
         Inl e \<Rightarrow> Inl e | Inr k \<Rightarrow> Inr (k, d)) rf s of
       (Inl e, s') \<Rightarrow> (Inr False, s')
     | (Inr k, s') \<Rightarrow> (Inr (k \<noteq> (0::nat)), s')))"

definition exec_migration :: "'d engine \<Rightarrow> Dialect \<Rightarrow> 'd Migration \<Rightarrow> ('d, unit) sess" where
  "exec_migration E dia m = inTransaction (bindQ (fulfilled E dia m) (\<lambda>go.
     if \<not> go then bindQ (callQ (\<lambda>d. Inr ((), d))) (\<lambda>_. retQ True)
     else bindQ (exec_sql E (fst (Sql dia (mig_Stmt m)))) (\<lambda>_.
          bindQ (ExecOnSuccess m) (\<lambda>_. retQ False))))"

text \<open>The result of inserting the record is dropped.\<close>

definition insert_log :: "'d engine \<Rightarrow> MigrationLog \<Rightarrow> nat \<times> 'd \<Rightarrow> (nat \<Rightarrow> go_error option) \<Rightarrow> nat \<times> 'd" where
  "insert_log E r s rf =
     snd (callQ (\<lambda>d. case en_insert E r d of Inl e \<Rightarrow> Inl e | Inr d' \<Rightarrow> Inr ((), d')) rf s)"

definition log_record :: "string \<Rightarrow> string \<Rightarrow> int \<Rightarrow> go_error option \<Rightarrow> MigrationLog" where
  "log_record i sql t err =
     \<lparr>ml_Id = 0, ml_MigrationId = i, ml_Sql = sql, ml_Success = (err = None),
      ml_Error = (case err of None \<Rightarrow> [] | Some e \<Rightarrow> error_string e), ml_Timestamp = t\<rparr>"

text \<open>The record holds the first rendering of the SQL; \<open>exec_migration\<close> renders the changed migration again.\<close>

fun run_migrations ::
  "'d engine \<Rightarrow> Dialect \<Rightarrow> (string, MigrationLog) gomap \<Rightarrow> 'd Migration list \<Rightarrow> ('d, unit) sess" where
  "run_migrations E dia logMap [] = retQ ()"
| "run_migrations E dia logMap (m # ms) =
     (if map_of logMap (mig_Id m) \<noteq> None then run_migrations E dia logMap ms
      else (\<lambda>rf s.
        let (sql, st) = Sql dia (mig_Stmt m); t = en_now E (fst s)
        in case exec_migration E dia (m\<lparr>mig_Stmt := st\<rparr>) rf s of
             (Inl e, s1) \<Rightarrow> (Inl e, insert_log E (log_record (mig_Id m) sql t (Some e)) s1 rf)
           | (Inr _, s1) \<Rightarrow>
               run_migrations E dia logMap ms rf (insert_log E (log_record (mig_Id m) sql t None) s1 rf)))"

definition Migrator_Start :: "'d engine \<Rightarrow> Dialect \<Rightarrow> 'd Migration list \<Rightarrow> ('d, unit) sess" where
  "Migrator_Start E dia migrations = bindQ (GetMigrationLog E) (\<lambda>logMap. run_migrations E dia logMap migrations)"

end
