(* ===== verification/Migrations.thy ===== *)
theory Migrations
  imports Migrator Monitors
begin

text \<open>
  The migrations of \<open>sqlstore/migrations\<close>, one definition per table and per function, and the code
  that some of them run after their statement. That code reads and writes rows through the ORM, which
  is the record \<open>orm\<close>.
\<close>

section \<open>Building tables and migrations (common.go)\<close>

definition new_column :: "string \<Rightarrow> string \<Rightarrow> int \<Rightarrow> bool \<Rightarrow> bool \<Rightarrow> bool \<Rightarrow> Column" where
  "new_column name ty len nullable pk auto =
     \<lparr>col_Name = name, col_Type = ty, col_Length = len, col_Length2 = 0, col_Nullable = nullable,
      col_IsPrimaryKey = pk, col_IsAutoIncrement = auto, col_Default = []\<rparr>"

definition new_index :: "int \<Rightarrow> string list \<Rightarrow> Index" where
  "new_index ty cols = \<lparr>ix_Name = [], ix_Type = ty, ix_Cols = cols\<rparr>"

definition new_table :: "string \<Rightarrow> Column list \<Rightarrow> Index list \<Rightarrow> Table" where
  "new_table name cols ixs = \<lparr>tb_Name = name, tb_Columns = cols, tb_PrimaryKeys = [], tb_Indices = ixs\<rparr>"

definition addTableIndicesMigrations :: "string \<Rightarrow> Table \<Rightarrow> 'd Migration list" where
  "addTableIndicesMigrations version t = map (\<lambda>ix.
     let (x, ix') = XName ix (tb_Name t)
     in AddMigration (''create index '' @ x @ '' - '' @ version) (NewAddIndexMigration t ix')) (tb_Indices t)"

definition addDropAllIndicesMigrations :: "string \<Rightarrow> Table \<Rightarrow> 'd Migration list" where
  "addDropAllIndicesMigrations version t = map (\<lambda>ix.
     let (x, ix') = XName ix (tb_Name t)
     in AddMigration (''drop index '' @ x @ '' - '' @ version) (NewDropIndexMigration t ix')) (tb_Indices t)"

definition addTableRenameMigration :: "string \<Rightarrow> string \<Rightarrow> string \<Rightarrow> 'd Migration" where
  "addTableRenameMigration old new version =
     AddMigration (''Rename table '' @ old @ '' to '' @ new @ '' - '' @ version) (RenameTableMigration old new)"

definition on_success :: "('d, unit) sess \<Rightarrow> 'd Migration \<Rightarrow> 'd Migration" where
  "on_success f m = m\<lparr>mig_OnSuccess := Some f\<rparr>"

section \<open>The code that runs after a statement\<close>

record Monitor =
  mo_Id :: int
  mo_OrgId :: int
  mo_EndpointId :: int
  mo_MonitorTypeId :: int
  mo_Offset :: int
  mo_Frequency :: int
  mo_Enabled :: bool
  mo_State :: CheckEvalResult
  mo_StateChange :: time
  mo_StateCheck :: time
  mo_Settings :: "MonitorSettingDTO list"
  mo_HealthSettings :: "CheckHealthSettings option"
  mo_Created :: time
  mo_Updated :: time

record tmpCheck =
  tc_Settings :: "MonitorSettingDTO list"
  tc_Id :: int
  tc_Type :: CheckType

datatype arg = AString string | AInt int | ATime int

text \<open>The rows the code reads, and the updates of single rows by id.\<close>

record 'd orm =
  om_endpoints :: "'d \<Rightarrow> Endpoint list"
  om_update_endpoint :: "Endpoint \<Rightarrow> 'd \<Rightarrow> go_error + 'd"
  om_monitors :: "'d \<Rightarrow> Monitor list"
  om_update_monitor :: "Monitor \<Rightarrow> 'd \<Rightarrow> go_error + 'd"
  om_collectors :: "'d \<Rightarrow> (int \<times> int) list"
  om_tags :: "'d \<Rightarrow> (int \<times> string) list"
  om_checks :: "'d \<Rightarrow> tmpCheck list"
  om_update_route :: "int \<Rightarrow> CheckRoute \<Rightarrow> 'd \<Rightarrow> go_error + 'd"
  om_update_settings :: "int \<Rightarrow> settings \<Rightarrow> 'd \<Rightarrow> go_error + 'd"
  om_exec :: "string \<Rightarrow> arg list \<Rightarrow> 'd \<Rightarrow> go_error + 'd"
  om_now :: "nat \<Rightarrow> int"

definition readQ :: "('d \<Rightarrow> 'a) \<Rightarrow> ('d, 'a) sess" where
  "readQ f = callQ (\<lambda>d. Inr (f d, d))"

definition writeQ :: "('d \<Rightarrow> go_error + 'd) \<Rightarrow> ('d, unit) sess" where
  "writeQ f = callQ (\<lambda>d. case f d of Inl e \<Rightarrow> Inl e | Inr d' \<Rightarrow> Inr ((), d'))"

definition clear_sessions :: "'d orm \<Rightarrow> ('d, unit) sess" where
  "clear_sessions M = writeQ (om_exec M ''DELETE FROM collector_session'' [])"

definition stamp_enabled_change :: "'d orm \<Rightarrow> ('d, unit) sess" where
  "stamp_enabled_change M =
     (\<lambda>rf s. writeQ (om_exec M ''UPDATE collector set enabled_change=?'' [ATime (om_now M (fst s))]) rf s)"

definition fill_slugs :: "'d orm \<Rightarrow> ('d, unit) sess" where
  "fill_slugs M = bindQ (readQ (om_endpoints M)) (eachQ (\<lambda>e. writeQ (om_update_endpoint M (Endpoint_UpdateSlug e))))"

definition default_health :: "CheckHealthSettings option \<Rightarrow> CheckHealthSettings" where
  "default_health h = (case h of
     None \<Rightarrow> \<lparr>h_NumProbes = 1, h_Steps = 2, h_Notifications = \<lparr>n_Enabled = False, n_Addresses = []\<rparr>\<rparr>
   | Some x \<Rightarrow> x\<lparr>h_NumProbes := 1, h_Steps := 2\<rparr>)"

definition complete_health :: "CheckHealthSettings option \<Rightarrow> bool" where
  "complete_health h = (case h of None \<Rightarrow> False | Some x \<Rightarrow> h_Steps x \<noteq> 0 \<and> h_NumProbes x \<noteq> 0)"

definition fill_health :: "'d orm \<Rightarrow> ('d, unit) sess" where
  "fill_health M = bindQ (readQ (om_monitors M)) (eachQ (\<lambda>mon.
     if complete_health (mo_HealthSettings mon) then retQ ()
     else writeQ (om_update_monitor M (mon\<lparr>mo_HealthSettings := Some (default_health (mo_HealthSettings mon))\<rparr>))))"

definition fill_types :: "'d orm \<Rightarrow> ('d, unit) sess" where
  "fill_types M = eachQ (\<lambda>(t, i). writeQ (om_exec M ''UPDATE monitor set type=? where monitor_type_id=?'' [AString t, AInt i]))
     [(''http'', 1), (''https'', 2), (''ping'', 3), (''dns'', 4)]"

text \<open>The rows of a table gathered by monitor.\<close>

definition gather :: "(int \<times> 'a) list \<Rightarrow> (int, 'a list) gomap" where
  "gather rows = fold (\<lambda>(i, x) m. AList.update i ((case map_of m i of None \<Rightarrow> [] | Some l \<Rightarrow> l) @ [x]) m) rows []"

definition ids_route :: "int list \<Rightarrow> CheckRoute" where
  "ids_route is = \<lparr>r_Type = RouteByIds, r_Config = [(''ids'', CInts is)]\<rparr>"

definition tags_route :: "string list \<Rightarrow> CheckRoute" where
  "tags_route ts = \<lparr>r_Type = RouteByTags, r_Config = [(''tags'', CStrings ts)]\<rparr>"

definition build_routes :: "'d orm \<Rightarrow> (string \<Rightarrow> rat) \<Rightarrow> ('d, unit) sess" where
  "build_routes M pf =
     bindQ (readQ (om_collectors M)) (\<lambda>byIds.
     let routes = gather byIds
     in bindQ (eachQ (\<lambda>(i, ids). writeQ (om_update_route M i (ids_route ids))) routes) (\<lambda>_.
     bindQ (readQ (om_tags M)) (\<lambda>byTags.
     let routesByTag = gather (filter (\<lambda>(i, tag). map_of routes i = None) byTags)
     in bindQ (eachQ (\<lambda>(i, tags). writeQ (om_update_route M i (tags_route tags))) routesByTag) (\<lambda>_.
     bindQ (readQ (om_checks M)) (eachQ (\<lambda>c.
       bindQ (writeQ (om_update_settings M (tc_Id c) (ToV2Setting pf (tc_Settings c) (tc_Type c)))) (\<lambda>_.
         if map_of routes (tc_Id c) = None \<and> map_of routesByTag (tc_Id c) = None
         then writeQ (om_update_route M (tc_Id c) (ids_route []))
         else retQ ())))))))"

definition fill_tag_index :: "'d orm \<Rightarrow> ('d, unit) sess" where
  "fill_tag_index M = writeQ (om_exec M (''INSERT INTO route_by_tag_index SELECT ct.id, c.org_id, ct.monitor_id, ct.tag, '' @
     ''c.updated from monitor_collector_tag as ct JOIN `check` as c on ct.monitor_id=c.id'') [])"

section \<open>The tables\<close>

definition migrationLogV1 :: Table where
  "migrationLogV1 = new_table ''migration_log''
     [new_column ''id'' DB_BigInt 0 False True True,
      new_column ''migration_id'' DB_NVarchar 255 False False False,
      new_column ''sql'' DB_Text 0 False False False,
      new_column ''success'' DB_Bool 0 False False False,
      new_column ''error'' DB_Text 0 False False False,
      new_column ''timestamp'' DB_DateTime 0 False False False]
     []"

definition collectorV1 :: Table where
  "collectorV1 = new_table ''collector''
     [new_column ''id'' DB_BigInt 0 False True True,
      new_column ''org_id'' DB_BigInt 0 False False False,
      new_column ''slug'' DB_NVarchar 255 False False False,
      new_column ''name'' DB_NVarchar 255 False False False,
      new_column ''latitude'' DB_Float 0 True False False,
      new_column ''longitude'' DB_Float 0 True False False,
      new_column ''public'' DB_Bool 0 False False False,
      new_column ''online'' DB_Bool 0 False False False,
      new_column ''enabled'' DB_Bool 0 False False False,
      new_column ''created'' DB_DateTime 0 False False False,
      new_column ''updated'' DB_DateTime 0 False False False]
     [new_index UniqueIndex [''org_id'', ''slug'']]"

definition collectorTagV1 :: Table where
  "collectorTagV1 = new_table ''collector_tag''
     [new_column ''id'' DB_BigInt 0 False True True,
      new_column ''org_id'' DB_BigInt 0 False False False,
      new_column ''collector_id'' DB_BigInt 0 False False False,
      new_column ''tag'' DB_NVarchar 255 False False False]
     [new_index 0 [''org_id'', ''collector_id''],
      new_index UniqueIndex [''collector_id'', ''org_id'', ''tag'']]"

definition collectorSessionV1 :: Table where
  "collectorSessionV1 = new_table ''collector_session''
     [new_column ''id'' DB_BigInt 0 False True True,
      new_column ''org_id'' DB_BigInt 0 False False False,
      new_column ''collector_id'' DB_BigInt 0 False False False,
      new_column ''socket_id'' DB_NVarchar 255 False False False,
      new_column ''updated'' DB_DateTime 0 False False False]
     [new_index 0 [''org_id''],
      new_index 0 [''collector_id''],
      new_index 0 [''socket_id'']]"

definition probeTagV1 :: Table where
  "probeTagV1 = new_table ''probe_tag''
     [new_column ''id'' DB_BigInt 0 False True True,
      new_column ''org_id'' DB_BigInt 0 False False False,
      new_column ''probe_id'' DB_BigInt 0 False False False,
      new_column ''tag'' DB_NVarchar 255 False False False,
      new_column ''created'' DB_DateTime 0 True False False]
     [new_index 0 [''org_id'', ''probe_id''],
      new_index UniqueIndex [''org_id'', ''tag'', ''probe_id'']]"

definition probeSessionV1 :: Table where
  "probeSessionV1 = new_table ''probe_session''
     [new_column ''id'' DB_BigInt 0 False True True,
      new_column ''org_id'' DB_BigInt 0 False False False,
      new_column ''probe_id'' DB_BigInt 0 False False False,
      new_column ''socket_id'' DB_NVarchar 255 False False False,
      new_column ''instance_id'' DB_NVarchar 255 False False False,
      new_column ''version'' DB_NVarchar 16 False False False,
      new_column ''remote_ip'' DB_NVarchar 48 False False False,
      new_column ''updated'' DB_DateTime 0 False False False]
     [new_index 0 [''org_id''],
      new_index 0 [''probe_id''],
      new_index 0 [''socket_id''],
      new_index 0 [''instance_id'']]"

definition monitorV3 :: Table where
  "monitorV3 = new_table ''monitor''
     [new_column ''id'' DB_BigInt 0 False True True,
      new_column ''endpoint_id'' DB_BigInt 0 False False False,
      new_column ''org_id'' DB_BigInt 0 False False False,
      new_column ''namespace'' DB_NVarchar 255 False False False,
      new_column ''monitor_type_id'' DB_BigInt 0 False False False,
      new_column ''offset'' DB_BigInt 0 False False False,
      new_column ''frequency'' DB_BigInt 0 False False False,
      new_column ''enabled'' DB_Bool 0 False False False,
      new_column ''settings'' DB_NVarchar 2048 False False False,
      new_column ''state'' DB_BigInt 0 False False False,
      new_column ''state_change'' DB_DateTime 0 False False False,
      new_column ''created'' DB_DateTime 0 False False False,
      new_column ''updated'' DB_DateTime 0 False False False]
     [new_index 0 [''monitor_type_id''],
      new_index UniqueIndex [''org_id'', ''namespace'', ''monitor_type_id'']]"

definition monitorV4 :: Table where
  "monitorV4 = new_table ''monitor''
     [new_column ''id'' DB_BigInt 0 False True True,
      new_column ''endpoint_id'' DB_BigInt 0 False False False,
      new_column ''org_id'' DB_BigInt 0 False False False,
      new_column ''monitor_type_id'' DB_BigInt 0 False False False,
      new_column ''offset'' DB_BigInt 0 False False False,
      new_column ''frequency'' DB_BigInt 0 False False False,
      new_column ''enabled'' DB_Bool 0 False False False,
      new_column ''settings'' DB_NVarchar 2048 False False False,
      new_column ''state'' DB_BigInt 0 False False False,
      new_column ''state_change'' DB_DateTime 0 False False False,
      new_column ''created'' DB_DateTime 0 False False False,
      new_column ''updated'' DB_DateTime 0 False False False]
     [new_index 0 [''monitor_type_id''],
      new_index UniqueIndex [''org_id'', ''endpoint_id'', ''monitor_type_id'']]"

definition monitorTypeV1 :: Table where
  "monitorTypeV1 = new_table ''monitor_type''
     [new_column ''id'' DB_BigInt 0 False True True,
      new_column ''name'' DB_NVarchar 255 False False False,
      new_column ''created'' DB_DateTime 0 False False False,
      new_column ''updated'' DB_DateTime 0 False False False]
     []"

definition monitorTypeSettingV1 :: Table where
  "monitorTypeSettingV1 = new_table ''monitor_type_setting''
     [new_column ''id'' DB_BigInt 0 False True True,
      new_column ''monitor_type_id'' DB_BigInt 0 False False False,
      new_column ''variable'' DB_NVarchar 255 False False False,
      new_column ''description'' DB_NVarchar 255 False False False,
      new_column ''data_type'' DB_NVarchar 255 False False False,
      new_column ''conditions'' DB_NVarchar 1024 False False False,
      new_column ''default_value'' DB_NVarchar 255 False False False,
      new_column ''required'' DB_Bool 0 False False False,
      new_column ''created'' DB_DateTime 0 False False False,
      new_column ''updated'' DB_DateTime 0 False False False]
     [new_index 0 [''monitor_type_id'']]"

definition monitorCollectorV1 :: Table where
  "monitorCollectorV1 = new_table ''monitor_collector''
     [new_column ''id'' DB_BigInt 0 False True True,
      new_column ''monitor_id'' DB_BigInt 0 False False False,
      new_column ''collector_id'' DB_BigInt 0 False False False]
     [new_index 0 [''monitor_id'', ''collector_id'']]"

definition monitorCollectorTagV1 :: Table where
  "monitorCollectorTagV1 = new_table ''monitor_collector_tag''
     [new_column ''id'' DB_BigInt 0 False True True,
      new_column ''monitor_id'' DB_BigInt 0 False False False,
      new_column ''tag'' DB_NVarchar 255 False False False]
     [new_index 0 [''monitor_id''],
      new_index UniqueIndex [''monitor_id'', ''tag'']]"

definition checkV1 :: Table where
  "checkV1 = new_table ''check''
     [new_column ''id'' DB_BigInt 0 False True True,
      new_column ''endpoint_id'' DB_BigInt 0 False False False,
      new_column ''org_id'' DB_BigInt 0 False False False,
      new_column ''type'' DB_NVarchar 16 False False False,
      new_column ''route'' DB_NVarchar 2048 True False False,
      new_column ''offset'' DB_BigInt 0 False False False,
      new_column ''frequency'' DB_BigInt 0 False False False,
      new_column ''enabled'' DB_Bool 0 False False False,
      new_column ''settings'' DB_Text 0 False False False,
      new_column ''health_settings'' DB_Text 0 False False False,
      new_column ''state'' DB_BigInt 0 False False False,
      new_column ''state_change'' DB_DateTime 0 False False False,
      new_column ''state_check'' DB_DateTime 0 False False False,
      new_column ''created'' DB_DateTime 0 False False False,
      new_column ''updated'' DB_DateTime 0 False False False]
     [new_index UniqueIndex [''org_id'', ''endpoint_id'', ''type'']]"

definition routeIndexV1 :: Table where
  "routeIndexV1 = new_table ''route_by_id_index''
     [new_column ''id'' DB_BigInt 0 False True True,
      new_column ''check_id'' DB_BigInt 0 False False False,
      new_column ''probe_id'' DB_BigInt 0 False False False,
      new_column ''created'' DB_DateTime 0 True False False]
     [new_index UniqueIndex [''check_id'', ''probe_id'']]"

definition routeTagIndexV1 :: Table where
  "routeTagIndexV1 = new_table ''route_by_tag_index''
     [new_column ''id'' DB_BigInt 0 False True True,
      new_column ''org_id'' DB_BigInt 0 False False False,
      new_column ''check_id'' DB_BigInt 0 False False False,
      new_column ''tag'' DB_NVarchar 255 False False False,
      new_column ''created'' DB_DateTime 0 False False False]
     [new_index UniqueIndex [''check_id'', ''tag''],
      new_index 0 [''org_id'', ''tag'']]"

definition endpointV1 :: Table where
  "endpointV1 = new_table ''endpoint''
     [new_column ''id'' DB_BigInt 0 False True True,
      new_column ''org_id'' DB_BigInt 0 False False False,
      new_column ''name'' DB_NVarchar 255 False False False,
      new_column ''created'' DB_DateTime 0 False False False,
      new_column ''updated'' DB_DateTime 0 False False False]
     [new_index UniqueIndex [''org_id'', ''name'']]"

definition endpointTagV1 :: Table where
  "endpointTagV1 = new_table ''endpoint_tag''
     [new_column ''id'' DB_BigInt 0 False True True,
      new_column ''org_id'' DB_BigInt 0 False False False,
      new_column ''endpoint_id'' DB_BigInt 0 False False False,
      new_column ''tag'' DB_NVarchar 255 False False False]
     [new_index 0 [''org_id'', ''endpoint_id''],
      new_index UniqueIndex [''endpoint_id'', ''tag'']]"

definition alertSchedV1 :: Table where
  "alertSchedV1 = new_table ''alert_scheduler_value''
     [new_column ''id'' DB_Varchar 255 False True False,
      new_column ''value'' DB_Varchar 255 False False False]
     []"

definition quotaV1 :: Table where
  "quotaV1 = new_table ''quota''
     [new_column ''id'' DB_BigInt 0 False True True,
      new_column ''org_id'' DB_BigInt 0 False False False,
      new_column ''target'' DB_NVarchar 255 False False False,
      new_column ''limit'' DB_BigInt 0 False False False,
      new_column ''created'' DB_DateTime 0 False False False,
      new_column ''updated'' DB_DateTime 0 False False False]
     [new_index UniqueIndex [''org_id'', ''target'']]"

definition quotaV2 :: Table where
  "quotaV2 = new_table ''quota''
     [new_column ''id'' DB_BigInt 0 False True True,
      new_column ''org_id'' DB_BigInt 0 True False False,
      new_column ''user_id'' DB_BigInt 0 True False False,
      new_column ''target'' DB_NVarchar 255 False False False,
      new_column ''limit'' DB_BigInt 0 False False False,
      new_column ''created'' DB_DateTime 0 False False False,
      new_column ''updated'' DB_DateTime 0 False False False]
     [new_index UniqueIndex [''org_id'', ''user_id'', ''target'']]"

definition quotaV3 :: Table where
  "quotaV3 = new_table ''quota''
     [new_column ''id'' DB_BigInt 0 False True True,
      new_column ''org_id'' DB_BigInt 0 True False False,
      new_column ''target'' DB_NVarchar 255 False False False,
      new_column ''limit'' DB_BigInt 0 False False False,
      new_column ''created'' DB_DateTime 0 False False False,
      new_column ''updated'' DB_DateTime 0 False False False]
     [new_index UniqueIndex [''org_id'', ''target'']]"

section \<open>The migrations\<close>

definition addMigrationLogMigrations :: "'d Migration list" where
  "addMigrationLogMigrations = [AddMigration ''create migration_log table'' (NewAddTableMigration migrationLogV1)]"

definition addCollectorMigration :: "'d orm \<Rightarrow> 'd Migration list" where
  "addCollectorMigration M =
     [AddMigration ''create collector table v1'' (NewAddTableMigration collectorV1)] @
     addTableIndicesMigrations ''v1'' collectorV1 @
     [AddMigration ''create collector_tag table v1'' (NewAddTableMigration collectorTagV1)] @
     addTableIndicesMigrations ''v1'' collectorTagV1 @
     [AddMigration ''create collector_session table'' (NewAddTableMigration collectorSessionV1),
      on_success (clear_sessions M) (AddMigration ''add instance_id to collector_session table v1''
        (NewAddColumnMigration collectorSessionV1 (new_column ''instance_id'' DB_NVarchar 255 True False False))),
      AddMigration ''add online_change col to collector table v1''
        (NewAddColumnMigration collectorV1 (new_column ''online_change'' DB_DateTime 0 True False False)),
      on_success (stamp_enabled_change M) (AddMigration ''add enabled_change col to collector table v1''
        (NewAddColumnMigration collectorV1 (new_column ''enabled_change'' DB_DateTime 0 True False False))),
      addTableRenameMigration ''collector'' ''probe'' ''v1'',
      AddMigration ''create probe_tag table v1'' (NewAddTableMigration probeTagV1)] @
     addTableIndicesMigrations ''v1'' probeTagV1 @
     [AddMigration ''copy collector_tag to probe_tag v1'' (NewCopyTableDataMigration ''probe_tag'' ''collector_tag''
        [(''id'', ''id''), (''org_id'', ''org_id''), (''probe_id'', ''collector_id''),
         (''tag'', ''tag'')]),
      AddMigration ''Drop old table collector_tag'' (DropTableMigration ''collector_tag''),
      AddMigration ''create probe_session table'' (NewAddTableMigration probeSessionV1)] @
     addTableIndicesMigrations ''v1'' probeSessionV1 @
     [AddMigration ''Drop old table collector_session'' (DropTableMigration ''collector_session'')]"

definition addCheckMigration :: "'d orm \<Rightarrow> (string \<Rightarrow> rat) \<Rightarrow> 'd Migration list" where
  "addCheckMigration M pf =
     [AddMigration ''create monitor v3'' (NewAddTableMigration monitorV3)] @
     addTableIndicesMigrations ''v3'' monitorV3 @
     addDropAllIndicesMigrations ''v3'' monitorV3 @
     [addTableRenameMigration ''monitor'' ''monitor_v3'' ''v3'',
      AddMigration ''create monitor v4'' (NewAddTableMigration monitorV4)] @
     addTableIndicesMigrations ''v4'' monitorV4 @
     [AddMigration ''copy monitor v3 to v4'' (NewCopyTableDataMigration ''monitor'' ''monitor_v3''
        [(''id'', ''id''), (''endpoint_id'', ''endpoint_id''), (''org_id'', ''org_id''),
         (''monitor_type_id'', ''monitor_type_id''), (''offset'', ''offset''), (''frequency'', ''frequency''),
         (''enabled'', ''enabled''), (''settings'', ''settings''), (''state'', ''state''),
         (''state_change'', ''state_change''), (''created'', ''created''), (''updated'', ''updated'')]),
      AddMigration ''Drop old table monitor_v3'' (DropTableMigration ''monitor_v3''),
      AddMigration ''create monitor_type table'' (NewAddTableMigration monitorTypeV1),
      AddMigration ''create monitor_type_setting table'' (NewAddTableMigration monitorTypeSettingV1),
      AddMigration ''add index monitor_type_setting.monitor_type_id''
        (NewAddIndexMigration monitorTypeSettingV1 (hd (tb_Indices monitorTypeSettingV1))),
      AddMigration ''create monitor_collector table'' (NewAddTableMigration monitorCollectorV1)] @
     addTableIndicesMigrations ''v1'' monitorCollectorV1 @
     [AddMigration ''create monitor_collector_tag table v1'' (NewAddTableMigration monitorCollectorTagV1)] @
     addTableIndicesMigrations ''v1'' monitorCollectorTagV1 @
     [AddMigration ''monitor add state_check v1''
        (NewAddColumnMigration monitorV4 (new_column ''state_check'' DB_DateTime 0 True False False)),
      on_success (fill_health M) (AddMigration ''monitor add alerts v1''
        (NewAddColumnMigration monitorV4 (new_column ''health_settings'' DB_NVarchar 2048 True False False))),
      on_success (fill_types M) (AddMigration ''monitor add type v1''
        (NewAddColumnMigration monitorV4 (new_column ''type'' DB_NVarchar 32 True False False)))] @
     addDropAllIndicesMigrations ''v4'' monitorV4 @
     [AddMigration ''create check v1'' (NewAddTableMigration checkV1)] @
     addTableIndicesMigrations ''v1'' checkV1 @
     [on_success (build_routes M pf) (AddMigration ''copy monitor v4 to check v1'' (NewCopyTableDataMigration ''check'' ''monitor''
        [(''id'', ''id''), (''endpoint_id'', ''endpoint_id''), (''org_id'', ''org_id''),
         (''type'', ''type''), (''offset'', ''offset''), (''frequency'', ''frequency''),
         (''enabled'', ''enabled''), (''settings'', ''settings''), (''health_settings'', ''health_settings''),
         (''state'', ''state''), (''state_check'', ''state_check''), (''state_change'', ''state_change''),
         (''created'', ''created''), (''updated'', ''updated'')])),
      AddMigration ''Drop old table monitor_v4'' (DropTableMigration ''monitor''),
      AddMigration ''Drop monitor_type'' (DropTableMigration ''monitor_type''),
      AddMigration ''Drop monitor_type_setting'' (DropTableMigration ''monitor_type_setting''),
      AddMigration ''create route_by_id_index table v1'' (NewAddTableMigration routeIndexV1)] @
     addTableIndicesMigrations ''v1'' routeIndexV1 @
     [AddMigration ''copy monitor_collector to route_by_id_index v1'' (NewCopyTableDataMigration ''route_by_id_index'' ''monitor_collector''
        [(''id'', ''id''), (''check_id'', ''monitor_id''), (''probe_id'', ''collector_id'')]),
      AddMigration ''Drop old table monitor_collector'' (DropTableMigration ''monitor_collector''),
      on_success (fill_tag_index M)
        (AddMigration ''create route_by_tag_index table v1'' (NewAddTableMigration routeTagIndexV1))] @
     addTableIndicesMigrations ''v1'' routeTagIndexV1 @
     [AddMigration ''Drop old table monitor_collector_tag'' (DropTableMigration ''monitor_collector_tag'')]"

definition addEndpointMigration :: "'d orm \<Rightarrow> 'd Migration list" where
  "addEndpointMigration M =
     [AddMigration ''create endpoint table v1'' (NewAddTableMigration endpointV1)] @
     addTableIndicesMigrations ''v1'' endpointV1 @
     [on_success (fill_slugs M) (AddMigration ''add slug column to endpoint v1''
        (NewAddColumnMigration endpointV1 (new_column ''slug'' DB_NVarchar 255 True False False))),
      AddMigration ''create endpoint_tag table v1'' (NewAddTableMigration endpointTagV1)] @
     addTableIndicesMigrations ''v1'' endpointTagV1 @
     [AddMigration ''endpoint_tag add created v1''
        (NewAddColumnMigration endpointTagV1 (new_column ''created'' DB_DateTime 0 True False False))]"

definition addAlertSchedulerValueMigration :: "'d Migration list" where
  "addAlertSchedulerValueMigration =
     [AddMigration ''create alert_scheduler_value table v1'' (NewAddTableMigration alertSchedV1)]"

definition addQuotaMigration :: "'d Migration list" where
  "addQuotaMigration =
     [AddMigration ''create quota table v1'' (NewAddTableMigration quotaV1)] @
     addTableIndicesMigrations ''v1'' quotaV1 @
     addDropAllIndicesMigrations ''v1'' quotaV1 @
     [addTableRenameMigration ''quota'' ''quota_v1'' ''v1'',
      AddMigration ''create quota table v2'' (NewAddTableMigration quotaV2)] @
     addTableIndicesMigrations ''v2'' quotaV2 @
     [AddMigration ''copy quota v1 to v2'' (NewCopyTableDataMigration ''quota'' ''quota_v1''
        [(''id'', ''id''), (''org_id'', ''org_id''), (''target'', ''target''),
         (''limit'', ''limit''), (''created'', ''created''), (''updated'', ''updated'')]),
      AddMigration ''Drop old table quota_v1'' (DropTableMigration ''quota_v1'')] @
     addDropAllIndicesMigrations ''v2'' quotaV2 @
     [addTableRenameMigration ''quota'' ''quota_v2'' ''v2'',
      AddMigration ''create quota table v3'' (NewAddTableMigration quotaV3)] @
     addTableIndicesMigrations ''v3'' quotaV3 @
     [AddMigration ''copy quota v2 to v3'' (NewCopyTableDataMigration ''quota'' ''quota_v2''
        [(''id'', ''id''), (''org_id'', ''org_id''), (''target'', ''target''),
         (''limit'', ''limit''), (''created'', ''created''), (''updated'', ''updated'')]),
      AddMigration ''Drop old table quota_v2'' (DropTableMigration ''quota_v2'')]"

definition AddMigrations :: "'d orm \<Rightarrow> (string \<Rightarrow> rat) \<Rightarrow> 'd Migration list" where
  "AddMigrations M pf = addMigrationLogMigrations @ addCollectorMigration M @ addCheckMigration M pf @
     addEndpointMigration M @ addAlertSchedulerValueMigration @ addQuotaMigration"

lemmas migration_tables =
  migrationLogV1_def collectorV1_def collectorTagV1_def collectorSessionV1_def probeTagV1_def probeSessionV1_def
  monitorV3_def monitorV4_def monitorTypeV1_def monitorTypeSettingV1_def monitorCollectorV1_def
  monitorCollectorTagV1_def checkV1_def routeIndexV1_def routeTagIndexV1_def endpointV1_def endpointTagV1_def
  alertSchedV1_def quotaV1_def quotaV2_def quotaV3_def

lemmas migration_lists =
  addMigrationLogMigrations_def addCollectorMigration_def addCheckMigration_def addEndpointMigration_def
  addAlertSchedulerValueMigration_def addQuotaMigration_def AddMigrations_def

end
