(* ===== verification/MigratorProps.thy ===== *)
theory MigratorProps
  imports Migrator
begin

text \<open>
  What the migrator guarantees of any list of migrations and any database: rendering is repeatable, so
  the log holds the SQL that ran; a failed migration leaves nothing but its record; and a later start
  runs exactly the migrations that were not done.
\<close>

section \<open>Rendering twice\<close>

definition plain_column :: "Column \<Rightarrow> bool" where
  "plain_column c \<longleftrightarrow> col_Type c \<notin> {DB_Serial, DB_BigSerial}"

fun plain_statement :: "statement \<Rightarrow> bool" where
  "plain_statement (AddColumnMigration t c) = plain_column c"
| "plain_statement (AddTableMigration t) = list_all plain_column (tb_Columns t)"
| "plain_statement st = True"

lemma unchanged_columns:
  assumes "plain_column c"
  shows "snd (Postgres_SqlType c) = c" "snd (Sqlite3_SqlType c) = c"
proof -
  have t: "col_Type c \<noteq> DB_Serial" "col_Type c \<noteq> DB_BigSerial" using assms by (simp_all add: plain_column_def)
  show "snd (Postgres_SqlType c) = c" unfolding Postgres_SqlType_def Let_def by (simp only: t if_distrib[of snd] snd_conv if_cancel insert_iff empty_iff simp_thms if_False)
  show "snd (Sqlite3_SqlType c) = c" unfolding Sqlite3_SqlType_def Let_def by (simp only: t if_distrib[of snd] snd_conv if_cancel insert_iff empty_iff simp_thms if_False)
qed

lemma Mysql_again:
  assumes "plain_column c"
  shows "Mysql_SqlType (snd (Mysql_SqlType c)) = Mysql_SqlType c"
    "col_IsPrimaryKey (snd (Mysql_SqlType c)) = col_IsPrimaryKey c" "col_Name (snd (Mysql_SqlType c)) = col_Name c"
proof -
  define big where "big res c1 = (if res = DB_BigInt \<and> \<not> col_Length c1 > 0 \<and> \<not> col_Length2 c1 > 0
     then c1\<lparr>col_Length := 20\<rparr> else c1)" for res and c1 :: Column
  have big: "big res (big res c1) = big res c1" "col_Type (big res c1) = col_Type c1"
    "col_IsPrimaryKey (big res c1) = col_IsPrimaryKey c1" "col_Name (big res c1) = col_Name c1" for res c1
    by (simp_all add: big_def)
  have t: "col_Type c \<noteq> DB_Serial" "col_Type c \<noteq> DB_BigSerial" using assms by (simp_all add: plain_column_def)
  have S: "Mysql_SqlType c1 = (sized (fst (mysql_type c1)) (big (fst (mysql_type c1)) (snd (mysql_type c1))),
      big (fst (mysql_type c1)) (snd (mysql_type c1)))" for c1
    by (simp add: Mysql_SqlType_def big_def Let_def split: prod.splits)
  have m: "mysql_type c1 = (fst (mysql_type c), c1)" if "col_Type c1 = col_Type c"
    "col_Type c = DB_Bool \<Longrightarrow> col_Length c1 = 1" "col_Type c = DB_TimeStampz \<Longrightarrow> col_Length c1 = 64" for c1
    using that t by (cases "col_Type c = DB_Bool"; cases "col_Type c = DB_TimeStampz") (simp_all add: mysql_type_def Let_def)
  let ?c1 = "snd (mysql_type c)" let ?c2 = "big (fst (mysql_type c)) ?c1"
  have c1: "col_Type ?c1 = col_Type c" "col_IsPrimaryKey ?c1 = col_IsPrimaryKey c" "col_Name ?c1 = col_Name c"
    using t by (simp_all add: mysql_type_def Let_def)
  have "mysql_type ?c2 = (fst (mysql_type c), ?c2)"
  proof (rule m)
    show "col_Type ?c2 = col_Type c" by (simp add: big c1)
    assume "col_Type c = DB_Bool"
    then show "col_Length ?c2 = 1" by (simp add: big_def mysql_type_def)
  next
    assume a: "col_Type c = DB_TimeStampz"
    then have "col_Type c \<noteq> DB_Bool" "col_Type c \<noteq> DB_Bytea" by (simp_all add: DB_defs)
    with a t show "col_Length ?c2 = 64" by (simp add: big_def mysql_type_def)
  qed
  then show "Mysql_SqlType (snd (Mysql_SqlType c)) = Mysql_SqlType c" by (simp add: S big)
  show "col_IsPrimaryKey (snd (Mysql_SqlType c)) = col_IsPrimaryKey c" "col_Name (snd (Mysql_SqlType c)) = col_Name c"
    by (simp_all add: S big c1)
qed

lemma SqlType_again:
  assumes "plain_column c"
  shows "SqlType d (snd (SqlType d c)) = SqlType d c" "col_IsPrimaryKey (snd (SqlType d c)) = col_IsPrimaryKey c"
    "col_Name (snd (SqlType d c)) = col_Name c"
  using unchanged_columns[OF assms] Mysql_again[OF assms] by (cases d; simp)+

lemma XName_again: "XName (snd (XName ix t)) t = XName ix t"
  by (simp add: XName_def Let_def)

lemma Column_again:
  assumes "plain_column c"
  shows "Column_String d (snd (Column_String d c)) = Column_String d c"
    "StringNoPk d (snd (StringNoPk d c)) = StringNoPk d c"
    "snd (Column_String d c) = snd (SqlType d c)" "snd (StringNoPk d c) = snd (SqlType d c)"
proof -
  obtain ty c1 where c1: "SqlType d c = (ty, c1)" by fastforce
  with SqlType_again[OF assms, of d] have "SqlType d c1 = (ty, c1)" "col_Name c1 = col_Name c" by simp_all
  with c1 show "Column_String d (snd (Column_String d c)) = Column_String d c"
    "StringNoPk d (snd (StringNoPk d c)) = StringNoPk d c"
    "snd (Column_String d c) = snd (SqlType d c)" "snd (StringNoPk d c) = snd (SqlType d c)"
    by (simp_all add: Column_String_def StringNoPk_def)
qed

lemma columns_again:
  assumes "list_all plain_column cs"
  shows "columns_sql d pks sql (snd (columns_sql d pks sql cs)) = columns_sql d pks sql cs"
  using assms
proof (induction cs arbitrary: sql)
  case (Cons c cs)
  define r where "r = (if col_IsPrimaryKey c \<and> length pks = 1 then Column_String d c else StringNoPk d c)"
  have c: "plain_column c" using Cons.prems by simp
  have "col_IsPrimaryKey (snd r) = col_IsPrimaryKey c"
    using SqlType_again(2)[OF c] Column_again(3,4)[OF c] by (simp add: r_def)
  then have again: "(if col_IsPrimaryKey (snd r) \<and> length pks = 1 then Column_String d (snd r) else StringNoPk d (snd r)) = r"
    using Column_again(1,2)[OF c] by (simp add: r_def)
  obtain s c' where rp: "r = (s, c')" by fastforce
  obtain q cs' where rec: "columns_sql d pks (trim_space (sql @ s) @ nl @ '', '') cs = (q, cs')" by fastforce
  have "columns_sql d pks (trim_space (sql @ s) @ nl @ '', '') cs' = (q, cs')"
    using Cons.IH[of "trim_space (sql @ s) @ nl @ '', ''"] Cons.prems rec by simp
  moreover have "columns_sql d pks sql (c # cs) = (q, c' # cs')"
    unfolding columns_sql.simps r_def[symmetric] rp Let_def by (simp add: rec)
  moreover have "(if col_IsPrimaryKey c' \<and> length pks = 1 then Column_String d c' else StringNoPk d c') = (s, c')"
    using again[unfolded rp snd_conv] .
  ultimately show ?case by simp
qed simp

text \<open>
  Rendering a migration writes defaults and lengths into its columns and index, yet a second
  rendering gives the same text: the SQL that \<open>Start\<close> puts into the log is the SQL that
  \<open>exec_migration\<close> runs, in every dialect, for every migration without serial columns. (A serial column would
  become a primary key by the first rendering.)
\<close>

theorem Sql_repeatable:
  assumes "plain_statement st"
  shows "Sql d (snd (Sql d st)) = Sql d st"
proof (cases st)
  case (AddColumnMigration t c)
  with assms have "plain_column c" by simp
  from Column_again(2)[OF this, of d] AddColumnMigration show ?thesis
    by (cases "StringNoPk d c") (simp add: AddColumnSql_def)
next
  case (AddTableMigration t)
  with assms have "list_all plain_column (tb_Columns t)" by simp
  note again = columns_again[OF this, of d "tb_PrimaryKeys t" "''CREATE TABLE IF NOT EXISTS '' @ Quote d (tb_Name t) @ '' ('' @ nl"]
  obtain q cs where cs: "columns_sql d (tb_PrimaryKeys t) (''CREATE TABLE IF NOT EXISTS '' @ Quote d (tb_Name t) @ '' ('' @ nl)
      (tb_Columns t) = (q, cs)" by fastforce
  from again[unfolded cs] cs AddTableMigration show ?thesis by (simp add: CreateTableSql_def Let_def)
next
  case (AddIndexMigration t ix)
  with XName_again[of ix t] show ?thesis
    by (auto simp: CreateIndexSql_def XName_def Let_def)
next
  case (DropIndexMigration t ix)
  then show ?thesis by (cases d) (auto simp: XName_def Let_def)
qed simp_all

section \<open>A failed start\<close>

text \<open>A migration that fails leaves the tables as they were.\<close>

lemma inTransaction_error_restores: "inTransaction body rf (n, d) = (Inl e, (n', d')) \<Longrightarrow> d' = d"
  by (auto simp: inTransaction_def callQ_def split: prod.splits sum.splits option.splits if_splits)

lemma run_fails:
  assumes "run_migrations E dia L ms rf (n, d) = (Inl e, (n1, d1))"
  shows "\<exists>pre m post n2 d2 n3. ms = pre @ m # post \<and> map_of L (mig_Id m) = None \<and>
     run_migrations E dia L pre rf (n, d) = (Inr (), (n2, d2)) \<and>
     (n1, d1) = insert_log E (log_record (mig_Id m) (fst (Sql dia (mig_Stmt m))) (en_now E n2) (Some e)) (n3, d2) rf"
  using assms
proof (induction ms arbitrary: n d)
  case (Cons m ms)
  show ?case
  proof (cases "map_of L (mig_Id m) = None")
    case False
    with Cons.prems have "run_migrations E dia L ms rf (n, d) = (Inl e, (n1, d1))" by auto
    from Cons.IH[OF this] obtain pre m' post n2 d2 n3 where "ms = pre @ m' # post" "map_of L (mig_Id m') = None"
      "run_migrations E dia L pre rf (n, d) = (Inr (), (n2, d2))"
      "(n1, d1) = insert_log E (log_record (mig_Id m') (fst (Sql dia (mig_Stmt m'))) (en_now E n2) (Some e)) (n3, d2) rf"
      by blast
    with False show ?thesis by (intro exI[of _ "m # pre"]) auto
  next
    case True
    obtain sql st where st: "Sql dia (mig_Stmt m) = (sql, st)" by fastforce
    obtain r n3 d3 where x: "exec_migration E dia (m\<lparr>mig_Stmt := st\<rparr>) rf (n, d) = (r, (n3, d3))" by (metis surj_pair)
    show ?thesis
    proof (cases r)
      case (Inl e')
      with x have "d3 = d" unfolding exec_migration_def by (metis inTransaction_error_restores)
      with Cons.prems True st x Inl have "m # ms = [] @ m # ms \<and> map_of L (mig_Id m) = None \<and>
          run_migrations E dia L [] rf (n, d) = (Inr (), (n, d)) \<and>
          (n1, d1) = insert_log E (log_record (mig_Id m) (fst (Sql dia (mig_Stmt m))) (en_now E n) (Some e)) (n3, d) rf"
        by (auto simp: retQ_def Let_def)
      then show ?thesis by blast
    next
      case (Inr u)
      obtain n4 d4 where i: "insert_log E (log_record (mig_Id m) sql (en_now E n) None) (n3, d3) rf = (n4, d4)" by fastforce
      with Cons.prems True st x Inr have "run_migrations E dia L ms rf (n4, d4) = (Inl e, (n1, d1))"
        by (simp add: Let_def)
      from Cons.IH[OF this] obtain pre m' post n2 d2 n5 where p: "ms = pre @ m' # post" "map_of L (mig_Id m') = None"
        "run_migrations E dia L pre rf (n4, d4) = (Inr (), (n2, d2))"
        "(n1, d1) = insert_log E (log_record (mig_Id m') (fst (Sql dia (mig_Stmt m'))) (en_now E n2) (Some e)) (n5, d2) rf"
        by blast
      then have "run_migrations E dia L (m # pre) rf (n, d) = (Inr (), (n2, d2))"
        using True st x Inr i by (simp add: Let_def)
      with p show ?thesis by (intro exI[of _ "m # pre"]) auto
    qed
  qed
qed (simp add: retQ_def)


section \<open>Starting again\<close>

definition done_ids :: "'d engine \<Rightarrow> 'd \<Rightarrow> string set" where
  "done_ids E d = (case en_log E d of None \<Rightarrow> {} | Some rows \<Rightarrow> ml_MigrationId ` {r \<in> set rows. ml_Success r})"

lemma log_map_dom:
  "map_of (fold (\<lambda>r m. if ml_Success r then AList.update (ml_MigrationId r) r m else m) rows m0) i = None \<longleftrightarrow>
     map_of m0 i = None \<and> i \<notin> ml_MigrationId ` {r \<in> set rows. ml_Success r}"
  by (induction rows arbitrary: m0) (auto simp: update_conv')

lemma GetMigrationLog_reads:
  assumes "GetMigrationLog E rf (n, d) = (r, (n', d'))"
  shows "d' = d" and "r = Inr L \<Longrightarrow> (map_of L i = None) = (i \<notin> done_ids E d)"
proof -
  note simps = GetMigrationLog_def bindQ_def retQ_def log_table_exists_def find_log_def callQ_def done_ids_def
  show "d' = d" using assms by (auto simp: simps split: prod.splits sum.splits option.splits if_splits)
  show "r = Inr L \<Longrightarrow> (map_of L i = None) = (i \<notin> done_ids E d)"
    using assms by (auto simp: simps log_map_dom split: prod.splits sum.splits option.splits if_splits)
qed

lemma run_skips:
  "\<forall>m\<in>set pre. map_of L (mig_Id m) \<noteq> None \<Longrightarrow> run_migrations E dia L (pre @ ms) = run_migrations E dia L ms"
  by (induction pre) auto

lemma Start_skips_done:
  assumes "\<forall>m\<in>set pre. mig_Id m \<in> done_ids E d"
  shows "Migrator_Start E dia (pre @ ms) rf (n, d) = Migrator_Start E dia ms rf (n, d)"
proof -
  obtain r n0 d0 where g: "GetMigrationLog E rf (n, d) = (r, (n0, d0))" by (metis surj_pair)
  show ?thesis
  proof (cases r)
    case (Inr L)
    have "\<forall>m\<in>set pre. map_of L (mig_Id m) \<noteq> None" using GetMigrationLog_reads(2)[OF g Inr] assms by blast
    from run_skips[OF this] g Inr show ?thesis by (simp add: Migrator_Start_def bindQ_def)
  qed (use g in \<open>simp add: Migrator_Start_def bindQ_def\<close>)
qed

text \<open>
  What the code relies on: a row can be inserted once the log table exists and is then its last row;
  statements and the additional code of a migration touch the log only by creating its empty table.
\<close>

definition keeps_log :: "'d engine \<Rightarrow> ('d, 'a) sess \<Rightarrow> bool" where
  "keeps_log E m \<longleftrightarrow> (\<forall>rf n d r n' d'. m rf (n, d) = (r, (n', d')) \<longrightarrow>
     en_log E d' = en_log E d \<or> en_log E d = None \<and> en_log E d' = Some [])"

definition log_documented :: "'d engine \<Rightarrow> bool" where
  "log_documented E \<longleftrightarrow>
     (\<forall>r d rows. en_log E d = Some rows \<longrightarrow>
        (\<exists>d' i. en_insert E r d = Inr d' \<and> en_log E d' = Some (rows @ [r\<lparr>ml_Id := i\<rparr>]))) \<and>
     (\<forall>r d. en_log E d = None \<longrightarrow> (\<exists>e. en_insert E r d = Inl e)) \<and>
     (\<forall>sql. keeps_log E (exec_sql E sql))"

lemma keeps_bind: "keeps_log E m \<Longrightarrow> (\<And>x. keeps_log E (f x)) \<Longrightarrow> keeps_log E (bindQ m f)"
  unfolding keeps_log_def bindQ_def by (auto split: prod.splits sum.splits) (metis option.distinct(1))+

lemma keeps_basic: "keeps_log E (retQ x)" "keeps_log E (callQ (\<lambda>d. Inr ((), d)))" "keeps_log E (fulfilled E dia m)"
  by (auto simp: keeps_log_def retQ_def callQ_def fulfilled_def split: option.splits prod.splits sum.splits)

lemma keeps_transaction: "keeps_log E body \<Longrightarrow> keeps_log E (inTransaction body)"
  unfolding keeps_log_def inTransaction_def callQ_def
  by (auto split: prod.splits sum.splits option.splits if_splits)

lemma keeps_exec_migration:
  assumes "log_documented E" and "keeps_log E (ExecOnSuccess m)"
  shows "keeps_log E (exec_migration E dia (m\<lparr>mig_Stmt := st\<rparr>))"
  using assms unfolding exec_migration_def log_documented_def
  by (auto simp: ExecOnSuccess_def intro!: keeps_transaction keeps_bind keeps_basic)

lemma inserted:
  assumes doc: "log_documented E" and rf: "\<forall>n. rf n = None" and rows: "en_log E d = Some rows"
    and i: "insert_log E r (n, d) rf = (n', d')"
  shows "\<exists>k. en_log E d' = Some (rows @ [r\<lparr>ml_Id := k\<rparr>])"
proof -
  from doc rows obtain d2 k where "en_insert E r d = Inr d2" "en_log E d2 = Some (rows @ [r\<lparr>ml_Id := k\<rparr>])"
    unfolding log_documented_def by blast
  with rf i show ?thesis by (auto simp: insert_log_def callQ_def)
qed

lemma done_ids_more: "en_log E d = Some rows \<Longrightarrow> en_log E d' = Some (rows @ new) \<Longrightarrow> done_ids E d \<subseteq> done_ids E d'"
  by (auto simp: done_ids_def)

lemma run_done:
  assumes doc: "log_documented E" and rf: "\<forall>n. rf n = None" and hooks: "\<forall>m\<in>set ms. keeps_log E (ExecOnSuccess m)"
    and "en_log E d = Some rows" and "run_migrations E dia L ms rf (n, d) = (Inr (), (n1, d1))"
  shows "(\<exists>new. en_log E d1 = Some (rows @ new)) \<and>
     (\<forall>m\<in>set ms. map_of L (mig_Id m) = None \<longrightarrow> mig_Id m \<in> done_ids E d1)"
  using assms(3-5)
proof (induction ms arbitrary: n d rows)
  case (Cons m ms)
  show ?case
  proof (cases "map_of L (mig_Id m) = None")
    case True
    obtain sql st where st: "Sql dia (mig_Stmt m) = (sql, st)" by fastforce
    obtain r n3 d3 where x: "exec_migration E dia (m\<lparr>mig_Stmt := st\<rparr>) rf (n, d) = (r, (n3, d3))" by (metis surj_pair)
    with Cons.prems(3) True st obtain u where r: "r = Inr u" by (cases r) (auto simp: Let_def)
    obtain n4 d4 where i: "insert_log E (log_record (mig_Id m) sql (en_now E n) None) (n3, d3) rf = (n4, d4)" by fastforce
    have rest: "run_migrations E dia L ms rf (n4, d4) = (Inr (), (n1, d1))"
      using Cons.prems(3) True st x r i by (simp add: Let_def)
    have "keeps_log E (exec_migration E dia (m\<lparr>mig_Stmt := st\<rparr>))" using keeps_exec_migration[OF doc] Cons.prems(1) by simp
    with x Cons.prems(2) have "en_log E d3 = Some rows" unfolding keeps_log_def by (metis option.distinct(1))
    from inserted[OF doc rf this i] obtain k where
      rows4: "en_log E d4 = Some (rows @ [(log_record (mig_Id m) sql (en_now E n) None)\<lparr>ml_Id := k\<rparr>])" by blast
    then have now: "mig_Id m \<in> done_ids E d4" by (force simp: done_ids_def log_record_def)
    from Cons.IH[OF _ rows4 rest] Cons.prems(1) obtain new where
      new: "en_log E d1 = Some ((rows @ [(log_record (mig_Id m) sql (en_now E n) None)\<lparr>ml_Id := k\<rparr>]) @ new)"
      and ms: "\<forall>m\<in>set ms. map_of L (mig_Id m) = None \<longrightarrow> mig_Id m \<in> done_ids E d1" by auto
    from now done_ids_more[OF rows4 new] have "mig_Id m \<in> done_ids E d1" by blast
    with new ms show ?thesis by auto
  next
    case False
    with Cons.prems have "run_migrations E dia L ms rf (n, d) = (Inr (), (n1, d1))" by auto
    with Cons.IH[OF _ Cons.prems(2) this] Cons.prems(1) False show ?thesis by auto
  qed
qed (simp add: retQ_def)

text \<open>The first migration creates the log table.\<close>

fun creates_log :: "'d engine \<Rightarrow> Dialect \<Rightarrow> 'd Migration list \<Rightarrow> bool" where
  "creates_log E dia [] \<longleftrightarrow> True"
| "creates_log E dia (m # ms) \<longleftrightarrow> plain_statement (mig_Stmt m) \<and> mig_Condition m = None \<and>
     (\<forall>d d'. en_exec E (fst (Sql dia (mig_Stmt m))) d = Inr d' \<longrightarrow> en_log E d' \<noteq> None)"

lemma inTransaction_done:
  assumes "\<forall>n. rf n = None" and "inTransaction body rf (n, d) = (Inr u, (n', d'))"
  obtains b n2 d2 where "body rf (Suc n, d) = (Inr b, (n2, d2))" "d' = (if b then d else d2)"
  using assms by (auto simp: inTransaction_def callQ_def split: prod.splits sum.splits if_splits)

lemma exec_creates:
  assumes doc: "log_documented E" and rf: "\<forall>n. rf n = None" and hook: "keeps_log E (ExecOnSuccess m)"
    and c: "creates_log E dia (m # ms)"
    and x: "exec_migration E dia (m\<lparr>mig_Stmt := snd (Sql dia (mig_Stmt m))\<rparr>) rf (n, d) = (Inr u, (n', d'))"
  shows "en_log E d' \<noteq> None"
proof -
  let ?sql = "fst (Sql dia (mig_Stmt m))"
  have p: "plain_statement (mig_Stmt m)" "mig_Condition m = None" using c by simp_all
  obtain b n2 d2 where body: "bindQ (exec_sql E ?sql) (\<lambda>_. bindQ (ExecOnSuccess m) (\<lambda>_. retQ False)) rf (Suc n, d) =
      (Inr b, (n2, d2))" and d': "d' = (if b then d else d2)"
    using inTransaction_done[OF rf x[unfolded exec_migration_def]] p
    by (auto simp: fulfilled_def Sql_repeatable bindQ_def retQ_def ExecOnSuccess_def)
  then obtain n1 d1 where e: "exec_sql E ?sql rf (Suc n, d) = (Inr (), (n1, d1))"
    and h: "ExecOnSuccess m rf (n1, d1) = (Inr (), (n2, d2))" and "\<not> b"
    by (auto simp: bindQ_def retQ_def split: prod.splits sum.splits)
  from e rf have "en_exec E ?sql d = Inr d1" by (auto simp: exec_sql_def callQ_def split: sum.splits)
  with c have "en_log E d1 \<noteq> None" by simp
  with h hook have "en_log E d2 \<noteq> None" unfolding keeps_log_def by (metis option.distinct(1))
  with d' \<open>\<not> b\<close> show ?thesis by simp
qed

lemma run_first:
  assumes doc: "log_documented E" and rf: "\<forall>n. rf n = None" and hooks: "\<forall>m\<in>set ms. keeps_log E (ExecOnSuccess m)"
    and c: "creates_log E dia ms" and none: "en_log E d = None"
    and run: "run_migrations E dia [] ms rf (n, d) = (Inr (), (n1, d1))"
  shows "\<forall>m\<in>set ms. mig_Id m \<in> done_ids E d1"
proof (cases ms)
  case (Cons m rest)
  obtain sql st where st: "Sql dia (mig_Stmt m) = (sql, st)" by fastforce
  obtain r n3 d3 where x: "exec_migration E dia (m\<lparr>mig_Stmt := st\<rparr>) rf (n, d) = (r, (n3, d3))" by (metis surj_pair)
  with run Cons st obtain u where r: "r = Inr u" by (cases r) (auto simp: Let_def)
  have hook: "keeps_log E (ExecOnSuccess m)" using hooks Cons by simp
  from exec_creates[OF doc rf hook] x r st c Cons have "en_log E d3 \<noteq> None" by (metis snd_conv)
  then obtain rows where rows: "en_log E d3 = Some rows" by blast
  obtain n4 d4 where i: "insert_log E (log_record (mig_Id m) sql (en_now E n) None) (n3, d3) rf = (n4, d4)" by fastforce
  from inserted[OF doc rf rows i] obtain k where
    rows4: "en_log E d4 = Some (rows @ [(log_record (mig_Id m) sql (en_now E n) None)\<lparr>ml_Id := k\<rparr>])" by blast
  then have now: "mig_Id m \<in> done_ids E d4" by (force simp: done_ids_def log_record_def)
  have "run_migrations E dia [] rest rf (n4, d4) = (Inr (), (n1, d1))"
    using run Cons st x r i by (simp add: Let_def)
  from run_done[OF doc rf _ rows4 this] hooks Cons obtain new where
    "en_log E d1 = Some ((rows @ [(log_record (mig_Id m) sql (en_now E n) None)\<lparr>ml_Id := k\<rparr>]) @ new)"
    "\<forall>m\<in>set rest. mig_Id m \<in> done_ids E d1" by auto
  with now done_ids_more[OF rows4] Cons show ?thesis by auto
qed simp

text \<open>A start without an error has done all of its migrations.\<close>

lemma Start_done:
  assumes doc: "log_documented E" and hooks: "\<forall>m\<in>set ms. keeps_log E (ExecOnSuccess m)"
    and log: "en_log E d \<noteq> None \<or> creates_log E dia ms" and rf: "\<forall>n. rf n = None"
    and run: "Migrator_Start E dia ms rf (n, d) = (Inr (), (n1, d1))"
  shows "\<forall>m\<in>set ms. mig_Id m \<in> done_ids E d1"
proof -
  obtain r n0 d0 where g: "GetMigrationLog E rf (n, d) = (r, (n0, d0))" by (metis surj_pair)
  then have d0: "d0 = d" by (rule GetMigrationLog_reads)
  from run g obtain L where L: "r = Inr L" by (cases r) (auto simp: Migrator_Start_def bindQ_def)
  with run g d0 have go: "run_migrations E dia L ms rf (n0, d) = (Inr (), (n1, d1))" by (simp add: Migrator_Start_def bindQ_def)
  show ?thesis
  proof (cases "en_log E d")
    case None
    with g L rf have "L = []" by (auto simp: GetMigrationLog_def bindQ_def retQ_def log_table_exists_def callQ_def)
    with run_first[OF doc rf hooks _ None] go log None show ?thesis by auto
  next
    case (Some rows)
    from run_done[OF doc rf hooks Some go] obtain more' where
      more: "en_log E d1 = Some (rows @ more')"
      and new: "\<forall>m\<in>set ms. map_of L (mig_Id m) = None \<longrightarrow> mig_Id m \<in> done_ids E d1" by blast
    show ?thesis
    proof
      fix m assume m: "m \<in> set ms"
      show "mig_Id m \<in> done_ids E d1"
      proof (cases "map_of L (mig_Id m) = None")
        case False
        with GetMigrationLog_reads(2)[OF g L, of "mig_Id m"] have "mig_Id m \<in> done_ids E d" by simp
        with done_ids_more[OF Some more] show ?thesis by blast
      qed (use new m in blast)
    qed
  qed
qed


section \<open>A recording database\<close>

text \<open>A database that keeps the statements it has run and the rows of the log.\<close>

definition log_table :: Table where
  "log_table = \<lparr>tb_Name = ''migration_log'',
     tb_Columns = [\<lparr>col_Name = ''id'', col_Type = DB_BigInt, col_Length = 0, col_Length2 = 0, col_Nullable = False,
       col_IsPrimaryKey = True, col_IsAutoIncrement = True, col_Default = []\<rparr>],
     tb_PrimaryKeys = [''id''], tb_Indices = []\<rparr>"

definition recorder :: "(string list \<times> MigrationLog list option) engine" where
  "recorder =
     \<lparr>en_log = snd,
      en_insert = (\<lambda>r (q, l). case l of None \<Rightarrow> Inl (OtherError ''no such table'') | Some rows \<Rightarrow> Inr (q, Some (rows @ [r\<lparr>ml_Id := int (length rows) + 1\<rparr>]))),
      en_query = (\<lambda>sql args d. Inr 0),
      en_exec = (\<lambda>sql (q, l). if sql = ''bad'' then Inl (OtherError ''syntax error'')
        else Inr (q @ [sql], if l = None \<and> sql = fst (Sql Sqlite3 (AddTableMigration log_table)) then Some [] else l)),
      en_now = int\<rparr>"

definition good_list :: "(string list \<times> MigrationLog list option) Migration list" where
  "good_list = [AddMigration ''log'' (AddTableMigration log_table), AddMigration ''drop'' (DropTableMigration ''a'')]"

definition bad_list :: "(string list \<times> MigrationLog list option) Migration list" where
  "bad_list = good_list @ [AddMigration ''bad'' (RawSqlMigration ''bad'' ''bad'' ''bad''), AddMigration ''late'' (DropTableMigration ''b'')]"

lemma recorder_documented: "log_documented recorder"
  by (auto simp: log_documented_def recorder_def keeps_log_def exec_sql_def callQ_def
      split: option.splits sum.splits if_splits)

lemma Sql_repeatable_witness:
  "Sql Mysql (snd (Sql Mysql (AddTableMigration log_table))) = Sql Mysql (AddTableMigration log_table)"
  by (rule Sql_repeatable) (simp add: log_table_def plain_column_def DB_defs)

lemma good_run: "fst (Migrator_Start recorder Sqlite3 good_list (\<lambda>n. None) (0, [], None)) = Inr ()"
  by code_simp

lemma bad_run: "fst (Migrator_Start recorder Sqlite3 bad_list (\<lambda>n. None) (0, [], None)) = Inl (OtherError ''syntax error'')"
  by code_simp



end
