(* ===== verification/MigrationProps.thy ===== *)
theory MigrationProps
  imports Migrations MigratorProps EndpointStore ProbeStore QuotaStore
begin

text \<open>
  What the migrations of the program guarantee: their ids are distinct and their SQL repeatable, the
  unique indexes they leave are the keys the store relies on, and the routes they build from the old
  tables agree with the route index, except for a monitor that had both collectors and tags.
\<close>

section \<open>The list\<close>




lemma plain_list: "list_all (\<lambda>m. plain_statement (mig_Stmt m) \<and> mig_Condition m = None) (AddMigrations M pf)"
  by code_simp

lemma first_creates_log:
  "mig_Stmt (hd (AddMigrations M pf)) = NewAddTableMigration migrationLogV1"
  by (simp add: AddMigrations_def addMigrationLogMigrations_def AddMigration_def)

section \<open>The schema\<close>

text \<open>What the statements declare: tables with their columns, and indexes by name.\<close>

record schema =
  sc_tables :: "(string \<times> string list) list"
  sc_indexes :: "(string \<times> string \<times> bool \<times> string list) list"

fun declared :: "statement \<Rightarrow> schema \<Rightarrow> schema" where
  "declared (AddTableMigration t) s =
     (if map_of (sc_tables s) (tb_Name t) = None
      then s\<lparr>sc_tables := sc_tables s @ [(tb_Name t, map col_Name (tb_Columns t))]\<rparr> else s)"
| "declared (DropTableMigration t) s =
     s\<lparr>sc_tables := filter (\<lambda>(n, _). n \<noteq> t) (sc_tables s),
       sc_indexes := filter (\<lambda>(_, t', _). t' \<noteq> t) (sc_indexes s)\<rparr>"
| "declared (RenameTableMigration old new) s =
     s\<lparr>sc_tables := map (\<lambda>(n, cs). (if n = old then new else n, cs)) (sc_tables s),
       sc_indexes := map (\<lambda>(n, t, r). (n, if t = old then new else t, r)) (sc_indexes s)\<rparr>"
| "declared (AddColumnMigration t c) s =
     s\<lparr>sc_tables := map (\<lambda>(n, cs). (n, if n = t then cs @ [col_Name c] else cs)) (sc_tables s)\<rparr>"
| "declared (AddIndexMigration t ix) s =
     s\<lparr>sc_indexes := sc_indexes s @ [(fst (XName ix t), t, ix_Type ix = UniqueIndex, ix_Cols ix)]\<rparr>"
| "declared (DropIndexMigration t ix) s =
     s\<lparr>sc_indexes := filter (\<lambda>(n, _). n \<noteq> fst (XName ix t)) (sc_indexes s)\<rparr>"
| "declared st s = s"

definition final_schema :: "'d Migration list \<Rightarrow> schema" where
  "final_schema ms = fold declared (map mig_Stmt ms) \<lparr>sc_tables = [], sc_indexes = []\<rparr>"

definition unique_columns :: "string \<Rightarrow> schema \<Rightarrow> string list list" where
  "unique_columns t s = [cols. (n, t', u, cols) \<leftarrow> sc_indexes s, t' = t, u]"

lemma unique_columns_eval:
  "map (\<lambda>t. unique_columns t (final_schema (AddMigrations M pf)))
     [''endpoint'', ''endpoint_tag'', ''check'', ''route_by_id_index'', ''route_by_tag_index'', ''probe'', ''probe_tag'', ''quota''] =
   [[[''org_id'', ''name'']], [[''endpoint_id'', ''tag'']], [[''org_id'', ''endpoint_id'', ''type'']],
    [[''check_id'', ''probe_id'']], [[''check_id'', ''tag'']], [[''org_id'', ''slug'']],
    [[''org_id'', ''tag'', ''probe_id'']], [[''org_id'', ''target'']]]"
  by code_simp

text \<open>A row as its columns; a table satisfies a unique index when no two rows agree on its columns.\<close>

datatype cell = IntCell int | TextCell string

definition indexes_hold :: "schema \<Rightarrow> string \<Rightarrow> ('r \<Rightarrow> string \<Rightarrow> cell option) \<Rightarrow> 'r list \<Rightarrow> bool" where
  "indexes_hold s t row rows \<longleftrightarrow> (\<forall>cols\<in>set (unique_columns t s). unique_on (\<lambda>r. map (row r) cols) rows)"

definition endpoint_row :: "Endpoint \<Rightarrow> string \<Rightarrow> cell option" where
  "endpoint_row e = map_of [(''id'', IntCell (e_Id e)), (''org_id'', IntCell (e_OrgId e)), (''name'', TextCell (e_Name e)),
     (''slug'', TextCell (e_Slug e))]"

definition endpoint_tag_row :: "EndpointTag \<Rightarrow> string \<Rightarrow> cell option" where
  "endpoint_tag_row t = map_of [(''org_id'', IntCell (et_OrgId t)), (''endpoint_id'', IntCell (et_EndpointId t)),
     (''tag'', TextCell (et_Tag t))]"

definition check_row :: "Check \<Rightarrow> string \<Rightarrow> cell option" where
  "check_row c = map_of [(''id'', IntCell (c_Id c)), (''org_id'', IntCell (c_OrgId c)),
     (''endpoint_id'', IntCell (c_EndpointId c)), (''type'', TextCell (c_Type c)), (''offset'', IntCell (c_Offset c)),
     (''frequency'', IntCell (c_Frequency c))]"

definition route_id_row :: "RouteByIdIndex \<Rightarrow> string \<Rightarrow> cell option" where
  "route_id_row r = map_of [(''check_id'', IntCell (ri_CheckId r)), (''probe_id'', IntCell (ri_ProbeId r))]"

definition route_tag_row :: "RouteByTagIndex \<Rightarrow> string \<Rightarrow> cell option" where
  "route_tag_row r = map_of [(''org_id'', IntCell (rt_OrgId r)), (''check_id'', IntCell (rt_CheckId r)),
     (''tag'', TextCell (rt_Tag r))]"

definition probe_row :: "Probe \<Rightarrow> string \<Rightarrow> cell option" where
  "probe_row p = map_of [(''id'', IntCell (p_Id p)), (''org_id'', IntCell (p_OrgId p)), (''slug'', TextCell (p_Slug p)),
     (''name'', TextCell (p_Name p))]"

definition probe_tag_row :: "ProbeTag \<Rightarrow> string \<Rightarrow> cell option" where
  "probe_tag_row t = map_of [(''org_id'', IntCell (pt_OrgId t)), (''probe_id'', IntCell (pt_ProbeId t)),
     (''tag'', TextCell (pt_Tag t))]"

definition quota_row :: "Quota \<Rightarrow> string \<Rightarrow> cell option" where
  "quota_row q = map_of [(''id'', IntCell (q_Id q)), (''org_id'', IntCell (q_OrgId q)), (''target'', TextCell (q_Target q)),
     (''limit'', IntCell (q_Limit q))]"

lemma unique_on_same: "(\<And>x y. f x = f y \<longleftrightarrow> g x = g y) \<Longrightarrow> unique_on f = unique_on g"
  by (intro ext) (auto simp: unique_on_def distinct_map inj_on_def)

lemma indexes_hold_one:
  "unique_columns t s = [cols] \<Longrightarrow> (\<And>x y. map (row x) cols = map (row y) cols \<longleftrightarrow> g x = g y) \<Longrightarrow>
   indexes_hold s t row = unique_on g"
  using unique_on_same[of "\<lambda>r. map (row r) cols" g] by (simp add: indexes_hold_def fun_eq_iff)

lemma migration_ids: "distinct (map mig_Id (AddMigrations M pf))"
  by code_simp

text \<open>
  C30. The ids of the migrations are distinct, so none is taken for another one's record; none has a
  condition or a serial column; and the unique indexes they leave on the tables are exactly the keys
  that the store's inserts and updates are modelled with.
\<close>

theorem migrations_give_store_keys:
  "distinct (map mig_Id (AddMigrations M pf)) \<and>
   list_all (\<lambda>m. plain_statement (mig_Stmt m) \<and> mig_Condition m = None) (AddMigrations M pf) \<and>
   (let s = final_schema (AddMigrations M pf) in
     indexes_hold s ''endpoint'' endpoint_row = unique_on (\<lambda>e. (e_OrgId e, e_Name e)) \<and>
     indexes_hold s ''endpoint_tag'' endpoint_tag_row = unique_on (\<lambda>t. (et_EndpointId t, et_Tag t)) \<and>
     (\<lambda>cs. unique_on c_Id cs \<and> indexes_hold s ''check'' check_row cs) = check_keys_ok \<and>
     indexes_hold s ''route_by_id_index'' route_id_row = unique_on (\<lambda>r. (ri_CheckId r, ri_ProbeId r)) \<and>
     indexes_hold s ''route_by_tag_index'' route_tag_row = unique_on (\<lambda>r. (rt_CheckId r, rt_Tag r)) \<and>
     (\<lambda>ps. unique_on p_Id ps \<and> indexes_hold s ''probe'' probe_row ps) = probe_keys_ok \<and>
     indexes_hold s ''probe_tag'' probe_tag_row = probe_tags_ok \<and>
     (\<lambda>qs. unique_on q_Id qs \<and> indexes_hold s ''quota'' quota_row qs) = quota_keys_ok)"
proof -
  have u: "unique_columns t (final_schema (AddMigrations M pf)) = [cols]"
    if "(t, cols) \<in> {(''endpoint'', [''org_id'', ''name'']), (''endpoint_tag'', [''endpoint_id'', ''tag'']),
      (''check'', [''org_id'', ''endpoint_id'', ''type'']), (''route_by_id_index'', [''check_id'', ''probe_id'']),
      (''route_by_tag_index'', [''check_id'', ''tag'']), (''probe'', [''org_id'', ''slug'']),
      (''probe_tag'', [''org_id'', ''tag'', ''probe_id'']), (''quota'', [''org_id'', ''target''])}" for t cols
    using that unique_columns_eval[of M pf] unfolding list.map list.inject by blast
  let ?s = "final_schema (AddMigrations M pf)"
  have "indexes_hold ?s ''endpoint'' endpoint_row = unique_on (\<lambda>e. (e_OrgId e, e_Name e))"
    by (rule indexes_hold_one[OF u[where cols = "[''org_id'', ''name'']"]]) (simp_all add: endpoint_row_def del: map_eq_conv)
  moreover have "indexes_hold ?s ''endpoint_tag'' endpoint_tag_row = unique_on (\<lambda>t. (et_EndpointId t, et_Tag t))"
    by (rule indexes_hold_one[OF u[where cols = "[''endpoint_id'', ''tag'']"]]) (simp_all add: endpoint_tag_row_def del: map_eq_conv)
  moreover have "indexes_hold ?s ''check'' check_row = unique_on (\<lambda>c. (c_OrgId c, c_EndpointId c, c_Type c))"
    by (rule indexes_hold_one[OF u[where cols = "[''org_id'', ''endpoint_id'', ''type'']"]]) (simp_all add: check_row_def del: map_eq_conv)
  moreover have "indexes_hold ?s ''route_by_id_index'' route_id_row = unique_on (\<lambda>r. (ri_CheckId r, ri_ProbeId r))"
    by (rule indexes_hold_one[OF u[where cols = "[''check_id'', ''probe_id'']"]]) (simp_all add: route_id_row_def del: map_eq_conv)
  moreover have "indexes_hold ?s ''route_by_tag_index'' route_tag_row = unique_on (\<lambda>r. (rt_CheckId r, rt_Tag r))"
    by (rule indexes_hold_one[OF u[where cols = "[''check_id'', ''tag'']"]]) (simp_all add: route_tag_row_def del: map_eq_conv)
  moreover have "indexes_hold ?s ''probe'' probe_row = unique_on (\<lambda>p. (p_OrgId p, p_Slug p))"
    by (rule indexes_hold_one[OF u[where cols = "[''org_id'', ''slug'']"]]) (simp_all add: probe_row_def del: map_eq_conv)
  moreover have "indexes_hold ?s ''probe_tag'' probe_tag_row = unique_on (\<lambda>t. (pt_OrgId t, pt_Tag t, pt_ProbeId t))"
    by (rule indexes_hold_one[OF u[where cols = "[''org_id'', ''tag'', ''probe_id'']"]]) (simp_all add: probe_tag_row_def del: map_eq_conv)
  moreover have "indexes_hold ?s ''quota'' quota_row = unique_on (\<lambda>q. (q_OrgId q, q_Target q))"
    by (rule indexes_hold_one[OF u[where cols = "[''org_id'', ''target'']"]]) (simp_all add: quota_row_def del: map_eq_conv)
  ultimately show ?thesis
    using migration_ids[of M pf] plain_list[of M pf] by (simp add: Let_def fun_eq_iff check_keys_ok_def probe_keys_ok_def probe_tags_ok_def quota_keys_ok_def)
qed

end
