(* ===== verification/RouteMigration.thy ===== *)
theory RouteMigration
  imports Migrations EndpointStore
begin

text \<open>
  The migration from monitors to checks: the code that runs after \<open>copy monitor v4 to check v1\<close> gives
  every check the route and the settings its monitor had. The tables it works on are those of the
  record \<open>legacy\<close>; two later migrations turn the rows of collectors and tags into the route index.
\<close>

section \<open>The tables\<close>

record old_check =
  oc_Id :: int
  oc_Type :: CheckType
  oc_Old :: "MonitorSettingDTO list"
  oc_Settings :: "settings option"
  oc_Route :: "CheckRoute option"

record legacy =
  lg_collectors :: "(int \<times> int) list"
  lg_tags :: "(int \<times> string) list"
  lg_checks :: "old_check list"

definition upd_old :: "int \<Rightarrow> (old_check \<Rightarrow> old_check) \<Rightarrow> legacy \<Rightarrow> legacy" where
  "upd_old i f d = d\<lparr>lg_checks := map (\<lambda>c. if oc_Id c = i then f c else c) (lg_checks d)\<rparr>"

text \<open>The ORM on these tables: an update of a column by id writes it in the row of that id.\<close>

definition legacy_orm :: "legacy orm" where
  "legacy_orm =
     \<lparr>om_endpoints = (\<lambda>d. []), om_update_endpoint = (\<lambda>e d. Inr d), om_monitors = (\<lambda>d. []),
      om_update_monitor = (\<lambda>m d. Inr d), om_collectors = lg_collectors, om_tags = lg_tags,
      om_checks = (\<lambda>d. map (\<lambda>c. \<lparr>tc_Settings = oc_Old c, tc_Id = oc_Id c, tc_Type = oc_Type c\<rparr>) (lg_checks d)),
      om_update_route = (\<lambda>i r d. Inr (upd_old i (\<lambda>c. c\<lparr>oc_Route := Some r\<rparr>) d)),
      om_update_settings = (\<lambda>i s d. Inr (upd_old i (\<lambda>c. c\<lparr>oc_Settings := Some s\<rparr>) d)),
      om_exec = (\<lambda>sql args d. Inr d), om_now = (\<lambda>n. 0)\<rparr>"

section \<open>Gathering\<close>

definition values_of :: "int \<Rightarrow> (int \<times> 'a) list \<Rightarrow> 'a list" where
  "values_of i rows = map snd (filter (\<lambda>(j, _). j = i) rows)"

lemma gather_fold:
  "map_of (fold (\<lambda>(i, x) m. AList.update i ((case map_of m i of None \<Rightarrow> [] | Some l \<Rightarrow> l) @ [x]) m) rows m0) i =
     (if values_of i rows = [] then map_of m0 i
      else Some ((case map_of m0 i of None \<Rightarrow> [] | Some l \<Rightarrow> l) @ values_of i rows))"
  by (induction rows arbitrary: m0) (auto simp: values_of_def update_conv' split: option.splits)

lemma map_of_gather: "map_of (gather rows) i = (if values_of i rows = [] then None else Some (values_of i rows))"
  by (simp add: gather_def gather_fold)

lemma gather_distinct: "distinct (map fst (gather rows))"
proof -
  have "distinct (map fst m) \<Longrightarrow> distinct (map fst (fold (\<lambda>(i, x) m.
      AList.update i ((case map_of m i of None \<Rightarrow> [] | Some l \<Rightarrow> l) @ [x]) m) rows m))" for m :: "(int, 'a list) gomap"
    by (induction rows arbitrary: m) (auto simp: distinct_update)
  then show ?thesis by (simp add: gather_def)
qed

section \<open>What a session leaves\<close>

lemma eachQ_fold:
  assumes "\<And>x n d n' d'. x \<in> set xs \<Longrightarrow> body x rf (n, d) = (Inr (), (n', d')) \<Longrightarrow> d' = g x d"
    and "eachQ body xs rf (n, d) = (Inr (), (n', d'))"
  shows "d' = fold g xs d"
  using assms
proof (induction xs arbitrary: n d)
  case (Cons x xs)
  from Cons.prems(2) obtain n1 d1 where x: "body x rf (n, d) = (Inr (), (n1, d1))"
    and rest: "eachQ body xs rf (n1, d1) = (Inr (), (n', d'))"
    by (auto simp: bindQ_def split: prod.splits sum.splits)
  from Cons.prems(1)[OF _ x] have "d1 = g x d" by simp
  with Cons.IH[OF _ rest] Cons.prems(1) show ?case by simp
qed (simp add: retQ_def)

lemma writeQ_Inr: "writeQ f rf (n, d) = (Inr (), (n', d')) \<Longrightarrow> f d = Inr d'"
  by (auto simp: writeQ_def callQ_def split: option.splits sum.splits)

lemma readQ_Inr: "readQ f rf (n, d) = (Inr x, (n', d')) \<Longrightarrow> x = f d \<and> d' = d"
  by (auto simp: readQ_def callQ_def split: option.splits)

lemma bindQ_Inr:
  assumes "bindQ m f rf (n, d) = (Inr y, (n', d'))"
  obtains x n1 d1 where "m rf (n, d) = (Inr x, (n1, d1))" and "f x rf (n1, d1) = (Inr y, (n', d'))"
  using assms by (auto simp: bindQ_def split: prod.splits sum.splits)

lemma fold_upd:
  assumes "distinct (map fst m)" and "\<And>x c. oc_Id (F x c) = oc_Id c"
  shows "fold (\<lambda>(i, x). upd_old i (F x)) m d =
     d\<lparr>lg_checks := map (\<lambda>c. case map_of m (oc_Id c) of None \<Rightarrow> c | Some x \<Rightarrow> F x c) (lg_checks d)\<rparr>"
  using assms(1)
proof (induction m arbitrary: d)
  case (Cons p m)
  obtain i x where p: "p = (i, x)" by fastforce
  with Cons.prems have "map_of m i = None" by (simp add: map_of_eq_None_iff)
  with Cons p show ?case
    by (auto simp: upd_old_def assms(2) split: option.splits)
qed simp

section \<open>The routes\<close>

text \<open>The collectors of the monitor if it has any, else its tags if it has any, else no probe.\<close>

definition route_for :: "legacy \<Rightarrow> int \<Rightarrow> CheckRoute" where
  "route_for d i =
     (if values_of i (lg_collectors d) \<noteq> [] then ids_route (values_of i (lg_collectors d))
      else if values_of i (lg_tags d) \<noteq> [] then tags_route (values_of i (lg_tags d))
      else ids_route [])"

lemma upd_twice: "(\<And>c. oc_Id (g c) = oc_Id c) \<Longrightarrow> upd_old i f (upd_old i g d) = upd_old i (\<lambda>c. f (g c)) d"
  by (auto simp: upd_old_def)

lemma upd_fields [simp]: "lg_collectors (upd_old i f d) = lg_collectors d" "lg_tags (upd_old i f d) = lg_tags d"
  by (simp_all add: upd_old_def)

lemma values_of_filter:
  "values_of i (filter (\<lambda>(j, x). P j) rows) = (if P i then values_of i rows else [])"
  by (induction rows) (auto simp: values_of_def)

lemma routes_written:
  assumes "eachQ (\<lambda>(i, x). writeQ (om_update_route legacy_orm i (F x))) (gather rows) rf (n, d) = (Inr (), (n', d'))"
  shows "d' = d\<lparr>lg_checks := map (\<lambda>c. case map_of (gather rows) (oc_Id c) of
     None \<Rightarrow> c | Some x \<Rightarrow> c\<lparr>oc_Route := Some (F x)\<rparr>) (lg_checks d)\<rparr>"
proof -
  have "d' = fold (\<lambda>(i, x). upd_old i (\<lambda>c. c\<lparr>oc_Route := Some (F x)\<rparr>)) (gather rows) d"
    by (rule eachQ_fold[OF _ assms]) (auto simp: legacy_orm_def dest!: writeQ_Inr)
  then show ?thesis by (simp add: fold_upd[OF gather_distinct])
qed

lemma checks_written:
  assumes dist: "distinct (map tc_Id cs)"
    and run: "eachQ (\<lambda>c. bindQ (writeQ (om_update_settings legacy_orm (tc_Id c) (S c))) (\<lambda>_.
         if B (tc_Id c) then writeQ (om_update_route legacy_orm (tc_Id c) r) else retQ ())) cs rf (n, d) = (Inr (), (n', d'))"
  shows "d' = d\<lparr>lg_checks := map (\<lambda>o1. case map_of (map (\<lambda>c. (tc_Id c, c)) cs) (oc_Id o1) of
     None \<Rightarrow> o1
   | Some c \<Rightarrow> (if B (tc_Id c) then o1\<lparr>oc_Settings := Some (S c), oc_Route := Some r\<rparr>
       else o1\<lparr>oc_Settings := Some (S c)\<rparr>)) (lg_checks d)\<rparr>"
proof -
  let ?F = "\<lambda>c o1. if B (tc_Id c) then o1\<lparr>oc_Settings := Some (S c), oc_Route := Some r\<rparr> else o1\<lparr>oc_Settings := Some (S c)\<rparr>"
  have "d' = fold (\<lambda>c. upd_old (tc_Id c) (?F c)) cs d"
  proof (rule eachQ_fold[OF _ run])
    fix c n d n' d'
    assume "bindQ (writeQ (om_update_settings legacy_orm (tc_Id c) (S c))) (\<lambda>_.
         if B (tc_Id c) then writeQ (om_update_route legacy_orm (tc_Id c) r) else retQ ()) rf (n, d) = (Inr (), (n', d'))"
    then show "d' = upd_old (tc_Id c) (?F c) d"
      by (auto elim!: bindQ_Inr dest!: writeQ_Inr simp: legacy_orm_def retQ_def upd_twice split: if_splits)
  qed
  also have "\<dots> = fold (\<lambda>(i, c). upd_old i (?F c)) (map (\<lambda>c. (tc_Id c, c)) cs) d"
    by (simp add: fold_map comp_def)
  finally show ?thesis
    using dist by (subst (asm) fold_upd) (simp_all add: comp_def)
qed

text \<open>What the migration makes of a check.\<close>

definition migrated :: "(string \<Rightarrow> rat) \<Rightarrow> legacy \<Rightarrow> old_check \<Rightarrow> old_check" where
  "migrated pf d c =
     c\<lparr>oc_Settings := Some (ToV2Setting pf (oc_Old c) (oc_Type c)), oc_Route := Some (route_for d (oc_Id c))\<rparr>"

lemma read_then:
  assumes "bindQ (readQ f) g rf (n, d) = (Inr y, s)"
  obtains n1 where "g (f d) rf (n1, d) = (Inr y, s)"
  using assms by (cases s) (auto elim!: bindQ_Inr dest!: readQ_Inr)

lemma map_checks:
  "(\<And>c. c \<in> set (lg_checks d) \<Longrightarrow> G (f (g c)) = k c) \<Longrightarrow>
   d\<lparr>lg_checks := map f (map g (lg_checks d))\<rparr>
     \<lparr>lg_checks := map G (lg_checks (d\<lparr>lg_checks := map f (map g (lg_checks d))\<rparr>))\<rparr> =
   d\<lparr>lg_checks := map k (lg_checks d)\<rparr>"
  by simp

lemma build_routes_result:
  assumes dist: "distinct (map oc_Id (lg_checks d))"
    and run: "build_routes legacy_orm pf rf (n, d) = (Inr (), (n', d'))"
  shows "d' = d\<lparr>lg_checks := map (migrated pf d) (lg_checks d)\<rparr>"
proof -
  let ?R = "gather (lg_collectors d)"
  let ?T = "gather (filter (\<lambda>(i, tag). map_of ?R i = None) (lg_tags d))"
  let ?none = "\<lambda>i. map_of ?R i = None \<and> map_of ?T i = None"
  define by_id where "by_id c = (case map_of ?R (oc_Id c) of None \<Rightarrow> c | Some x \<Rightarrow> c\<lparr>oc_Route := Some (ids_route x)\<rparr>)" for c :: old_check
  define by_tag where "by_tag c = (case map_of ?T (oc_Id c) of None \<Rightarrow> c | Some x \<Rightarrow> c\<lparr>oc_Route := Some (tags_route x)\<rparr>)" for c :: old_check
  let ?d1 = "d\<lparr>lg_checks := map by_id (lg_checks d)\<rparr>"
  let ?d2 = "d\<lparr>lg_checks := map by_tag (map by_id (lg_checks d))\<rparr>"
  have fields: "oc_Id (by_tag (by_id c)) = oc_Id c" "oc_Old (by_tag (by_id c)) = oc_Old c"
    "oc_Type (by_tag (by_id c)) = oc_Type c" for c
    by (simp_all add: by_id_def by_tag_def split: option.splits)
  let ?cs = "map (\<lambda>c. \<lparr>tc_Settings = oc_Old c, tc_Id = oc_Id c, tc_Type = oc_Type c\<rparr>) (lg_checks d)"
  let ?S = "\<lambda>c. ToV2Setting pf (tc_Settings c) (tc_Type c)"
  have f: "om_collectors legacy_orm = lg_collectors" "om_tags legacy_orm = lg_tags" by (simp_all add: legacy_orm_def)
  note run = run[unfolded build_routes_def Let_def f]
  from read_then[OF run] obtain n1 where
    "bindQ (eachQ (\<lambda>(i, x). writeQ (om_update_route legacy_orm i (ids_route x))) ?R) (\<lambda>_.
     bindQ (readQ lg_tags) (\<lambda>byTags.
       bindQ (eachQ (\<lambda>(i, x). writeQ (om_update_route legacy_orm i (tags_route x)))
         (gather (filter (\<lambda>(i, tag). map_of ?R i = None) byTags))) (\<lambda>_.
       bindQ (readQ (om_checks legacy_orm)) (eachQ (\<lambda>c.
         bindQ (writeQ (om_update_settings legacy_orm (tc_Id c) (?S c))) (\<lambda>_.
         if map_of ?R (tc_Id c) = None \<and> map_of (gather (filter (\<lambda>(i, tag). map_of ?R i = None) byTags)) (tc_Id c) = None
         then writeQ (om_update_route legacy_orm (tc_Id c) (ids_route [])) else retQ ())))))) rf (n1, d) = (Inr (), (n', d'))" .
  then obtain n2 d2 where
    r: "eachQ (\<lambda>(i, x). writeQ (om_update_route legacy_orm i (ids_route x))) ?R rf (n1, d) = (Inr (), (n2, d2))" and
    run: "bindQ (readQ lg_tags) (\<lambda>byTags.
       bindQ (eachQ (\<lambda>(i, x). writeQ (om_update_route legacy_orm i (tags_route x)))
         (gather (filter (\<lambda>(i, tag). map_of ?R i = None) byTags))) (\<lambda>_.
       bindQ (readQ (om_checks legacy_orm)) (eachQ (\<lambda>c.
         bindQ (writeQ (om_update_settings legacy_orm (tc_Id c) (?S c))) (\<lambda>_.
         if map_of ?R (tc_Id c) = None \<and> map_of (gather (filter (\<lambda>(i, tag). map_of ?R i = None) byTags)) (tc_Id c) = None
         then writeQ (om_update_route legacy_orm (tc_Id c) (ids_route [])) else retQ ()))))) rf (n2, d2) = (Inr (), (n', d'))"
    by (rule bindQ_Inr) simp
  have d2: "d2 = ?d1" using routes_written[OF r] by (simp add: by_id_def)
  have tags: "lg_tags d2 = lg_tags d" by (simp add: d2)
  from read_then[OF run] obtain n3 where
    "bindQ (eachQ (\<lambda>(i, x). writeQ (om_update_route legacy_orm i (tags_route x))) ?T) (\<lambda>_.
       bindQ (readQ (om_checks legacy_orm)) (eachQ (\<lambda>c.
         bindQ (writeQ (om_update_settings legacy_orm (tc_Id c) (?S c))) (\<lambda>_.
         if ?none (tc_Id c) then writeQ (om_update_route legacy_orm (tc_Id c) (ids_route [])) else retQ ())))) rf (n3, d2) =
       (Inr (), (n', d'))" unfolding tags .
  then obtain n4 d4 where
    s: "eachQ (\<lambda>(i, x). writeQ (om_update_route legacy_orm i (tags_route x))) ?T rf (n3, d2) = (Inr (), (n4, d4))" and
    run: "bindQ (readQ (om_checks legacy_orm)) (eachQ (\<lambda>c.
         bindQ (writeQ (om_update_settings legacy_orm (tc_Id c) (?S c))) (\<lambda>_.
         if ?none (tc_Id c) then writeQ (om_update_route legacy_orm (tc_Id c) (ids_route [])) else retQ ()))) rf (n4, d4) =
       (Inr (), (n', d'))"
    by (rule bindQ_Inr) simp
  have d4: "d4 = ?d2" using routes_written[OF s] by (simp add: by_tag_def d2)
  have cs: "om_checks legacy_orm d4 = ?cs" by (simp add: d4 legacy_orm_def fields comp_def)
  have ids: "distinct (map tc_Id ?cs)" using dist by (simp add: comp_def)
  from read_then[OF run, unfolded cs] obtain n5 where
    "eachQ (\<lambda>c. bindQ (writeQ (om_update_settings legacy_orm (tc_Id c) (?S c))) (\<lambda>_.
         if ?none (tc_Id c) then writeQ (om_update_route legacy_orm (tc_Id c) (ids_route [])) else retQ ())) ?cs
       rf (n5, d4) = (Inr (), (n', d'))" .
  from checks_written[OF ids this]
  have "d' = d4\<lparr>lg_checks := map (\<lambda>o1. case map_of (map (\<lambda>c. (tc_Id c, c)) ?cs) (oc_Id o1) of
     None \<Rightarrow> o1
   | Some c \<Rightarrow> (if ?none (tc_Id c) then o1\<lparr>oc_Settings := Some (?S c), oc_Route := Some (ids_route [])\<rparr>
       else o1\<lparr>oc_Settings := Some (?S c)\<rparr>)) (lg_checks d4)\<rparr>"
    .
  also have "\<dots> = d\<lparr>lg_checks := map (migrated pf d) (lg_checks d)\<rparr>"
  proof -
    have row: "map_of (map (\<lambda>c. (tc_Id c, c)) ?cs) (oc_Id c) = Some \<lparr>tc_Settings = oc_Old c, tc_Id = oc_Id c, tc_Type = oc_Type c\<rparr>"
      if "c \<in> set (lg_checks d)" for c
      using that dist by (intro map_of_is_SomeI) (auto simp: comp_def)
    have "(if ?none (oc_Id c)
        then (by_tag (by_id c))\<lparr>oc_Settings := Some (ToV2Setting pf (oc_Old c) (oc_Type c)), oc_Route := Some (ids_route [])\<rparr>
        else (by_tag (by_id c))\<lparr>oc_Settings := Some (ToV2Setting pf (oc_Old c) (oc_Type c))\<rparr>) = migrated pf d c" for c
      by (cases c) (simp add: by_id_def by_tag_def migrated_def map_of_gather values_of_filter route_for_def)
    then have "(\<lambda>o1. case map_of (map (\<lambda>c. (tc_Id c, c)) ?cs) (oc_Id o1) of
       None \<Rightarrow> o1
     | Some c \<Rightarrow> (if ?none (tc_Id c) then o1\<lparr>oc_Settings := Some (?S c), oc_Route := Some (ids_route [])\<rparr>
         else o1\<lparr>oc_Settings := Some (?S c)\<rparr>)) (by_tag (by_id c)) = migrated pf d c" if "c \<in> set (lg_checks d)" for c
      unfolding fields row[OF that] option.case tmpCheck.simps .
    then show ?thesis unfolding d4 by (rule map_checks)
  qed
  finally show ?thesis .
qed


text \<open>Monitor 1 had both a collector and a tag, monitor 2 only a tag.\<close>

definition old_tables :: legacy where
  "old_tables =
     \<lparr>lg_collectors = [(1, 7)], lg_tags = [(1, ''eu''), (2, ''eu'')],
      lg_checks = [\<lparr>oc_Id = 1, oc_Type = PING_CHECK, oc_Old = [\<lparr>ms_Variable = ''hostname'', ms_Value = ''a.io''\<rparr>],
                    oc_Settings = None, oc_Route = None\<rparr>,
                   \<lparr>oc_Id = 2, oc_Type = PING_CHECK, oc_Old = [], oc_Settings = None, oc_Route = None\<rparr>]\<rparr>"

lemma old_tables_run: "\<exists>s. build_routes legacy_orm (\<lambda>s. 0) (\<lambda>n. None) (0, old_tables) = (Inr (), s)"
proof -
  have "fst (build_routes legacy_orm (\<lambda>s. 0) (\<lambda>n. None) (0, old_tables)) = Inr ()" by code_simp
  then show ?thesis by (metis prod.collapse)
qed


end
