(* ===== verification/Decode.thy ===== *)
theory Decode
  imports Models
begin

text \<open>
  Decoding the members of a JSON object into the fields of a struct, as \<open>json.Unmarshal\<close> does: an absent
  member and \<open>null\<close> leave the value the field has, a member of another type is an error.
\<close>

fun json_bool :: "json \<Rightarrow> bool option" where
  "json_bool (JBool b) = Some b"
| "json_bool JNull = Some False"
| "json_bool _ = None"

text \<open>A member of an object decoded into a field of a struct; an absent one leaves the old value.\<close>

definition decode_field :: "string \<Rightarrow> (json \<Rightarrow> 'a option) \<Rightarrow> 'a \<Rightarrow> (string \<times> json) list \<Rightarrow> 'a option" where
  "decode_field name f old ms =
     (case json_field name ms of None \<Rightarrow> Some old | Some v \<Rightarrow> if v = JNull then Some old else f v)"

fun json_members :: "json option \<Rightarrow> (string \<times> json) list option" where
  "json_members (Some (JObj ms)) = Some ms"
| "json_members (Some JNull) = Some []"
| "json_members _ = None"

end
