(* ===== verification/Search.thy ===== *)
theory Search
  imports Codec Decode
begin

text \<open>
  \<open>elasticsearch/elasticsearch.go\<close>: the proxy that lets an organisation search the events of its own.
  A multi search body is a list of lines, alternately a header and a search; headers are validated and
  every search is wrapped in a filter on the organisation. \<open>encoding/json\<close> is a parameter: \<open>el_parse\<close>
  reads a text, \<open>el_print\<close> writes a document, and \<open>el_value\<close> is what a document becomes on its way
  through an \<open>interface{}\<close> field, where every number is a \<open>float64\<close>.
\<close>

record es_lib =
  el_parse :: "string \<Rightarrow> json option"
  el_print :: "json \<Rightarrow> string"
  el_value :: "json \<Rightarrow> json"

abbreviation newline :: char where
  "newline \<equiv> CHR 0x0A"

section \<open>Headers\<close>

record msearchHeader =
  mh_SearchType :: string
  mh_IgnoreUnavailable :: bool
  mh_Index :: "string list"

definition decode_header :: "json option \<Rightarrow> msearchHeader option" where
  "decode_header body =
     (case json_members body of
        None \<Rightarrow> None
      | Some ms \<Rightarrow>
          (case (decode_field ''search_type'' json_string [] ms,
                 decode_field ''ignore_unavailable'' json_bool False ms,
                 decode_field ''index'' (decode_list json_string) [] ms) of
             (Some t, Some u, Some i) \<Rightarrow>
               Some \<lparr>mh_SearchType = t, mh_IgnoreUnavailable = u, mh_Index = i\<rparr>
           | _ \<Rightarrow> None))"

text \<open>The regular expression \<open>^events-\\d\\d\\d\\d-\\d\\d-\\d\\d$\<close>.\<close>

definition index_ok :: "string \<Rightarrow> bool" where
  "index_ok s \<longleftrightarrow> has_prefix s ''events-'' \<and>
     (case drop 7 s of
        [a, b, c, d, e, f, g, h, i, j] \<Rightarrow>
          list_all is_digit [a, b, c, d, f, g, i, j] \<and> e = CHR ''-'' \<and> h = CHR ''-''
      | _ \<Rightarrow> False)"

fun check_indexes :: "string list \<Rightarrow> unit result" where
  "check_indexes [] = Inr ()"
| "check_indexes (i # is) =
     (if \<not> index_ok i then Inl (Error (OtherError (''invalid index name. '' @ i)))
      else check_indexes is)"

definition validateHeader :: "es_lib \<Rightarrow> string \<Rightarrow> unit result" where
  "validateHeader el header =
     (case decode_header (el_parse el header) of
        None \<Rightarrow> Inl json_error
      | Some h \<Rightarrow>
          if mh_SearchType h \<noteq> ''query_then_fetch'' \<and> mh_SearchType h \<noteq> ''count'' then
            Inl (Error (OtherError (''invalid search_type '' @ mh_SearchType h)))
          else check_indexes (mh_Index h))"

section \<open>Removing date formats\<close>

text \<open>The class \<open>\\s\<close> of RE2, which has no vertical tab.\<close>

definition re_space :: "char \<Rightarrow> bool" where
  "re_space c \<longleftrightarrow> (of_char c :: nat) \<in> {9, 10, 12, 13, 32}"

definition after_literal :: "string \<Rightarrow> string \<Rightarrow> string option" where
  "after_literal p s = (if has_prefix s p then Some (drop (length p) s) else None)"

definition quoted :: "string \<Rightarrow> string" where
  "quoted s = CHR 0x22 # s @ [CHR 0x22]"

text \<open>\<open>"format"\\s*:\\s*"epoch_millis"\<close>, and the rest of the text behind a match.\<close>

definition match_format :: "string \<Rightarrow> string option" where
  "match_format s =
     (case after_literal (quoted ''format'') s of
        None \<Rightarrow> None
      | Some r \<Rightarrow>
          (case after_literal '':'' (dropWhile re_space r) of
             None \<Rightarrow> None
           | Some r' \<Rightarrow> after_literal (quoted ''epoch_millis'') (dropWhile re_space r')))"

definition match_comma_before :: "string \<Rightarrow> string option" where
  "match_comma_before s =
     (case after_literal '','' s of None \<Rightarrow> None | Some r \<Rightarrow> match_format (dropWhile re_space r))"

definition match_comma_after :: "string \<Rightarrow> string option" where
  "match_comma_after s =
     (case match_format s of None \<Rightarrow> None | Some r \<Rightarrow> after_literal '','' (dropWhile re_space r))"

text \<open>
  \<open>Regexp.ReplaceAllLiteral\<close> with the empty text: matches are found from left to right. No match of
  the two expressions is empty, which the guard says to the termination proof.
\<close>

function remove_matches :: "(string \<Rightarrow> string option) \<Rightarrow> string \<Rightarrow> string" where
  "remove_matches m [] = []"
| "remove_matches m (c # cs) =
     (case m (c # cs) of
        Some r \<Rightarrow> if length r \<le> length cs then remove_matches m r else c # remove_matches m cs
      | None \<Rightarrow> c # remove_matches m cs)"
  by pat_completeness auto

termination by (relation "measure (\<lambda>(m, s). length s)") auto

section \<open>Searches\<close>

text \<open>\<open>interface{}\<close> fields are options, nil is \<open>None\<close>.\<close>

record esSearch =
  es_Size :: int
  es_Query :: "json option"
  es_Sort :: "json option"
  es_Fields :: "json option"
  es_ScriptFields :: "json option"
  es_FielddataFields :: "json option"
  es_Aggs :: "json option"

definition decode_any :: "es_lib \<Rightarrow> string \<Rightarrow> (string \<times> json) list \<Rightarrow> json option" where
  "decode_any el name ms =
     (case json_field name ms of
        None \<Rightarrow> None
      | Some v \<Rightarrow> if v = JNull then None else Some (el_value el v))"

definition decode_search :: "es_lib \<Rightarrow> json option \<Rightarrow> esSearch option" where
  "decode_search el body =
     (case json_members body of
        None \<Rightarrow> None
      | Some ms \<Rightarrow>
          map_option (\<lambda>size.
            \<lparr>es_Size = size, es_Query = decode_any el ''query'' ms, es_Sort = decode_any el ''sort'' ms,
             es_Fields = decode_any el ''fields'' ms, es_ScriptFields = decode_any el ''script_fields'' ms,
             es_FielddataFields = decode_any el ''fielddata_fields'' ms, es_Aggs = decode_any el ''aggs'' ms\<rparr>)
            (decode_field ''size'' json_int64 0 ms))"

text \<open>A field with \<open>omitempty\<close> is left out when it is nil.\<close>

definition any_member :: "string \<Rightarrow> json option \<Rightarrow> (string \<times> json) list" where
  "any_member name v = (case v of None \<Rightarrow> [] | Some j \<Rightarrow> [(name, j)])"

definition search_json :: "esSearch \<Rightarrow> json" where
  "search_json s = JObj
     ([(''size'', JInt (es_Size s)), (''query'', case es_Query s of None \<Rightarrow> JNull | Some q \<Rightarrow> q)] @
      any_member ''sort'' (es_Sort s) @ any_member ''fields'' (es_Fields s) @
      any_member ''script_fields'' (es_ScriptFields s) @
      any_member ''fielddata_fields'' (es_FielddataFields s) @ any_member ''aggs'' (es_Aggs s))"

definition org_condition :: "int \<Rightarrow> json" where
  "org_condition org = JObj [(''term'', JObj [(''org_id'', JInt org)])]"

text \<open>\<open>esQueryWrapper\<close> and \<open>esBool\<close> as they are written.\<close>

definition wrap_query :: "int \<Rightarrow> json option \<Rightarrow> json" where
  "wrap_query org q =
     JObj [(''bool'', JObj [(''must'', JArr [case q of None \<Rightarrow> JNull | Some j \<Rightarrow> j]),
                            (''filter'', org_condition org)])]"

definition restricted_search :: "int \<Rightarrow> esSearch \<Rightarrow> esSearch" where
  "restricted_search org s = s\<lparr>es_Query := Some (wrap_query org (es_Query s))\<rparr>"

definition transformSearch :: "es_lib \<Rightarrow> int \<Rightarrow> string \<Rightarrow> string result" where
  "transformSearch el org search =
     (case decode_search el (el_parse el
             (remove_matches match_comma_after (remove_matches match_comma_before search))) of
        None \<Rightarrow> Inl json_error
      | Some s \<Rightarrow> Inr (el_print el (search_json (restricted_search org s))))"

section \<open>The body\<close>

text \<open>
  The loop takes the lines in pairs. An empty header skips its pair; the search of a header on the last
  line is an index out of range.
\<close>

fun restrict_lines :: "es_lib \<Rightarrow> int \<Rightarrow> string list \<Rightarrow> string result" where
  "restrict_lines el org [] = Inr []"
| "restrict_lines el org [h] =
     (if h = [] then Inr []
      else bind_res (validateHeader el h) (\<lambda>_. Inl (Panic ''index out of range'')))"
| "restrict_lines el org (h # s # ls) =
     (if h = [] then restrict_lines el org ls
      else bind_res (validateHeader el h) (\<lambda>_.
           bind_res (transformSearch el org s) (\<lambda>t.
           bind_res (restrict_lines el org ls) (\<lambda>rest.
             Inr (h @ [newline] @ t @ [newline] @ rest)))))"

definition restrictSearch :: "es_lib \<Rightarrow> int \<Rightarrow> string \<Rightarrow> string result" where
  "restrictSearch el org body = restrict_lines el org (split_char newline body)"

section \<open>The proxy\<close>

record es_request =
  er_path :: string
  er_query :: string
  er_body :: "string + string"

text \<open>What the server is sent, and what came back: a body that could not be read is cut short.\<close>

record es_sent =
  st_path :: string
  st_query :: string
  st_body :: string

datatype es_answer =
    EsFailed string
  | EsAnswer int string "string option"

datatype response_step =
    WJson int string
  | WStatus int
  | WBytes string

text \<open>
  \<open>elasticsearch.Proxy\<close>: \<open>url_path\<close> is \<open>JoinUrlFragments\<close> on the configured address, \<open>upstream\<close> the
  server. The result is what is written to the client and what was sent. The failure to read the
  server's answer has no return: the status and the bytes are written after it.
\<close>

definition read_error :: "string \<Rightarrow> string" where
  "read_error e = ''unable to read request body. '' @ e"

definition Proxy :: "es_lib \<Rightarrow> (string \<Rightarrow> string) \<Rightarrow> (es_sent \<Rightarrow> es_answer) \<Rightarrow> int \<Rightarrow> es_request \<Rightarrow>
    (response_step list \<times> es_sent option) result" where
  "Proxy el url_path upstream org rq =
     (case er_body rq of
        Inl e \<Rightarrow> Inr ([WJson 400 (read_error e)], None)
      | Inr body \<Rightarrow>
          (case restrictSearch el org body of
             Inl (Panic p) \<Rightarrow> Inl (Panic p)
           | Inl (Error e) \<Rightarrow> Inr ([WJson 400 (read_error (error_string e))], None)
           | Inr search \<Rightarrow>
               let sent = \<lparr>st_path = url_path (er_path rq), st_query = er_query rq, st_body = search\<rparr>
               in (case upstream sent of
                     EsFailed e \<Rightarrow> Inr ([WJson 503 e], Some sent)
                   | EsAnswer status bytes err \<Rightarrow>
                       Inr ((case err of None \<Rightarrow> [] | Some e \<Rightarrow> [WJson 503 e]) @
                            [WStatus status, WBytes bytes], Some sent))))"

section \<open>What a search is confined to\<close>

definition header_ok :: "es_lib \<Rightarrow> string \<Rightarrow> bool" where
  "header_ok el h \<longleftrightarrow> (\<exists>d. decode_header (el_parse el h) = Some d \<and>
     mh_SearchType d \<in> {''query_then_fetch'', ''count''} \<and> (\<forall>i\<in>set (mh_Index d). index_ok i))"

text \<open>A document with one query member, whose filter is the organisation.\<close>

definition restricted_to :: "int \<Rightarrow> json \<Rightarrow> bool" where
  "restricted_to org j \<longleftrightarrow> (\<exists>ms q. j = JObj ms \<and>
     filter (\<lambda>m. to_lower (fst m) = ''query'') ms =
       [(''query'', JObj [(''bool'', JObj [(''must'', JArr [q]), (''filter'', org_condition org)])])])"

text \<open>What the lines of a body are to a server that reads them in pairs.\<close>

definition confined_msearch :: "es_lib \<Rightarrow> int \<Rightarrow> string \<Rightarrow> bool" where
  "confined_msearch el org out \<longleftrightarrow> (\<exists>ps.
     split_char newline out = concat (map (\<lambda>(h, j). [h, el_print el j]) ps) @ [[]] \<and>
     (\<forall>(h, j)\<in>set ps. header_ok el h \<and> restricted_to org j))"

lemma check_indexes_ok: "check_indexes is = Inr () \<Longrightarrow> \<forall>i\<in>set is. index_ok i"
  by (induction "is") (auto split: if_splits)

lemma validateHeader_ok: "validateHeader el h = Inr u \<Longrightarrow> header_ok el h"
  by (auto simp: validateHeader_def header_ok_def dest: check_indexes_ok
      split: option.splits if_splits)

lemma search_json_restricted: "restricted_to org (search_json (restricted_search org s))"
  by (auto simp: restricted_to_def search_json_def restricted_search_def wrap_query_def any_member_def
      to_lower_def lower_char_def is_upper_def split: option.splits)

lemma transformSearch_prints:
  "transformSearch el org s = Inr t \<Longrightarrow> \<exists>j. t = el_print el j \<and> restricted_to org j"
  by (auto simp: transformSearch_def search_json_restricted split: option.splits)

lemma confined_msearch_Nil [simp]: "confined_msearch el org []"
  unfolding confined_msearch_def by (rule exI[of _ "[]"]) simp

lemma restrict_lines_confined:
  assumes nl: "\<And>j. newline \<notin> set (el_print el j)"
  shows "\<lbrakk>restrict_lines el org ls = Inr out; \<forall>l\<in>set ls. newline \<notin> set l\<rbrakk> \<Longrightarrow> confined_msearch el org out"
proof (induction ls arbitrary: out rule: induct_list012)
  case (3 h s ls)
  show ?case
  proof (cases "h = []")
    case False
    with "3.prems" obtain t rest where v: "validateHeader el h = Inr ()" and t: "transformSearch el org s = Inr t"
      and rest: "restrict_lines el org ls = Inr rest" and out: "out = h @ newline # t @ newline # rest"
      by (auto simp: bind_res_Inr_iff)
    have "\<forall>l\<in>set ls. newline \<notin> set l" using "3.prems" by simp
    from "3.IH"(1)[OF rest this] obtain ps where
      ps: "split_char newline rest = concat (map (\<lambda>(h, j). [h, el_print el j]) ps) @ [[]]"
      and ok: "\<forall>(h, j)\<in>set ps. header_ok el h \<and> restricted_to org j"
      unfolding confined_msearch_def by auto
    from transformSearch_prints[OF t] obtain j where j: "t = el_print el j" "restricted_to org j" by blast
    have h: "newline \<notin> set h" using "3.prems" by simp
    have "split_char newline out = h # t # split_char newline rest"
      using split_char_append[OF h] split_char_append[of newline t] nl j by (simp add: out)
    then have "split_char newline out = concat (map (\<lambda>(h, j). [h, el_print el j]) ((h, j) # ps)) @ [[]]"
      using ps j by simp
    moreover have "\<forall>(h, j)\<in>set ((h, j) # ps). header_ok el h \<and> restricted_to org j"
      using ok j validateHeader_ok[OF v] by simp
    ultimately show ?thesis unfolding confined_msearch_def by blast
  qed (use 3 in auto)
qed (auto simp: bind_res_Inr_iff split: if_splits)

lemma restrictSearch_confined:
  "\<lbrakk>\<And>j. newline \<notin> set (el_print el j); restrictSearch el org body = Inr out\<rbrakk> \<Longrightarrow> confined_msearch el org out"
  using restrict_lines_confined split_char_parts unfolding restrictSearch_def by blast

text \<open>A body that ends behind a valid header takes the server down the path of a panic.\<close>

lemma header_only_panics:
  "\<lbrakk>h \<noteq> []; newline \<notin> set h; validateHeader el h = Inr ()\<rbrakk> \<Longrightarrow>
   restrictSearch el org h = Inl (Panic ''index out of range'')"
  by (simp add: restrictSearch_def split_char_none)

end
