(* ===== verification/Proxies.thy ===== *)
theory Proxies
  imports ApiProps Search
begin

text \<open>
  The requests of the HTTP API that are answered from elsewhere: \<open>api/elasticsearch.go\<close>,
  \<open>api/graphite.go\<close> and \<open>Heartbeat\<close> of \<open>api/api.go\<close>. Searches go to elasticsearch under a filter on
  the organisation (Search), names of tags and slugs come from the store, and everything else under
  \<open>/api/graphite\<close> is forwarded.
\<close>

section \<open>Elasticsearch\<close>

text \<open>
  The elasticsearch client: the JSON library, the configured address joined with a path, the server,
  and the calendar date of a time.
\<close>

record es_server =
  ev_lib :: es_lib
  ev_path :: "string \<Rightarrow> string"
  ev_upstream :: "es_sent \<Rightarrow> es_answer"
  ev_date :: "time \<Rightarrow> int \<times> int \<times> int"

definition pad2 :: "int \<Rightarrow> string" where
  "pad2 i = (if 0 \<le> i \<and> i < 10 then ''0'' @ show_int i else show_int i)"

definition index_of_day :: "int \<times> int \<times> int \<Rightarrow> string" where
  "index_of_day d = (case d of (y, m, dd) \<Rightarrow> ''events-'' @ show_int y @ ''-'' @ pad2 m @ ''-'' @ pad2 dd)"

datatype proxied =
    Local reply
  | Searched "response_step list" "es_sent option"
  | TagValues "(string \<times> bool) list"
  | Forwarded string

definition V1ElasticsearchProxy :: "es_server \<Rightarrow> string \<Rightarrow> es_request \<Rightarrow> ctx \<Rightarrow> proxied op" where
  "V1ElasticsearchProxy ev verb rq x =
     bindS time_Now (\<lambda>now.
       if verb = ''GET'' \<and> er_path rq = index_of_day (ev_date ev now) @ ''/_stats'' then
         returnS (Local (JSON 200 (BText ''ok'')))
       else if verb = ''POST'' \<and> er_path rq = ''_msearch'' then
         bindS (liftS (Proxy (ev_lib ev) (ev_path ev) (ev_upstream ev) (org_of x) rq)) (\<lambda>(steps, sent).
           returnS (Searched steps sent))
       else returnS (Local (JSON 404 (BText ''Not Found''))))"

section \<open>Graphite\<close>

text \<open>
  The regular expression \<open>^raintank_db\\.tags\\.(\\w+)\\.(\\w+|\\*)\<close>: \<open>\\w+\<close> takes as much as it can, which
  the dot or the end behind it does not change.
\<close>

definition take_word :: "string \<Rightarrow> string \<times> string" where
  "take_word s = (takeWhile is_word s, dropWhile is_word s)"

definition match_db_query :: "string \<Rightarrow> (string \<times> string) option" where
  "match_db_query q =
     (if \<not> has_prefix q ''raintank_db.tags.'' then None
      else (case take_word (drop 17 q) of
              (_, []) \<Rightarrow> None
            | (kind, c # more_text) \<Rightarrow>
                if kind = [] \<or> c \<noteq> CHR ''.'' then None
                else (case take_word more_text of
                        ([], CHR ''*'' # _) \<Rightarrow> Some (kind, ''*'')
                      | ([], _) \<Rightarrow> None
                      | (v, _) \<Rightarrow> Some (kind, v))))"

definition tag_values :: "string list \<Rightarrow> (string \<times> bool) list" where
  "tag_values = map (\<lambda>s. (s, False))"

definition executeRaintankDbQuery :: "string \<Rightarrow> int \<Rightarrow> (string \<times> bool) list op" where
  "executeRaintankDbQuery q org =
     (case match_db_query q of
        None \<Rightarrow> returnS []
      | Some (kind, v) \<Rightarrow>
          if kind = ''collectors'' \<or> kind = ''probes'' then
            (if v = ''*'' then bindS (GetProbeTags org) (\<lambda>ts. returnS (tag_values ts))
             else if v \<noteq> [] then
               bindS (GetProbes \<lparr>gp_OrgId = org, gp_Public = [], gp_Enabled = [], gp_Online = [], gp_Name = [],
                   gp_Slug = [], gp_Tag = v, gp_OrderBy = []\<rparr>) (\<lambda>ps. returnS (tag_values (map pd_Slug ps)))
             else returnS [])
          else if kind = ''endpoints'' then
            (if v = ''*'' then bindS (GetEndpointTags org) (\<lambda>ts. returnS (tag_values ts))
             else if v \<noteq> [] then
               bindS (GetEndpoints \<lparr>qe_OrgId = org, qe_Name = [], qe_Tag = v, qe_OrderBy = []\<rparr>)
                 (\<lambda>es. returnS (tag_values (map ed_Slug es)))
             else returnS [])
          else returnS [])"

text \<open>\<open>initGraphiteProxy\<close>: the director drops the prefix of this API.\<close>

definition graphite_director :: "string \<Rightarrow> string" where
  "graphite_director path = trim_prefix path ''/api''"

definition V1GraphiteProxy :: "string \<Rightarrow> string \<Rightarrow> ctx \<Rightarrow> proxied op" where
  "V1GraphiteProxy path q x =
     (if path = ''metrics/find'' \<and> has_prefix q ''raintank_db'' then
        bindS (tryS (executeRaintankDbQuery q (org_of x))) (\<lambda>r. returnS (case r of
          Inl e \<Rightarrow> Local (handleError e)
        | Inr vs \<Rightarrow> TagValues vs))
      else returnS (Forwarded (graphite_director (''/api/graphite/'' @ path))))"

section \<open>Heartbeat\<close>

definition TestDB :: "unit op" where
  "TestDB = transact (query (\<lambda>env d. ()))"

text \<open>
  The load balancer's check. The failure has no return: both answers are written, and the status of the
  first one stands. Its body is a function that is not called, and JSON has no encoding of a function:
  \<open>unencodable\<close> is what the renderer writes for such a value.
\<close>

definition Heartbeat :: "reply \<Rightarrow> reply list op" where
  "Heartbeat unencodable = bindS (tryS TestDB) (\<lambda>r. returnS (case r of
     Inl e \<Rightarrow> [unencodable, JSON 200 (BText ''OK'')]
   | Inr _ \<Rightarrow> [JSON 200 (BText ''OK'')]))"

definition NotFoundHandler :: reply where
  "NotFoundHandler = JSON 404 (BText ''Not found'')"

section \<open>Requests\<close>

datatype proxy_action =
    GraphiteA string string
  | ElasticsearchA string es_request

fun proxy_handler :: "es_server \<Rightarrow> proxy_action \<Rightarrow> ctx \<Rightarrow> proxied op" where
  "proxy_handler ev (GraphiteA path q) = V1GraphiteProxy path q"
| "proxy_handler ev (ElasticsearchA verb rq) = V1ElasticsearchProxy ev verb rq"

definition serve_proxy :: "server \<Rightarrow> es_server \<Rightarrow> http_head \<Rightarrow> proxy_action \<Rightarrow> proxied op" where
  "serve_proxy sv ev h a = bindS (liftS (Auth sv h)) (\<lambda>r. case r of
     Inl answer \<Rightarrow> returnS (Local answer)
   | Inr x \<Rightarrow> proxy_handler ev a x)"

section \<open>What the proxies guarantee\<close>

lemma Proxy_confined:
  assumes nl: "\<And>j. newline \<notin> set (el_print el j)" and run: "Proxy el up us org rq = Inr (steps, Some sent)"
  shows "confined_msearch el org (st_body sent)"
proof (cases "er_body rq")
  case (Inr body)
  show ?thesis
  proof (cases "restrictSearch el org body")
    case (Inr out)
    have "confined_msearch el org out" by (rule restrictSearch_confined[OF nl Inr])
    moreover have "st_body sent = out"
      using run \<open>er_body rq = Inr body\<close> Inr by (auto simp: Proxy_def Let_def split: es_answer.splits)
    ultimately show ?thesis by simp
  qed (use run Inr in \<open>auto simp: Proxy_def split: fault.splits\<close>)
qed (use run in \<open>simp add: Proxy_def\<close>)

text \<open>
  C33. Whatever a client puts into the body of a multi search, what elasticsearch is sent for an
  authenticated request reads, line by line, as pairs of a header and a search: every header names only
  indexes of events of one day, and every search has a single query, whose filter is the organisation of
  the request, so that no line of the client can stand on its own. Only \<open>POST _msearch\<close> is sent at all.
  (\<open>json.Marshal\<close> escapes newlines, which the hypothesis says.)
\<close>

theorem searches_confined:
  assumes nl: "\<And>j. newline \<notin> set (el_print (ev_lib ev) j)"
    and run: "fst (serve_proxy sv ev h a env w) = Inr (Searched steps (Some sent))"
  shows "\<exists>x rq. Auth sv h = Inr (Inr x) \<and> a = ElasticsearchA ''POST'' rq \<and> er_path rq = ''_msearch'' \<and>
     confined_msearch (ev_lib ev) (org_of x) (st_body sent)"
proof -
  obtain x where x: "Auth sv h = Inr (Inr x)" and px: "fst (proxy_handler ev a x env w) = Inr (Searched steps (Some sent))"
    using run by (auto simp: serve_proxy_def bindS_def liftS_def returnS_def split: sum.splits)
  show ?thesis
  proof (cases a)
    case (GraphiteA path q)
    with px have False
      by (auto simp: V1GraphiteProxy_def bindS_def returnS_def split: if_splits prod.splits sum.splits)
    then show ?thesis ..
  next
    case (ElasticsearchA verb rq)
    with px have m: "verb = ''POST'' \<and> er_path rq = ''_msearch''"
      and p: "Proxy (ev_lib ev) (ev_path ev) (ev_upstream ev) (org_of x) rq = Inr (steps, Some sent)"
      by (auto simp: V1ElasticsearchProxy_def bindS_def returnS_def time_Now_def liftS_def
          split: if_splits prod.splits sum.splits)
    from Proxy_confined[OF nl p] m x ElasticsearchA show ?thesis by blast
  qed
qed

text \<open>A body of one search, with a JSON library that knows its two lines.\<close>

definition small_es :: es_server where
  "small_es =
     \<lparr>ev_lib = \<lparr>el_parse = (\<lambda>s. if s = ''H'' then Some (JObj [(''search_type'', JStr ''count''),
          (''index'', JArr [JStr ''events-2018-01-31''])]) else Some (JObj [(''query'', JStr ''all'')])),
        el_print = (\<lambda>j. ''S''), el_value = (\<lambda>j. j)\<rparr>,
      ev_path = (\<lambda>p. p), ev_upstream = (\<lambda>sent. EsAnswer 200 (st_body sent) None), ev_date = (\<lambda>t. (2018, 1, 31))\<rparr>"

definition small_request :: es_request where
  "small_request =
     \<lparr>er_path = ''_msearch'', er_query = [], er_body = Inr [CHR ''H'', newline, CHR ''q'', newline]\<rparr>"

definition bearer :: http_head where
  "bearer = \<lparr>hh_Authorization = ''Bearer k'', hh_Org = []\<rparr>"

definition bearer_ctx :: ctx where
  "bearer_ctx = \<lparr>x_User = \<lparr>us_ID = 2, us_IsAdmin = False, us_Role = ''Editor''\<rparr>, x_ApiKey = ''k''\<rparr>"

lemma bearer_Auth: "Auth plain_server bearer = Inr (Inr bearer_ctx)"
  by code_simp

lemma small_request_sent:
  "Proxy (ev_lib small_es) (ev_path small_es) (ev_upstream small_es) 2 small_request =
     Inr ([WStatus 200, WBytes [CHR ''H'', newline, CHR ''S'', newline]],
       Some \<lparr>st_path = ''_msearch'', st_query = [], st_body = [CHR ''H'', newline, CHR ''S'', newline]\<rparr>)"
  by code_simp

lemma small_search_sent:
  "fst (serve_proxy plain_server small_es bearer (ElasticsearchA ''POST'' small_request) env w) =
     Inr (Searched [WStatus 200, WBytes [CHR ''H'', newline, CHR ''S'', newline]]
       (Some \<lparr>st_path = ''_msearch'', st_query = [], st_body = [CHR ''H'', newline, CHR ''S'', newline]\<rparr>))"
proof -
  have "er_path small_request = ''_msearch''" by (simp add: small_request_def)
  moreover have "org_of bearer_ctx = 2" by (simp add: bearer_ctx_def)
  ultimately show ?thesis
    using small_request_sent
    by (simp add: serve_proxy_def bearer_Auth bindS_def liftS_def returnS_def V1ElasticsearchProxy_def time_Now_def)
qed

lemma searches_confined_witness:
  "\<exists>org. confined_msearch (ev_lib small_es) org [CHR ''H'', newline, CHR ''S'', newline]"
proof -
  have "newline \<notin> set (el_print (ev_lib small_es) j)" for j by (simp add: small_es_def)
  from searches_confined[OF this small_search_sent] show ?thesis by auto
qed

section \<open>Nothing is written\<close>

lemma reads_proxies:
  "reads_only (serve_proxy sv ev h a)"
proof -
  have q: "reads_only (executeRaintankDbQuery q org)" for q org
    unfolding executeRaintankDbQuery_def GetProbeTags_def getProbeTags_def GetEndpointTags_def getEndpointTags_def
    by (intro reads_intros)
  have "reads_only (proxy_handler ev a x)" for x
    by (cases a) (auto simp: V1GraphiteProxy_def V1ElasticsearchProxy_def intro!: reads_intros q)
  then show ?thesis unfolding serve_proxy_def by (intro reads_intros)
qed

end
