(* ===== verification/KafkaBus.thy ===== *)
theory KafkaBus
  imports EventBus
begin

text \<open>
  \<open>pkg/events/pubsub.go\<close>: the event bus in the mode with Kafka. Every instance publishes to one topic and
  consumes all its partitions, from the end they have when it starts; what it receives goes through the
  same \<open>handleMessages\<close> as without Kafka, on a channel of its own. The broker and the client library are
  the environment: it appends a message that is in flight (a retry may append it again), reports a success
  only for one that has been appended, or an error, and takes messages of other instances at any time.
  \<open>shutdown\<close> is never closed, so consumers and producer run for ever.
\<close>

section \<open>An instance and the topic\<close>

text \<open>
  \<open>kf_flight\<close> are the messages that the producer has been given and has not reported, with whether they
  have been appended; \<open>kf_pos\<close> is the next offset of a partition; \<open>kf_bus\<close> is the receiving side, whose
  channel is \<open>subChan\<close> and whose sent messages are those received from the partitions.
\<close>

record 'ch kafka =
  kf_pub :: "Message chan"
  kf_sent :: "Message list"
  kf_flight :: "(Message \<times> bool) list"
  kf_acked :: "Message list"
  kf_failed :: "Message list"
  kf_log :: "nat \<Rightarrow> Message list"
  kf_pos :: "nat \<Rightarrow> nat"
  kf_bus :: "'ch bus"

definition kafka_start :: "(nat \<Rightarrow> Message list) \<Rightarrow> ('ch \<Rightarrow> nat) \<Rightarrow> 'ch kafka" where
  "kafka_start old cap =
     \<lparr>kf_pub = make_chan 100, kf_sent = [], kf_flight = [], kf_acked = [], kf_failed = [], kf_log = old,
      kf_pos = (\<lambda>p. length (old p)), kf_bus = bus_start 10 cap\<rparr>"

text \<open>
  \<open>produce\<close> takes a message from the publish channel and gives it to the producer; \<open>acked\<close> and \<open>failed\<close> are
  its two reports, which are only logged. \<open>receive\<close> is \<open>consumePartition\<close>. The last rule is
  \<open>handleMessages\<close> and what it starts.
\<close>

inductive kafka_step :: "nat list \<Rightarrow> 'ch listeners \<Rightarrow> 'ch kafka \<Rightarrow> 'ch kafka \<Rightarrow> bool" for P h where
  publish: "chan_send (kf_pub k) m = Some c \<Longrightarrow>
     kafka_step P h k (k\<lparr>kf_pub := c, kf_sent := kf_sent k @ [m]\<rparr>)"
| produce: "chan_recv (kf_pub k) = Some (m, c) \<Longrightarrow>
     kafka_step P h k (k\<lparr>kf_pub := c, kf_flight := kf_flight k @ [(m, False)]\<rparr>)"
| append: "kf_flight k = xs @ (m, f) # ys \<Longrightarrow> p \<in> set P \<Longrightarrow>
     kafka_step P h k (k\<lparr>kf_flight := xs @ (m, True) # ys, kf_log := (kf_log k)(p := kf_log k p @ [m])\<rparr>)"
| others: "p \<in> set P \<Longrightarrow> kafka_step P h k (k\<lparr>kf_log := (kf_log k)(p := kf_log k p @ [m])\<rparr>)"
| acked: "kf_flight k = xs @ (m, True) # ys \<Longrightarrow>
     kafka_step P h k (k\<lparr>kf_flight := xs @ ys, kf_acked := kf_acked k @ [m]\<rparr>)"
| failed: "kf_flight k = xs @ (m, f) # ys \<Longrightarrow>
     kafka_step P h k (k\<lparr>kf_flight := xs @ ys, kf_failed := kf_failed k @ [m]\<rparr>)"
| receive: "p \<in> set P \<Longrightarrow> kf_pos k p < length (kf_log k p) \<Longrightarrow>
     chan_send (bus_pub (kf_bus k)) (kf_log k p ! kf_pos k p) = Some c \<Longrightarrow>
     kafka_step P h k (k\<lparr>kf_pos := (kf_pos k)(p := Suc (kf_pos k p)),
       kf_bus := (kf_bus k)\<lparr>bus_pub := c, bus_sent := bus_sent (kf_bus k) @ [kf_log k p ! kf_pos k p]\<rparr>\<rparr>)"
| handle: "bus_step h (kf_bus k) b \<Longrightarrow> bus_sent b = bus_sent (kf_bus k) \<Longrightarrow>
     kafka_step P h k (k\<lparr>kf_bus := b\<rparr>)"

abbreviation kafka_reach :: "nat list \<Rightarrow> 'ch listeners \<Rightarrow> 'ch kafka \<Rightarrow> 'ch kafka \<Rightarrow> bool" where
  "kafka_reach P h \<equiv> (kafka_step P h)\<^sup>*\<^sup>*"

section \<open>What an instance has been given\<close>

text \<open>The messages of a partition since the start, and those of them that have been received.\<close>

definition topic_new :: "(nat \<Rightarrow> Message list) \<Rightarrow> 'ch kafka \<Rightarrow> nat \<Rightarrow> Message list" where
  "topic_new old k p = drop (length (old p)) (kf_log k p)"

definition topic_got :: "(nat \<Rightarrow> Message list) \<Rightarrow> 'ch kafka \<Rightarrow> nat \<Rightarrow> Message list" where
  "topic_got old k p = take (kf_pos k p - length (old p)) (topic_new old k p)"

definition appended :: "(Message \<times> bool) list \<Rightarrow> Message multiset" where
  "appended fl = mset (map fst (filter snd fl))"

definition kafka_inv :: "(nat \<Rightarrow> Message list) \<Rightarrow> nat list \<Rightarrow> 'ch listeners \<Rightarrow> 'ch kafka \<Rightarrow> bool" where
  "kafka_inv old P h k \<longleftrightarrow>
     bus_inv 10 h (kf_bus k) \<and>
     (\<forall>p. length (old p) \<le> kf_pos k p \<and> kf_pos k p \<le> length (kf_log k p)) \<and>
     mset (bus_sent (kf_bus k)) = (\<Sum>p \<leftarrow> P. mset (topic_got old k p)) \<and>
     mset (kf_sent k) = mset (ch_items (kf_pub k)) + mset (map fst (kf_flight k)) + mset (kf_acked k) +
       mset (kf_failed k) \<and>
     mset (kf_acked k) + appended (kf_flight k) \<subseteq># (\<Sum>p \<leftarrow> P. mset (topic_new old k p))"

lemma sum_list_change:
  fixes f g :: "'a \<Rightarrow> 'b::comm_monoid_add"
  assumes "distinct P" and "p \<in> set P" and "g p = f p + x" and "\<And>q. q \<noteq> p \<Longrightarrow> g q = f q"
  shows "(\<Sum>q \<leftarrow> P. g q) = (\<Sum>q \<leftarrow> P. f q) + x"
  using assms(1,2)
proof (induction P)
  case (Cons q P)
  show ?case
  proof (cases "q = p")
    case True
    with Cons.prems have "p \<notin> set P" by simp
    then have "map g P = map f P" using assms(4) by (metis (no_types, lifting) map_eq_conv)
    with True assms(3) show ?thesis by (simp add: ac_simps del: map_eq_conv)
  next
    case False
    with Cons assms(4)[of q] show ?thesis by (simp add: ac_simps)
  qed
qed simp

text \<open>Appending to a partition.\<close>

lemma topic_append:
  assumes P: "distinct P" "p \<in> set P" and len: "\<forall>p. length (old p) \<le> kf_pos k p \<and> kf_pos k p \<le> length (kf_log k p)"
    and log: "kf_log k' = (kf_log k)(p := kf_log k p @ [m])" and pos: "kf_pos k' = kf_pos k"
  shows "topic_got old k' = topic_got old k" "(\<Sum>q \<leftarrow> P. mset (topic_new old k' q)) = (\<Sum>q \<leftarrow> P. mset (topic_new old k q)) + {#m#}"
proof -
  have "length (old p) \<le> length (kf_log k p)" using len by (meson order_trans)
  then have new: "topic_new old k' p = topic_new old k p @ [m]" by (simp add: topic_new_def log)
  have other: "topic_new old k' q = topic_new old k q" if "q \<noteq> p" for q using that by (simp add: topic_new_def log)
  show "(\<Sum>q \<leftarrow> P. mset (topic_new old k' q)) = (\<Sum>q \<leftarrow> P. mset (topic_new old k q)) + {#m#}"
    by (rule sum_list_change[OF P]) (simp_all add: new other)
  show "topic_got old k' = topic_got old k"
  proof
    fix q
    have "kf_pos k p - length (old p) \<le> length (topic_new old k p)"
      using len by (simp add: topic_new_def diff_le_mono)
    then show "topic_got old k' q = topic_got old k q"
      by (cases "q = p") (simp_all add: topic_got_def new other pos)
  qed
qed

lemma kafka_start_inv: "kafka_inv old P h (kafka_start old cap)"
proof -
  have "bus_sent (bus_start 10 cap) = []" by (simp add: bus_start_def)
  then show ?thesis
    by (simp add: kafka_inv_def kafka_start_def bus_start_inv topic_got_def topic_new_def make_chan_def appended_def)
qed


lemma kafka_step_inv:
  assumes P: "distinct P" and "kafka_step P h k k'" and inv: "kafka_inv old P h k"
  shows "kafka_inv old P h k'"
proof -
  have bus: "bus_inv 10 h (kf_bus k)"
    and len: "\<forall>p. length (old p) \<le> kf_pos k p \<and> kf_pos k p \<le> length (kf_log k p)"
    and got: "mset (bus_sent (kf_bus k)) = (\<Sum>p \<leftarrow> P. mset (topic_got old k p))"
    and sent: "mset (kf_sent k) = mset (ch_items (kf_pub k)) + mset (map fst (kf_flight k)) + mset (kf_acked k) +
       mset (kf_failed k)"
    and acks: "mset (kf_acked k) + appended (kf_flight k) \<subseteq># (\<Sum>p \<leftarrow> P. mset (topic_new old k p))"
    using inv by (auto simp: kafka_inv_def)
  have same: "topic_got old k' = topic_got old k \<and> topic_new old k' = topic_new old k"
    if "kf_log k' = kf_log k" "kf_pos k' = kf_pos k"
    using that by (simp add: topic_got_def topic_new_def fun_eq_iff)
  from assms(2) show ?thesis
  proof cases
    case (publish m c)
    then show ?thesis using bus len got sent acks same channel.send_iff[OF publish(2)] by (simp add: kafka_inv_def)
  next
    case (produce m c)
    then show ?thesis using bus len got sent acks same channel.recv_iff[OF produce(2)]
      by (simp add: kafka_inv_def appended_def)
  next
    case (append xs m f ys p)
    have t: "topic_got old k' = topic_got old k"
      "(\<Sum>q \<leftarrow> P. mset (topic_new old k' q)) = (\<Sum>q \<leftarrow> P. mset (topic_new old k q)) + {#m#}"
      by (rule topic_append[OF P append(3) len, of k' m]; simp add: append(1))+
    have "appended (kf_flight k') \<subseteq># appended (kf_flight k) + {#m#}"
      unfolding append(1) using append(2) by (cases f) (simp_all add: appended_def)
    then have "mset (kf_acked k) + appended (kf_flight k') \<subseteq># (\<Sum>q \<leftarrow> P. mset (topic_new old k' q))"
    proof -
      have "mset (kf_acked k) + appended (kf_flight k') \<subseteq># mset (kf_acked k) + (appended (kf_flight k) + {#m#})"
        using \<open>appended (kf_flight k') \<subseteq># _\<close> by (rule subset_mset.add_left_mono)
      also have "\<dots> \<subseteq># (\<Sum>q \<leftarrow> P. mset (topic_new old k q)) + {#m#}"
        unfolding add.assoc[symmetric] using acks by (rule subset_mset.add_right_mono)
      finally show ?thesis unfolding t .
    qed
    moreover have "\<forall>q. length (old q) \<le> kf_pos k' q \<and> kf_pos k' q \<le> length (kf_log k' q)"
      using len append(1) by (auto simp: le_SucI)
    ultimately show ?thesis using bus got sent append t(1) by (simp add: kafka_inv_def)
  next
    case (others p m)
    have t: "topic_got old k' = topic_got old k"
      "(\<Sum>q \<leftarrow> P. mset (topic_new old k' q)) = (\<Sum>q \<leftarrow> P. mset (topic_new old k q)) + {#m#}"
      by (rule topic_append[OF P others(2) len, of k' m]; simp add: others(1))+
    have "mset (kf_acked k) + appended (kf_flight k) \<subseteq># (\<Sum>q \<leftarrow> P. mset (topic_new old k' q))"
      unfolding t using acks by (meson mset_subset_eq_add_left subset_mset.order_trans)
    moreover have "\<forall>q. length (old q) \<le> kf_pos k' q \<and> kf_pos k' q \<le> length (kf_log k' q)"
      using len others(1) by (auto simp: le_SucI)
    ultimately show ?thesis using bus got sent others t(1) by (simp add: kafka_inv_def)
  next
    case (acked xs m ys)
    then show ?thesis using bus len got sent acks same by (simp add: kafka_inv_def appended_def)
  next
    case (failed xs m f ys)
    have "appended (xs @ ys) \<subseteq># appended (kf_flight k)" using failed(2) by (simp add: appended_def)
    then have "mset (kf_acked k) + appended (xs @ ys) \<subseteq># (\<Sum>p \<leftarrow> P. mset (topic_new old k p))"
      using acks by (meson subset_mset.add_left_mono subset_mset.order_trans)
    then show ?thesis using bus len got sent same failed by (simp add: kafka_inv_def)
  next
    case (receive p c)
    let ?m = "kf_log k p ! kf_pos k p" and ?n = "kf_pos k p - length (old p)"
    have lp: "length (old p) \<le> kf_pos k p" using len by blast
    have new: "topic_new old k' = topic_new old k" by (simp add: receive(1) topic_new_def fun_eq_iff)
    have "?n < length (topic_new old k p)" "topic_new old k p ! ?n = ?m"
      using lp receive(3) by (simp_all add: topic_new_def)
    then have "take (Suc ?n) (topic_new old k p) = topic_got old k p @ [?m]"
      by (simp add: take_Suc_conv_app_nth topic_got_def)
    then have p: "topic_got old k' p = topic_got old k p @ [?m]"
      using lp by (simp add: topic_got_def new) (simp add: receive(1) Suc_diff_le)
    have "(\<Sum>q \<leftarrow> P. mset (topic_got old k' q)) = (\<Sum>q \<leftarrow> P. mset (topic_got old k q)) + {#?m#}"
      by (rule sum_list_change[OF P receive(2)]) (simp_all add: p, simp add: topic_got_def new, simp add: receive(1))
    moreover have "bus_inv 10 h (kf_bus k')"
      using bus_step_inv[OF bus_step.publish[OF receive(4)] bus] by (simp add: receive(1))
    moreover have "\<forall>q. length (old q) \<le> kf_pos k' q \<and> kf_pos k' q \<le> length (kf_log k' q)"
      using len receive(3) by (simp add: receive(1) le_SucI)
    ultimately show ?thesis using got sent acks new by (simp add: kafka_inv_def) (simp add: receive(1))
  next
    case (handle b)
    then show ?thesis using bus_step_inv[OF handle(2) bus] len got sent acks same by (simp add: kafka_inv_def)
  qed
qed

lemma kafka_reach_inv:
  assumes "distinct P" and "kafka_reach P h (kafka_start old cap) k"
  shows "kafka_inv old P h k"
  using assms(2)
proof (induction rule: rtranclp_induct)
  case base
  show ?case by (rule kafka_start_inv)
next
  case (step k k')
  from kafka_step_inv[OF assms(1) step.hyps(2) step.IH] show ?case .
qed

section \<open>At rest\<close>

text \<open>Nothing is on its way: every message has been reported, received and handed to its listeners.\<close>

definition at_rest :: "nat list \<Rightarrow> 'ch kafka \<Rightarrow> bool" where
  "at_rest P k \<longleftrightarrow> ch_items (kf_pub k) = [] \<and> kf_flight k = [] \<and>
     (\<forall>p\<in>set P. kf_pos k p = length (kf_log k p)) \<and> ch_items (bus_pub (kf_bus k)) = [] \<and> bus_tasks (kf_bus k) = []"

lemma sum_owed_mset:
  "mset ms = (\<Sum>p \<leftarrow> P. mset (f p)) \<Longrightarrow> (\<Sum>m \<leftarrow> ms. g m) = (\<Sum>p \<leftarrow> P. \<Sum>m \<leftarrow> f p. (g m :: 'b multiset))"
proof -
  have image: "(\<Sum>m \<leftarrow> ms. g m) = sum_mset (image_mset g (mset ms))" for ms :: "'a list"
    by (induction ms) auto
  assume "mset ms = (\<Sum>p \<leftarrow> P. mset (f p))"
  moreover have "sum_mset (image_mset g (\<Sum>p \<leftarrow> P. mset (f p))) = (\<Sum>p \<leftarrow> P. \<Sum>m \<leftarrow> f p. g m)"
    by (induction P) (simp_all add: image)
  ultimately show ?thesis by (simp add: image)
qed

lemma sum_owed_mono:
  assumes "mset xs \<subseteq># mset ys"
  shows "(\<Sum>m \<leftarrow> xs. g m) \<subseteq># (\<Sum>m \<leftarrow> ys. (g m :: 'b multiset))"
proof -
  have image: "(\<Sum>m \<leftarrow> ms. g m) = sum_mset (image_mset g (mset ms))" for ms :: "'a list"
    by (induction ms) auto
  obtain zs where "mset ys = mset xs + zs" using assms by (metis subset_mset.add_diff_inverse)
  then show ?thesis by (simp add: image)
qed


text \<open>One message through one partition to one listener.\<close>

definition settled :: "nat kafka" where
  "settled =
     (kafka_start (\<lambda>_. []) (\<lambda>_. 5))\<lparr>kf_sent := [sample_message], kf_acked := [sample_message],
       kf_log := (\<lambda>_. [])(0 := [sample_message]), kf_pos := (\<lambda>_. 0)(0 := 1),
       kf_bus := (bus_start 10 (\<lambda>_. 5))\<lparr>bus_sent := [sample_message],
         bus_box := (\<lambda>_. make_chan 5)(3 := (make_chan 5)\<lparr>ch_items := [msg_Payload sample_message]\<rparr>),
         bus_got := (\<lambda>_. [])(3 := [msg_Payload sample_message])\<rparr>\<rparr>"

lemma settled_reached: "kafka_reach [0] one_listener (kafka_start (\<lambda>_. []) (\<lambda>_. 5)) settled"
proof -
  let ?m = sample_message and ?e = "msg_Payload sample_message" and ?R = "kafka_step [0] one_listener"
  let ?k0 = "kafka_start (\<lambda>_. []) (\<lambda>_. 5) :: nat kafka" and ?b0 = "bus_start 10 (\<lambda>_. 5) :: nat bus"
  let ?c = "\<lambda>n ms. (make_chan n)\<lparr>ch_items := ms\<rparr>"
  let ?k1 = "?k0\<lparr>kf_pub := ?c 100 [?m], kf_sent := [?m]\<rparr>"
  let ?k2 = "?k0\<lparr>kf_sent := [?m], kf_flight := [(?m, False)]\<rparr>"
  let ?k3 = "?k0\<lparr>kf_sent := [?m], kf_flight := [(?m, True)], kf_log := (\<lambda>_. [])(0 := [?m])\<rparr>"
  let ?k4 = "?k0\<lparr>kf_sent := [?m], kf_acked := [?m], kf_log := (\<lambda>_. [])(0 := [?m])\<rparr>"
  let ?k5 = "?k4\<lparr>kf_pos := (\<lambda>_. 0)(0 := 1), kf_bus := ?b0\<lparr>bus_pub := ?c 10 [?m], bus_sent := [?m]\<rparr>\<rparr>"
  let ?k6 = "?k5\<lparr>kf_bus := ?b0\<lparr>bus_sent := [?m], bus_tasks := [(?e, [3])]\<rparr>\<rparr>"
  let ?k7 = "?k5\<lparr>kf_bus := (kf_bus settled)\<lparr>bus_tasks := [(?e, [])]\<rparr>\<rparr>"
  have l: "GetListeners one_listener t = [3]" for t
    by (simp add: one_listener_def Handlers_Add_def GetListeners_def)
  note d = kafka_start_def bus_start_def make_chan_def chan_send_def chan_recv_def settled_def
  note rtranclp.rtrancl_into_rtrancl [trans]
  have "?R ?k0 ?k1" using kafka_step.publish[of ?k0 ?m "?c 100 [?m]"] by (simp add: d)
  then have "?R\<^sup>*\<^sup>* ?k0 ?k1" ..
  also have "?R ?k1 ?k2" using kafka_step.produce[of ?k1 ?m "make_chan 100"] by (simp add: d)
  also have "?R ?k2 ?k3" using kafka_step.append[of ?k2 "[]" ?m False "[]" 0 "[0]"] by (simp add: d)
  also have "?R ?k3 ?k4" using kafka_step.acked[of ?k3 "[]" ?m "[]"] by (simp add: d)
  also have "?R ?k4 ?k5" using kafka_step.receive[of 0 "[0]" ?k4 "?c 10 [?m]"] by (simp add: d)
  also have "?R ?k5 ?k6"
    using kafka_step.handle[OF bus_step.take_message[of "kf_bus ?k5" ?m "make_chan 10" one_listener]] by (simp add: d l)
  also have "?R ?k6 ?k7"
    using kafka_step.handle[OF bus_step.deliver[of "kf_bus ?k6" "[]" ?e 3 "[]" "[]" "?c 5 [?e]"]] by (simp add: d)
  also have "?R ?k7 settled"
    using kafka_step.handle[OF bus_step.finish[of "kf_bus ?k7" "[]" ?e "[]"]] by (simp add: d)
  finally show ?thesis .
qed


end
