(* ===== verification/RemoteIp.thy ===== *)
theory RemoteIp
  imports GoText "HOL-Library.Word"
begin

text \<open>
  The address a request comes from (\<open>util/remoteIp.go\<close>), with the functions of Go's \<open>net\<close> and
  \<open>bytes\<close> packages it calls. An address is a slice of bytes: 4 or 16 of them, and nil is the empty
  slice. The text form of IPv6 addresses and the resolution of \<open>RemoteAddr\<close> are parameters; the
  text form of IPv4 addresses, which the code's own table is written in, is defined here.
\<close>

section \<open>Addresses\<close>

type_synonym ip = "8 word list"

definition IPv4 :: "8 word \<Rightarrow> 8 word \<Rightarrow> 8 word \<Rightarrow> 8 word \<Rightarrow> ip" where
  "IPv4 a b c d = replicate 10 0 @ [255, 255, a, b, c, d]"

text \<open>\<open>net.IP.To4\<close>; nil is \<open>None\<close>.\<close>

definition To4 :: "ip \<Rightarrow> ip option" where
  "To4 i =
     (if length i = 4 then Some i
      else if length i = 16 \<and> take 12 i = replicate 10 0 @ [255, 255] then Some (drop 12 i)
      else None)"

text \<open>\<open>net.IP.Equal\<close>: the 4 and the 16 byte form of an IPv4 address are the same address.\<close>

definition ip_equal :: "ip \<Rightarrow> ip \<Rightarrow> bool" where
  "ip_equal i j =
     (if length i = length j then i = j
      else if length i = 4 \<and> length j = 16 then
        take 12 j = replicate 10 0 @ [255, 255] \<and> i = drop 12 j
      else if length i = 16 \<and> length j = 4 then
        take 12 i = replicate 10 0 @ [255, 255] \<and> drop 12 i = j
      else False)"

definition IPv4bcast :: ip where
  "IPv4bcast = IPv4 255 255 255 255"

definition IsUnspecified :: "ip \<Rightarrow> bool" where
  "IsUnspecified i \<longleftrightarrow> ip_equal i (IPv4 0 0 0 0) \<or> ip_equal i (replicate 16 0)"

definition IsLoopback :: "ip \<Rightarrow> bool" where
  "IsLoopback i =
     (case To4 i of
        Some j \<Rightarrow> j ! 0 = 127
      | None \<Rightarrow> ip_equal i (replicate 15 0 @ [1]))"

definition IsMulticast :: "ip \<Rightarrow> bool" where
  "IsMulticast i =
     (case To4 i of
        Some j \<Rightarrow> and (j ! 0) 0xf0 = 0xe0
      | None \<Rightarrow> length i = 16 \<and> i ! 0 = 0xff)"

definition IsLinkLocalUnicast :: "ip \<Rightarrow> bool" where
  "IsLinkLocalUnicast i =
     (case To4 i of
        Some j \<Rightarrow> j ! 0 = 169 \<and> j ! 1 = 254
      | None \<Rightarrow> length i = 16 \<and> i ! 0 = 0xfe \<and> and (i ! 1) 0xc0 = 0x80)"

definition IsGlobalUnicast :: "ip \<Rightarrow> bool" where
  "IsGlobalUnicast i \<longleftrightarrow>
     (length i = 4 \<or> length i = 16) \<and> \<not> ip_equal i IPv4bcast \<and> \<not> IsUnspecified i \<and>
     \<not> IsLoopback i \<and> \<not> IsMulticast i \<and> \<not> IsLinkLocalUnicast i"

text \<open>
  \<open>net.ParseIP\<close>: the first dot or colon of the text decides between the two forms. A dotted quad
  has four decimal parts of at most 255; the result always has 16 bytes.
\<close>

definition parse_octet :: "string \<Rightarrow> 8 word option" where
  "parse_octet s =
     (if s \<noteq> [] \<and> list_all is_digit s \<and> digits_val s \<le> 255 then Some (of_nat (digits_val s))
      else None)"

definition parseIPv4 :: "string \<Rightarrow> ip" where
  "parseIPv4 s =
     (case map parse_octet (split_char (CHR ''.'') s) of
        [Some a, Some b, Some c, Some d] \<Rightarrow> IPv4 a b c d
      | _ \<Rightarrow> [])"

definition ParseIP :: "(string \<Rightarrow> ip) \<Rightarrow> string \<Rightarrow> ip" where
  "ParseIP v6 s =
     (case dropWhile (\<lambda>c. c \<noteq> CHR ''.'' \<and> c \<noteq> CHR '':'') s of
        [] \<Rightarrow> []
      | c # _ \<Rightarrow> if c = CHR ''.'' then parseIPv4 s else v6 s)"

section \<open>Private ranges\<close>

text \<open>\<open>bytes.Compare\<close>.\<close>

fun bytes_Compare :: "ip \<Rightarrow> ip \<Rightarrow> int" where
  "bytes_Compare [] [] = 0"
| "bytes_Compare [] (_ # _) = - 1"
| "bytes_Compare (_ # _) [] = 1"
| "bytes_Compare (a # as) (b # bs) =
     (if a < b then - 1 else if b < a then 1 else bytes_Compare as bs)"

record ipRange =
  range_start :: ip
  range_end :: ip

definition inRange :: "ipRange \<Rightarrow> ip \<Rightarrow> bool" where
  "inRange r i \<longleftrightarrow>
     bytes_Compare i (range_start r) \<ge> 0 \<and> bytes_Compare i (range_end r) \<le> 0"

definition ip_range :: "string \<Rightarrow> string \<Rightarrow> ipRange" where
  "ip_range a b = \<lparr>range_start = parseIPv4 a, range_end = parseIPv4 b\<rparr>"

definition privateRanges :: "ipRange list" where
  "privateRanges =
     [ip_range ''10.0.0.0'' ''10.255.255.255'',
      ip_range ''100.64.0.0'' ''100.127.255.255'',
      ip_range ''172.16.0.0'' ''172.31.255.255'',
      ip_range ''192.0.0.0'' ''192.0.0.255'',
      ip_range ''192.168.0.0'' ''192.168.255.255'',
      ip_range ''198.18.0.0'' ''198.19.255.255'']"

definition isPrivateSubnet :: "ip \<Rightarrow> bool" where
  "isPrivateSubnet i =
     (case To4 i of
        Some _ \<Rightarrow> list_ex (\<lambda>r. inRange r i) privateRanges
      | None \<Rightarrow> False)"

section \<open>The address of a request\<close>

text \<open>
  What the request carries: its peer and, for a header name, the first value of the header or the
  empty string. \<open>nt_resolve\<close> is \<open>net.ResolveTCPAddr\<close> followed by \<open>String\<close>, \<open>nt_v6\<close> the text form
  of IPv6 addresses.
\<close>

record net_lib =
  nt_resolve :: "string \<Rightarrow> string option"
  nt_v6 :: "string \<Rightarrow> ip"

record http_peer =
  RemoteAddr :: string
  Header_Get :: "string \<Rightarrow> string"

text \<open>The inner loop: the first acceptable address of a header, as it is written there.\<close>

fun scan_addresses :: "net_lib \<Rightarrow> string list \<Rightarrow> string option" where
  "scan_addresses n [] = None"
| "scan_addresses n (i # is) =
     (let real = ParseIP (nt_v6 n) (trim_space i)
      in if \<not> IsGlobalUnicast real \<and> \<not> isPrivateSubnet real then scan_addresses n is
         else Some i)"

fun scan_headers :: "net_lib \<Rightarrow> http_peer \<Rightarrow> string list \<Rightarrow> string option" where
  "scan_headers n r [] = None"
| "scan_headers n r (h # hs) =
     (case scan_addresses n (split_char (CHR '','') (Header_Get r h)) of
        Some i \<Rightarrow> Some i
      | None \<Rightarrow> scan_headers n r hs)"

definition GetRemoteIp :: "net_lib \<Rightarrow> http_peer \<Rightarrow> string" where
  "GetRemoteIp n r =
     (case scan_headers n r [''X-Forwarded-For'', ''X-Real-Ip''] of
        Some i \<Rightarrow> i
      | None \<Rightarrow> (case nt_resolve n (RemoteAddr r) of Some a \<Rightarrow> a | None \<Rightarrow> []))"

section \<open>Lemmas on addresses\<close>

lemma ten_zeros: "replicate 10 (x :: 8 word) = [x, x, x, x, x, x, x, x, x, x]"
  by (simp add: eval_nat_numeral)

lemma sixteen_zeros:
  "replicate 16 (x :: 8 word) = [x, x, x, x, x, x, x, x, x, x, x, x, x, x, x, x]"
  by (simp add: eval_nat_numeral)

lemma four_bytes: "length (xs :: ip) = 4 \<Longrightarrow> \<exists>a b c d. xs = [a, b, c, d]"
  by (auto simp: length_Suc_conv eval_nat_numeral)

lemma length_16E:
  assumes "length (i :: ip) = 16" and "take 12 i = replicate 10 0 @ [255, 255]"
  obtains a b c d where "i = IPv4 a b c d"
proof -
  have "length (drop 12 i) = 4" using assms(1) by simp
  then obtain a b c d where "drop 12 i = [a, b, c, d]"
    using four_bytes by blast
  then have "i = IPv4 a b c d"
    using append_take_drop_id[of 12 i] assms(2) by (simp add: IPv4_def)
  then show ?thesis by (rule that)
qed

lemma IPv4_facts [simp]:
  "length (IPv4 a b c d) = 16"
  "To4 (IPv4 a b c d) = Some [a, b, c, d]"
  "IPv4 a b c d = IPv4 a' b' c' d' \<longleftrightarrow> a = a' \<and> b = b' \<and> c = c' \<and> d = d'"
  "IPv4 a b c d \<noteq> replicate 16 0"
  by (simp_all add: IPv4_def To4_def ten_zeros sixteen_zeros)

lemma Compare_IPv4 [simp]:
  "bytes_Compare (IPv4 a b c d) (IPv4 a' b' c' d') = bytes_Compare [a, b, c, d] [a', b', c', d']"
  by (simp add: IPv4_def ten_zeros)

text \<open>The table of private ranges, evaluated.\<close>

lemma privateRanges_values:
  "privateRanges =
     [\<lparr>range_start = IPv4 10 0 0 0, range_end = IPv4 10 255 255 255\<rparr>,
      \<lparr>range_start = IPv4 100 64 0 0, range_end = IPv4 100 127 255 255\<rparr>,
      \<lparr>range_start = IPv4 172 16 0 0, range_end = IPv4 172 31 255 255\<rparr>,
      \<lparr>range_start = IPv4 192 0 0 0, range_end = IPv4 192 0 0 255\<rparr>,
      \<lparr>range_start = IPv4 192 168 0 0, range_end = IPv4 192 168 255 255\<rparr>,
      \<lparr>range_start = IPv4 198 18 0 0, range_end = IPv4 198 19 255 255\<rparr>]"
  by code_simp

text \<open>A 4 byte slice is below every entry of the table, or above its end.\<close>

lemma short_not_private:
  assumes "length i = 4"
  shows "\<not> isPrivateSubnet i"
proof -
  obtain a b c d where i: "i = [a, b, c, d]"
    using assms four_bytes by blast
  have "\<not> inRange \<lparr>range_start = IPv4 s t u v, range_end = IPv4 s' t' u' v'\<rparr> i" for s t u v s' t' u' v'
    by (auto simp: i inRange_def IPv4_def ten_zeros split: if_splits)
  then show ?thesis by (simp add: isPrivateSubnet_def privateRanges_values split: option.splits)
qed

lemma private_first_bytes:
  assumes "isPrivateSubnet (IPv4 a b c d)"
  shows "a \<in> {10, 100, 172, 192, 198}"
  using assms unfolding isPrivateSubnet_def privateRanges_values
  by (auto simp: inRange_def split: if_splits)

lemma private_is_global:
  assumes "isPrivateSubnet i"
  shows "IsGlobalUnicast i"
proof -
  have "To4 i \<noteq> None" using assms by (auto simp: isPrivateSubnet_def split: option.splits)
  moreover have "length i \<noteq> 4" using assms short_not_private by blast
  ultimately have "length i = 16" and "take 12 i = replicate 10 0 @ [255, 255]"
    by (auto simp: To4_def split: if_splits)
  then obtain a b c d where i: "i = IPv4 a b c d" by (rule length_16E)
  have a: "a \<in> {10, 100, 172, 192, 198}" using assms private_first_bytes by (simp add: i)
  then show ?thesis
    by (auto simp: i IsGlobalUnicast_def ip_equal_def IPv4bcast_def IsUnspecified_def IsLoopback_def
        IsMulticast_def IsLinkLocalUnicast_def)
qed

section \<open>The reference\<close>

text \<open>
  What the two loops amount to: all addresses of the two headers in order, the first one that is
  global unicast, and otherwise the peer.
\<close>

definition forwarded :: "http_peer \<Rightarrow> string list" where
  "forwarded r =
     split_char (CHR '','') (Header_Get r ''X-Forwarded-For'') @
     split_char (CHR '','') (Header_Get r ''X-Real-Ip'')"

definition remote_reference :: "net_lib \<Rightarrow> http_peer \<Rightarrow> string" where
  "remote_reference n r =
     (case find (\<lambda>i. IsGlobalUnicast (ParseIP (nt_v6 n) (trim_space i))) (forwarded r) of
        Some i \<Rightarrow> i
      | None \<Rightarrow> (case nt_resolve n (RemoteAddr r) of Some a \<Rightarrow> a | None \<Rightarrow> []))"

lemma scan_addresses_find:
  "scan_addresses n is = find (\<lambda>i. IsGlobalUnicast (ParseIP (nt_v6 n) (trim_space i))) is"
  by (induction "is") (auto simp: Let_def dest: private_is_global)

lemma find_append:
  "find P (xs @ ys) = (case find P xs of Some x \<Rightarrow> Some x | None \<Rightarrow> find P ys)"
  by (induction xs) auto

text \<open>
  The address that is reported for a request is the first entry of \<open>X-Forwarded-For\<close> and then
  \<open>X-Real-Ip\<close> that is a global unicast address, as it is written in the header with the blanks
  around it, and otherwise the peer's. The table of private ranges never has a say: every address
  in it is global unicast, so a private address in a header is taken like any other.
\<close>

theorem private_ranges_ignored: "GetRemoteIp n r = remote_reference n r"
  by (auto simp: GetRemoteIp_def remote_reference_def forwarded_def scan_addresses_find find_append
      split: option.splits)

end
