(* ===== verification/Discovery.thy ===== *)
theory Discovery
  imports CheckValidation ProbeStore QuotaStore RemoteIp
begin

text \<open>
  \<open>services/endpointdiscovery\<close>: the checks that are suggested for a host name. The resolver, \<open>ping\<close>,
  \<open>HEAD\<close> requests and the parser of URLs are parameters. The four probes run at once and send what
  they find into one channel, so the order of the checks is any.
\<close>

section \<open>The network\<close>

record url =
  u_Scheme :: string
  u_Host :: string
  u_Path :: string

text \<open>\<open>dl_head\<close> is the URL of the request that was answered, which a redirect has changed.\<close>

record disco_lib =
  dl_url :: "string \<Rightarrow> url option"
  dl_v6 :: "string \<Rightarrow> ip"
  dl_host :: "string \<Rightarrow> string list option"
  dl_ns :: "string \<Rightarrow> string list option"
  dl_ping :: "string \<Rightarrow> bool"
  dl_head :: "string \<Rightarrow> url option"

section \<open>The default probes\<close>

definition default_names :: "string list" where
  "default_names =
     [''New York'', ''Silicon Valley'', ''Chicago'', ''South Carolina'', ''Los Angeles'', ''Amsterdam'',
      ''London'', ''Tokyo'']"

fun find_defaults :: "string list \<Rightarrow> int list op" where
  "find_defaults [] = returnS []"
| "find_defaults (name # names) =
     bindS (tryS (GetProbeByName name 1)) (\<lambda>r. case r of
       Inl e \<Rightarrow> if Error e = ErrProbeNotFound then find_defaults names else failS (Error e)
     | Inr probe \<Rightarrow> bindS (find_defaults names) (\<lambda>ids. returnS (pd_Id probe # ids)))"

definition InitEndpointDiscovery :: "int list op" where
  "InitEndpointDiscovery = find_defaults default_names"

section \<open>The endpoint\<close>

record found =
  fe_Host :: string
  fe_IsIP :: bool
  fe_URL :: "url option"

definition host_part :: "string \<Rightarrow> string" where
  "host_part h = hd (split_char (CHR '':'') h)"

definition resolves :: "disco_lib \<Rightarrow> string \<Rightarrow> bool" where
  "resolves dl h \<longleftrightarrow> (case dl_host dl h of Some addrs \<Rightarrow> addrs \<noteq> [] | None \<Rightarrow> False)"

text \<open>The second lookup is for the text that was asked for, not for the host found in it.\<close>

definition NewEndpoint :: "disco_lib \<Rightarrow> string \<Rightarrow> found result" where
  "NewEndpoint dl hostname =
     bind_res
       (if sublist ''://'' hostname then
          (case dl_url dl hostname of
             None \<Rightarrow> Inl (Error (OtherError ''parse''))
           | Some u \<Rightarrow> Inr \<lparr>fe_Host = host_part (u_Host u), fe_IsIP = False, fe_URL = Some u\<rparr>)
        else Inr \<lparr>fe_Host = hostname, fe_IsIP = False, fe_URL = None\<rparr>)
       (\<lambda>e0. let e = e0\<lparr>fe_Host := to_lower (fe_Host e0)\<rparr> in
          if ParseIP (dl_v6 dl) (fe_Host e) \<noteq> [] then Inr (e\<lparr>fe_IsIP := True\<rparr>)
          else if resolves dl (fe_Host e) then Inr e
          else let e' = e\<lparr>fe_Host := ''www.'' @ hostname\<rparr> in
            if resolves dl (fe_Host e') then Inr e'
            else Inl (Error (OtherError (''failed to lookup IP of domain '' @ fe_Host e' @ ''.''))))"

section \<open>The probes\<close>

definition blank_check :: Check where
  "blank_check =
     \<lparr>c_Id = 0, c_OrgId = 0, c_EndpointId = 0, c_Route = None, c_Type = [], c_Frequency = 0, c_Offset = 0,
      c_Enabled = False, c_State = 0, c_StateChange = zero_time, c_StateCheck = zero_time, c_Settings = [],
      c_HealthSettings = None, c_Created = zero_time, c_Updated = zero_time\<rparr>"

definition DiscoverPing :: "disco_lib \<Rightarrow> found \<Rightarrow> Check option" where
  "DiscoverPing dl e =
     (if \<not> dl_ping dl (fe_Host e) then None
      else Some (blank_check\<lparr>c_Type := ''ping'', c_Frequency := 60,
        c_Settings := [(''hostname'', IStr (fe_Host e)), (''timeout'', IInt 5)], c_Enabled := True\<rparr>))"

text \<open>\<open>strconv.ParseInt(s, 10, 32)\<close> without its error.\<close>

definition parse_int32 :: "string \<Rightarrow> int" where
  "parse_int32 s = max (- 2147483648) (min 2147483647 (fst (parse_int64 s)))"

definition host_port :: "string \<Rightarrow> int \<Rightarrow> string \<times> int" where
  "host_port h standard =
     (let parts = split_char (CHR '':'') h
      in (parts ! 0, if length parts > 1 then parse_int32 (parts ! 1) else standard))"

definition request_headers :: string where
  "request_headers =
     ''User-Agent: worldping-api'' @ [CHR 0x0A] @ ''Accept-Encoding: gzip'' @ [CHR 0x0A]"

definition probe_url :: "string \<Rightarrow> found \<Rightarrow> string" where
  "probe_url scheme e =
     scheme @ ''://'' @
     (case fe_URL e of
        None \<Rightarrow> fe_Host e @ ''/''
      | Some u \<Rightarrow> (if u_Scheme u = scheme then u_Host u else fe_Host e) @ u_Path u)"

definition DiscoverHttp :: "disco_lib \<Rightarrow> found \<Rightarrow> Check option" where
  "DiscoverHttp dl e =
     (case dl_head dl (probe_url ''http'' e) of
        None \<Rightarrow> None
      | Some u \<Rightarrow>
          if u_Scheme u \<noteq> ''http'' then None
          else (case host_port (u_Host u) 80 of (host, port) \<Rightarrow>
            Some (blank_check\<lparr>c_Type := ''http'', c_Frequency := 120,
              c_Settings := [(''host'', IStr host), (''port'', IInt64 port), (''path'', IStr (u_Path u)),
                (''method'', IStr ''GET''), (''headers'', IStr request_headers), (''timeout'', IInt 5)],
              c_Enabled := True\<rparr>)))"

definition DiscoverHttps :: "disco_lib \<Rightarrow> found \<Rightarrow> Check option" where
  "DiscoverHttps dl e =
     (case dl_head dl (probe_url ''https'' e) of
        None \<Rightarrow> None
      | Some u \<Rightarrow>
          (case host_port (u_Host u) 443 of (host, port) \<Rightarrow>
            Some (blank_check\<lparr>c_Type := ''https'', c_Frequency := 120,
              c_Settings := [(''host'', IStr host), (''port'', IInt64 port), (''path'', IStr (u_Path u)),
                (''method'', IStr ''GET''), (''headers'', IStr request_headers), (''timeout'', IInt 5),
                (''validateCert'', IBool True)],
              c_Enabled := True\<rparr>)))"

lemma join_tl_shorter:
  assumes "\<not> length (split_char c s) < 2"
  shows "length (join [c] (tl (split_char c s))) < length s"
proof -
  obtain a q where p: "split_char c s = a # q" by (meson list.exhaust split_char_not_Nil)
  with assms have "q \<noteq> []" by auto
  then have "s = a @ [c] @ join [c] q" using join_split_char[of c s] p by (simp add: join_Cons)
  from arg_cong[OF this, of length] p show ?thesis by simp
qed

text \<open>
  The loop of \<open>DiscoverDNS\<close>: the name servers of the domain, or of the domain without its first label,
  until one label is left.
\<close>

function dns_server :: "disco_lib \<Rightarrow> string \<Rightarrow> string" where
  "dns_server dl domain =
     (case dl_ns dl domain of
        Some (n # ns) \<Rightarrow> join '','' (map (\<lambda>s. trim_suffix s ''.'') (n # ns))
      | _ \<Rightarrow>
          let parts = split_char (CHR ''.'') domain
          in if length parts < 2 then ''8.8.8.8'' else dns_server dl (join ''.'' (tl parts)))"
  by pat_completeness auto

termination
  by (relation "measure (\<lambda>(dl, d). length d)") (auto simp: join_tl_shorter)

declare dns_server.simps [simp del]

definition DiscoverDNS :: "disco_lib \<Rightarrow> found \<Rightarrow> Check" where
  "DiscoverDNS dl e =
     blank_check\<lparr>c_Type := ''dns'', c_Frequency := 120,
       c_Settings := [(''name'', IStr (fe_Host e)), (''type'', IStr ''A''), (''port'', IInt 53),
         (''server'', IStr (dns_server dl (fe_Host e))), (''timeout'', IInt 5), (''protocol'', IStr ''udp'')],
       c_Enabled := True\<rparr>"

section \<open>Discovery\<close>

definition list_of :: "'a option \<Rightarrow> 'a list" where
  "list_of r = (case r of None \<Rightarrow> [] | Some x \<Rightarrow> [x])"

text \<open>What the four probes send.\<close>

definition found_checks :: "disco_lib \<Rightarrow> found \<Rightarrow> Check list" where
  "found_checks dl e =
     list_of (DiscoverPing dl e) @ list_of (DiscoverHttp dl e) @ list_of (DiscoverHttps dl e) @
     (if fe_IsIP e then [] else [DiscoverDNS dl e])"

definition finish_check :: "int list \<Rightarrow> Check \<Rightarrow> Check" where
  "finish_check probes c =
     c\<lparr>c_HealthSettings := Some \<lparr>h_NumProbes = 3, h_Steps = 3,
          h_Notifications = \<lparr>n_Enabled = False, n_Addresses = []\<rparr>\<rparr>,
       c_Route := Some \<lparr>r_Type = RouteByIds, r_Config = [(''ids'', CInts probes)]\<rparr>\<rparr>"

text \<open>\<open>arrive\<close> is the order in which the checks come out of the channel.\<close>

definition Discover :: "disco_lib \<Rightarrow> int list \<Rightarrow> (Check list \<Rightarrow> Check list) \<Rightarrow> string \<Rightarrow> EndpointDTO result" where
  "Discover dl probes arrive hostname =
     bind_res (NewEndpoint dl hostname) (\<lambda>e.
       Inr \<lparr>ed_Id = 0, ed_OrgId = 0, ed_Name = fe_Host e, ed_Slug = [],
            ed_Checks = map (finish_check probes) (arrive (found_checks dl e)), ed_Tags = [],
            ed_Created = zero_time, ed_Updated = zero_time\<rparr>)"

section \<open>The name servers that are chosen\<close>

text \<open>The domain and its parents, closest first.\<close>

fun parents :: "string list \<Rightarrow> string list" where
  "parents [] = []"
| "parents (p # ps) = join ''.'' (p # ps) # parents ps"

definition has_servers :: "disco_lib \<Rightarrow> string \<Rightarrow> bool" where
  "has_servers dl d \<longleftrightarrow> (case dl_ns dl d of Some ns \<Rightarrow> ns \<noteq> [] | None \<Rightarrow> False)"

definition servers_text :: "disco_lib \<Rightarrow> string \<Rightarrow> string" where
  "servers_text dl d = join '','' (map (\<lambda>s. trim_suffix s ''.'') (case dl_ns dl d of Some ns \<Rightarrow> ns | None \<Rightarrow> []))"

lemma dns_server_found: "has_servers dl d \<Longrightarrow> dns_server dl d = servers_text dl d"
  by (subst dns_server.simps) (auto simp: has_servers_def servers_text_def split: option.splits list.splits)

lemma dns_server_step:
  assumes "\<not> has_servers dl (join ''.'' (p # ps))" and "\<forall>x\<in>set (p # ps). CHR ''.'' \<notin> set x"
  shows "dns_server dl (join ''.'' (p # ps)) = (if ps = [] then ''8.8.8.8'' else dns_server dl (join ''.'' ps))"
proof -
  have "split_char (CHR ''.'') (join ''.'' (p # ps)) = p # ps"
    using assms(2) by (intro split_char_join) auto
  moreover have "dl_ns dl (join ''.'' (p # ps)) = None \<or> dl_ns dl (join ''.'' (p # ps)) = Some []"
    using assms(1) by (auto simp: has_servers_def split: option.splits)
  ultimately show ?thesis
    by (subst dns_server.simps) (cases ps; auto simp: Let_def)
qed

lemma dns_server_parents:
  "\<lbrakk>ps \<noteq> []; \<forall>x\<in>set ps. CHR ''.'' \<notin> set x\<rbrakk> \<Longrightarrow>
   dns_server dl (join ''.'' ps) =
     (case find (has_servers dl) (parents ps) of Some z \<Rightarrow> servers_text dl z | None \<Rightarrow> ''8.8.8.8'')"
proof (induction ps)
  case (Cons p ps)
  show ?case
  proof (cases "has_servers dl (join ''.'' (p # ps))")
    case True
    then show ?thesis by (simp add: dns_server_found)
  next
    case False
    with dns_server_step[OF False Cons.prems(2)] Cons show ?thesis by (cases ps) auto
  qed
qed simp

text \<open>
  The server of a suggested DNS check is the name servers of the closest domain above the host that
  has any, and a public resolver when none has: the loop finds what a search through all parents finds.
\<close>

theorem DiscoverDNS_closest_zone:
  "map_of (c_Settings (DiscoverDNS dl e)) ''server'' = Some (IStr
     (case find (has_servers dl) (parents (split_char (CHR ''.'') (fe_Host e))) of
        Some z \<Rightarrow> servers_text dl z
      | None \<Rightarrow> ''8.8.8.8''))"
proof -
  have "dns_server dl (join ''.'' (split_char (CHR ''.'') (fe_Host e))) =
     (case find (has_servers dl) (parents (split_char (CHR ''.'') (fe_Host e))) of
        Some z \<Rightarrow> servers_text dl z | None \<Rightarrow> ''8.8.8.8'')"
    using split_char_parts by (intro dns_server_parents) auto
  then show ?thesis by (simp add: DiscoverDNS_def join_split_char)
qed

section \<open>Suggestions an editor can add\<close>

text \<open>
  A suggestion comes back in the body of a request: its settings have been through JSON, which is
  \<open>column_settings\<close>. \<open>sendable\<close> says when it can be added: no text is empty and the port is a port.
\<close>

definition sendable :: "settings \<Rightarrow> bool" where
  "sendable s \<longleftrightarrow> (\<forall>k. map_of s k \<noteq> Some (IStr [])) \<and>
     (\<forall>p. map_of s ''port'' = Some (IInt64 p) \<longrightarrow> 1 \<le> p \<and> p \<le> 65535)"

definition exact_int32 :: "(int \<Rightarrow> rat) \<Rightarrow> bool" where
  "exact_int32 g \<longleftrightarrow> (\<forall>i. \<bar>i\<bar> \<le> 2147483648 \<longrightarrow> g i = of_int i)"

lemma parse_int32_range: "\<bar>parse_int32 s\<bar> \<le> 2147483648"
  by (auto simp: parse_int32_def)

lemma host_port_range: "\<bar>standard\<bar> \<le> 2147483648 \<Longrightarrow> \<bar>snd (host_port h standard)\<bar> \<le> 2147483648"
  by (simp add: host_port_def Let_def parse_int32_range)

lemma exact_bounds:
  assumes "exact_int32 g" and "\<bar>p\<bar> \<le> 2147483648"
  shows "g p < 1 \<longleftrightarrow> p < 1" and "65535 < g p \<longleftrightarrow> 65535 < p"
proof -
  have g: "g p = of_int p" using assms by (simp add: exact_int32_def)
  show "g p < 1 \<longleftrightarrow> p < 1" by (simp add: g)
  show "65535 < g p \<longleftrightarrow> 65535 < p" by (simp add: g)
qed

lemmas setting_specs = has_string_def string_or_absent_def bool_or_absent_def timeout_or_absent_def
  port_or_absent_def ipversion_or_absent_def limit_or_absent_def

lemma sendable_http:
  assumes g: "exact_int32 g" and p: "\<bar>p\<bar> \<le> 2147483648" and ord: "any_order ord"
  shows "is_ok (validateHTTPSettings fl ord quotas (column_settings g
      [(''host'', IStr h), (''port'', IInt64 p), (''path'', IStr pa), (''method'', IStr ''GET''),
       (''headers'', IStr hs), (''timeout'', IInt 5)])) \<longleftrightarrow> h \<noteq> [] \<and> pa \<noteq> [] \<and> 1 \<le> p \<and> p \<le> 65535"
    and "is_ok (validateHTTPSSettings fl ord quotas (column_settings g
      [(''host'', IStr h), (''port'', IInt64 p), (''path'', IStr pa), (''method'', IStr ''GET''),
       (''headers'', IStr hs), (''timeout'', IInt 5), (''validateCert'', IBool True)])) \<longleftrightarrow>
      h \<noteq> [] \<and> pa \<noteq> [] \<and> 1 \<le> p \<and> p \<le> 65535"
proof -
  have gp: "g p = of_int p" "g 5 = 5" using g p by (simp_all add: exact_int32_def)
  show "is_ok (validateHTTPSettings fl ord quotas (column_settings g
      [(''host'', IStr h), (''port'', IInt64 p), (''path'', IStr pa), (''method'', IStr ''GET''),
       (''headers'', IStr hs), (''timeout'', IInt 5)])) \<longleftrightarrow> h \<noteq> [] \<and> pa \<noteq> [] \<and> 1 \<le> p \<and> p \<le> 65535"
    unfolding validateHTTPSettings_accepts[OF ord] map_of_column_settings setting_specs
    using gp by auto
  show "is_ok (validateHTTPSSettings fl ord quotas (column_settings g
      [(''host'', IStr h), (''port'', IInt64 p), (''path'', IStr pa), (''method'', IStr ''GET''),
       (''headers'', IStr hs), (''timeout'', IInt 5), (''validateCert'', IBool True)])) \<longleftrightarrow>
      h \<noteq> [] \<and> pa \<noteq> [] \<and> 1 \<le> p \<and> p \<le> 65535"
    unfolding validateHTTPSSettings_accepts[OF ord] map_of_column_settings setting_specs
    using gp by auto
qed

lemma sendable_ping:
  assumes g: "exact_int32 g" and ord: "any_order ord"
  shows "is_ok (validatePINGSettings fl ord (column_settings g
      [(''hostname'', IStr h), (''timeout'', IInt 5)])) \<longleftrightarrow> h \<noteq> []"
proof -
  have "g 5 = 5" using g by (simp add: exact_int32_def)
  then show ?thesis
    unfolding validatePINGSettings_accepts[OF ord] map_of_column_settings setting_specs by auto
qed

lemma sendable_dns:
  assumes ord: "any_order ord"
  shows "is_ok (validateDNSSettings fl ord (column_settings g
      [(''name'', IStr n), (''type'', IStr ''A''), (''port'', IInt 53), (''server'', IStr v),
       (''timeout'', IInt 5), (''protocol'', IStr ''udp'')])) \<longleftrightarrow> n \<noteq> [] \<and> v \<noteq> []"
  unfolding validateDNSSettings_accepts[OF ord] map_of_column_settings setting_specs
  by (auto simp: validRecordTypes_def to_lower_def lower_char_def is_upper_def)

text \<open>The checks that can be found, by type.\<close>

lemma found_checks_cases:
  assumes "c \<in> set (found_checks dl e)"
  obtains (ping) "c_Type c = PING_CHECK" "c_Frequency c = 60"
      "c_Settings c = [(''hostname'', IStr (fe_Host e)), (''timeout'', IInt 5)]"
    | (http) h p pa where "c_Type c = HTTP_CHECK" "c_Frequency c = 120" "\<bar>p\<bar> \<le> 2147483648"
      "c_Settings c = [(''host'', IStr h), (''port'', IInt64 p), (''path'', IStr pa), (''method'', IStr ''GET''),
         (''headers'', IStr request_headers), (''timeout'', IInt 5)]"
    | (https) h p pa where "c_Type c = HTTPS_CHECK" "c_Frequency c = 120" "\<bar>p\<bar> \<le> 2147483648"
      "c_Settings c = [(''host'', IStr h), (''port'', IInt64 p), (''path'', IStr pa), (''method'', IStr ''GET''),
         (''headers'', IStr request_headers), (''timeout'', IInt 5), (''validateCert'', IBool True)]"
    | (dns) v where "c_Type c = DNS_CHECK" "c_Frequency c = 120"
      "c_Settings c = [(''name'', IStr (fe_Host e)), (''type'', IStr ''A''), (''port'', IInt 53),
         (''server'', IStr v), (''timeout'', IInt 5), (''protocol'', IStr ''udp'')]"
proof -
  have p: "\<bar>snd (host_port h 80)\<bar> \<le> 2147483648" "\<bar>snd (host_port h 443)\<bar> \<le> 2147483648" for h
    by (rule host_port_range, simp)+
  from assms consider "DiscoverPing dl e = Some c" | "DiscoverHttp dl e = Some c"
    | "DiscoverHttps dl e = Some c" | "c = DiscoverDNS dl e"
    by (auto simp: found_checks_def list_of_def split: option.splits if_splits)
  then show thesis
  proof cases
    case 1
    then show ?thesis by (intro ping) (auto simp: DiscoverPing_def check_types split: if_splits)
  next
    case 2
    then obtain u where u: "dl_head dl (probe_url ''http'' e) = Some u" "u_Scheme u = ''http''"
      by (auto simp: DiscoverHttp_def split: option.splits if_splits)
    obtain h q where hq: "host_port (u_Host u) 80 = (h, q)" by fastforce
    show ?thesis
      by (rule http[of q h "u_Path u"])
        (use 2 p(1)[of "u_Host u"] hq in \<open>auto simp: DiscoverHttp_def u check_types\<close>)
  next
    case 3
    then obtain u where u: "dl_head dl (probe_url ''https'' e) = Some u"
      by (auto simp: DiscoverHttps_def split: option.splits)
    obtain h q where hq: "host_port (u_Host u) 443 = (h, q)" by fastforce
    show ?thesis
      by (rule https[of q h "u_Path u"])
        (use 3 p(2)[of "u_Host u"] hq in \<open>auto simp: DiscoverHttps_def u check_types\<close>)
  next
    case 4
    then show ?thesis by (intro dns) (simp_all add: DiscoverDNS_def check_types)
  qed
qed

lemma sendable_members:
  assumes "distinct (map fst s)"
  shows "sendable s \<longleftrightarrow> (\<forall>kv\<in>set s. snd kv \<noteq> IStr []) \<and>
     (\<forall>p. map_of s ''port'' = Some (IInt64 p) \<longrightarrow> 1 \<le> p \<and> p \<le> 65535)"
  using assms by (force simp: sendable_def map_of_eq_Some_iff)

lemma headers_not_empty: "request_headers \<noteq> []"
  by (simp add: request_headers_def)

lemma found_check_valid:
  assumes g: "exact_int32 g" and ord: "any_order ord" and c: "c \<in> set (found_checks dl e)"
  shows "is_ok (Check_Validate fl ord quotas ((finish_check probes c)\<lparr>c_Settings := column_settings g (c_Settings c)\<rparr>))
    \<longleftrightarrow> sendable (c_Settings c)"
proof -
  let ?s = "column_settings g (c_Settings c)"
  let ?c = "(finish_check probes c)\<lparr>c_Settings := ?s\<rparr>"
  have "CheckRoute_Validate (c_Route ?c) = Inr ()"
    by (simp add: finish_check_def CheckRoute_Validate_def route_types)
  then have v: "Check_Validate fl ord quotas ?c =
     (if c_Frequency c \<notin> set validFreq then verr ''Invalid frequency specified.''
      else if c_Type c = HTTP_CHECK then validateHTTPSettings fl ord quotas ?s
      else if c_Type c = HTTPS_CHECK then validateHTTPSSettings fl ord quotas ?s
      else if c_Type c = PING_CHECK then validatePINGSettings fl ord ?s
      else if c_Type c = DNS_CHECK then validateDNSSettings fl ord ?s
      else verr (''unknown check type. '' @ c_Type c))"
    by (simp add: Check_Validate_def finish_check_def)
  from c show ?thesis
  proof (cases rule: found_checks_cases)
    case ping
    have "sendable (c_Settings c) \<longleftrightarrow> fe_Host e \<noteq> []" by (simp add: ping(3) sendable_members)
    with sendable_ping[OF g ord] show ?thesis unfolding v unfolding ping by (simp add: validFreq_def check_types)
  next
    case (http h p pa)
    have "sendable (c_Settings c) \<longleftrightarrow> h \<noteq> [] \<and> pa \<noteq> [] \<and> 1 \<le> p \<and> p \<le> 65535"
      by (auto simp: http(4) sendable_members headers_not_empty)
    with sendable_http(1)[OF g http(3) ord] show ?thesis unfolding v unfolding http by (simp add: validFreq_def)
  next
    case (https h p pa)
    have "sendable (c_Settings c) \<longleftrightarrow> h \<noteq> [] \<and> pa \<noteq> [] \<and> 1 \<le> p \<and> p \<le> 65535"
      by (auto simp: https(4) sendable_members headers_not_empty)
    with sendable_http(2)[OF g https(3) ord] show ?thesis unfolding v unfolding https by (simp add: validFreq_def check_types)
  next
    case (dns d)
    have "sendable (c_Settings c) \<longleftrightarrow> fe_Host e \<noteq> [] \<and> d \<noteq> []" by (auto simp: dns(3) sendable_members)
    with sendable_dns[OF ord] show ?thesis unfolding v unfolding dns by (simp add: validFreq_def check_types)
  qed
qed

text \<open>
  C35. The suggestions fit the validators: a check that \<open>Discover\<close> suggests, sent back by the client, is
  accepted by \<open>Check.Validate\<close> exactly when none of its texts is empty and its port is a port, whatever
  the quotas are and whatever the network answered. (\<open>float64\<close> holds every 32-bit integer exactly.) A
  URL that is answered without a path gives an HTTP suggestion that is refused.
\<close>

theorem suggestions_valid:
  assumes g: "exact_int32 g" and ord: "any_order ord" and arrive: "\<And>cs. mset (arrive cs) = mset cs"
    and run: "Discover dl probes arrive hostname = Inr e" and c: "c \<in> set (ed_Checks e)"
  shows "is_ok (Check_Validate fl ord quotas (c\<lparr>c_Settings := column_settings g (c_Settings c)\<rparr>)) \<longleftrightarrow>
    sendable (c_Settings c)"
proof -
  obtain f where f: "c \<in> set (map (finish_check probes) (arrive (found_checks dl f)))"
    using run c by (auto simp: Discover_def bind_res_Inr_iff)
  moreover have "set (arrive (found_checks dl f)) = set (found_checks dl f)"
    using arrive[of "found_checks dl f"] by (metis set_mset_mset)
  ultimately obtain c0 where c0: "c0 \<in> set (found_checks dl f)" "c = finish_check probes c0" by auto
  then have "c_Settings c = c_Settings c0" by (simp add: finish_check_def)
  with found_check_valid[OF g ord c0(1)] c0(2) show ?thesis by simp
qed

text \<open>A network with one host that answers HTTP at its root and has a name server.\<close>

definition small_net :: disco_lib where
  "small_net =
     \<lparr>dl_url = (\<lambda>s. None), dl_v6 = (\<lambda>s. []),
      dl_host = (\<lambda>h. if h = ''a.io'' then Some [''192.0.2.1''] else None),
      dl_ns = (\<lambda>d. if d = ''io'' then Some [''ns.io.''] else None), dl_ping = (\<lambda>h. False),
      dl_head = (\<lambda>u. if u = ''http://a.io/'' then Some \<lparr>u_Scheme = ''http'', u_Host = ''a.io'', u_Path = ''/''\<rparr>
        else None)\<rparr>"

definition a_io :: found where
  "a_io = \<lparr>fe_Host = ''a.io'', fe_IsIP = False, fe_URL = None\<rparr>"

definition suggested_http :: Check where
  "suggested_http = finish_check [4] (blank_check\<lparr>c_Type := ''http'', c_Frequency := 120,
     c_Settings := [(''host'', IStr ''a.io''), (''port'', IInt64 80), (''path'', IStr ''/''),
       (''method'', IStr ''GET''), (''headers'', IStr request_headers), (''timeout'', IInt 5)], c_Enabled := True\<rparr>)"

lemma small_net_finds: "NewEndpoint small_net ''A.io'' = Inr a_io" "DiscoverPing small_net a_io = None"
  "DiscoverHttps small_net a_io = None"
  by code_simp+

lemma small_net_suggests:
  "\<exists>e. Discover small_net [4] rev ''A.io'' = Inr e \<and> suggested_http \<in> set (ed_Checks e)"
proof -
  have "host_port ''a.io'' 80 = (''a.io'', 80)" "dl_head small_net (probe_url ''http'' a_io) =
      Some \<lparr>u_Scheme = ''http'', u_Host = ''a.io'', u_Path = ''/''\<rparr>"
    by code_simp+
  then show ?thesis
    by (simp add: Discover_def small_net_finds found_checks_def list_of_def DiscoverHttp_def suggested_http_def)
qed

lemma suggestions_valid_witness:
  "is_ok (Check_Validate plain_floats rev [sample_quota]
     (suggested_http\<lparr>c_Settings := column_settings of_int (c_Settings suggested_http)\<rparr>))"
proof -
  obtain e where e: "Discover small_net [4] rev ''A.io'' = Inr e" "suggested_http \<in> set (ed_Checks e)"
    using small_net_suggests by blast
  have g: "exact_int32 of_int" by (simp add: exact_int32_def)
  have r: "mset (rev cs) = mset cs" for cs :: "Check list" by simp
  have "sendable (c_Settings suggested_http)"
    by (simp add: sendable_def suggested_http_def finish_check_def request_headers_def)
  with suggestions_valid[OF g any_order_id(2) r e, of plain_floats "[sample_quota]"] show ?thesis by simp
qed

end
