(* ===== verification/LogFile.thy ===== *)
theory LogFile
  imports GoText
begin

text \<open>
  \<open>log/file.go\<close>: the writer of log files and its rotation. A file system maps paths to inodes and
  inodes to contents, so that an open file survives the renaming and the removal of its name. Any call
  of the operating system may be refused; the clock is read call by call.
\<close>

section \<open>The operating system\<close>

text \<open>A moment: the Unix time, the day of the month, \<open>2006-01-02\<close>, and the stamp of a log line.\<close>

record moment =
  tm_unix :: int
  tm_day :: int
  tm_date :: string
  tm_stamp :: string

record os =
  os_refuse :: "nat \<Rightarrow> bool"
  os_now :: "nat \<Rightarrow> moment"

record files =
  fs_names :: "string \<Rightarrow> nat option"
  fs_data :: "nat \<Rightarrow> string"
  fs_mtime :: "nat \<Rightarrow> int"
  fs_next :: nat
  fs_calls :: nat
  fs_clock :: nat

definition clock_Now :: "os \<Rightarrow> files \<Rightarrow> moment \<times> files" where
  "clock_Now v s = (os_now v (fs_clock s), s\<lparr>fs_clock := Suc (fs_clock s)\<rparr>)"

text \<open>A call: refused, with no effect, or made.\<close>

definition sys_call :: "(files \<Rightarrow> 'a option \<times> files) \<Rightarrow> os \<Rightarrow> files \<Rightarrow> 'a option \<times> files" where
  "sys_call f v s =
     (let s' = s\<lparr>fs_calls := Suc (fs_calls s)\<rparr>
      in if os_refuse v (fs_calls s) then (None, s') else f s')"

definition os_Lstat :: "string \<Rightarrow> os \<Rightarrow> files \<Rightarrow> nat option \<times> files" where
  "os_Lstat path = sys_call (\<lambda>s. (fs_names s path, s))"

text \<open>\<open>O_APPEND | O_CREATE\<close>.\<close>

definition open_file :: "string \<Rightarrow> int \<Rightarrow> files \<Rightarrow> nat option \<times> files" where
  "open_file path t s =
     (case fs_names s path of
        Some i \<Rightarrow> (Some i, s)
      | None \<Rightarrow> (Some (fs_next s),
          s\<lparr>fs_names := (fs_names s)(path := Some (fs_next s)),
            fs_data := (fs_data s)(fs_next s := []), fs_mtime := (fs_mtime s)(fs_next s := t),
            fs_next := Suc (fs_next s)\<rparr>))"

text \<open>The time of a new file is the kernel's, which the program does not read.\<close>

definition os_OpenFile :: "string \<Rightarrow> os \<Rightarrow> files \<Rightarrow> nat option \<times> files" where
  "os_OpenFile path v s = sys_call (open_file path (tm_unix (os_now v (fs_clock s)))) v s"

definition os_Rename :: "string \<Rightarrow> string \<Rightarrow> os \<Rightarrow> files \<Rightarrow> unit option \<times> files" where
  "os_Rename from to = sys_call (\<lambda>s. (case fs_names s from of
     None \<Rightarrow> (None, s)
   | Some i \<Rightarrow> (Some (), s\<lparr>fs_names := (fs_names s)(from := None, to := Some i)\<rparr>)))"

definition fd_Stat :: "nat \<Rightarrow> os \<Rightarrow> files \<Rightarrow> nat option \<times> files" where
  "fd_Stat i = sys_call (\<lambda>s. (Some (length (fs_data s i)), s))"

definition ReadFile :: "string \<Rightarrow> os \<Rightarrow> files \<Rightarrow> string option \<times> files" where
  "ReadFile path = sys_call (\<lambda>s. (map_option (fs_data s) (fs_names s path), s))"

definition append_data :: "nat \<Rightarrow> string \<Rightarrow> int \<Rightarrow> files \<Rightarrow> files" where
  "append_data i text t s =
     s\<lparr>fs_data := (fs_data s)(i := fs_data s i @ text), fs_mtime := (fs_mtime s)(i := t)\<rparr>"

section \<open>The writer\<close>

text \<open>\<open>fw_fd\<close> is the inode of the open file; a file that has been closed is \<open>None\<close>.\<close>

record FileLogWriter =
  fw_fd :: "nat option"
  fw_Filename :: string
  fw_Maxlines :: int
  fw_curlines :: int
  fw_Maxsize :: int
  fw_cursize :: int
  fw_Daily :: bool
  fw_Maxdays :: int
  fw_opendate :: int
  fw_Rotate :: bool
  fw_Level :: int

definition NewFileWriter :: FileLogWriter where
  "NewFileWriter =
     \<lparr>fw_fd = None, fw_Filename = [], fw_Maxlines = 1000000, fw_curlines = 0, fw_Maxsize = 268435456,
      fw_cursize = 0, fw_Daily = True, fw_Maxdays = 7, fw_opendate = 0, fw_Rotate = True, fw_Level = 0\<rparr>"

text \<open>The functions return the error, the writer they have changed, and the files.\<close>

type_synonym log_op = "os \<Rightarrow> FileLogWriter \<times> files \<Rightarrow> string option \<times> FileLogWriter \<times> files"

definition createLogFile :: "FileLogWriter \<Rightarrow> os \<Rightarrow> files \<Rightarrow> nat option \<times> files" where
  "createLogFile w = os_OpenFile (fw_Filename w)"

definition SetFd :: "nat \<Rightarrow> FileLogWriter \<Rightarrow> FileLogWriter" where
  "SetFd i w = w\<lparr>fw_fd := Some i\<rparr>"

definition initFd :: "nat \<Rightarrow> log_op" where
  "initFd i v ws =
     (let (w, s) = ws; (sz, s1) = fd_Stat i v s in
      case sz of
        None \<Rightarrow> (Some ''get stat'', w, s1)
      | Some n \<Rightarrow>
          let (t, s2) = clock_Now v s1;
              w1 = w\<lparr>fw_cursize := int n, fw_opendate := tm_day t\<rparr> in
          if n > 0 then
            (let (content, s3) = ReadFile (fw_Filename w) v s2 in
             case content of
               None \<Rightarrow> (Some ''read'', w1, s3)
             | Some c \<Rightarrow> (None, w1\<lparr>fw_curlines := int (length (split_char (CHR 0x0A) c))\<rparr>, s3))
          else (None, w1\<lparr>fw_curlines := 0\<rparr>, s2))"

definition FileLogWriter_StartLogger :: log_op where
  "FileLogWriter_StartLogger v ws =
     (let (w, s) = ws; (fd, s1) = createLogFile w v s in
      case fd of
        None \<Rightarrow> (Some ''open'', w, s1)
      | Some i \<Rightarrow> initFd i v (SetFd i w, s1))"

definition pad3 :: "nat \<Rightarrow> string" where
  "pad3 n = (if n < 10 then ''00'' @ show_nat n else if n < 100 then ''0'' @ show_nat n else show_nat n)"

definition rotated_name :: "FileLogWriter \<Rightarrow> moment \<Rightarrow> nat \<Rightarrow> string" where
  "rotated_name w t n = fw_Filename w @ ''.'' @ tm_date t @ ''.'' @ pad3 n"

text \<open>The search for a free number: a name that cannot be looked up counts as free.\<close>

fun free_name :: "FileLogWriter \<Rightarrow> nat list \<Rightarrow> os \<Rightarrow> files \<Rightarrow> string option \<times> files" where
  "free_name w [] v s = (None, s)"
| "free_name w (n # ns) v s =
     (let (t, s1) = clock_Now v s; (found, s2) = os_Lstat (rotated_name w t n) v s1 in
      case found of
        None \<Rightarrow> (Some (rotated_name w t n), s2)
      | Some i \<Rightarrow> free_name w ns v s2)"

definition DoRotate :: log_op where
  "DoRotate v ws =
     (let (w, s) = ws; (found, s1) = os_Lstat (fw_Filename w) v s in
      case found of
        None \<Rightarrow> (None, w, s1)
      | Some _ \<Rightarrow>
          let (name, s2) = free_name w [1..<1000] v s1 in
          (case name of
             None \<Rightarrow> (Some ''rotate: cannot find free log number'', w, s2)
           | Some fname \<Rightarrow>
               let w1 = w\<lparr>fw_fd := None\<rparr>; (moved, s3) = os_Rename (fw_Filename w) fname v s2 in
               (case moved of
                  None \<Rightarrow> (Some ''Rotate'', w1, s3)
                | Some _ \<Rightarrow>
                    (case FileLogWriter_StartLogger v (w1, s3) of
                       (Some e, w2, s4) \<Rightarrow> (Some (''Rotate StartLogger: '' @ e), w2, s4)
                     | (None, w2, s4) \<Rightarrow> (None, w2, s4)))))"

text \<open>Whether a rotation is due; the clock is only read when nothing before it has decided.\<close>

definition rotation_due :: "os \<Rightarrow> FileLogWriter \<times> files \<Rightarrow> bool \<times> files" where
  "rotation_due v ws =
     (let (w, s) = ws in
      if \<not> fw_Rotate w then (False, s)
      else if fw_Maxlines w > 0 \<and> fw_curlines w \<ge> fw_Maxlines w then (True, s)
      else if fw_Maxsize w > 0 \<and> fw_cursize w \<ge> fw_Maxsize w then (True, s)
      else if fw_Daily w then (let (t, s1) = clock_Now v s in (tm_day t \<noteq> fw_opendate w, s1))
      else (False, s))"

text \<open>A failed rotation is printed to \<open>stderr\<close>, and the message is not counted.\<close>

definition docheck :: "int \<Rightarrow> os \<Rightarrow> FileLogWriter \<times> files \<Rightarrow> FileLogWriter \<times> files" where
  "docheck n v ws =
     (let (due, s1) = rotation_due v ws;
          (err, w2, s2) = (if due then DoRotate v (fst ws, s1) else (None, fst ws, s1)) in
      case err of
        Some e \<Rightarrow> (w2, s2)
      | None \<Rightarrow> (w2\<lparr>fw_curlines := fw_curlines w2 + 1, fw_cursize := fw_cursize w2 + n\<rparr>, s2))"

text \<open>\<open>log.Logger.Println\<close>: one write; a closed file takes nothing.\<close>

definition Println :: "string \<Rightarrow> os \<Rightarrow> FileLogWriter \<times> files \<Rightarrow> files" where
  "Println msg v ws =
     (let (w, s) = ws; (t, s1) = clock_Now v s in
      case fw_fd w of
        None \<Rightarrow> s1
      | Some i \<Rightarrow> append_data i (tm_stamp t @ msg @ [CHR 0x0A]) (tm_unix t) s1)"

definition FileLogWriter_WriteMsg ::
  "string \<Rightarrow> int \<Rightarrow> os \<Rightarrow> FileLogWriter \<times> files \<Rightarrow> FileLogWriter \<times> files" where
  "FileLogWriter_WriteMsg msg level v ws =
     (if level < fw_Level (fst ws) then ws
      else let (w, s) = docheck (24 + int (length msg)) v ws in (w, Println msg v (w, s)))"

text \<open>\<open>FileLogWriter.Init\<close>: the configuration has been decoded into the writer.\<close>

definition FileLogWriter_Init :: "FileLogWriter \<Rightarrow> os \<Rightarrow> files \<Rightarrow> string option \<times> FileLogWriter \<times> files" where
  "FileLogWriter_Init w v s =
     (if fw_Filename w = [] then (Some ''config must have filename'', w, s)
      else FileLogWriter_StartLogger v (w, s))"

definition FileLogWriter_Destroy :: "FileLogWriter \<Rightarrow> FileLogWriter" where
  "FileLogWriter_Destroy w = w\<lparr>fw_fd := None\<rparr>"

text \<open>
  \<open>deleteOldLog\<close>, which runs on its own after a rotation: \<open>walked\<close> are the files below the directory of
  the log file, \<open>removable\<close> those the system lets it remove.
\<close>

definition path_base :: "string \<Rightarrow> string" where
  "path_base p = last (split_char (CHR ''/'') p)"

definition doomed :: "FileLogWriter \<Rightarrow> int \<Rightarrow> (string \<Rightarrow> bool) \<Rightarrow> files \<Rightarrow> string \<Rightarrow> bool" where
  "doomed w t walked s p \<longleftrightarrow> walked p \<and>
     (case fs_names s p of None \<Rightarrow> False | Some i \<Rightarrow> fs_mtime s i < t - 60 * 60 * 24 * fw_Maxdays w) \<and>
     has_prefix (path_base p) (path_base (fw_Filename w))"

definition deleteOldLog :: "(string \<Rightarrow> bool) \<Rightarrow> (string \<Rightarrow> bool) \<Rightarrow> int \<Rightarrow> FileLogWriter \<Rightarrow> files \<Rightarrow> files" where
  "deleteOldLog walked removable t w s =
     s\<lparr>fs_names := (\<lambda>p. if doomed w t walked s p \<and> removable p then None else fs_names s p)\<rparr>"

section \<open>Invariant\<close>

text \<open>A name leads to an inode that has been given out, and to no inode twice.\<close>

definition files_ok :: "files \<Rightarrow> bool" where
  "files_ok s \<longleftrightarrow> (\<forall>p i. fs_names s p = Some i \<longrightarrow> i < fs_next s) \<and>
     (\<forall>p q i. fs_names s p = Some i \<longrightarrow> fs_names s q = Some i \<longrightarrow> p = q)"

text \<open>The writer has the file of its name open.\<close>

definition attached :: "FileLogWriter \<times> files \<Rightarrow> bool" where
  "attached ws \<longleftrightarrow> files_ok (snd ws) \<and> fw_fd (fst ws) \<noteq> None \<and>
     fs_names (snd ws) (fw_Filename (fst ws)) = fw_fd (fst ws)"

text \<open>Every file still has a name and has only grown.\<close>

definition grows :: "files \<Rightarrow> files \<Rightarrow> bool" where
  "grows s s' \<longleftrightarrow> (\<forall>p i. fs_names s p = Some i \<longrightarrow>
     (\<exists>q. fs_names s' q = Some i) \<and> (\<exists>u. fs_data s' i = fs_data s i @ u))"

lemma grows_refl [simp]: "grows s s"
  by (auto simp: grows_def)

lemma grows_trans: "grows s s' \<Longrightarrow> grows s' s'' \<Longrightarrow> grows s s''"
  unfolding grows_def by (metis append.assoc)

text \<open>Calls that only count.\<close>

definition same_files :: "files \<Rightarrow> files \<Rightarrow> bool" where
  "same_files s s' \<longleftrightarrow> fs_names s' = fs_names s \<and> fs_data s' = fs_data s \<and> fs_next s' = fs_next s"

lemma same_files_refl [simp]: "same_files s s"
  by (simp add: same_files_def)

lemma same_files_trans: "same_files s s' \<Longrightarrow> same_files s' s'' \<Longrightarrow> same_files s s''"
  by (simp add: same_files_def)

lemma same_files_ok: "same_files s s' \<Longrightarrow> files_ok s' = files_ok s"
  by (simp add: same_files_def files_ok_def)

lemma same_files_grows: "same_files s s' \<Longrightarrow> grows s s'"
  by (auto simp: same_files_def grows_def)

lemma clock_same: "clock_Now v s = (t, s') \<Longrightarrow> same_files s s'"
  by (auto simp: clock_Now_def same_files_def)

lemma Lstat_same: "os_Lstat p v s = (r, s') \<Longrightarrow> same_files s s'"
  by (auto simp: os_Lstat_def sys_call_def Let_def same_files_def split: if_splits)

lemma Stat_same: "fd_Stat i v s = (r, s') \<Longrightarrow> same_files s s'"
  by (auto simp: fd_Stat_def sys_call_def Let_def same_files_def split: if_splits)

lemma ReadFile_same: "ReadFile p v s = (r, s') \<Longrightarrow> same_files s s'"
  by (auto simp: ReadFile_def sys_call_def Let_def same_files_def split: if_splits)

text \<open>An operating system that does as it is told.\<close>

definition obliging :: "os \<Rightarrow> bool" where
  "obliging v \<longleftrightarrow> (\<forall>n. \<not> os_refuse v n)"

lemma obliging_Lstat: "obliging v \<Longrightarrow> os_Lstat p v s = (r, s') \<Longrightarrow> r = fs_names s p"
  by (auto simp: obliging_def os_Lstat_def sys_call_def Let_def)

lemma free_name_spec:
  assumes "obliging v"
  shows "free_name w ns v s = (r, s') \<Longrightarrow> same_files s s' \<and> (\<forall>p. r = Some p \<longrightarrow> fs_names s p = None)"
proof (induction ns arbitrary: s)
  case (Cons n ns)
  obtain t s1 where t: "clock_Now v s = (t, s1)" by fastforce
  obtain found s2 where f: "os_Lstat (rotated_name w t n) v s1 = (found, s2)" by fastforce
  have same: "same_files s s2" using clock_same[OF t] Lstat_same[OF f] by (rule same_files_trans)
  show ?case
  proof (cases found)
    case None
    with obliging_Lstat[OF assms f] clock_same[OF t] same Cons.prems t f show ?thesis
      by (auto simp: same_files_def)
  next
    case (Some i)
    with Cons.prems t f have "free_name w ns v s2 = (r, s')" by simp
    from Cons.IH[OF this] same show ?thesis by (auto simp: same_files_def)
  qed
qed simp

text \<open>Some number that no date has used.\<close>

definition unused_number :: "FileLogWriter \<Rightarrow> files \<Rightarrow> bool" where
  "unused_number w s \<longleftrightarrow> (\<exists>n\<in>set [1..<1000]. \<forall>t. fs_names s (rotated_name w t n) = None)"

lemma free_name_taken:
  assumes "obliging v"
  shows "free_name w ns v s = (None, s') \<Longrightarrow> \<forall>n\<in>set ns. \<exists>t. fs_names s (rotated_name w t n) \<noteq> None"
proof (induction ns arbitrary: s)
  case (Cons n ns)
  obtain t s1 where t: "clock_Now v s = (t, s1)" by fastforce
  obtain found s2 where f: "os_Lstat (rotated_name w t n) v s1 = (found, s2)" by fastforce
  have same: "same_files s s1" "same_files s s2"
    using clock_same[OF t] Lstat_same[OF f] by (auto intro: same_files_trans)
  from Cons.prems t f obtain i where i: "found = Some i" and rest: "free_name w ns v s2 = (None, s')"
    by (auto split: option.splits)
  from i obliging_Lstat[OF assms f] same(1) have "fs_names s (rotated_name w t n) \<noteq> None"
    by (simp add: same_files_def)
  moreover from Cons.IH[OF rest] same(2) have "\<forall>n\<in>set ns. \<exists>t. fs_names s (rotated_name w t n) \<noteq> None"
    by (simp add: same_files_def)
  ultimately show ?case by auto
qed simp

section \<open>Rotation keeps the files\<close>

definition same_config :: "FileLogWriter \<Rightarrow> FileLogWriter \<Rightarrow> bool" where
  "same_config w w' \<longleftrightarrow> fw_Filename w' = fw_Filename w \<and> fw_Level w' = fw_Level w \<and>
     fw_Rotate w' = fw_Rotate w \<and> fw_Maxsize w' = fw_Maxsize w \<and> fw_Maxlines w' = fw_Maxlines w"

lemma same_config_refl [simp]: "same_config w w"
  by (simp add: same_config_def)

text \<open>What an operation of the writer keeps when the system obliges.\<close>

definition keeps_files :: "FileLogWriter \<times> files \<Rightarrow> FileLogWriter \<times> files \<Rightarrow> bool" where
  "keeps_files ws ws' \<longleftrightarrow> attached ws' \<and> grows (snd ws) (snd ws') \<and> same_config (fst ws) (fst ws')"

lemma keeps_files_trans: "keeps_files a b \<Longrightarrow> keeps_files b c \<Longrightarrow> keeps_files a c"
  by (auto simp: keeps_files_def same_config_def intro: grows_trans)

lemma keeps_files_same:
  "attached (w, s) \<Longrightarrow> same_files s s' \<Longrightarrow> keeps_files (w, s) (w, s')"
  by (auto simp: keeps_files_def attached_def same_files_ok same_files_grows) (simp_all add: same_files_def)

lemma obliging_open:
  assumes "obliging v" and "files_ok s" and "os_OpenFile p v s = (fd, s')"
  shows "\<exists>i. fd = Some i \<and> fs_names s' p = Some i \<and> files_ok s' \<and> grows s s' \<and>
     (fs_names s p = None \<longrightarrow> fs_data s' i = [])"
proof -
  let ?s = "s\<lparr>fs_calls := Suc (fs_calls s)\<rparr>"
  have o: "open_file p (tm_unix (os_now v (fs_clock s))) ?s = (fd, s')"
    using assms(1,3) by (simp add: obliging_def os_OpenFile_def sys_call_def Let_def)
  show ?thesis
  proof (cases "fs_names s p")
    case (Some i)
    with o have fd: "fd = Some i" and s': "s' = ?s" by (auto simp: open_file_def)
    have same: "same_files s s'" by (simp add: same_files_def s')
    have "files_ok s'" using same_files_ok[OF same] assms(2) by (rule iffD2)
    with same_files_grows[OF same] fd Some s' show ?thesis by simp
  next
    case None
    have new: "fs_names s q \<noteq> Some (fs_next s)" for q
      using assms(2) by (auto simp: files_ok_def)
    from None o have "fd = Some (fs_next s)" and n: "fs_names s' = (fs_names s)(p := Some (fs_next s))"
      and d: "fs_data s' = (fs_data s)(fs_next s := [])" and x: "fs_next s' = Suc (fs_next s)"
      by (auto simp: open_file_def)
    moreover have "files_ok s'"
      using assms(2) new by (auto simp: files_ok_def n x less_Suc_eq split: if_splits)
    moreover have "grows s s'"
      unfolding grows_def
    proof (intro allI impI conjI)
      fix q i assume q: "fs_names s q = Some i"
      with None have "q \<noteq> p" by auto
      with q have "fs_names s' q = Some i" by (simp add: n)
      then show "\<exists>q. fs_names s' q = Some i" ..
      have "i \<noteq> fs_next s" using q new by auto
      then show "\<exists>u. fs_data s' i = fs_data s i @ u" by (simp add: d)
    qed
    ultimately show ?thesis by (simp add: n d)
  qed
qed

lemma initFd_spec:
  assumes "obliging v" and "attached (w, s)" and "fw_fd w = Some i" and run: "initFd i v (w, s) = (e, w', s')"
  shows "e = None \<and> same_files s s' \<and> fw_fd w' = fw_fd w \<and> same_config w w' \<and>
     fw_cursize w' = int (length (fs_data s i))"
proof -
  obtain sz s1 where st: "fd_Stat i v s = (sz, s1)" by fastforce
  have sz: "sz = Some (length (fs_data s i))"
    using st assms(1) by (auto simp: fd_Stat_def sys_call_def Let_def obliging_def)
  obtain t s2 where cl: "clock_Now v s1 = (t, s2)" by fastforce
  obtain c s3 where rd: "ReadFile (fw_Filename w) v s2 = (c, s3)" by fastforce
  have s2: "same_files s s2" using Stat_same[OF st] clock_same[OF cl] by (rule same_files_trans)
  then have "fs_names s2 (fw_Filename w) = Some i" using assms(2,3) by (simp add: attached_def same_files_def)
  then have c: "c = Some (fs_data s2 i)"
    using rd assms(1) by (auto simp: ReadFile_def sys_call_def Let_def obliging_def)
  from run st cl rd sz c s2 same_files_trans[OF s2 ReadFile_same[OF rd]] show ?thesis
    by (auto simp: initFd_def Let_def same_config_def split: if_splits)
qed

lemma StartLogger_spec:
  assumes "obliging v" and "files_ok s" and run: "FileLogWriter_StartLogger v (w, s) = (e, w', s')"
  shows "e = None \<and> attached (w', s') \<and> grows s s' \<and> same_config w w' \<and>
     (fs_names s (fw_Filename w) = None \<longrightarrow> fw_cursize w' = 0 \<and> (\<forall>i. fw_fd w' = Some i \<longrightarrow> fs_data s' i = []))"
proof -
  obtain fd s1 where o: "createLogFile w v s = (fd, s1)" by fastforce
  from obliging_open[OF assms(1,2) o[unfolded createLogFile_def]] obtain i where
    "fd = Some i \<and> fs_names s1 (fw_Filename w) = Some i \<and> files_ok s1 \<and> grows s s1 \<and>
     (fs_names s (fw_Filename w) = None \<longrightarrow> fs_data s1 i = [])" by (elim exE)
  then have i: "fd = Some i" "fs_names s1 (fw_Filename w) = Some i" "files_ok s1" "grows s s1"
    "fs_names s (fw_Filename w) = None \<longrightarrow> fs_data s1 i = []" by simp_all
  have a: "attached (SetFd i w, s1)" using i by (simp add: attached_def SetFd_def)
  from run o i have "initFd i v (SetFd i w, s1) = (e, w', s')" by (simp add: FileLogWriter_StartLogger_def)
  from initFd_spec[OF assms(1) a _ this] have
    p: "e = None" "same_files s1 s'" "fw_fd w' = Some i" "same_config w w'" "fw_cursize w' = int (length (fs_data s1 i))"
    by (simp_all add: SetFd_def same_config_def)
  have "attached (w', s')"
    using a p same_files_ok[OF p(2)] by (simp add: attached_def same_files_def same_config_def SetFd_def)
  moreover have "grows s s'" using i(4) same_files_grows[OF p(2)] by (rule grows_trans)
  ultimately show ?thesis using p i(5) by (simp add: same_files_def)
qed

lemma rename_spec:
  assumes ok: "files_ok s" and i: "fs_names s a = Some i" and b: "fs_names s b = None"
    and s': "fs_names s' = (fs_names s)(a := None, b := Some i)" "fs_data s' = fs_data s" "fs_next s' = fs_next s"
  shows "files_ok s' \<and> grows s s'"
proof -
  have ab: "a \<noteq> b" using i b by auto
  have "files_ok s'"
    using ok i by (auto simp: files_ok_def s' split: if_splits)
  moreover have "grows s s'"
  proof -
    have "\<exists>q. fs_names s' q = Some j" if "fs_names s p = Some j" for p j
    proof (cases "p = a")
      case True
      with that i have "fs_names s' b = Some j" by (simp add: s')
      then show ?thesis ..
    next
      case False
      with that b have "fs_names s' p = Some j" by (auto simp: s')
      then show ?thesis ..
    qed
    then show ?thesis by (auto simp: grows_def s')
  qed
  ultimately show ?thesis ..
qed

lemma obliging_rename:
  assumes "obliging v" and "files_ok s" and "fs_names s a = Some i" and "fs_names s b = None"
    and "os_Rename a b v s = (r, s')"
  shows "r = Some () \<and> files_ok s' \<and> grows s s' \<and> fs_names s' a = None"
proof -
  have "a \<noteq> b" using assms(3,4) by auto
  have "r = Some ()" "fs_names s' = (fs_names s)(a := None, b := Some i)" "fs_data s' = fs_data s" "fs_next s' = fs_next s"
    using assms by (auto simp: os_Rename_def sys_call_def Let_def obliging_def)
  with rename_spec[OF assms(2-4)] \<open>a \<noteq> b\<close> show ?thesis by simp
qed

text \<open>
  A rotation leaves an open file under the name and every other file under some name. When it succeeds
  the size counted is that of the new file.
\<close>

lemma DoRotate_spec:
  assumes "obliging v" and att: "attached (w, s)" and run: "DoRotate v (w, s) = (e, w', s')"
  shows "keeps_files (w, s) (w', s') \<and>
    (e = None \<longrightarrow> fw_cursize w' = 0 \<and> (\<forall>i. fw_fd w' = Some i \<longrightarrow> fs_data s' i = [])) \<and>
    (e \<noteq> None \<longrightarrow> w' = w \<and> same_files s s') \<and>
    (unused_number w s \<longrightarrow> e = None)"
proof -
  obtain found s1 where l: "os_Lstat (fw_Filename w) v s = (found, s1)" by fastforce
  obtain i where i: "fw_fd w = Some i" "fs_names s (fw_Filename w) = Some i" "files_ok s"
    using att by (auto simp: attached_def)
  have f: "found = Some i" using obliging_Lstat[OF assms(1) l] i by simp
  obtain name s2 where n: "free_name w [1..<1000] v s1 = (name, s2)" by fastforce
  from free_name_spec[OF assms(1) n] have s2: "same_files s s2" and free: "\<forall>p. name = Some p \<longrightarrow> fs_names s2 p = None"
    using Lstat_same[OF l] by (auto intro: same_files_trans simp: same_files_def)
  show ?thesis
  proof (cases name)
    case None
    with run l f n have "w' = w" "s' = s2" "e \<noteq> None" by (auto simp: DoRotate_def simp del: upt_rec_numeral)
    moreover have "\<not> unused_number w s"
      using free_name_taken[OF assms(1) n[unfolded None]] Lstat_same[OF l]
      by (auto simp: unused_number_def same_files_def simp del: upt_rec_numeral set_upt)
    ultimately show ?thesis using keeps_files_same[OF att s2] s2 by auto
  next
    case (Some fname)
    obtain r s3 where r: "os_Rename (fw_Filename w) fname v s2 = (r, s3)" by fastforce
    have "files_ok s2" "fs_names s2 (fw_Filename w) = Some i"
      using i same_files_ok[OF s2] s2 by (simp_all add: same_files_def)
    from obliging_rename[OF assms(1) this _ r] free Some
    have s3: "r = Some ()" "files_ok s3" "grows s2 s3" "fs_names s3 (fw_Filename w) = None" by auto
    obtain e2 w2 s4 where st: "FileLogWriter_StartLogger v (w\<lparr>fw_fd := None\<rparr>, s3) = (e2, w2, s4)"
      by (metis prod_cases3)
    from StartLogger_spec[OF assms(1) s3(2) st] have
      p: "e2 = None" "attached (w2, s4)" "grows s3 s4" "same_config w w2"
        "fw_cursize w2 = 0" "\<forall>i. fw_fd w2 = Some i \<longrightarrow> fs_data s4 i = []"
      using s3(4) by (simp_all add: same_config_def)
    from run l f n Some r s3 st p(1) have res: "e = None" "w' = w2" "s' = s4"
      by (auto simp: DoRotate_def simp del: upt_rec_numeral)
    have "grows s s4" using same_files_grows[OF s2] s3(3) p(3) by (blast intro: grows_trans)
    with p res show ?thesis by (simp add: keeps_files_def)
  qed
qed

section \<open>What is logged\<close>

definition log_line :: "moment \<Rightarrow> string \<Rightarrow> string" where
  "log_line t msg = tm_stamp t @ msg @ [CHR 0x0A]"

lemma rotation_due_same: "rotation_due v (w, s) = (b, s') \<Longrightarrow> same_files s s'"
  by (auto simp: rotation_due_def Let_def dest: clock_same split: if_splits prod.splits)

lemma keeps_count:
  "keeps_files (w, s) (w', s') \<Longrightarrow> keeps_files (w, s) (w'\<lparr>fw_curlines := a, fw_cursize := b\<rparr>, s')"
  by (auto simp: keeps_files_def attached_def same_config_def)

lemma docheck_keeps:
  assumes "obliging v" and att: "attached (w, s)" and run: "docheck n v (w, s) = (w', s')"
  shows "keeps_files (w, s) (w', s')"
proof -
  obtain due s1 where d: "rotation_due v (w, s) = (due, s1)" by fastforce
  have k1: "keeps_files (w, s) (w, s1)" by (rule keeps_files_same[OF att rotation_due_same[OF d]])
  then have a1: "attached (w, s1)" by (simp add: keeps_files_def)
  obtain e w2 s2 where r: "(if due then DoRotate v (w, s1) else (None, w, s1)) = (e, w2, s2)"
    by (metis prod_cases3)
  have k2: "keeps_files (w, s1) (w2, s2)"
    using DoRotate_spec[OF assms(1) a1] r a1 by (auto simp: keeps_files_def split: if_splits)
  have k: "keeps_files (w, s) (w2, s2)" using k1 k2 by (rule keeps_files_trans)
  from run d r have "(w', s') = (case e of Some x \<Rightarrow> (w2, s2)
     | None \<Rightarrow> (w2\<lparr>fw_curlines := fw_curlines w2 + 1, fw_cursize := fw_cursize w2 + n\<rparr>, s2))"
    unfolding docheck_def d Let_def prod.case fst_conv r by (simp split: option.splits)
  with k keeps_count[OF k] show ?thesis by (auto split: option.splits)
qed

lemma append_keeps:
  assumes "attached (w, s)" and "fw_fd w = Some i" and "same_files s s1"
  shows "keeps_files (w, s) (w, append_data i u t s1)"
  using assms by (auto simp: keeps_files_def attached_def files_ok_def grows_def append_data_def same_files_def)

text \<open>One message: its line is at the end of the file under the name.\<close>

lemma WriteMsg_keeps:
  assumes "obliging v" and "attached (w, s)" and run: "FileLogWriter_WriteMsg m l v (w, s) = (w', s')"
  shows "keeps_files (w, s) (w', s') \<and>
    (fw_Level w \<le> l \<longrightarrow> (\<exists>i t pre. fs_names s' (fw_Filename w') = Some i \<and>
       fs_data s' i = pre @ log_line (os_now v t) m))"
proof (cases "l < fw_Level w")
  case True
  with run assms(2) show ?thesis by (auto simp: FileLogWriter_WriteMsg_def keeps_files_def)
next
  case False
  obtain w1 s1 where d: "docheck (24 + int (length m)) v (w, s) = (w1, s1)" by fastforce
  have k1: "keeps_files (w, s) (w1, s1)" by (rule docheck_keeps[OF assms(1,2) d])
  then have a1: "attached (w1, s1)" by (simp add: keeps_files_def)
  then obtain i where i: "fw_fd w1 = Some i" "fs_names s1 (fw_Filename w1) = Some i"
    by (auto simp: attached_def)
  let ?t = "os_now v (fs_clock s1)" and ?s = "s1\<lparr>fs_clock := Suc (fs_clock s1)\<rparr>"
  have s': "w' = w1" "s' = append_data i (log_line ?t m) (tm_unix ?t) ?s"
    using run False d i by (auto simp: FileLogWriter_WriteMsg_def Println_def clock_Now_def Let_def log_line_def)
  have "same_files s1 ?s" by (simp add: same_files_def)
  from append_keeps[OF a1 i(1) this] k1 have "keeps_files (w, s) (w', s')"
    unfolding s' by (blast intro: keeps_files_trans)
  moreover have "fs_names s' (fw_Filename w') = Some i"
    "fs_data s' i = fs_data s1 i @ log_line ?t m"
    using i by (simp_all add: s' append_data_def)
  ultimately show ?thesis by blast
qed

fun log_messages :: "(string \<times> int) list \<Rightarrow> os \<Rightarrow> FileLogWriter \<times> files \<Rightarrow> FileLogWriter \<times> files" where
  "log_messages [] v ws = ws"
| "log_messages ((m, l) # ms) v ws = log_messages ms v (FileLogWriter_WriteMsg m l v ws)"

lemma log_messages_keeps:
  "\<lbrakk>obliging v; attached ws\<rbrakk> \<Longrightarrow> keeps_files ws (log_messages ms v ws)"
proof (induction ms arbitrary: ws)
  case Nil
  then show ?case by (auto simp: keeps_files_def)
next
  case (Cons ml ms)
  obtain m l w s where x: "ml = (m, l)" "ws = (w, s)" by fastforce
  obtain w1 s1 where r: "FileLogWriter_WriteMsg m l v (w, s) = (w1, s1)" by fastforce
  from WriteMsg_keeps[OF Cons.prems(1) Cons.prems(2)[unfolded x] r] have k: "keeps_files (w, s) (w1, s1)" by blast
  then have "attached (w1, s1)" by (simp add: keeps_files_def)
  from Cons.IH[OF Cons.prems(1) this] have "keeps_files (w1, s1) (log_messages ms v (w1, s1))" .
  with k show ?case unfolding x log_messages.simps r by (rule keeps_files_trans)
qed


text \<open>A writer that has just opened an empty file, and a system that obliges.\<close>

definition some_moment :: moment where
  "some_moment = \<lparr>tm_unix = 100, tm_day = 1, tm_date = ''2018-01-01'', tm_stamp = ''2018/01/01 00:00:00 ''\<rparr>"

definition good_os :: os where
  "good_os = \<lparr>os_refuse = (\<lambda>n. False), os_now = (\<lambda>n. some_moment)\<rparr>"

definition one_file :: files where
  "one_file =
     \<lparr>fs_names = (\<lambda>p. if p = ''l'' then Some 0 else None), fs_data = (\<lambda>i. []), fs_mtime = (\<lambda>i. 0),
      fs_next = 1, fs_calls = 0, fs_clock = 0\<rparr>"

definition one_writer :: FileLogWriter where
  "one_writer = NewFileWriter\<lparr>fw_fd := Some 0, fw_Filename := ''l'', fw_Maxsize := 40, fw_opendate := 1\<rparr>"

lemma one_attached: "attached (one_writer, one_file)" "obliging good_os"
  by (auto simp: attached_def files_ok_def one_writer_def one_file_def obliging_def good_os_def split: if_splits)


section \<open>The size of a log file\<close>

text \<open>The counter is at least the size of the open file.\<close>

definition counted :: "FileLogWriter \<times> files \<Rightarrow> bool" where
  "counted ws \<longleftrightarrow> (\<forall>i. fw_fd (fst ws) = Some i \<longrightarrow> int (length (fs_data (snd ws) i)) \<le> fw_cursize (fst ws))"

lemma docheck_bound:
  assumes v: "obliging v" and att: "attached (w, s)" and cnt: "counted (w, s)" and rot: "fw_Rotate w"
    and pos: "0 < fw_Maxsize w" and free: "unused_number w s" and run: "docheck n v (w, s) = (w', s')"
  shows "\<forall>i. fw_fd w' = Some i \<longrightarrow>
    int (length (fs_data s' i)) + n \<le> fw_cursize w' \<and> int (length (fs_data s' i)) < fw_Maxsize w"
proof -
  obtain due s1 where d: "rotation_due v (w, s) = (due, s1)" by fastforce
  note same = rotation_due_same[OF d]
  have a1: "attached (w, s1)" using keeps_files_same[OF att same] by (simp add: keeps_files_def)
  show ?thesis
  proof (cases due)
    case True
    obtain e w2 s2 where r: "DoRotate v (w, s1) = (e, w2, s2)" by (metis prod_cases3)
    have "unused_number w s1" using free same by (simp add: unused_number_def same_files_def)
    with DoRotate_spec[OF v a1 r] have "e = None" "fw_cursize w2 = 0" "\<forall>i. fw_fd w2 = Some i \<longrightarrow> fs_data s2 i = []"
      by blast+
    with run d r True pos show ?thesis by (auto simp: docheck_def)
  next
    case False
    then have "fw_cursize w < fw_Maxsize w"
      using d rot pos by (auto simp: rotation_due_def split: if_splits)
    moreover have "w' = w\<lparr>fw_curlines := fw_curlines w + 1, fw_cursize := fw_cursize w + n\<rparr>" "s' = s1"
      using run d False by (simp_all add: docheck_def)
    ultimately show ?thesis using cnt same by (auto simp: counted_def same_files_def)
  qed
qed


lemma one_unused: "unused_number one_writer one_file"
  unfolding unused_number_def
  by (rule bexI[of _ 1]) (simp_all add: rotated_name_def one_writer_def one_file_def del: upt_rec_numeral)


section \<open>A refused rename\<close>

text \<open>
  A rotation that fails half way loses the message: when a rotation is due and the operating system
  refuses the rename, the file has been closed already, the message is written to no file, and
  \<open>WriteMsg\<close> returns as if it were.
\<close>

theorem refused_rename_loses_message:
  assumes att: "attached (w, s)" and due: "rotation_due v (w, s) = (True, s1)" and lev: "fw_Level w \<le> l"
    and there: "os_Lstat (fw_Filename w) v s1 = (Some i, s2)"
    and name: "free_name w [1..<1000] v s2 = (Some fname, s3)" and refused: "os_refuse v (fs_calls s3)"
    and run: "FileLogWriter_WriteMsg m l v (w, s) = (w', s')"
  shows "fs_data s' = fs_data s3 \<and> fs_names s' = fs_names s3 \<and> fw_fd w' = None"
proof -
  have ren: "os_Rename (fw_Filename w) fname v s3 = (None, s3\<lparr>fs_calls := Suc (fs_calls s3)\<rparr>)"
    using refused by (simp add: os_Rename_def sys_call_def Let_def)
  have "DoRotate v (w, s1) = (Some ''Rotate'', w\<lparr>fw_fd := None\<rparr>, s3\<lparr>fs_calls := Suc (fs_calls s3)\<rparr>)"
    using there name ren by (simp add: DoRotate_def del: upt_rec_numeral)
  then have "docheck (24 + int (length m)) v (w, s) = (w\<lparr>fw_fd := None\<rparr>, s3\<lparr>fs_calls := Suc (fs_calls s3)\<rparr>)"
    using due by (simp add: docheck_def)
  with run lev show ?thesis
    by (auto simp: FileLogWriter_WriteMsg_def Println_def clock_Now_def Let_def)
qed

text \<open>A full writer, and a system that refuses its third call.\<close>

definition bad_os :: os where
  "bad_os = good_os\<lparr>os_refuse := (\<lambda>n. n = 2)\<rparr>"

definition full_writer :: FileLogWriter where
  "full_writer = one_writer\<lparr>fw_cursize := 40\<rparr>"

lemma full_numbers: "free_name full_writer [1..<1000] bad_os (one_file\<lparr>fs_calls := 1\<rparr>) =
   (Some ''l.2018-01-01.001'', one_file\<lparr>fs_calls := 2, fs_clock := 1\<rparr>)"
proof -
  have "[1..<1000] = 1 # [Suc 1..<1000]" by (rule upt_conv_Cons) simp
  moreover have "show_nat (Suc 0) = ''1''" by code_simp
  ultimately show ?thesis
    by (simp add: clock_Now_def os_Lstat_def sys_call_def bad_os_def good_os_def full_writer_def one_writer_def
        one_file_def rotated_name_def some_moment_def pad3_def
        del: upt_rec_numeral)
qed

lemma refused_rename_loses_message_witness:
  "fs_data (snd (FileLogWriter_WriteMsg ''gone'' 0 bad_os (full_writer, one_file))) 0 = []"
proof -
  obtain w s where r: "FileLogWriter_WriteMsg ''gone'' 0 bad_os (full_writer, one_file) = (w, s)" by fastforce
  have "attached (full_writer, one_file)"
    using one_attached(1) by (simp add: attached_def full_writer_def)
  moreover have "rotation_due bad_os (full_writer, one_file) = (True, one_file)"
    by (simp add: rotation_due_def full_writer_def one_writer_def NewFileWriter_def)
  moreover have "os_Lstat (fw_Filename full_writer) bad_os one_file = (Some 0, one_file\<lparr>fs_calls := 1\<rparr>)"
    by (simp add: os_Lstat_def sys_call_def bad_os_def one_file_def full_writer_def one_writer_def)
  moreover have "os_refuse bad_os (fs_calls (one_file\<lparr>fs_calls := 2, fs_clock := 1\<rparr>))"
    by (simp add: bad_os_def)
  moreover have "fw_Level full_writer \<le> 0"
    by (simp add: full_writer_def one_writer_def NewFileWriter_def)
  ultimately show ?thesis
    using refused_rename_loses_message[OF _ _ _ _ full_numbers _ r] r by (simp add: one_file_def)
qed

end
