(* ===== verification/Logging.thy ===== *)
theory Logging
  imports LogFile Decode Queues
begin

text \<open>
  The package \<open>log\<close>: its levels, the console and syslog writers (\<open>console.go\<close>, \<open>syslog.go\<close>), the loggers
  and their registry (\<open>log.go\<close>), and the goroutine that hands the messages of a logger to its writers.
  \<open>log.Fatal\<close> ends the process, which is a \<open>Panic\<close> here. The writer of files is in LogFile.
\<close>

section \<open>Levels\<close>

abbreviation TRACE :: int where "TRACE \<equiv> 0"
abbreviation DEBUG :: int where "DEBUG \<equiv> 1"
abbreviation INFO :: int where "INFO \<equiv> 2"
abbreviation WARN :: int where "WARN \<equiv> 3"
abbreviation ERROR :: int where "ERROR \<equiv> 4"
abbreviation CRITICAL :: int where "CRITICAL \<equiv> 5"
abbreviation FATAL :: int where "FATAL \<equiv> 6"

definition log_Fatal :: "string \<Rightarrow> 'a result" where
  "log_Fatal msg = Inl (Panic (''exit: '' @ msg))"

section \<open>The console\<close>

definition brush :: "string \<Rightarrow> string \<Rightarrow> string" where
  "brush color msg = [CHR 0x1B] @ ''['' @ color @ ''m'' @ msg @ [CHR 0x1B] @ ''[0m''"

definition colors :: "string list" where
  "colors = [''1;36'', ''1;34'', ''1;32'', ''1;33'', ''1;31'', ''1;35'', ''1;31'']"

record ConsoleWriter =
  cw_Level :: int
  cw_Formatting :: bool

definition NewConsole :: ConsoleWriter where
  "NewConsole = \<lparr>cw_Level = TRACE, cw_Formatting = True\<rparr>"

definition ConsoleWriter_Init :: "json option \<Rightarrow> ConsoleWriter \<Rightarrow> ConsoleWriter option" where
  "ConsoleWriter_Init config cw =
     (case json_members config of
        None \<Rightarrow> None
      | Some ms \<Rightarrow>
          (case (decode_field ''level'' json_int64 (cw_Level cw) ms,
                 decode_field ''formatting'' json_bool (cw_Formatting cw) ms) of
             (Some l, Some f) \<Rightarrow> Some \<lparr>cw_Level = l, cw_Formatting = f\<rparr>
           | _ \<Rightarrow> None))"

text \<open>What is printed, if anything: a level outside the table of colours is an index out of range.\<close>

definition ConsoleWriter_WriteMsg :: "bool \<Rightarrow> ConsoleWriter \<Rightarrow> string \<Rightarrow> int \<Rightarrow> string option result" where
  "ConsoleWriter_WriteMsg windows cw msg level =
     (if cw_Level cw > level then Inr None
      else if windows \<or> \<not> cw_Formatting cw then Inr (Some msg)
      else bind_res (go_index colors level) (\<lambda>color. Inr (Some (brush color msg))))"

section \<open>Syslog\<close>

record SyslogWriter =
  sy_Network :: string
  sy_Address :: string
  sy_Facility :: string
  sy_Tag :: string

definition NewSyslog :: SyslogWriter where
  "NewSyslog = \<lparr>sy_Network = [], sy_Address = [], sy_Facility = [], sy_Tag = []\<rparr>"

text \<open>The priorities of \<open>log/syslog\<close>: the number of the facility times eight.\<close>

definition facilities :: "(string, int) gomap" where
  "facilities =
     [(''user'', 8), (''daemon'', 24), (''local0'', 128), (''local1'', 136), (''local2'', 144), (''local3'', 152),
      (''local4'', 160), (''local5'', 168), (''local6'', 176), (''local7'', 184)]"

definition parseFacility :: "string \<Rightarrow> int \<times> string option" where
  "parseFacility facility =
     (case map_of facilities facility of
        None \<Rightarrow> (128, Some ''invalid syslog facility'')
      | Some prio \<Rightarrow> (prio, None))"

datatype severity = SvDebug | SvInfo | SvWarning | SvErr | SvCrit | SvAlert

definition SyslogWriter_severity :: "int \<Rightarrow> severity option" where
  "SyslogWriter_severity level =
     (if level = TRACE \<or> level = DEBUG then Some SvDebug
      else if level = INFO then Some SvInfo
      else if level = WARN then Some SvWarning
      else if level = ERROR then Some SvErr
      else if level = CRITICAL then Some SvCrit
      else if level = FATAL then Some SvAlert
      else None)"

text \<open>\<open>dial\<close> says whether the daemon is reached.\<close>

definition SyslogWriter_Init ::
  "(SyslogWriter \<Rightarrow> int \<Rightarrow> bool) \<Rightarrow> json option \<Rightarrow> SyslogWriter \<Rightarrow> string + SyslogWriter" where
  "SyslogWriter_Init dial config sw =
     (case json_members config of
        None \<Rightarrow> Inl ''json''
      | Some ms \<Rightarrow>
          (case (decode_field ''network'' json_string (sy_Network sw) ms,
                 decode_field ''address'' json_string (sy_Address sw) ms,
                 decode_field ''facility'' json_string (sy_Facility sw) ms,
                 decode_field ''tag'' json_string (sy_Tag sw) ms) of
             (Some n, Some a, Some f, Some t) \<Rightarrow>
               let sw' = \<lparr>sy_Network = n, sy_Address = a, sy_Facility = f, sy_Tag = t\<rparr> in
               (case parseFacility f of
                  (_, Some e) \<Rightarrow> Inl e
                | (prio, None) \<Rightarrow> if dial sw' prio then Inr sw' else Inl ''dial'')
           | _ \<Rightarrow> Inl ''json''))"

section \<open>Loggers\<close>

datatype LoggerInterface =
    Console ConsoleWriter
  | FileLog FileLogWriter
  | Syslog SyslogWriter

record logMsg =
  lm_skip :: int
  lm_level :: int
  lm_msg :: string

text \<open>\<open>lg_sent\<close> is what has been sent into the channel of the logger.\<close>

record Logger =
  lg_adapter :: string
  lg_level :: int
  lg_buffer :: int
  lg_outputs :: "(string, LoggerInterface) gomap"
  lg_sent :: "logMsg list"

definition newLogger :: "int \<Rightarrow> Logger result" where
  "newLogger buffer =
     (if buffer < 0 then Inl (Panic ''makechan: size out of range'')
      else Inr \<lparr>lg_adapter = [], lg_level = TRACE, lg_buffer = buffer, lg_outputs = [], lg_sent = []\<rparr>)"

text \<open>The adapters that are registered, and what they need of the system.\<close>

definition Register :: "string \<Rightarrow> bool \<Rightarrow> string list \<Rightarrow> string list result" where
  "Register name isnil adapters =
     (if isnil then Inl (Panic ''log: register provider is nil'')
      else if name \<in> set adapters then Inl (Panic (''log: register called twice for provider '' @ name))
      else Inr (adapters @ [name]))"

record log_env =
  le_os :: os
  le_dial :: "SyslogWriter \<Rightarrow> int \<Rightarrow> bool"

definition decode_file_writer :: "json option \<Rightarrow> FileLogWriter \<Rightarrow> FileLogWriter option" where
  "decode_file_writer config w =
     (case json_members config of
        None \<Rightarrow> None
      | Some ms \<Rightarrow>
          (case (decode_field ''filename'' json_string (fw_Filename w) ms,
                 decode_field ''maxlines'' json_int64 (fw_Maxlines w) ms,
                 decode_field ''maxsize'' json_int64 (fw_Maxsize w) ms,
                 decode_field ''daily'' json_bool (fw_Daily w) ms,
                 decode_field ''maxdays'' json_int64 (fw_Maxdays w) ms,
                 decode_field ''rotate'' json_bool (fw_Rotate w) ms,
                 decode_field ''level'' json_int64 (fw_Level w) ms) of
             (Some f, Some ml, Some ms', Some d, Some md, Some r, Some l) \<Rightarrow>
               Some (w\<lparr>fw_Filename := f, fw_Maxlines := ml, fw_Maxsize := ms', fw_Daily := d, fw_Maxdays := md,
                       fw_Rotate := r, fw_Level := l\<rparr>)
           | _ \<Rightarrow> None))"

text \<open>\<open>adapters[adapter]()\<close> followed by \<open>Init\<close>; \<open>None\<close> is an adapter that is not registered.\<close>

definition open_adapter ::
  "log_env \<Rightarrow> string \<Rightarrow> json option \<Rightarrow> files \<Rightarrow> ((string + LoggerInterface) \<times> files) option" where
  "open_adapter le adapter config s =
     (if adapter = ''console'' then
        Some (case ConsoleWriter_Init config NewConsole of
                None \<Rightarrow> Inl ''json'' | Some cw \<Rightarrow> Inr (Console cw), s)
      else if adapter = ''file'' then
        Some (case decode_file_writer config NewFileWriter of
                None \<Rightarrow> (Inl ''json'', s)
              | Some w \<Rightarrow>
                  (case FileLogWriter_Init w (le_os le) s of
                     (Some e, w', s') \<Rightarrow> (Inl e, s')
                   | (None, w', s') \<Rightarrow> (Inr (FileLog w'), s')))
      else if adapter = ''syslog'' then
        Some (case SyslogWriter_Init (le_dial le) config NewSyslog of
                Inl e \<Rightarrow> Inl e | Inr sw \<Rightarrow> Inr (Syslog sw), s)
      else None)"

definition SetLogger ::
  "log_env \<Rightarrow> string \<Rightarrow> json option \<Rightarrow> Logger \<times> files \<Rightarrow> (string option \<times> Logger \<times> files) result" where
  "SetLogger le adapter config ls =
     (case open_adapter le adapter config (snd ls) of
        None \<Rightarrow> Inl (Panic (''log: unknown adapter '' @ adapter @ '' (forgotten register?)''))
      | Some (Inl e, s) \<Rightarrow> Inr (Some e, fst ls, s)
      | Some (Inr lg, s) \<Rightarrow>
          Inr (None, (fst ls)\<lparr>lg_outputs := AList.update adapter lg (lg_outputs (fst ls)), lg_adapter := adapter\<rparr>, s))"

definition DelLogger :: "string \<Rightarrow> Logger \<Rightarrow> Logger result" where
  "DelLogger adapter lg =
     (case map_of (lg_outputs lg) adapter of
        None \<Rightarrow> Inl (Panic (''log: unknown adapter '' @ adapter @ '' (forgotten register?)''))
      | Some _ \<Rightarrow> Inr (lg\<lparr>lg_outputs := AList.delete adapter (lg_outputs lg)\<rparr>))"

section \<open>The registry\<close>

text \<open>
  All loggers that have been made, each with its goroutine, and the slice \<open>loggers\<close> of the package, which
  holds pointers to some of them.
\<close>

record logging =
  lo_made :: "Logger list"
  lo_loggers :: "nat list"
  lo_files :: files

definition log_NewLogger :: "log_env \<Rightarrow> int \<Rightarrow> string \<Rightarrow> json option \<Rightarrow> logging \<Rightarrow> logging result" where
  "log_NewLogger le bufLen mode config g =
     bind_res (newLogger bufLen) (\<lambda>logger.
       let isExist = list_ex (\<lambda>i. lg_adapter (lo_made g ! i) = mode) (lo_loggers g);
           slice = (if isExist then lo_loggers g else lo_loggers g @ [length (lo_made g)])
       in bind_res (SetLogger le mode config (logger, lo_files g)) (\<lambda>(err, logger', s).
            case err of
              Some e \<Rightarrow> log_Fatal (''Fail to set logger('' @ mode @ ''): '' @ e)
            | None \<Rightarrow> Inr \<lparr>lo_made = lo_made g @ [logger'], lo_loggers = slice, lo_files = s\<rparr>))"

definition log_Level :: "int \<Rightarrow> logging \<Rightarrow> logging" where
  "log_Level level g =
     g\<lparr>lo_made := fold (\<lambda>i ls. ls[i := (ls ! i)\<lparr>lg_level := level\<rparr>]) (lo_loggers g) (lo_made g)\<rparr>"

text \<open>The letter of a level, and \<open>writerMsg\<close>: from \<open>ERROR\<close> on the place of the caller is added, if known.\<close>

definition level_tag :: "int \<Rightarrow> string" where
  "level_tag level = ''['' @ (''TDIWECF'' ! nat level # ''] '')"

definition writerMsg :: "string option \<Rightarrow> int \<Rightarrow> int \<Rightarrow> string \<Rightarrow> Logger \<Rightarrow> Logger" where
  "writerMsg place skip level msg lg =
     lg\<lparr>lg_sent := lg_sent lg @ [\<lparr>lm_skip = skip, lm_level = level,
       lm_msg = (if level \<ge> ERROR then (case place of Some p \<Rightarrow> ''['' @ p @ ''] '' @ msg | None \<Rightarrow> msg) else msg)\<rparr>]\<rparr>"

text \<open>\<open>Logger.Trace\<close> to \<open>Logger.Critical\<close>: one function for a level.\<close>

definition Logger_log :: "string option \<Rightarrow> int \<Rightarrow> int \<Rightarrow> string \<Rightarrow> Logger \<Rightarrow> Logger" where
  "Logger_log place skip level text lg =
     (if lg_level lg > level then lg else writerMsg place skip level (level_tag level @ text) lg)"

definition log_all :: "string option \<Rightarrow> int \<Rightarrow> int \<Rightarrow> string \<Rightarrow> logging \<Rightarrow> logging" where
  "log_all place skip level text g =
     g\<lparr>lo_made := fold (\<lambda>i ls. ls[i := Logger_log place skip level text (ls ! i)]) (lo_loggers g) (lo_made g)\<rparr>"

text \<open>\<open>Logger.Close\<close> once its channel is empty: the outputs are destroyed. \<open>log.Close\<close> clears the slice.\<close>

fun destroy_output :: "LoggerInterface \<Rightarrow> LoggerInterface" where
  "destroy_output (FileLog w) = FileLog (FileLogWriter_Destroy w)"
| "destroy_output lg = lg"

definition Logger_Close :: "Logger \<Rightarrow> Logger" where
  "Logger_Close lg = lg\<lparr>lg_outputs := map (\<lambda>(a, lo). (a, destroy_output lo)) (lg_outputs lg)\<rparr>"

definition log_Close :: "logging \<Rightarrow> logging" where
  "log_Close g =
     g\<lparr>lo_made := fold (\<lambda>i ls. ls[i := Logger_Close (ls ! i)]) (lo_loggers g) (lo_made g), lo_loggers := []\<rparr>"

section \<open>The goroutine of a logger\<close>

text \<open>
  \<open>Logger.StartLogger\<close> and \<open>Logger.Close\<close> on the channel of a logger: senders put messages in, the goroutine
  takes one and writes it to every output until it is told to quit; then \<open>Close\<close> writes what is left and
  destroys the outputs. The channel is never closed, so senders may go on at any time.
\<close>

datatype phase = Running | Quitting | Closed

record log_queue =
  lq_phase :: phase
  lq_chan :: "logMsg chan"
  lq_sent :: "logMsg list"
  lq_written :: "logMsg list"

definition start_queue :: "nat \<Rightarrow> log_queue" where
  "start_queue n = \<lparr>lq_phase = Running, lq_chan = make_chan n, lq_sent = [], lq_written = []\<rparr>"

inductive log_step :: "log_queue \<Rightarrow> log_queue \<Rightarrow> bool" where
  send: "chan_send (lq_chan q) m = Some c \<Longrightarrow>
    log_step q (q\<lparr>lq_chan := c, lq_sent := lq_sent q @ [m]\<rparr>)"
| handoff: "lq_phase q = Running \<Longrightarrow> ch_items (lq_chan q) = [] \<Longrightarrow>
    log_step q (q\<lparr>lq_sent := lq_sent q @ [m], lq_written := lq_written q @ [m]\<rparr>)"
| wrote: "lq_phase q = Running \<Longrightarrow> chan_recv (lq_chan q) = Some (m, c) \<Longrightarrow>
    log_step q (q\<lparr>lq_chan := c, lq_written := lq_written q @ [m]\<rparr>)"
| quit: "lq_phase q = Running \<Longrightarrow> log_step q (q\<lparr>lq_phase := Quitting\<rparr>)"
| drain: "lq_phase q = Quitting \<Longrightarrow> chan_recv (lq_chan q) = Some (m, c) \<Longrightarrow>
    log_step q (q\<lparr>lq_chan := c, lq_written := lq_written q @ [m]\<rparr>)"
| destroy: "lq_phase q = Quitting \<Longrightarrow> ch_items (lq_chan q) = [] \<Longrightarrow>
    log_step q (q\<lparr>lq_phase := Closed\<rparr>)"

inductive_cases log_stepE: "log_step q q'"

abbreviation log_reach :: "log_queue \<Rightarrow> log_queue \<Rightarrow> bool" where
  "log_reach \<equiv> log_step\<^sup>*\<^sup>*"

text \<open>The steps are uses of a bounded queue.\<close>

definition log_use :: "log_queue \<Rightarrow> logMsg chan \<times> logMsg list \<times> logMsg list" where
  "log_use q = (lq_chan q, lq_sent q, lq_written q)"

lemma log_step_use: "log_step q q' \<Longrightarrow> channel.use\<^sup>*\<^sup>* (log_use q) (log_use q')"
proof (induction rule: log_step.induct)
  case (send q m c)
  then show ?case by (auto simp: log_use_def intro!: r_into_rtranclp channel.sent)
next
  case (handoff q m)
  then show ?case by (auto simp: log_use_def intro!: r_into_rtranclp channel.handed)
next
  case (wrote q m c)
  then show ?case by (auto simp: log_use_def intro!: r_into_rtranclp channel.received)
next
  case (drain q m c)
  then show ?case by (auto simp: log_use_def intro!: r_into_rtranclp channel.received)
qed (simp_all add: log_use_def)

lemma log_reach_use: "log_reach q q' \<Longrightarrow> channel.use\<^sup>*\<^sup>* (log_use q) (log_use q')"
proof (induction rule: rtranclp_induct)
  case (step q1 q2)
  from step.IH log_step_use[OF step.hyps(2)] show ?case by (rule rtranclp_trans)
qed simp

lemma log_fifo:
  assumes "log_reach (start_queue n) q"
  shows "lq_sent q = lq_written q @ ch_items (lq_chan q) \<and> length (ch_items (lq_chan q)) \<le> n"
proof -
  have "channel.use\<^sup>*\<^sup>* (make_chan n, [], []) (log_use q)"
    using log_reach_use[OF assms] by (simp add: log_use_def start_queue_def)
  from channel.use_fifo[OF this] show ?thesis by (simp add: log_use_def make_chan_def)
qed

lemma drain_all:
  "\<lbrakk>lq_phase q = Quitting; ch_items (lq_chan q) = ms\<rbrakk> \<Longrightarrow>
   \<exists>q'. log_reach q q' \<and> lq_phase q' = Closed \<and> lq_sent q' = lq_sent q \<and> lq_written q' = lq_written q @ ms"
proof (induction ms arbitrary: q)
  case Nil
  then have "log_step q (q\<lparr>lq_phase := Closed\<rparr>)" by (intro log_step.destroy)
  then show ?case by (intro exI[of _ "q\<lparr>lq_phase := Closed\<rparr>"]) auto
next
  case (Cons m ms)
  let ?c = "(lq_chan q)\<lparr>ch_items := ms\<rparr>"
  let ?q = "q\<lparr>lq_chan := ?c, lq_written := lq_written q @ [m]\<rparr>"
  have "chan_recv (lq_chan q) = Some (m, ?c)" using Cons.prems by (simp add: chan_recv_def)
  with Cons.prems have s: "log_step q ?q" by (intro log_step.drain)
  have "lq_phase ?q = Quitting" "ch_items (lq_chan ?q) = ms" using Cons.prems by simp_all
  from Cons.IH[OF this] obtain q' where
    "log_reach ?q q'" "lq_phase q' = Closed" "lq_sent q' = lq_sent q" "lq_written q' = lq_written q @ m # ms" by auto
  with s show ?case by (meson converse_rtranclp_into_rtranclp)
qed

text \<open>
  C36. A logger writes what it is given, once and in order: whatever the interleaving of the senders, its
  goroutine and \<open>Close\<close>, with a buffer of any size (also none), what has been written is a prefix of what
  has been sent, and the rest is in the buffer; at the moment \<open>Close\<close> destroys the outputs nothing is left
  out; and from every state in which the logger has not been closed, \<open>Close\<close> can get there.
\<close>

theorem logger_writes_in_order:
  assumes "log_reach (start_queue n) q"
  shows "lq_sent q = lq_written q @ ch_items (lq_chan q) \<and> length (ch_items (lq_chan q)) \<le> n \<and>
    (\<forall>q'. log_step q q' \<and> lq_phase q \<noteq> Closed \<and> lq_phase q' = Closed \<longrightarrow> lq_written q' = lq_sent q') \<and>
    (lq_phase q \<noteq> Closed \<longrightarrow>
       (\<exists>q'. log_reach q q' \<and> lq_phase q' = Closed \<and> lq_sent q' = lq_sent q \<and> lq_written q' = lq_sent q))"
proof (intro conjI allI impI)
  note inv = log_fifo[OF assms]
  then show "lq_sent q = lq_written q @ ch_items (lq_chan q)" "length (ch_items (lq_chan q)) \<le> n" by simp_all
  show "lq_written q' = lq_sent q'" if "log_step q q' \<and> lq_phase q \<noteq> Closed \<and> lq_phase q' = Closed" for q'
    using that inv by (auto elim!: log_stepE)
  assume "lq_phase q \<noteq> Closed"
  then consider "lq_phase q = Running" | "lq_phase q = Quitting" by (cases "lq_phase q") auto
  then show "\<exists>q'. log_reach q q' \<and> lq_phase q' = Closed \<and> lq_sent q' = lq_sent q \<and> lq_written q' = lq_sent q"
  proof cases
    case 1
    then have s: "log_step q (q\<lparr>lq_phase := Quitting\<rparr>)" by (rule log_step.quit)
    from drain_all[of "q\<lparr>lq_phase := Quitting\<rparr>"] obtain q' where
      "log_reach (q\<lparr>lq_phase := Quitting\<rparr>) q'" "lq_phase q' = Closed" "lq_sent q' = lq_sent q"
      "lq_written q' = lq_written q @ ch_items (lq_chan q)" by auto
    with s inv show ?thesis by (metis converse_rtranclp_into_rtranclp)
  next
    case 2
    from drain_all[OF this refl] inv show ?thesis by metis
  qed
qed

definition a_msg :: logMsg where
  "a_msg = \<lparr>lm_skip = 0, lm_level = INFO, lm_msg = ''[I] up''\<rparr>"

lemma logger_writes_in_order_witness:
  "\<exists>q. log_reach (start_queue 0) q \<and> lq_sent q = [a_msg] \<and> lq_written q = [a_msg] \<and>
     ch_items (lq_chan q) = []"
proof -
  let ?q = "(start_queue 0)\<lparr>lq_sent := [a_msg], lq_written := [a_msg]\<rparr>"
  have "log_step (start_queue 0) ?q"
    using log_step.handoff[of "start_queue 0" a_msg] by (simp add: start_queue_def make_chan_def)
  then have r: "log_reach (start_queue 0) ?q" by blast
  from logger_writes_in_order[OF r] have "ch_items (lq_chan ?q) = []" by simp
  with r show ?thesis by (intro exI[of _ ?q]) simp
qed

section \<open>A second logger of a mode\<close>

lemma log_all_outside:
  "i \<notin> set (lo_loggers g) \<Longrightarrow> i < length (lo_made g) \<Longrightarrow>
   lo_made (log_all place skip level text g) ! i = lo_made g ! i"
proof -
  have "i \<notin> set is \<Longrightarrow> i < length ls \<Longrightarrow> fold (\<lambda>i ls. ls[i := f (ls ! i)]) is ls ! i = ls ! i" for "is" ls f
    by (induction "is" arbitrary: ls) auto
  then show "i \<notin> set (lo_loggers g) \<Longrightarrow> i < length (lo_made g) \<Longrightarrow> ?thesis" by (simp add: log_all_def)
qed

text \<open>
  A mode that is configured a second time is ignored: \<open>NewLogger\<close> makes the logger and starts its
  goroutine, but assigns it to the variable of the loop, so the slice keeps the first logger, and no
  message of any level is ever sent to the new one.
\<close>

theorem second_logger_unused:
  assumes made: "\<forall>i\<in>set (lo_loggers g). i < length (lo_made g)"
    and old: "i \<in> set (lo_loggers g)" "lg_adapter (lo_made g ! i) = mode"
    and run: "log_NewLogger le bufLen mode config g = Inr g'"
  shows "lo_loggers g' = lo_loggers g \<and> length (lo_made g') = Suc (length (lo_made g)) \<and>
    lo_made (log_all place skip level text g') ! length (lo_made g) = lo_made g' ! length (lo_made g)"
proof -
  have ex: "list_ex (\<lambda>i. lg_adapter (lo_made g ! i) = mode) (lo_loggers g)"
    using old by (auto simp: list_ex_iff)
  obtain logger s where g': "g' = \<lparr>lo_made = lo_made g @ [logger], lo_loggers = lo_loggers g, lo_files = s\<rparr>"
    using run ex by (auto simp: log_NewLogger_def bind_res_Inr_iff log_Fatal_def split: option.splits)
  have "length (lo_made g) \<notin> set (lo_loggers g)" using made by auto
  with log_all_outside[of "length (lo_made g)" g'] g' show ?thesis by simp
qed

definition no_logging :: logging where
  "no_logging = \<lparr>lo_made = [], lo_loggers = [], lo_files = one_file\<rparr>"

definition console_config :: "json option" where
  "console_config = Some (JObj [(''level'', JInt 2)])"

definition small_log_env :: log_env where
  "small_log_env = \<lparr>le_os = good_os, le_dial = (\<lambda>sw p. True)\<rparr>"

definition console_logger :: Logger where
  "console_logger = \<lparr>lg_adapter = ''console'', lg_level = 0, lg_buffer = 10,
     lg_outputs = [(''console'', Console \<lparr>cw_Level = 2, cw_Formatting = True\<rparr>)], lg_sent = []\<rparr>"

lemma console_twice:
  "log_NewLogger small_log_env 10 ''console'' console_config no_logging =
     Inr \<lparr>lo_made = [console_logger], lo_loggers = [0], lo_files = one_file\<rparr>"
  "log_NewLogger small_log_env 10 ''console'' console_config
       \<lparr>lo_made = [console_logger], lo_loggers = [0], lo_files = one_file\<rparr> =
     Inr \<lparr>lo_made = [console_logger, console_logger], lo_loggers = [0], lo_files = one_file\<rparr>"
proof -
  have i: "ConsoleWriter_Init console_config NewConsole = Some \<lparr>cw_Level = 2, cw_Formatting = True\<rparr>"
    by code_simp
  show "log_NewLogger small_log_env 10 ''console'' console_config no_logging =
     Inr \<lparr>lo_made = [console_logger], lo_loggers = [0], lo_files = one_file\<rparr>"
    "log_NewLogger small_log_env 10 ''console'' console_config
       \<lparr>lo_made = [console_logger], lo_loggers = [0], lo_files = one_file\<rparr> =
     Inr \<lparr>lo_made = [console_logger, console_logger], lo_loggers = [0], lo_files = one_file\<rparr>"
    by (simp_all add: log_NewLogger_def newLogger_def SetLogger_def open_adapter_def i no_logging_def console_logger_def)
qed

lemma second_logger_unused_witness:
  "lo_made (log_all None 0 FATAL ''x'' \<lparr>lo_made = [console_logger, console_logger], lo_loggers = [0],
     lo_files = one_file\<rparr>) ! 1 = console_logger"
  using second_logger_unused[OF _ _ _ console_twice(2), of 0 None 0 FATAL "''x''"]
  by (simp add: console_logger_def)

end
