(* ===== verification/Settings.thy ===== *)
theory Settings
  imports Logging
begin

text \<open>
  The package \<open>setting\<close>: the configuration file with its overrides from the command line, a second file
  and the environment, the start of logging, and the settings that are read from it; and the database
  settings of \<open>sqlstore.go\<close>. The ini library is a parameter: it loads a file, says which key a name leads
  to, gives the text of a key after its own expansions, and parses booleans and numbers. Reading a key with
  a default is taken to leave the file as it is.
\<close>

section \<open>Configuration files\<close>

text \<open>A file: its sections with their keys and raw values, in order.\<close>

type_synonym ini_file = "(string \<times> (string \<times> string) list) list"

type_synonym ini_keys = "(string \<times> string list) list"

definition ini_names :: "ini_file \<Rightarrow> ini_keys" where
  "ini_names f = map (\<lambda>(s, ks). (s, map fst ks)) f"

record ini_lib =
  il_load :: "string \<Rightarrow> ini_file option"
  il_find :: "ini_keys \<Rightarrow> string \<Rightarrow> string \<Rightarrow> (string \<times> string) option"
  il_text :: "ini_file \<Rightarrow> string \<Rightarrow> string \<Rightarrow> string"
  il_bool :: "string \<Rightarrow> bool option"
  il_int :: "string \<Rightarrow> int option"
  il_duration :: "string \<Rightarrow> int option"

text \<open>The process: its environment, its files, \<open>filepath.Join\<close> and the URL parser, which gives the path.\<close>

record set_env =
  sv_Getenv :: "string \<Rightarrow> string"
  sv_exists :: "string \<Rightarrow> bool"
  sv_cwd :: string
  sv_join :: "string \<Rightarrow> string \<Rightarrow> string"
  sv_url :: "string \<Rightarrow> string option"
  sv_log :: log_env

record CommandLineArgs =
  cl_Config :: string
  cl_HomePath :: string
  cl_Args :: "string list"

text \<open>\<open>key.SetValue\<close>.\<close>

definition set_value :: "string \<Rightarrow> string \<Rightarrow> string \<Rightarrow> ini_file \<Rightarrow> ini_file" where
  "set_value sec key v f =
     map (\<lambda>(s, ks). (s, map (\<lambda>(k, old). (k, if s = sec \<and> k = key then v else old)) ks)) f"

text \<open>
  The double loop over sections and keys: \<open>g\<close> says which value a key is set to, if any, and what is noted.
\<close>

definition each_key :: "(string \<Rightarrow> string \<Rightarrow> string \<Rightarrow> string option) \<Rightarrow> ini_file \<Rightarrow> ini_file" where
  "each_key g f = map (\<lambda>(s, ks). (s, map (\<lambda>(k, v). (k, case g s k v of Some v' \<Rightarrow> v' | None \<Rightarrow> v)) ks)) f"

definition each_note :: "(string \<Rightarrow> string \<Rightarrow> string \<Rightarrow> string list) \<Rightarrow> ini_file \<Rightarrow> string list" where
  "each_note g f = concat (map (\<lambda>(s, ks). concat (map (\<lambda>(k, v). g s k v) ks)) f)"

section \<open>The command line\<close>

text \<open>The loop of \<open>getCommandLineProperties\<close>.\<close>

fun command_line_loop :: "string list \<Rightarrow> (string, string) gomap \<Rightarrow> (string, string) gomap result" where
  "command_line_loop [] props = Inr props"
| "command_line_loop (arg # args) props =
     (if \<not> has_prefix arg ''cfg:'' then command_line_loop args props
      else (case split_char (CHR ''='') (trim_prefix arg ''cfg:'') of
              [k, v] \<Rightarrow> command_line_loop args (AList.update k v props)
            | _ \<Rightarrow> log_Fatal (''Invalid command line argument'' @ arg)))"

definition getCommandLineProperties :: "string list \<Rightarrow> (string, string) gomap result" where
  "getCommandLineProperties args = command_line_loop args []"

definition dotted :: "string \<Rightarrow> string \<Rightarrow> string" where
  "dotted s k = s @ ''.'' @ k"

definition default_key :: "string \<Rightarrow> string \<Rightarrow> string" where
  "default_key s k = ''default.'' @ s @ ''.'' @ k"

definition note_of :: "string \<Rightarrow> string option \<Rightarrow> string list" where
  "note_of key v = (case v of Some x \<Rightarrow> [key @ ''='' @ x] | None \<Rightarrow> [])"

definition applyCommandLineDefaultProperties ::
  "(string, string) gomap \<Rightarrow> ini_file \<Rightarrow> ini_file \<times> string list" where
  "applyCommandLineDefaultProperties props f =
     (each_key (\<lambda>s k v. map_of props (default_key s k)) f,
      each_note (\<lambda>s k v. note_of (default_key s k) (map_of props (default_key s k))) f)"

definition applyCommandLineProperties ::
  "(string, string) gomap \<Rightarrow> ini_file \<times> string list \<Rightarrow> ini_file \<times> string list" where
  "applyCommandLineProperties props fa =
     (each_key (\<lambda>s k v. map_of props (dotted s k)) (fst fa),
      snd fa @ each_note (\<lambda>s k v. note_of (dotted s k) (map_of props (dotted s k))) (fst fa))"

section \<open>The environment\<close>

definition upper_char :: "char \<Rightarrow> char" where
  "upper_char c = (if is_lower c then char_of ((of_char c :: nat) - 32) else c)"

definition env_name :: "string \<Rightarrow> string" where
  "env_name s = map (\<lambda>c. upper_char (if c = CHR ''.'' then CHR ''_'' else c)) s"

definition env_key :: "string \<Rightarrow> string \<Rightarrow> string" where
  "env_key s k = ''WP_'' @ env_name s @ ''_'' @ env_name k"

definition env_override :: "set_env \<Rightarrow> string \<Rightarrow> string \<Rightarrow> string option" where
  "env_override v s k = (let x = sv_Getenv v (env_key s k) in if x \<noteq> [] then Some x else None)"

definition applyEnvVariableOverrides :: "set_env \<Rightarrow> ini_file \<Rightarrow> ini_file \<times> string list" where
  "applyEnvVariableOverrides v f =
     (each_key (\<lambda>s k x. env_override v s k) f,
      each_note (\<lambda>s k x. note_of (env_key s k) (env_override v s k)) f)"

text \<open>
  The regular expression \<open>\\${(\\w+)}\<close> at the start of a text: the name, and what follows. The braces around
  a name are not a repetition, so they stand for themselves.
\<close>

definition match_env :: "string \<Rightarrow> (string \<times> string) option" where
  "match_env s =
     (if \<not> has_prefix s ''${'' then None
      else let r = drop 2 s; name = takeWhile is_word r; after = dropWhile is_word r
           in if name \<noteq> [] \<and> has_prefix after ''}'' then Some (name, drop 1 after) else None)"

lemma match_env_shorter: "match_env s = Some (name, after) \<Longrightarrow> length after < length s"
proof -
  assume m: "match_env s = Some (name, after)"
  then have p: "has_prefix s ''${''" and a: "after = drop 1 (dropWhile is_word (drop 2 s))"
    by (auto simp: match_env_def Let_def split: if_splits)
  have "s \<noteq> []" using p by (auto simp: has_prefix_def)
  moreover have "length (dropWhile is_word (drop 2 s)) \<le> length (drop 2 s)" by (rule length_dropWhile_le)
  ultimately show ?thesis by (cases s) (auto simp: a)
qed

function evalEnvVarExpression :: "set_env \<Rightarrow> string \<Rightarrow> string" where
  "evalEnvVarExpression v [] = []"
| "evalEnvVarExpression v (c # cs) =
     (case match_env (c # cs) of
        Some (name, after) \<Rightarrow> sv_Getenv v name @ evalEnvVarExpression v after
      | None \<Rightarrow> c # evalEnvVarExpression v cs)"
  by pat_completeness auto

termination
  by (relation "measure (\<lambda>(v, s). length s)") (auto dest: match_env_shorter)

definition evalConfigValues :: "set_env \<Rightarrow> ini_file \<Rightarrow> ini_file" where
  "evalConfigValues v f = each_key (\<lambda>s k x. Some (evalEnvVarExpression v x)) f"

section \<open>The second file\<close>

definition has_section :: "ini_file \<Rightarrow> string \<Rightarrow> bool" where
  "has_section f s \<longleftrightarrow> s \<in> fst ` set f"

text \<open>One key of the second file: an empty value and an unknown section or key are passed over.\<close>

definition merge_key :: "ini_lib \<Rightarrow> string \<times> string \<times> string \<Rightarrow> ini_file \<Rightarrow> ini_file" where
  "merge_key il skv f =
     (case skv of (s, k, v) \<Rightarrow>
        if v = [] then f
        else if \<not> has_section f s then f
        else (case il_find il (ini_names f) s k of
                None \<Rightarrow> f
              | Some (s', k') \<Rightarrow> set_value s' k' v f))"

definition file_entries :: "ini_file \<Rightarrow> (string \<times> string \<times> string) list" where
  "file_entries f = concat (map (\<lambda>(s, ks). map (\<lambda>(k, v). (s, k, v)) ks) f)"

text \<open>
  The file, and the list of files that is logged. \<open>userConfig.BlockMode\<close> is set before the error of
  \<open>ini.Load\<close> is looked at, and with an error there is no file: a nil pointer.
\<close>

definition loadSpecifedConfigFile ::
  "ini_lib \<Rightarrow> set_env \<Rightarrow> string \<Rightarrow> string \<Rightarrow> ini_file \<Rightarrow> (ini_file \<times> string list) result" where
  "loadSpecifedConfigFile il v home config f =
     (let config' = (if config = [] then sv_join v home ''conf/custom.ini'' else config) in
      if config = [] \<and> \<not> sv_exists v config' then Inr (f, [])
      else (case il_load il config' of
              None \<Rightarrow> Inl (Panic ''nil pointer dereference'')
            | Some user \<Rightarrow> Inr (fold (merge_key il) (file_entries user) f, [config'])))"

section \<open>Logging\<close>

definition makeAbsolute :: "set_env \<Rightarrow> string \<Rightarrow> string \<Rightarrow> string" where
  "makeAbsolute v path base = (if has_prefix path ''/'' then path else sv_join v base path)"

definition MustString :: "ini_lib \<Rightarrow> ini_file \<Rightarrow> string \<Rightarrow> string \<Rightarrow> string \<Rightarrow> string" where
  "MustString il f s k d = (if il_text il f s k = [] then d else il_text il f s k)"

definition MustBool :: "ini_lib \<Rightarrow> ini_file \<Rightarrow> string \<Rightarrow> string \<Rightarrow> bool \<Rightarrow> bool" where
  "MustBool il f s k d = (case il_bool il (il_text il f s k) of Some b \<Rightarrow> b | None \<Rightarrow> d)"

definition MustInt :: "ini_lib \<Rightarrow> ini_file \<Rightarrow> string \<Rightarrow> string \<Rightarrow> int \<Rightarrow> int" where
  "MustInt il f s k d = (case il_int il (il_text il f s k) of Some i \<Rightarrow> i | None \<Rightarrow> d)"

definition In_text :: "ini_lib \<Rightarrow> ini_file \<Rightarrow> string \<Rightarrow> string \<Rightarrow> string \<Rightarrow> string list \<Rightarrow> string" where
  "In_text il f s k d candidates = (if il_text il f s k \<in> set candidates then il_text il f s k else d)"

definition logLevels :: "(string, int) gomap" where
  "logLevels = [(''Trace'', 0), (''Debug'', 1), (''Info'', 2), (''Warn'', 3), (''Error'', 4), (''Critical'', 5)]"

text \<open>\<open>1 << uint(n)\<close> on a 64-bit \<open>int\<close>; the conversion of a negative \<open>n\<close> is beyond every width.\<close>

definition shift_one :: "int \<Rightarrow> int" where
  "shift_one n = (if 0 \<le> n \<and> n < 64 then wrap64 (2 ^ nat n) else 0)"

text \<open>The configuration of a mode as JSON; a mode without a case has none, which is \<open>null\<close>.\<close>

definition log_config :: "ini_lib \<Rightarrow> set_env \<Rightarrow> ini_file \<Rightarrow> string \<Rightarrow> string \<Rightarrow> int \<Rightarrow> json" where
  "log_config il v f logs mode level =
     (let sec = ''log.'' @ mode in
      if mode = ''console'' then
        JObj [(''level'', JInt level), (''formatting'', JBool (MustBool il f sec ''formatting'' True))]
      else if mode = ''file'' then
        JObj [(''level'', JInt level),
          (''filename'', JStr (MustString il f sec ''file_name'' (sv_join v logs ''worldping-api.log''))),
          (''rotate'', JBool (MustBool il f sec ''log_rotate'' True)),
          (''maxlines'', JInt (MustInt il f sec ''max_lines'' 1000000)),
          (''maxsize'', JInt (shift_one (MustInt il f sec ''max_size_shift'' 28))),
          (''daily'', JBool (MustBool il f sec ''daily_rotate'' True)),
          (''maxdays'', JInt (MustInt il f sec ''max_days'' 7))]
      else if mode = ''conn'' then
        JObj [(''level'', JInt level),
          (''reconnectOnMsg'', JBool (MustBool il f sec ''reconnect_on_msg'' False)),
          (''reconnect'', JBool (MustBool il f sec ''reconnect'' False)),
          (''net'', JStr (In_text il f sec ''protocol'' ''tcp'' [''tcp'', ''unix'', ''udp''])),
          (''addr'', JStr (MustString il f sec ''addr'' '':7020''))]
      else if mode = ''smtp'' then
        JObj [(''level'', JInt level), (''user'', JStr (MustString il f sec ''user'' ''example@example.com'')),
          (''passwd'', JStr (MustString il f sec ''passwd'' ''******'')),
          (''host'', JStr (MustString il f sec ''host'' ''127.0.0.1:25'')),
          (''receivers'', JStr (MustString il f sec ''receivers'' ''[]'')),
          (''subject'', JStr (MustString il f sec ''subject'' ''Diagnostic message from serve''))]
      else if mode = ''database'' then
        JObj [(''level'', JInt level), (''driver'', JStr (il_text il f sec ''driver'')),
          (''conn'', JStr (il_text il f sec ''conn''))]
      else JNull)"

definition init_mode :: "ini_lib \<Rightarrow> set_env \<Rightarrow> ini_file \<Rightarrow> string \<Rightarrow> string \<Rightarrow> logging \<Rightarrow> logging result" where
  "init_mode il v f logs mode0 g =
     (let mode = trim_space mode0; sec = ''log.'' @ mode in
      if \<not> has_section f sec then log_Fatal (''Unknown log mode: '' @ mode)
      else (let levelName = In_text il f sec ''level'' ''Trace''
                  [''Trace'', ''Debug'', ''Info'', ''Warn'', ''Error'', ''Critical''] in
            case map_of logLevels levelName of
              None \<Rightarrow> log_Fatal (''Unknown log level: '' @ levelName)
            | Some level \<Rightarrow>
                log_NewLogger (sv_log v) (MustInt il f ''log'' ''buffer_len'' 10000) mode
                  (Some (log_config il v f logs mode level)) g))"

fun init_modes :: "ini_lib \<Rightarrow> set_env \<Rightarrow> ini_file \<Rightarrow> string \<Rightarrow> string list \<Rightarrow> logging \<Rightarrow> logging result" where
  "init_modes il v f logs [] g = Inr g"
| "init_modes il v f logs (m # ms) g =
     bind_res (init_mode il v f logs m g) (\<lambda>g'. init_modes il v f logs ms g')"

definition log_modes :: "ini_lib \<Rightarrow> ini_file \<Rightarrow> string list" where
  "log_modes il f = split_char (CHR '','') (MustString il f ''log'' ''mode'' ''console'')"

definition logs_path :: "ini_lib \<Rightarrow> set_env \<Rightarrow> ini_file \<Rightarrow> string \<Rightarrow> string" where
  "logs_path il v f home = makeAbsolute v (il_text il f ''paths'' ''logs'') home"

definition initLogging :: "ini_lib \<Rightarrow> set_env \<Rightarrow> ini_file \<Rightarrow> string \<Rightarrow> logging \<Rightarrow> logging result" where
  "initLogging il v f home g =
     init_modes il v f (logs_path il v f home) (log_modes il f) (log_Close g)"

section \<open>Loading\<close>

definition setHomePath :: "set_env \<Rightarrow> CommandLineArgs \<Rightarrow> string" where
  "setHomePath v args =
     (if cl_HomePath args \<noteq> [] then cl_HomePath args
      else let home = sv_cwd v in
        if sv_exists v (sv_join v home ''conf/defaults.ini'') then home
        else if sv_exists v (sv_join v home ''../conf/defaults.ini'') then sv_join v home ''../''
        else home)"

record loaded =
  ld_Cfg :: ini_file
  ld_DataPath :: string
  ld_LogsPath :: string
  ld_configFiles :: "string list"
  ld_cmdApplied :: "string list"
  ld_envApplied :: "string list"
  ld_log :: logging

definition data_path :: "ini_lib \<Rightarrow> set_env \<Rightarrow> ini_file \<Rightarrow> string \<Rightarrow> string" where
  "data_path il v f home = makeAbsolute v (il_text il f ''paths'' ''data'') home"

definition loadConfiguration :: "ini_lib \<Rightarrow> set_env \<Rightarrow> string \<Rightarrow> CommandLineArgs \<Rightarrow> logging \<Rightarrow> loaded result" where
  "loadConfiguration il v home args g =
     (let defaults = sv_join v home ''conf/defaults.ini'' in
      case il_load il defaults of
        None \<Rightarrow> log_Fatal ''Failed to parse defaults.ini''
      | Some f0 \<Rightarrow>
          bind_res (getCommandLineProperties (cl_Args args)) (\<lambda>props.
          let (f1, cmd1) = applyCommandLineDefaultProperties props f0 in
          bind_res (initLogging il v f1 home g) (\<lambda>g1.
          bind_res (loadSpecifedConfigFile il v home (cl_Config args) f1) (\<lambda>(f2, files).
          let (f3, envs) = applyEnvVariableOverrides v f2;
              (f4, cmd2) = applyCommandLineProperties props (f3, cmd1);
              f5 = evalConfigValues v f4 in
          bind_res (initLogging il v f5 home g1) (\<lambda>g2.
            Inr \<lparr>ld_Cfg = f5, ld_DataPath = data_path il v f5 home, ld_LogsPath = logs_path il v f5 home,
                 ld_configFiles = defaults # files, ld_cmdApplied = cmd2, ld_envApplied = envs, ld_log = g2\<rparr>)))))"

section \<open>Reading the settings\<close>

text \<open>A URL gets a slash at its end; \<open>Must\<close> has made sure that it is not empty.\<close>

definition with_slash :: "string \<Rightarrow> string" where
  "with_slash u = (if last u \<noteq> CHR ''/'' then u @ ''/'' else u)"

definition checked_url :: "set_env \<Rightarrow> string \<Rightarrow> string \<Rightarrow> string result" where
  "checked_url v name u =
     (case sv_url v (with_slash u) of
        None \<Rightarrow> log_Fatal (''Invalid '' @ name @ ''('' @ with_slash u @ '')'')
      | Some _ \<Rightarrow> Inr (with_slash u))"

definition parseAppUrlAndSubUrl :: "ini_lib \<Rightarrow> set_env \<Rightarrow> ini_file \<Rightarrow> (string \<times> string) result" where
  "parseAppUrlAndSubUrl il v f =
     (let appUrl = with_slash (MustString il f ''server'' ''root_url'' ''http://localhost:3000/'') in
      case sv_url v appUrl of
        None \<Rightarrow> log_Fatal (''Invalid root_url('' @ appUrl @ '')'')
      | Some path \<Rightarrow> Inr (appUrl, trim_suffix path ''/''))"

record KafkaSettings =
  ks_Enabled :: bool
  ks_Brokers :: string
  ks_Topic :: string

definition readKafkaSettings :: "ini_lib \<Rightarrow> ini_file \<Rightarrow> KafkaSettings" where
  "readKafkaSettings il f =
     \<lparr>ks_Enabled = MustBool il f ''kafka'' ''enabled'' False,
      ks_Brokers = MustString il f ''kafka'' ''brokers'' ''localhost:9092'',
      ks_Topic = MustString il f ''kafka'' ''topic'' ''worldping''\<rparr>"

record AlertingConfig =
  ac_Enabled :: bool
  ac_Topic :: string
  ac_Distributed :: bool
  ac_TickQueueSize :: int
  ac_InternalJobQueueSize :: int
  ac_ExecutorLRUSize :: int
  ac_EnableScheduler :: bool
  ac_EnableWorker :: bool
  ac_GraphiteUrl :: string

definition readAlertingSettings :: "ini_lib \<Rightarrow> set_env \<Rightarrow> ini_file \<Rightarrow> KafkaSettings \<Rightarrow> AlertingConfig result" where
  "readAlertingSettings il v f kafka =
     bind_res (checked_url v ''graphite_url'' (MustString il f ''alerting'' ''graphite_url'' ''http://localhost:8888/''))
       (\<lambda>u. let distributed = MustBool il f ''alerting'' ''distributed'' False in
        if distributed \<and> \<not> ks_Enabled kafka then log_Fatal ''Kafka must be enabled to use distributed alerting.''
        else Inr
          \<lparr>ac_Enabled = MustBool il f ''alerting'' ''enabled'' False,
           ac_Topic = MustString il f ''alerting'' ''topic'' ''worldping-alerts'', ac_Distributed = distributed,
           ac_TickQueueSize = MustInt il f ''alerting'' ''tickqueue_size'' 0,
           ac_InternalJobQueueSize = MustInt il f ''alerting'' ''internal_jobqueue_size'' 0,
           ac_ExecutorLRUSize = MustInt il f ''alerting'' ''executor_lru_size'' 0,
           ac_EnableScheduler = MustBool il f ''alerting'' ''enable_scheduler'' True,
           ac_EnableWorker = MustBool il f ''alerting'' ''enable_worker'' True, ac_GraphiteUrl = u\<rparr>)"

record SmtpSettings =
  sm_Enabled :: bool
  sm_Host :: string
  sm_User :: string
  sm_Password :: string
  sm_CertFile :: string
  sm_KeyFile :: string
  sm_FromAddress :: string
  sm_SkipVerify :: bool
  sm_SendWelcomeEmailOnSignUp :: bool
  sm_TemplatesPattern :: string

definition readSmtpSettings :: "ini_lib \<Rightarrow> ini_file \<Rightarrow> SmtpSettings" where
  "readSmtpSettings il f =
     \<lparr>sm_Enabled = MustBool il f ''smtp'' ''enabled'' False, sm_Host = il_text il f ''smtp'' ''host'',
      sm_User = il_text il f ''smtp'' ''user'', sm_Password = il_text il f ''smtp'' ''password'',
      sm_CertFile = il_text il f ''smtp'' ''cert_file'', sm_KeyFile = il_text il f ''smtp'' ''key_file'',
      sm_FromAddress = il_text il f ''smtp'' ''from_address'',
      sm_SkipVerify = MustBool il f ''smtp'' ''skip_verify'' False,
      sm_SendWelcomeEmailOnSignUp = MustBool il f ''emails'' ''welcome_email_on_sign_up'' False,
      sm_TemplatesPattern = MustString il f ''emails'' ''templates_pattern'' ''emails/*.html''\<rparr>"

definition readQuotaSettings :: "ini_lib \<Rightarrow> ini_file \<Rightarrow> QuotaSettings" where
  "readQuotaSettings il f =
     \<lparr>qset_Enabled = MustBool il f ''quota'' ''enabled'' False,
      qset_Org = \<lparr>oqs_Endpoint = MustInt il f ''quota'' ''org_endpoint'' 10,
        oqs_Probe = MustInt il f ''quota'' ''org_probe'' 10,
        oqs_DownloadLimit = MustInt il f ''quota'' ''org_downloadlimit'' (100 * 1024)\<rparr>,
      qset_Global = \<lparr>gqs_Endpoint = MustInt il f ''quota'' ''global_endpoint'' 10,
        gqs_Probe = MustInt il f ''quota'' ''global_probe'' 10\<rparr>\<rparr>"

record Config =
  cf_Env :: string
  cf_InstanceId :: string
  cf_AppUrl :: string
  cf_AppSubUrl :: string
  cf_HTTPS :: bool
  cf_CertFile :: string
  cf_KeyFile :: string
  cf_HttpAddr :: string
  cf_HttpPort :: string
  cf_RouterLogging :: bool
  cf_EnableGzip :: bool
  cf_StaticRootPath :: string
  cf_AdminKey :: string
  cf_ElasticsearchUrl :: string
  cf_TsdbUrl :: string
  cf_StatsEnabled :: bool
  cf_StatsAddr :: string
  cf_StatsPrefix :: string
  cf_StatsInterval :: int
  cf_StatsTimeout :: int
  cf_StatsBufferSize :: int
  cf_Kafka :: KafkaSettings
  cf_Alerting :: AlertingConfig
  cf_Smtp :: SmtpSettings
  cf_Quota :: QuotaSettings

text \<open>The first section of a file, before any header, is called \<open>DEFAULT\<close>.\<close>

definition read_settings :: "ini_lib \<Rightarrow> set_env \<Rightarrow> ini_file \<Rightarrow> string \<Rightarrow> Config result" where
  "read_settings il v f home =
     bind_res (parseAppUrlAndSubUrl il v f) (\<lambda>(app, sub).
     bind_res (checked_url v ''elasticsearch_url''
         (MustString il f ''raintank'' ''elasticsearch_url'' ''http://localhost:9200/'')) (\<lambda>es.
     bind_res (checked_url v ''tsdb_url'' (MustString il f ''raintank'' ''tsdb_url'' ''http://tsdb-gw/'')) (\<lambda>tsdb.
     bind_res (readAlertingSettings il v f (readKafkaSettings il f)) (\<lambda>alerting.
       let https = (MustString il f ''server'' ''protocol'' ''http'' = ''https'') in Inr
       \<lparr>cf_Env = MustString il f ''DEFAULT'' ''app_mode'' ''development'',
        cf_InstanceId = MustString il f ''DEFAULT'' ''instance_id'' ''default'',
        cf_AppUrl = app, cf_AppSubUrl = sub, cf_HTTPS = https,
        cf_CertFile = (if https then il_text il f ''server'' ''cert_file'' else []),
        cf_KeyFile = (if https then il_text il f ''server'' ''cert_key'' else []),
        cf_HttpAddr = MustString il f ''server'' ''http_addr'' ''0.0.0.0'',
        cf_HttpPort = MustString il f ''server'' ''http_port'' ''3000'',
        cf_RouterLogging = MustBool il f ''server'' ''router_logging'' False,
        cf_EnableGzip = MustBool il f ''server'' ''enable_gzip'' False,
        cf_StaticRootPath = makeAbsolute v (il_text il f ''server'' ''static_root_path'') home,
        cf_AdminKey = il_text il f ''server'' ''admin_key'', cf_ElasticsearchUrl = es, cf_TsdbUrl = tsdb,
        cf_StatsEnabled = MustBool il f ''telemetry'' ''stats_enabled'' False,
        cf_StatsAddr = il_text il f ''telemetry'' ''stats_addr'',
        cf_StatsPrefix = il_text il f ''telemetry'' ''stats_prefix'',
        cf_StatsInterval = MustInt il f ''telemetry'' ''stats_interval'' 10,
        cf_StatsTimeout = (case il_duration il (il_text il f ''telemetry'' ''stats_timeout'') of
           Some d \<Rightarrow> d | None \<Rightarrow> 10000000000),
        cf_StatsBufferSize = MustInt il f ''telemetry'' ''stats_buffer_size'' 20000,
        cf_Kafka = readKafkaSettings il f, cf_Alerting = alerting, cf_Smtp = readSmtpSettings il f,
        cf_Quota = readQuotaSettings il f\<rparr>))))"

definition NewConfigContext :: "ini_lib \<Rightarrow> set_env \<Rightarrow> CommandLineArgs \<Rightarrow> logging \<Rightarrow> (loaded \<times> Config) result" where
  "NewConfigContext il v args g =
     (let home = setHomePath v args in
      bind_res (loadConfiguration il v home args g) (\<lambda>ld.
      bind_res (read_settings il v (ld_Cfg ld) home) (\<lambda>cf. Inr (ld, cf))))"

text \<open>What \<open>LogConfigurationInfo\<close> logs.\<close>

definition numbered :: "string list \<Rightarrow> string" where
  "numbered ls = concat (map (\<lambda>(i, l). ''  ['' @ show_nat i @ '']: '' @ l @ [CHR 0x0A]) (enumerate 0 ls))"

definition LogConfigurationInfo :: "string \<Rightarrow> loaded \<Rightarrow> string" where
  "LogConfigurationInfo home ld =
     ''Configuration Info'' @ [CHR 0x0A] @ ''Config files:'' @ [CHR 0x0A] @ numbered (ld_configFiles ld) @
     (if ld_cmdApplied ld \<noteq> [] then ''Command lines overrides:'' @ [CHR 0x0A] @ numbered (ld_cmdApplied ld) else []) @
     (if ld_envApplied ld \<noteq> [] then
        CHR 0x09 # ''Environment variables used:'' @ [CHR 0x0A] @ numbered (ld_envApplied ld) else []) @
     ''Paths:'' @ [CHR 0x0A] @ ''  home: '' @ home @ [CHR 0x0A] @ ''  data: '' @ ld_DataPath ld @ [CHR 0x0A] @
     ''  logs: '' @ ld_LogsPath ld @ [CHR 0x0A]"

section \<open>The database (sqlstore.go)\<close>

record DbCfg =
  db_Type :: string
  db_Host :: string
  db_Name :: string
  db_User :: string
  db_Pwd :: string
  db_Path :: string
  db_SslMode :: string

text \<open>A password that has been set before stays.\<close>

definition LoadConfig :: "ini_lib \<Rightarrow> ini_file \<Rightarrow> string \<Rightarrow> DbCfg" where
  "LoadConfig il f pwd =
     \<lparr>db_Type = il_text il f ''database'' ''type'', db_Host = il_text il f ''database'' ''host'',
      db_Name = il_text il f ''database'' ''name'', db_User = il_text il f ''database'' ''user'',
      db_Pwd = (if pwd = [] then il_text il f ''database'' ''password'' else pwd),
      db_Path = MustString il f ''database'' ''path'' ''data/grafana.db'',
      db_SslMode = il_text il f ''database'' ''ssl_mode''\<rparr>"

text \<open>The driver and its connection string.\<close>

definition getEngine :: "set_env \<Rightarrow> string \<Rightarrow> DbCfg \<Rightarrow> (string \<times> string) result" where
  "getEngine v data c =
     (if db_Type c = ''mysql'' then
        Inr (''mysql'', db_User c @ '':'' @ db_Pwd c @ ''@tcp('' @ db_Host c @ '')/'' @ db_Name c @ ''?charset=utf8'')
      else if db_Type c = ''sqlite3'' then
        Inr (''sqlite3'', ''file:'' @ makeAbsolute v (db_Path c) data @ ''?cache=shared&mode=rwc&_loc=Local'')
      else Inl (Error (OtherError (''Unknown database type: '' @ db_Type c))))"

end
