(* ===== verification/Mailer.thy ===== *)
theory Mailer
  imports Settings Alerting
begin

text \<open>
  \<open>services/notifications\<close>: mails made from templates (\<open>notifications.go\<close>, \<open>email.go\<close>) and handed to an SMTP
  server (\<open>mailer.go\<close>). The template engine, the resolver of the server's address and the server are
  parameters; any command of an SMTP session may be refused.
\<close>

section \<open>Messages\<close>

record mail_message =
  mm_To :: "string list"
  mm_From :: string
  mm_Subject :: string
  mm_Body :: string
  mm_Massive :: bool
  mm_Info :: string

definition crlf :: string where
  "crlf = [CHR 0x0D, CHR 0x0A]"

definition Message_Content :: "mail_message \<Rightarrow> string" where
  "Message_Content m =
     ''From: '' @ mm_From m @ crlf @ ''Subject: '' @ mm_Subject m @ crlf @
     ''Content-Type: text/html; charset=UTF-8'' @ crlf @ crlf @ mm_Body m"

section \<open>An SMTP session\<close>

datatype smtp_auth =
    CRAMMD5Auth string string
  | PlainAuth string string string

datatype smtp_call =
    Connect string string bool
  | NewClient
  | Hello string
  | StartTLS
  | Authenticate smtp_auth
  | MailFrom string
  | Rcpt string
  | Data
  | WriteData string
  | CloseData
  | Quit

text \<open>
  \<open>mt_split\<close> is \<open>net.SplitHostPort\<close>, \<open>mt_cert\<close> whether the key pair loads, \<open>mt_starttls\<close> and \<open>mt_auth\<close>
  what the server announces, \<open>mt_address\<close> is \<open>mail.ParseAddress\<close>.
\<close>

record mail_env =
  mt_split :: "string \<Rightarrow> (string \<times> string) option"
  mt_cert :: "string \<Rightarrow> string \<Rightarrow> bool"
  mt_hostname :: "string option"
  mt_starttls :: bool
  mt_auth :: "string option"
  mt_address :: "string \<Rightarrow> string option"

text \<open>A step of the session: a call, or an error on this side.\<close>

datatype smtp_step =
    Call smtp_call
  | Fail string

definition chosen_auth :: "SmtpSettings \<Rightarrow> string \<Rightarrow> string \<Rightarrow> smtp_auth option" where
  "chosen_auth st host options =
     (if sublist ''CRAM-MD5'' options then Some (CRAMMD5Auth (sm_User st) (sm_Password st))
      else if sublist ''PLAIN'' options then Some (PlainAuth (sm_User st) (sm_Password st) host)
      else None)"

definition auth_steps :: "mail_env \<Rightarrow> SmtpSettings \<Rightarrow> string \<Rightarrow> smtp_step list" where
  "auth_steps mt st host =
     (case mt_auth mt of
        None \<Rightarrow> []
      | Some options \<Rightarrow>
          if sm_User st = [] then []
          else (case chosen_auth st host options of None \<Rightarrow> [] | Some a \<Rightarrow> [Call (Authenticate a)]))"

definition mail_steps :: "mail_env \<Rightarrow> SmtpSettings \<Rightarrow> string list \<Rightarrow> string \<Rightarrow> smtp_step list" where
  "mail_steps mt st recipients content =
     (case mt_address mt (sm_FromAddress st) of
        None \<Rightarrow> [Fail ''address'']
      | Some sender \<Rightarrow>
          [Call (MailFrom sender)] @ map (\<lambda>r. Call (Rcpt r)) recipients @
          [Call Data, Call (WriteData content), Call CloseData, Call Quit])"

text \<open>The steps of \<open>sendToSmtpServer\<close>: port 465 is TLS from the start, otherwise TLS when it is offered.\<close>

definition smtp_steps :: "mail_env \<Rightarrow> SmtpSettings \<Rightarrow> string list \<Rightarrow> string \<Rightarrow> smtp_step list" where
  "smtp_steps mt st recipients content =
     (case mt_split mt (sm_Host st) of
        None \<Rightarrow> [Fail ''host'']
      | Some (host, port) \<Rightarrow>
          if sm_CertFile st \<noteq> [] \<and> \<not> mt_cert mt (sm_CertFile st) (sm_KeyFile st) then [Fail ''cert'']
          else let secure = has_suffix port ''465'' in
            [Call (Connect host port secure), Call NewClient] @
            (case mt_hostname mt of
               None \<Rightarrow> [Fail ''hostname'']
             | Some name \<Rightarrow>
                 [Call (Hello name)] @ (if \<not> secure \<and> mt_starttls mt then [Call StartTLS] else []) @
                 auth_steps mt st host @ mail_steps mt st recipients content))"

fun run_steps :: "(nat \<Rightarrow> bool) \<Rightarrow> nat \<Rightarrow> smtp_step list \<Rightarrow> smtp_call list \<times> string option" where
  "run_steps refuse n [] = ([], None)"
| "run_steps refuse n (Fail e # ss) = ([], Some e)"
| "run_steps refuse n (Call c # ss) =
     (if refuse n then ([c], Some ''refused'')
      else (case run_steps refuse (Suc n) ss of (cs, e) \<Rightarrow> (c # cs, e)))"

definition sendToSmtpServer ::
  "mail_env \<Rightarrow> SmtpSettings \<Rightarrow> (nat \<Rightarrow> bool) \<Rightarrow> string list \<Rightarrow> string \<Rightarrow> smtp_call list \<times> string option" where
  "sendToSmtpServer mt st refuse recipients content = run_steps refuse 0 (smtp_steps mt st recipients content)"

section \<open>Building and sending\<close>

text \<open>\<open>deliver k\<close> is the \<open>k\<close>th call of \<open>sendToSmtpServer\<close>: its error.\<close>

type_synonym delivery = "nat \<Rightarrow> string list \<Rightarrow> string \<Rightarrow> string option"

fun send_each :: "delivery \<Rightarrow> string \<Rightarrow> string list \<Rightarrow> nat \<Rightarrow> nat \<times> string option" where
  "send_each deliver content [] num = (num, None)"
| "send_each deliver content (to # tos) num =
     (case deliver num [to] (''To: '' @ to @ crlf @ content) of
        Some e \<Rightarrow> (num, Some e)
      | None \<Rightarrow> send_each deliver content tos (Suc num))"

definition buildAndSend :: "delivery \<Rightarrow> mail_message \<Rightarrow> nat \<times> string option" where
  "buildAndSend deliver m =
     (if mm_To m = [] then (0, Some ''empty receive emails'')
      else if mm_Body m = [] then (0, Some ''empty email body'')
      else if mm_Massive m then send_each deliver (Message_Content m) (mm_To m) 0
      else (case deliver 0 (mm_To m) (''To: '' @ join '';'' (mm_To m) @ crlf @ Message_Content m) of
              Some e \<Rightarrow> (0, Some e)
            | None \<Rightarrow> (1, None)))"

text \<open>What \<open>processMailQueue\<close> logs for a message: the word for a failure is \<open>succeed\<close> too.\<close>

definition mail_report :: "mail_message \<Rightarrow> nat \<times> string option \<Rightarrow> string" where
  "mail_report m r =
     (let tos = join ''; '' (mm_To m) in
      case r of
        (num, Some e) \<Rightarrow> ''Async sent email '' @ show_nat num @ '' succeed, not send emails: '' @ tos @
          (if mm_Info m \<noteq> [] then '', info: '' @ mm_Info m else []) @ '' err: '' @ e
      | (num, None) \<Rightarrow> ''Async sent email '' @ show_nat num @ '' succeed, sent emails: '' @ tos)"

section \<open>Mails from templates\<close>

record build_info =
  bi_Version :: string
  bi_Stamp :: int

text \<open>The data of a template: the command's, what is put in for every mail, and the subject a template sets.\<close>

record template_data =
  tv_cmd :: SendEmailCommand
  tv_AppUrl :: string
  tv_BuildVersion :: string
  tv_BuildStamp :: int
  tv_Subject :: "string option"

definition setDefaultTemplateData :: "Config \<Rightarrow> build_info \<Rightarrow> SendEmailCommand \<Rightarrow> template_data" where
  "setDefaultTemplateData cf bi cmd =
     \<lparr>tv_cmd = cmd, tv_AppUrl = cf_AppUrl cf, tv_BuildVersion = bi_Version bi, tv_BuildStamp = bi_Stamp bi,
      tv_Subject = None\<rparr>"

text \<open>
  \<open>tp_parsed\<close>: \<open>Init\<close> has parsed the templates. \<open>tp_execute\<close> is a template on its data: the text, and the
  subject the template has set, if any. \<open>tp_subject\<close> parses and executes a subject.
\<close>

record templates =
  tp_parsed :: bool
  tp_execute :: "string \<Rightarrow> template_data \<Rightarrow> string + (string \<times> string option)"
  tp_subject :: "string \<Rightarrow> template_data \<Rightarrow> string + string"

text \<open>The message that is put in the queue.\<close>

definition SendEmail :: "Config \<Rightarrow> build_info \<Rightarrow> templates \<Rightarrow> SendEmailCommand \<Rightarrow> mail_message result" where
  "SendEmail cf bi tp cmd =
     (if \<not> sm_Enabled (cf_Smtp cf) then
        Inl (Error (OtherError ''Worldping mailing/smtp options not configured, contact your network admin''))
      else if \<not> tp_parsed tp then log_Fatal ''email templates not yet initialized.''
      else
        let d = setDefaultTemplateData cf bi cmd in
        case tp_execute tp (em_Template cmd) d of
          Inl e \<Rightarrow> Inl (Error (OtherError e))
        | Inr (html, None) \<Rightarrow> Inl (Error (OtherError (''Missing subject in Template '' @ em_Template cmd)))
        | Inr (html, Some s) \<Rightarrow>
            (case tp_subject tp s (d\<lparr>tv_Subject := Some s\<rparr>) of
               Inl e \<Rightarrow> Inl (Error (OtherError e))
             | Inr subject \<Rightarrow>
                 Inr \<lparr>mm_To = em_To cmd, mm_From = sm_FromAddress (cf_Smtp cf), mm_Subject = subject,
                      mm_Body = html, mm_Massive = True, mm_Info = []\<rparr>))"

text \<open>\<open>Init\<close>: \<open>glob\<close> parses the templates of a pattern, \<open>is_email\<close> is \<open>util.IsEmail\<close>.\<close>

definition notifications_Init :: "set_env \<Rightarrow> (string \<Rightarrow> string option) \<Rightarrow> (string \<Rightarrow> bool) \<Rightarrow> Config \<Rightarrow> unit result" where
  "notifications_Init v glob is_email cf =
     (case glob (sv_join v (cf_StaticRootPath cf) (sm_TemplatesPattern (cf_Smtp cf))) of
        Some e \<Rightarrow> Inl (Error (OtherError e))
      | None \<Rightarrow>
          if \<not> is_email (sm_FromAddress (cf_Smtp cf)) then
            Inl (Error (OtherError ''Invalid email address for smpt from_adress config''))
          else Inr ())"

section \<open>What a session sends\<close>

text \<open>The calls of a list of steps, up to the first error on this side.\<close>

fun calls_of :: "smtp_step list \<Rightarrow> smtp_call list" where
  "calls_of [] = []"
| "calls_of (Fail e # ss) = []"
| "calls_of (Call c # ss) = c # calls_of ss"

lemma run_steps_prefix: "run_steps refuse n ss = (cs, e) \<Longrightarrow> prefix cs (calls_of ss)"
  by (induction ss arbitrary: n cs rule: calls_of.induct) (auto split: if_splits prod.splits)

lemma run_steps_done: "run_steps refuse n ss = (cs, None) \<Longrightarrow> map Call cs = ss"
  by (induction ss arbitrary: n cs rule: calls_of.induct) (auto split: if_splits prod.splits)

lemma calls_append: "calls_of (map Call cs @ ss) = cs @ calls_of ss"
  by (induction cs) auto

lemma unique_split:
  assumes "xs @ x # ys = P @ y # Q" and "ok x" and "\<forall>z\<in>set P. \<not> ok z" and "\<forall>z\<in>set Q. \<not> ok z"
  shows "xs = P \<and> x = y"
  using assms by (auto simp: append_eq_append_conv2 append_eq_Cons_conv Cons_eq_append_conv)

fun is_auth :: "smtp_call \<Rightarrow> bool" where
  "is_auth (Authenticate a) \<longleftrightarrow> True"
| "is_auth _ \<longleftrightarrow> False"

fun is_write :: "smtp_call \<Rightarrow> bool" where
  "is_write (WriteData c) \<longleftrightarrow> True"
| "is_write _ \<longleftrightarrow> False"

text \<open>The calls of a session that starts: the greeting, perhaps TLS and credentials, and the mail.\<close>

definition greeting :: "mail_env \<Rightarrow> string \<Rightarrow> string \<Rightarrow> string \<Rightarrow> smtp_call list" where
  "greeting mt host port name =
     [Connect host port (has_suffix port ''465''), NewClient, Hello name] @
     (if \<not> has_suffix port ''465'' \<and> mt_starttls mt then [StartTLS] else [])"

lemma session_calls:
  "calls_of (smtp_steps mt st recipients content) = [] \<or>
   (\<exists>host port. calls_of (smtp_steps mt st recipients content) = [Connect host port (has_suffix port ''465''), NewClient]) \<or>
   (\<exists>host port name auth mail. calls_of (smtp_steps mt st recipients content) = greeting mt host port name @ auth @ mail \<and>
      (auth = [] \<or> (\<exists>a. auth = [Authenticate a])) \<and>
      (mail = [] \<or> (\<exists>sender. mail = MailFrom sender # map Rcpt recipients @ [Data, WriteData content, CloseData, Quit])))"
proof -
  have mail: "calls_of (mail_steps mt st recipients content) = [] \<or>
     (\<exists>sender. calls_of (mail_steps mt st recipients content) =
        MailFrom sender # map Rcpt recipients @ [Data, WriteData content, CloseData, Quit])"
  proof (cases "mt_address mt (sm_FromAddress st)")
    case (Some sender)
    have "mail_steps mt st recipients content =
       map Call (MailFrom sender # map Rcpt recipients @ [Data, WriteData content, CloseData, Quit]) @ []"
      by (simp add: mail_steps_def Some)
    then have "calls_of (mail_steps mt st recipients content) =
       MailFrom sender # map Rcpt recipients @ [Data, WriteData content, CloseData, Quit]"
      by (metis calls_append calls_of.simps(1) append_Nil2)
    then show ?thesis by blast
  qed (simp add: mail_steps_def)
  have auth: "calls_of (auth_steps mt st host @ ss) = calls_of ss \<or>
      (\<exists>a. calls_of (auth_steps mt st host @ ss) = [Authenticate a] @ calls_of ss)" for host ss
    by (auto simp: auth_steps_def split: option.splits)
  show ?thesis
  proof (cases "mt_split mt (sm_Host st)")
    case (Some hp)
    obtain host port where hp: "hp = (host, port)" by fastforce
    show ?thesis
    proof (cases "mt_hostname mt")
      case None
      then show ?thesis by (simp add: smtp_steps_def Some hp Let_def)
    next
      case (Some name)
      let ?m = "calls_of (mail_steps mt st recipients content)"
      consider "calls_of (smtp_steps mt st recipients content) = []"
        | "calls_of (smtp_steps mt st recipients content) =
           greeting mt host port name @ calls_of (auth_steps mt st host @ mail_steps mt st recipients content)"
        by (cases "sm_CertFile st \<noteq> [] \<and> \<not> mt_cert mt (sm_CertFile st) (sm_KeyFile st)")
          (use \<open>mt_split mt (sm_Host st) = Some hp\<close> Some in \<open>auto simp: smtp_steps_def greeting_def hp Let_def\<close>)
      then show ?thesis
      proof cases
        case 2
        from auth[of host "mail_steps mt st recipients content"] show ?thesis
        proof
          assume "calls_of (auth_steps mt st host @ mail_steps mt st recipients content) = ?m"
          with 2 have "calls_of (smtp_steps mt st recipients content) = greeting mt host port name @ [] @ ?m" by simp
          with mail show ?thesis by blast
        next
          assume "\<exists>a. calls_of (auth_steps mt st host @ mail_steps mt st recipients content) = [Authenticate a] @ ?m"
          then obtain a where "calls_of (smtp_steps mt st recipients content) =
             greeting mt host port name @ [Authenticate a] @ ?m" using 2 by auto
          with mail show ?thesis by blast
        qed
      qed simp
    qed
  qed (simp add: smtp_steps_def)
qed

lemma session_cases:
  obtains (none) "calls_of (smtp_steps mt st recipients content) = []"
    | (short) host port where "calls_of (smtp_steps mt st recipients content) =
        [Connect host port (has_suffix port ''465''), NewClient]"
    | (full) host port name auth mail where
      "calls_of (smtp_steps mt st recipients content) = greeting mt host port name @ auth @ mail"
      "auth = [] \<or> (\<exists>a. auth = [Authenticate a])"
      "mail = [] \<or> (\<exists>sender. mail = MailFrom sender # map Rcpt recipients @
         [Data, WriteData content, CloseData, Quit])"
  using session_calls[of mt st recipients content] by blast

lemma auth_after_greeting:
  assumes "calls_of (smtp_steps mt st recipients content) = xs @ Authenticate a # ys"
  shows "\<exists>host port name. xs = greeting mt host port name"
proof (cases rule: session_cases[of mt st recipients content])
  case (full host port name auth mail)
  note L = full(1) and auth = full(2) and mail = full(3)
  have g: "\<forall>z\<in>set (greeting mt host port name). \<not> is_auth z" by (auto simp: greeting_def)
  have m: "\<forall>z\<in>set mail. \<not> is_auth z" using mail by auto
  have "Authenticate a \<in> set (greeting mt host port name @ auth @ mail)" using assms L by simp
  with g m auth obtain b where "auth = [Authenticate b]" by (metis Un_iff empty_iff is_auth.simps(1) list.set(1) set_append)
  with assms L have "xs @ Authenticate a # ys = greeting mt host port name @ Authenticate b # mail" by simp
  from unique_split[OF this, of is_auth] g m show ?thesis by auto
qed (use assms in \<open>auto simp: append_eq_Cons_conv Cons_eq_append_conv\<close>)

lemma write_after_recipients:
  assumes "calls_of (smtp_steps mt st recipients content) = xs @ WriteData c # ys"
  shows "c = content \<and> (\<forall>r\<in>set recipients. Rcpt r \<in> set xs)"
proof (cases rule: session_cases[of mt st recipients content])
  case (full host port name auth mail)
  note L = full(1) and auth = full(2) and mail = full(3)
  have g: "\<forall>z\<in>set (greeting mt host port name @ auth). \<not> is_write z" using auth by (auto simp: greeting_def)
  have "WriteData c \<in> set ((greeting mt host port name @ auth) @ mail)" using assms L by simp
  with g have "mail \<noteq> []" by (metis append_Nil2 is_write.simps(1))
  with mail obtain sender where
    "mail = (MailFrom sender # map Rcpt recipients @ [Data]) @ WriteData content # [CloseData, Quit]" by auto
  with assms L have "xs @ WriteData c # ys =
     (greeting mt host port name @ auth @ MailFrom sender # map Rcpt recipients @ [Data]) @
     WriteData content # [CloseData, Quit]" by simp
  moreover have "\<forall>z\<in>set (greeting mt host port name @ auth @ MailFrom sender # map Rcpt recipients @ [Data]). \<not> is_write z"
    using g by auto
  ultimately show ?thesis using unique_split[of xs "WriteData c" ys _ "WriteData content" "[CloseData, Quit]" is_write] by auto
qed (use assms in \<open>auto simp: append_eq_Cons_conv Cons_eq_append_conv\<close>)

lemma finished_session:
  assumes all: "map Call cs = smtp_steps mt st recipients content"
  shows "\<exists>xs sender. cs = xs @ MailFrom sender # map Rcpt recipients @ [Data, WriteData content, CloseData, Quit]"
proof -
  have no: "Fail e \<notin> set (smtp_steps mt st recipients content)" for e
    unfolding all[symmetric] by auto
  obtain host port where s: "mt_split mt (sm_Host st) = Some (host, port)"
    using no by (cases "mt_split mt (sm_Host st)") (auto simp: smtp_steps_def)
  have cert: "\<not> (sm_CertFile st \<noteq> [] \<and> \<not> mt_cert mt (sm_CertFile st) (sm_KeyFile st))"
  proof
    assume "sm_CertFile st \<noteq> [] \<and> \<not> mt_cert mt (sm_CertFile st) (sm_KeyFile st)"
    then have "smtp_steps mt st recipients content = [Fail ''cert'']" by (simp add: smtp_steps_def s)
    with no[of "''cert''"] show False by simp
  qed
  obtain name where h: "mt_hostname mt = Some name"
    using no cert by (cases "mt_hostname mt") (auto simp: smtp_steps_def s Let_def)
  obtain A where A: "smtp_steps mt st recipients content = A @ mail_steps mt st recipients content"
    using cert by (auto simp: smtp_steps_def s h Let_def)
  obtain sender where a: "mt_address mt (sm_FromAddress st) = Some sender"
    using no by (cases "mt_address mt (sm_FromAddress st)") (auto simp: A mail_steps_def)
  let ?m = "MailFrom sender # map Rcpt recipients @ [Data, WriteData content, CloseData, Quit]"
  have "map Call cs = A @ map Call ?m" using all by (simp add: A mail_steps_def a)
  then obtain us vs where "cs = us @ vs" "map Call vs = map Call ?m"
    by (auto simp: map_eq_append_conv simp del: map_eq_conv list.map map_append)
  moreover have "inj Call" by (rule injI) simp
  ultimately have "cs = us @ ?m" by (metis inj_map_eq_map)
  then show ?thesis by blast
qed

text \<open>
  C39. A session protects what it sends: whatever the server announces and refuses, credentials are only
  sent on a connection that is TLS from its start or has been switched to TLS, if the server offers that;
  a mail is only sent once every recipient has been named; and when no error is returned, all of it has
  been sent and the session has been ended.
\<close>

theorem smtp_session_safe:
  assumes run: "sendToSmtpServer mt st refuse recipients content = (cs, err)"
  shows "(\<forall>xs a ys. cs = xs @ Authenticate a # ys \<longrightarrow> mt_starttls mt \<longrightarrow>
      StartTLS \<in> set xs \<or> (\<exists>host port. Connect host port True \<in> set xs)) \<and>
    (\<forall>xs c ys. cs = xs @ WriteData c # ys \<longrightarrow> c = content \<and> (\<forall>r\<in>set recipients. Rcpt r \<in> set xs)) \<and>
    (err = None \<longrightarrow> (\<exists>xs sender. cs = xs @ MailFrom sender # map Rcpt recipients @
      [Data, WriteData content, CloseData, Quit]))"
proof (intro conjI allI impI)
  let ?L = "calls_of (smtp_steps mt st recipients content)"
  obtain tail where L: "?L = cs @ tail"
    using run_steps_prefix run unfolding sendToSmtpServer_def prefix_def by blast
  show "StartTLS \<in> set xs \<or> (\<exists>host port. Connect host port True \<in> set xs)"
    if "cs = xs @ Authenticate a # ys" and "mt_starttls mt" for xs a ys
  proof -
    have "?L = xs @ Authenticate a # ys @ tail" using L that(1) by simp
    from auth_after_greeting[OF this] that(2) show ?thesis by (auto simp: greeting_def split: if_splits)
  qed
  have w: "c = content \<and> (\<forall>r\<in>set recipients. Rcpt r \<in> set xs)" if "cs = xs @ WriteData c # ys" for xs c ys
  proof -
    have "?L = xs @ WriteData c # ys @ tail" using L that by simp
    from write_after_recipients[OF this] show ?thesis .
  qed
  show "c = content" if "cs = xs @ WriteData c # ys" for xs c ys using w[OF that] by blast
  show "\<forall>r\<in>set recipients. Rcpt r \<in> set xs" if "cs = xs @ WriteData c # ys" for xs c ys using w[OF that] by blast
  show "\<exists>xs sender. cs = xs @ MailFrom sender # map Rcpt recipients @ [Data, WriteData content, CloseData, Quit]"
    if "err = None"
    using finished_session run_steps_done run that unfolding sendToSmtpServer_def by blast
qed

definition mail_server :: mail_env where
  "mail_server =
     \<lparr>mt_split = (\<lambda>h. Some (''mx'', ''25'')), mt_cert = (\<lambda>c k. True), mt_hostname = Some ''wp'', mt_starttls = True,
      mt_auth = Some ''PLAIN'', mt_address = (\<lambda>a. Some a)\<rparr>"

definition mail_settings :: SmtpSettings where
  "mail_settings =
     \<lparr>sm_Enabled = True, sm_Host = ''mx:25'', sm_User = ''u'', sm_Password = ''p'', sm_CertFile = [], sm_KeyFile = [],
      sm_FromAddress = ''a@wp'', sm_SkipVerify = False, sm_SendWelcomeEmailOnSignUp = False,
      sm_TemplatesPattern = ''emails/*.html''\<rparr>"

lemma mail_server_session:
  "sendToSmtpServer mail_server mail_settings (\<lambda>n. False) [''b@wp''] ''hello'' =
     ([Connect ''mx'' ''25'' False, NewClient, Hello ''wp'', StartTLS, Authenticate (PlainAuth ''u'' ''p'' ''mx''),
       MailFrom ''a@wp'', Rcpt ''b@wp'', Data, WriteData ''hello'', CloseData, Quit], None)"
  by code_simp

lemma smtp_session_safe_witness:
  "\<exists>xs sender. [Connect ''mx'' ''25'' False, NewClient, Hello ''wp'', StartTLS,
     Authenticate (PlainAuth ''u'' ''p'' ''mx''), MailFrom ''a@wp'', Rcpt ''b@wp'', Data, WriteData ''hello'',
     CloseData, Quit] = xs @ MailFrom sender # map Rcpt [''b@wp''] @ [Data, WriteData ''hello'', CloseData, Quit]"
  using smtp_session_safe[OF mail_server_session] by blast

section \<open>Mails to many\<close>

text \<open>The recipients that were reached before the first failure.\<close>

fun reached :: "delivery \<Rightarrow> string \<Rightarrow> string list \<Rightarrow> nat \<Rightarrow> string list" where
  "reached deliver content [] n = []"
| "reached deliver content (to # tos) n =
     (case deliver n [to] (''To: '' @ to @ crlf @ content) of
        Some e \<Rightarrow> []
      | None \<Rightarrow> to # reached deliver content tos (Suc n))"

lemma send_each_counts:
  "send_each deliver content tos n = (num, err) \<Longrightarrow>
   num = n + length (reached deliver content tos n) \<and> prefix (reached deliver content tos n) tos \<and>
   (err = None \<longleftrightarrow> reached deliver content tos n = tos)"
proof (induction tos arbitrary: n)
  case (Cons to tos)
  show ?case
  proof (cases "deliver n [to] (''To: '' @ to @ crlf @ content)")
    case None
    with Cons.prems have "send_each deliver content tos (Suc n) = (num, err)" by simp
    from Cons.IH[OF this] None show ?thesis by simp
  next
    case (Some e)
    with Cons.prems have "num = n" "err = Some e" by simp_all
    with Some show ?thesis by simp
  qed
qed simp

text \<open>
  C40. A mail of \<open>SendEmail\<close> goes to its recipients one by one: the number that is returned is the number of
  leading recipients whose own session went through, no recipient after the first failure is tried, and
  there is no error exactly when all were reached (and there is something to send).
\<close>

theorem mail_counts_reached:
  assumes mail: "SendEmail cf bi tp cmd = Inr m" and run: "buildAndSend deliver m = (num, err)"
  shows "prefix (reached deliver (Message_Content m) (mm_To m) 0) (em_To cmd) \<and>
    (err = None \<longrightarrow> num = length (em_To cmd)) \<and>
    (mm_Body m \<noteq> [] \<longrightarrow> num = length (reached deliver (Message_Content m) (mm_To m) 0) \<and>
       (err = None \<longleftrightarrow> em_To cmd \<noteq> [] \<and> reached deliver (Message_Content m) (mm_To m) 0 = em_To cmd))"
proof -
  have m: "mm_To m = em_To cmd" "mm_Massive m"
    using mail by (auto simp: SendEmail_def log_Fatal_def Let_def split: if_splits sum.splits option.splits)
  obtain k e where s: "send_each deliver (Message_Content m) (mm_To m) 0 = (k, e)" by fastforce
  note c = send_each_counts[OF s]
  from run s m have "(num, err) = (if em_To cmd = [] then (0, Some ''empty receive emails'')
     else if mm_Body m = [] then (0, Some ''empty email body'') else (k, e))"
    by (auto simp: buildAndSend_def split: if_splits)
  with c m show ?thesis by (auto split: if_splits)
qed

definition mail_config :: Config where
  "mail_config =
     \<lparr>cf_Env = [], cf_InstanceId = [], cf_AppUrl = [], cf_AppSubUrl = [], cf_HTTPS = False, cf_CertFile = [],
      cf_KeyFile = [], cf_HttpAddr = [], cf_HttpPort = [], cf_RouterLogging = False, cf_EnableGzip = False,
      cf_StaticRootPath = [], cf_AdminKey = [], cf_ElasticsearchUrl = [], cf_TsdbUrl = [], cf_StatsEnabled = False,
      cf_StatsAddr = [], cf_StatsPrefix = [], cf_StatsInterval = 0, cf_StatsTimeout = 0, cf_StatsBufferSize = 0,
      cf_Kafka = \<lparr>ks_Enabled = False, ks_Brokers = [], ks_Topic = []\<rparr>,
      cf_Alerting = \<lparr>ac_Enabled = True, ac_Topic = [], ac_Distributed = False, ac_TickQueueSize = 0,
        ac_InternalJobQueueSize = 0, ac_ExecutorLRUSize = 0, ac_EnableScheduler = True, ac_EnableWorker = True,
        ac_GraphiteUrl = []\<rparr>,
      cf_Smtp = mail_settings,
      cf_Quota = \<lparr>qset_Enabled = False, qset_Org = \<lparr>oqs_Endpoint = 1, oqs_Probe = 1, oqs_DownloadLimit = 1\<rparr>,
        qset_Global = \<lparr>gqs_Endpoint = 1, gqs_Probe = 1\<rparr>\<rparr>\<rparr>"

definition plain_templates :: templates where
  "plain_templates =
     \<lparr>tp_parsed = True, tp_execute = (\<lambda>t d. Inr (''down'', Some ''alert'')), tp_subject = (\<lambda>s d. Inr s)\<rparr>"

definition two_mails :: SendEmailCommand where
  "two_mails =
     \<lparr>em_To = [''a@x'', ''b@x''], em_Template = ''t'', em_EndpointId = 1, em_EndpointName = ''e'',
      em_EndpointSlug = ''e'', em_Settings = [], em_CheckType = ''ping'', em_State = ''CRIT'', em_TimeLastData = 0,
      em_TimeExec = 0\<rparr>"

text \<open>The second of two recipients is refused.\<close>

lemma mail_counts_reached_witness:
  "\<exists>m. SendEmail mail_config \<lparr>bi_Version = [], bi_Stamp = 0\<rparr> plain_templates two_mails = Inr m \<and>
     reached (\<lambda>k tos c. if k = 1 then Some ''550'' else None) (Message_Content m) (mm_To m) 0 = [''a@x''] \<and>
     fst (buildAndSend (\<lambda>k tos c. if k = 1 then Some ''550'' else None) m) = 1"
proof -
  let ?m = "\<lparr>mm_To = [''a@x'', ''b@x''], mm_From = ''a@wp'', mm_Subject = ''alert'', mm_Body = ''down'', mm_Massive = True,
    mm_Info = []\<rparr>"
  let ?d = "\<lambda>(k :: nat) (tos :: string list) (c :: string). if k = 1 then Some ''550'' else None"
  have m: "SendEmail mail_config \<lparr>bi_Version = [], bi_Stamp = 0\<rparr> plain_templates two_mails = Inr ?m"
    by (simp add: SendEmail_def mail_config_def mail_settings_def plain_templates_def two_mails_def)
  have r: "reached ?d (Message_Content ?m) (mm_To ?m) 0 = [''a@x'']" by simp
  obtain num err where "buildAndSend ?d ?m = (num, err)" by fastforce
  from mail_counts_reached[OF m this] r this m show ?thesis by (intro exI[of _ ?m]) simp
qed

end
