(* ===== verification/SettingsProps.thy ===== *)
theory SettingsProps
  imports Settings
begin

text \<open>
  What the configuration guarantees: which of the sources of a setting has the last word, and which modes
  of logging the program can start with.
\<close>

section \<open>Values of keys\<close>

definition raw :: "ini_file \<Rightarrow> string \<Rightarrow> string \<Rightarrow> string option" where
  "raw f s k = (case map_of f s of None \<Rightarrow> None | Some ks \<Rightarrow> map_of ks k)"

lemma map_of_map_key: "map_of (map (\<lambda>(k, v). (k, g k v)) xs) k = map_option (g k) (map_of xs k)"
  by (induction xs) auto

lemma raw_each_key:
  "raw (each_key g f) s k = map_option (\<lambda>v. case g s k v of Some v' \<Rightarrow> v' | None \<Rightarrow> v) (raw f s k)"
  by (simp add: raw_def each_key_def map_of_map_key split: option.splits)

lemma raw_set_value:
  "raw (set_value s0 k0 v f) s k = (if s = s0 \<and> k = k0 then map_option (\<lambda>_. v) (raw f s k) else raw f s k)"
proof -
  have "raw (set_value s0 k0 v f) s k = map_option (\<lambda>old. if s = s0 \<and> k = k0 then v else old) (raw f s k)"
    by (simp add: raw_def set_value_def map_of_map_key split: option.splits)
  then show ?thesis by (cases "raw f s k") auto
qed

lemma names_set_value [simp]: "ini_names (set_value s k v f) = ini_names f"
  by (auto simp: ini_names_def set_value_def)

lemma names_each_key [simp]: "ini_names (each_key g f) = ini_names f"
  by (auto simp: ini_names_def each_key_def)

lemma has_section_names: "has_section f s \<longleftrightarrow> s \<in> fst ` set (ini_names f)"
  by (force simp: has_section_def ini_names_def)

section \<open>The second file\<close>

text \<open>The key an entry of the second file leads to.\<close>

definition aims_at :: "ini_lib \<Rightarrow> ini_keys \<Rightarrow> string \<times> string \<times> string \<Rightarrow> (string \<times> string) option" where
  "aims_at il ns e =
     (case e of (s, k, v) \<Rightarrow> if v = [] \<or> s \<notin> fst ` set ns then None else il_find il ns s k)"

definition custom_value ::
  "ini_lib \<Rightarrow> ini_keys \<Rightarrow> (string \<times> string \<times> string) list \<Rightarrow> string \<Rightarrow> string \<Rightarrow> string option" where
  "custom_value il ns es s k =
     (let hits = filter (\<lambda>e. aims_at il ns e = Some (s, k)) es
      in if hits = [] then None else Some (snd (snd (last hits))))"

lemma merge_key_aims:
  "merge_key il e f = (case aims_at il (ini_names f) e of None \<Rightarrow> f | Some (s, k) \<Rightarrow> set_value s k (snd (snd e)) f)"
  by (cases e) (simp add: merge_key_def aims_at_def has_section_names split: option.splits)

lemma names_merge_key [simp]: "ini_names (merge_key il e f) = ini_names f"
  by (simp add: merge_key_aims split: option.splits prod.splits)

lemma raw_merge_key:
  "raw (merge_key il e f) s k =
     (if aims_at il (ini_names f) e = Some (s, k) then map_option (\<lambda>_. snd (snd e)) (raw f s k) else raw f s k)"
  by (auto simp: merge_key_aims raw_set_value split: option.splits)

lemma raw_merge:
  "raw (fold (merge_key il) es f) s k =
     map_option (\<lambda>old. case custom_value il (ini_names f) es s k of Some c \<Rightarrow> c | None \<Rightarrow> old) (raw f s k)"
proof (induction es arbitrary: f)
  case Nil
  then show ?case by (simp add: custom_value_def option.map_ident)
next
  case (Cons e es)
  show ?case
    by (cases "aims_at il (ini_names f) e = Some (s, k)"; cases "raw f s k")
      (auto simp: Cons raw_merge_key custom_value_def Let_def)
qed

section \<open>Precedence\<close>

definition user_entries :: "ini_lib \<Rightarrow> set_env \<Rightarrow> string \<Rightarrow> string \<Rightarrow> (string \<times> string \<times> string) list" where
  "user_entries il v home config =
     (let config' = (if config = [] then sv_join v home ''conf/custom.ini'' else config)
      in if config = [] \<and> \<not> sv_exists v config' then []
         else (case il_load il config' of None \<Rightarrow> [] | Some user \<Rightarrow> file_entries user))"

text \<open>The sources of a value, strongest first.\<close>

definition chosen_value ::
  "set_env \<Rightarrow> (string, string) gomap \<Rightarrow> string option \<Rightarrow> string \<Rightarrow> string \<Rightarrow> string \<Rightarrow> string" where
  "chosen_value v props custom s k d =
     (case map_of props (dotted s k) of Some p \<Rightarrow> p
      | None \<Rightarrow> (case env_override v s k of Some e \<Rightarrow> e
      | None \<Rightarrow> (case custom of Some c \<Rightarrow> c
      | None \<Rightarrow> (case map_of props (default_key s k) of Some p \<Rightarrow> p
      | None \<Rightarrow> d))))"

lemma second_file_raw:
  assumes "loadSpecifedConfigFile il v home config f = Inr (f', files)"
  shows "raw f' s k = map_option
    (\<lambda>old. case custom_value il (ini_names f) (user_entries il v home config) s k of Some c \<Rightarrow> c | None \<Rightarrow> old) (raw f s k)"
  using assms
  by (auto simp: loadSpecifedConfigFile_def user_entries_def Let_def raw_merge custom_value_def option.map_ident
      split: if_splits option.splits)

text \<open>
  C34. The sources of a setting have a fixed order: whatever the default file, the second file, the
  environment and the command line say, after a successful load every key of the default file holds the
  command line's value, else that of the environment, else the last one of the second file that is not
  empty, else the command line's default, else the default; and then the variables in it are replaced. No
  source adds a key.
\<close>

theorem settings_precedence:
  assumes run: "loadConfiguration il v home args g = Inr ld"
    and defaults: "il_load il (sv_join v home ''conf/defaults.ini'') = Some f0"
    and props: "getCommandLineProperties (cl_Args args) = Inr props"
  shows "raw (ld_Cfg ld) s k = map_option
    (\<lambda>d. evalEnvVarExpression v (chosen_value v props
       (custom_value il (ini_names f0) (user_entries il v home (cl_Config args)) s k) s k d)) (raw f0 s k)"
proof -
  let ?f1 = "each_key (\<lambda>s k v. map_of props (default_key s k)) f0"
  obtain f2 files where f2: "loadSpecifedConfigFile il v home (cl_Config args) ?f1 = Inr (f2, files)"
    and cfg: "ld_Cfg ld = evalConfigValues v (each_key (\<lambda>s k x. map_of props (dotted s k))
       (each_key (\<lambda>s k x. env_override v s k) f2))"
    using run defaults props
    by (auto simp: loadConfiguration_def bind_res_Inr_iff applyCommandLineDefaultProperties_def
        applyEnvVariableOverrides_def applyCommandLineProperties_def Let_def)
  show ?thesis
    unfolding cfg evalConfigValues_def raw_each_key second_file_raw[OF f2] option.map_comp names_each_key
    by (intro option.map_cong refl) (auto simp: chosen_value_def split: option.splits)
qed

section \<open>A small configuration\<close>

definition plain_text :: "ini_file \<Rightarrow> string \<Rightarrow> string \<Rightarrow> string" where
  "plain_text f s k = (case raw f s k of Some x \<Rightarrow> x | None \<Rightarrow> [])"

definition plain_find :: "ini_keys \<Rightarrow> string \<Rightarrow> string \<Rightarrow> (string \<times> string) option" where
  "plain_find ns s k = (case map_of ns s of None \<Rightarrow> None | Some ks \<Rightarrow> if k \<in> set ks then Some (s, k) else None)"

definition small_defaults :: ini_file where
  "small_defaults = [(''a'', [(''x'', ''1'')]), (''log.console'', [])]"

definition small_ini :: ini_lib where
  "small_ini =
     \<lparr>il_load = (\<lambda>p. if p = ''conf/defaults.ini'' then Some small_defaults
                     else if p = ''c'' then Some [(''a'', [(''x'', ''2'')])] else None),
      il_find = plain_find, il_text = plain_text, il_bool = (\<lambda>s. None), il_int = (\<lambda>s. None),
      il_duration = (\<lambda>s. None)\<rparr>"

definition small_process :: set_env where
  "small_process =
     \<lparr>sv_Getenv = (\<lambda>k. if k = ''HOME'' then ''/root'' else []), sv_exists = (\<lambda>p. False), sv_cwd = ''/'',
      sv_join = (\<lambda>a b. b), sv_url = (\<lambda>u. Some ''/''), sv_log = small_log_env\<rparr>"

definition small_args :: CommandLineArgs where
  "small_args = \<lparr>cl_Config = ''c'', cl_HomePath = [], cl_Args = [''cfg:a.x=${HOME}/d'']\<rparr>"

text \<open>A library that reads keys as they stand and knows neither booleans nor numbers.\<close>

definition plain_ini :: "ini_lib \<Rightarrow> bool" where
  "plain_ini il \<longleftrightarrow> il_text il = plain_text \<and> il_bool il = (\<lambda>s. None) \<and> il_int il = (\<lambda>s. None)"

lemma plain_small: "plain_ini small_ini"
  by (simp add: plain_ini_def small_ini_def)

lemma small_mode:
  "init_mode il small_process f logs ''console'' g =
     log_NewLogger small_log_env 10000 ''console''
       (Some (JObj [(''level'', JInt 0), (''formatting'', JBool True)])) g"
  if "plain_ini il" and "has_section f ''log.console''" and "plain_text f ''log.console'' ''level'' = []"
proof -
  have "trim_space ''console'' = ''console''" by code_simp
  then show ?thesis
    using that
    by (simp add: init_mode_def In_text_def plain_ini_def small_process_def logLevels_def log_config_def
        MustBool_def MustInt_def Let_def)
qed

lemma console_starts:
  "\<exists>g'. log_NewLogger small_log_env 10000 ''console''
       (Some (JObj [(''level'', JInt 0), (''formatting'', JBool True)])) (log_Close g) = Inr g'"
proof -
  have "ConsoleWriter_Init (Some (JObj [(''level'', JInt 0), (''formatting'', JBool True)])) NewConsole =
     Some \<lparr>cw_Level = 0, cw_Formatting = True\<rparr>"
    by code_simp
  then show ?thesis
    by (simp add: log_NewLogger_def newLogger_def SetLogger_def open_adapter_def)
qed

lemma small_logging:
  assumes il: "plain_ini il" and "has_section f ''log.console''" and "plain_text f ''log.console'' ''level'' = []"
    and "plain_text f ''log'' ''mode'' = []"
  shows "\<exists>g'. initLogging il small_process f home g = Inr g'"
proof -
  have "split_char (CHR '','') ''console'' = [''console'']" by (simp add: split_char_none)
  then have "log_modes il f = [''console'']"
    using il assms(4) by (simp add: log_modes_def MustString_def plain_ini_def)
  with small_mode[OF assms(1-3)] console_starts show ?thesis
    by (auto simp: initLogging_def bind_res_Inr_iff)
qed

lemma small_merged:
  "loadSpecifedConfigFile small_ini small_process ''/'' ''c'' small_defaults =
     Inr ([(''a'', [(''x'', ''2'')]), (''log.console'', [])], [''c''])"
  by code_simp

lemma small_load: "\<exists>ld. loadConfiguration small_ini small_process ''/'' small_args no_logging = Inr ld"
proof -
  have props: "getCommandLineProperties (cl_Args small_args) = Inr [(''a.x'', ''${HOME}/d'')]"
    by code_simp
  have app: "applyCommandLineDefaultProperties [(''a.x'', ''${HOME}/d'')] small_defaults = (small_defaults, [])"
    by code_simp
  have over: "applyEnvVariableOverrides small_process [(''a'', [(''x'', ''2'')]), (''log.console'', [])] =
     ([(''a'', [(''x'', ''2'')]), (''log.console'', [])], [])"
    by code_simp
  have cmd: "evalConfigValues small_process
      (fst (applyCommandLineProperties [(''a.x'', ''${HOME}/d'')] ([(''a'', [(''x'', ''2'')]), (''log.console'', [])], []))) =
     [(''a'', [(''x'', ''/root/d'')]), (''log.console'', [])]"
    by code_simp
  have l1: "\<exists>g'. initLogging small_ini small_process small_defaults home g = Inr g'" for home g
    by (rule small_logging[OF plain_small]) (simp_all add: has_section_def small_defaults_def plain_text_def raw_def)
  have l2: "\<exists>g'. initLogging small_ini small_process [(''a'', [(''x'', ''/root/d'')]), (''log.console'', [])] home g = Inr g'"
    for home g
    by (rule small_logging[OF plain_small]) (simp_all add: has_section_def plain_text_def raw_def)
  have df: "il_load small_ini (sv_join small_process ''/'' ''conf/defaults.ini'') = Some small_defaults"
    by (simp add: small_ini_def small_process_def)
  have config: "cl_Config small_args = ''c''" by (simp add: small_args_def)
  obtain cmd2 where c: "applyCommandLineProperties [(''a.x'', ''${HOME}/d'')]
      ([(''a'', [(''x'', ''2'')]), (''log.console'', [])], []) =
      (each_key (\<lambda>s k v. map_of [(''a.x'', ''${HOME}/d'')] (dotted s k)) [(''a'', [(''x'', ''2'')]), (''log.console'', [])], cmd2)"
    by (simp add: applyCommandLineProperties_def)
  obtain g1 where g1: "initLogging small_ini small_process small_defaults ''/'' no_logging = Inr g1"
    using l1 by blast
  obtain g2 where g2: "initLogging small_ini small_process
      [(''a'', [(''x'', ''/root/d'')]), (''log.console'', [])] ''/'' g1 = Inr g2"
    using l2 by blast
  from cmd c g2 have "initLogging small_ini small_process
      (evalConfigValues small_process (each_key (\<lambda>s k v. map_of [(''a.x'', ''${HOME}/d'')] (dotted s k))
         [(''a'', [(''x'', ''2'')]), (''log.console'', [])])) ''/'' g1 = Inr g2"
    by simp
  then show ?thesis
    by (simp add: loadConfiguration_def df props app g1 config small_merged over c Let_def del: map_of.simps)
qed

lemma settings_precedence_witness:
  "\<exists>ld. loadConfiguration small_ini small_process ''/'' small_args no_logging = Inr ld \<and>
     raw (ld_Cfg ld) ''a'' ''x'' = Some ''/root/d''"
proof -
  obtain ld where ld: "loadConfiguration small_ini small_process ''/'' small_args no_logging = Inr ld"
    using small_load by blast
  have df: "il_load small_ini (sv_join small_process ''/'' ''conf/defaults.ini'') = Some small_defaults"
    by (simp add: small_ini_def small_process_def)
  have props: "getCommandLineProperties (cl_Args small_args) = Inr [(''a.x'', ''${HOME}/d'')]"
    by code_simp
  have "evalEnvVarExpression small_process ''${HOME}/d'' = ''/root/d''" by code_simp
  with settings_precedence[OF ld df props, of "''a''" "''x''"] ld show ?thesis
    by (simp add: chosen_value_def dotted_def raw_def small_defaults_def)
qed

section \<open>Modes of logging\<close>

lemma NewLogger_opens:
  "log_NewLogger le n mode config g = Inr g' \<Longrightarrow> \<exists>lg s. open_adapter le mode config (lo_files g) = Some (Inr lg, s)"
  by (auto simp: log_NewLogger_def bind_res_Inr_iff SetLogger_def log_Fatal_def split: option.splits sum.splits)

lemma syslog_needs_facility: "SyslogWriter_Init dial (Some JNull) NewSyslog = Inl ''invalid syslog facility''"
  by code_simp

lemma open_adapter_modes:
  assumes "open_adapter le mode (Some (log_config il v f logs mode level)) s = Some (Inr lg, s')"
  shows "mode = ''console'' \<or> mode = ''file''"
proof (rule ccontr)
  assume no: "\<not> ?thesis"
  with assms have "mode = ''syslog''" by (auto simp: open_adapter_def split: if_splits)
  with assms show False by (simp add: open_adapter_def log_config_def syslog_needs_facility)
qed

text \<open>
  The program starts only with console and file logs: whatever the configuration is, when logging has
  been initialised every mode that is listed is one of the two. A mode of \<open>syslog\<close> has an adapter but no
  case in the configuration, so its facility is empty and refused; \<open>conn\<close>, \<open>smtp\<close> and \<open>database\<close> have a case
  but no adapter.
\<close>

theorem logging_modes:
  assumes "initLogging il v f home g = Inr g'"
  shows "trim_space ` set (log_modes il f) \<subseteq> {''console'', ''file''}"
proof -
  have "init_modes il v f logs ms g = Inr g' \<Longrightarrow> trim_space ` set ms \<subseteq> {''console'', ''file''}" for logs ms g
  proof (induction ms arbitrary: g)
    case (Cons m ms)
    then obtain g1 where g1: "init_mode il v f logs m g = Inr g1" and more: "init_modes il v f logs ms g1 = Inr g'"
      by (auto simp: bind_res_Inr_iff)
    from g1 obtain level n where
      "log_NewLogger (sv_log v) n (trim_space m) (Some (log_config il v f logs (trim_space m) level)) g = Inr g1"
      by (auto simp: init_mode_def Let_def log_Fatal_def split: if_splits option.splits)
    from NewLogger_opens[OF this] open_adapter_modes have "trim_space m = ''console'' \<or> trim_space m = ''file''"
      by blast
    with Cons.IH[OF more] show ?case by auto
  qed simp
  with assms show ?thesis by (simp add: initLogging_def)
qed

lemma logging_modes_witness:
  "\<exists>g'. initLogging small_ini small_process small_defaults ''/'' no_logging = Inr g' \<and>
     trim_space ` set (log_modes small_ini small_defaults) \<subseteq> {''console'', ''file''}"
proof -
  have "\<exists>g'. initLogging small_ini small_process small_defaults ''/'' no_logging = Inr g'"
    by (rule small_logging[OF plain_small]) (simp_all add: has_section_def small_defaults_def plain_text_def raw_def)
  then show ?thesis using logging_modes by blast
qed

section \<open>Failures\<close>

text \<open>A second file that cannot be parsed is a nil pointer, not the message the code has for it.\<close>

lemma broken_file_panics:
  "\<lbrakk>config \<noteq> []; il_load il config = None\<rbrakk> \<Longrightarrow>
   loadSpecifedConfigFile il v home config f = Inl (Panic ''nil pointer dereference'')"
  by (simp add: loadSpecifedConfigFile_def Let_def)

text \<open>Postgres has a dialect and is named in the default file, but not in \<open>getEngine\<close>.\<close>

lemma postgres_refused:
  "db_Type c = ''postgres'' \<Longrightarrow> getEngine v data c = Inl (Error (OtherError ''Unknown database type: postgres''))"
  by (simp add: getEngine_def)

text \<open>A log level that is not one of the names is \<open>Trace\<close>.\<close>

lemma unknown_level_is_trace:
  "il_text il f s k \<notin> set (map fst logLevels) \<Longrightarrow> In_text il f s k ''Trace'' (map fst logLevels) = ''Trace''"
  by (simp add: In_text_def)

end
