(* ===== verification/Startup.thy ===== *)
theory Startup
  imports MigratorProps Migrations Discovery Mailer SettingsProps SocketProps
begin

text \<open>
  The start of the program: \<open>main.go\<close>, \<open>cmd/web.go\<close>, \<open>NewEngine\<close> of \<open>sqlstore.go\<close> and \<open>Construct\<close> of
  \<open>alerting/init.go\<close>. It composes the settings, the migrator, the store and the notifications; every step
  that fails ends the process. Flags, signals, tracing, request statistics and the HTTP server are
  libraries: what the start asks of them is in \<open>machine\<close>.
\<close>

section \<open>The database\<close>

text \<open>\<open>create\<close> says whether the log file of the ORM can be created.\<close>

definition SetEngine ::
  "'d engine \<Rightarrow> 'd orm \<Rightarrow> (string \<Rightarrow> rat) \<Rightarrow> (string \<Rightarrow> bool) \<Rightarrow> string \<Rightarrow> bool \<Rightarrow> string \<Rightarrow>
   (nat \<Rightarrow> go_error option) \<Rightarrow> nat \<times> 'd \<Rightarrow> unit result \<times> nat \<times> 'd" where
  "SetEngine E M pf create driver enableLog logPath rf s =
     (case NewDialect driver of
        Inl e \<Rightarrow> (Inl e, s)
      | Inr dia \<Rightarrow>
          (case Migrator_Start E dia (AddMigrations M pf) rf s of
             (Inl e, s') \<Rightarrow> (Inl (Error (OtherError (''Sqlstore::Migration failed err: '' @ error_string e))), s')
           | (Inr _, s') \<Rightarrow>
               if enableLog \<and> \<not> create logPath then
                 (Inl (Error (OtherError ''sqlstore.init(fail to create xorm.log)'')), s')
               else (Inr (), s')))"

section \<open>The program\<close>

text \<open>
  \<open>mc_tables\<close> reads the tables of the store out of the database the migrator has worked on; \<open>mc_open\<close>,
  \<open>mc_tracing\<close>, \<open>mc_listen\<close> and \<open>mc_cert\<close> say whether the connection, the tracer, the listener and the key
  pair succeed.
\<close>

record 'd machine =
  mc_ini :: ini_lib
  mc_env :: set_env
  mc_engine :: "'d engine"
  mc_orm :: "'d orm"
  mc_float :: "string \<Rightarrow> rat"
  mc_refuse :: "nat \<Rightarrow> go_error option"
  mc_open :: "string \<Rightarrow> string \<Rightarrow> bool"
  mc_create :: "string \<Rightarrow> bool"
  mc_tables :: "'d \<Rightarrow> db"
  mc_store :: env
  mc_net :: net
  mc_kafka :: bool
  mc_lru :: "int \<Rightarrow> string option"
  mc_tracing :: bool
  mc_glob :: "string \<Rightarrow> string option"
  mc_email :: "string \<Rightarrow> bool"
  mc_listen :: "string \<Rightarrow> bool"
  mc_cert :: "string \<Rightarrow> string \<Rightarrow> bool"

text \<open>\<open>fatal\<close> is \<open>log.Fatal\<close> on the error a step returned; a panic stays one.\<close>

definition fatal :: "'a result \<Rightarrow> 'a result" where
  "fatal r = (case r of Inl (Error e) \<Rightarrow> log_Fatal (error_string e) | _ \<Rightarrow> r)"

definition NewEngine :: "'d machine \<Rightarrow> loaded \<Rightarrow> Config \<Rightarrow> nat \<times> 'd \<Rightarrow> unit result \<times> nat \<times> 'd" where
  "NewEngine mc ld cf s =
     (case getEngine (mc_env mc) (ld_DataPath ld) (LoadConfig (mc_ini mc) (ld_Cfg ld) []) of
        Inl e \<Rightarrow> (fatal (Inl e), s)
      | Inr (driver, connection) \<Rightarrow>
          if \<not> mc_open mc driver connection then (log_Fatal ''Sqlstore: Fail to connect to database'', s)
          else (case SetEngine (mc_engine mc) (mc_orm mc) (mc_float mc) (mc_create mc) driver
                    (cf_Env cf = ''development'') (sv_join (mc_env mc) (ld_LogsPath ld) ''xorm.log'') (mc_refuse mc) s of
                  (r, s') \<Rightarrow> (fatal r, s')))"

text \<open>
  Alerting: \<open>Construct\<close> with the settings as they were read. The job queue makes its channels, which panics for
  a negative size, and a distributed one connects to the brokers.
\<close>

definition construct_settings :: "AlertingConfig \<Rightarrow> AlertingSettings" where
  "construct_settings ac =
     \<lparr>as_Distributed = ac_Distributed ac, as_InternalJobQueueSize = nat (ac_InternalJobQueueSize ac),
      as_ExecutorLRUSize = ac_ExecutorLRUSize ac, as_EnableScheduler = ac_EnableScheduler ac,
      as_EnableWorker = ac_EnableWorker ac\<rparr>"

definition start_alerting :: "'d machine \<Rightarrow> Config \<Rightarrow> (AlertingJob JobQueue \<times> routine list) option result" where
  "start_alerting mc cf =
     (let ac = cf_Alerting cf in
      if \<not> ac_Enabled ac then Inr None
      else if \<not> mc_tracing mc then log_Fatal ''tracing''
      else bind_res (Construct (mc_lru mc) (construct_settings ac)) (\<lambda>q.
        if ac_InternalJobQueueSize ac < 0 then Inl (Panic ''makechan: size out of range'')
        else if ac_Distributed ac \<and> \<not> mc_kafka mc then log_Fatal ''JobQueue: failed to initialize kafka''
        else Inr (Some q)))"

text \<open>
  \<open>StartServer\<close>: \<open>Register\<close> parses the addresses of the proxies, then the program listens. The result is the
  address, and whether it is served with TLS.
\<close>

definition StartServer :: "'d machine \<Rightarrow> Config \<Rightarrow> (string \<times> bool) result" where
  "StartServer mc cf =
     (let addr = cf_HttpAddr cf @ '':'' @ cf_HttpPort cf in
      if sv_url (mc_env mc) (cf_TsdbUrl cf @ ''graphite/'') = None then
        log_Fatal ''API: failed to initialize Graphite Proxy.''
      else if sv_url (mc_env mc) (cf_ElasticsearchUrl cf) = None then
        log_Fatal ''API: failed to initialize Elasticsearch Proxy.''
      else if \<not> mc_listen mc addr then log_Fatal ''listen''
      else if cf_HTTPS cf \<and> \<not> mc_cert mc (cf_CertFile cf) (cf_KeyFile cf) then log_Fatal ''Fail to start server''
      else Inr (addr, cf_HTTPS cf))"

record started =
  sd_Config :: Config
  sd_listeners :: "nat listeners"
  sd_alerting :: "(AlertingJob JobQueue \<times> routine list) option"
  sd_probes :: "int list"
  sd_addr :: string
  sd_tls :: bool

definition fatalC :: "'a cop \<Rightarrow> 'a cop" where
  "fatalC m = bindC (tryC m) (\<lambda>r. case r of Inl e \<Rightarrow> liftC (log_Fatal (error_string e)) | Inr x \<Rightarrow> returnC x)"

text \<open>The services, in the order of \<open>main\<close>; the channel of the socket controller has the number 0.\<close>

definition run_services :: "'d machine \<Rightarrow> Config \<Rightarrow> started cop" where
  "run_services mc cf =
     bindC (fatalC (InitCollectorController (0::nat) [])) (\<lambda>h.
     bindC (liftC (start_alerting mc cf)) (\<lambda>jobs.
     bindC (liftC (fatal (notifications_Init (mc_env mc) (mc_glob mc) (mc_email mc) cf))) (\<lambda>_.
     bindC (fatalC (storeC InitEndpointDiscovery)) (\<lambda>ids.
     bindC (liftC (StartServer mc cf)) (\<lambda>(addr, tls).
       returnC \<lparr>sd_Config = cf, sd_listeners = h, sd_alerting = jobs, sd_probes = ids, sd_addr = addr, sd_tls = tls\<rparr>)))))"

definition fresh_controller :: "db \<Rightarrow> controller" where
  "fresh_controller d =
     \<lparr>k_world = \<lparr>w_db = d, w_calls = 0, w_clock = 0, w_events = []\<rparr>, k_objs = [], k_cache = [], k_refresh = [],
      k_emits = 0, k_sent = []\<rparr>"

text \<open>
  \<open>main\<close>, up to the serving of requests: what has been started, the database as the migrator leaves it, and
  the controller with the tables as the services leave them.
\<close>

definition run_main ::
  "'d machine \<Rightarrow> CommandLineArgs \<Rightarrow> logging \<Rightarrow> nat \<times> 'd \<Rightarrow> started result \<times> 'd \<times> controller" where
  "run_main mc args g s =
     (case NewConfigContext (mc_ini mc) (mc_env mc) args g of
        Inl e \<Rightarrow> (fatal (Inl e), snd s, fresh_controller (mc_tables mc (snd s)))
      | Inr (ld, cf) \<Rightarrow>
          (case NewEngine mc ld cf s of
             (Inl e, s') \<Rightarrow> (Inl e, snd s', fresh_controller (mc_tables mc (snd s')))
           | (Inr _, s') \<Rightarrow>
               (case run_services mc cf ((mc_net mc)\<lparr>n_instance := cf_InstanceId cf\<rparr>) (mc_store mc)
                       (fresh_controller (mc_tables mc (snd s'))) of
                  (r, k) \<Rightarrow> (r, snd s', k))))"

section \<open>Migrations leave the log alone\<close>

text \<open>The ORM's writes to other tables do not touch the migration log.\<close>

definition orm_documented_log :: "'d engine \<Rightarrow> 'd orm \<Rightarrow> bool" where
  "orm_documented_log E M \<longleftrightarrow>
     (\<forall>e d d'. om_update_endpoint M e d = Inr d' \<longrightarrow> en_log E d' = en_log E d) \<and>
     (\<forall>m d d'. om_update_monitor M m d = Inr d' \<longrightarrow> en_log E d' = en_log E d) \<and>
     (\<forall>i r d d'. om_update_route M i r d = Inr d' \<longrightarrow> en_log E d' = en_log E d) \<and>
     (\<forall>i x d d'. om_update_settings M i x d = Inr d' \<longrightarrow> en_log E d' = en_log E d) \<and>
     (\<forall>q a d d'. om_exec M q a d = Inr d' \<longrightarrow> en_log E d' = en_log E d)"

lemma keeps_write: "(\<And>d d'. f d = Inr d' \<Longrightarrow> en_log E d' = en_log E d) \<Longrightarrow> keeps_log E (writeQ f)"
  by (auto simp: keeps_log_def writeQ_def callQ_def split: option.splits sum.splits)

lemma keeps_read: "keeps_log E (readQ f)"
  by (auto simp: keeps_log_def readQ_def callQ_def split: option.splits)

lemma keeps_each: "(\<And>x. keeps_log E (f x)) \<Longrightarrow> keeps_log E (eachQ f xs)"
  by (induction xs) (auto intro: keeps_bind keeps_basic)

lemma hooks_keep:
  assumes "orm_documented_log E M"
  shows "keeps_log E (clear_sessions M)" "keeps_log E (fill_slugs M)" "keeps_log E (fill_health M)"
    "keeps_log E (fill_types M)" "keeps_log E (build_routes M pf)" "keeps_log E (fill_tag_index M)"
    "keeps_log E (stamp_enabled_change M)"
proof -
  have w: "keeps_log E (writeQ (om_update_endpoint M e))" "keeps_log E (writeQ (om_update_monitor M m))"
    "keeps_log E (writeQ (om_update_route M i r))" "keeps_log E (writeQ (om_update_settings M i x))"
    "keeps_log E (writeQ (om_exec M q a))" for e m i r x q a
    using assms by (auto simp: orm_documented_log_def intro!: keeps_write)
  note k = keeps_bind keeps_each keeps_read keeps_basic w
  show "keeps_log E (clear_sessions M)" unfolding clear_sessions_def by (rule w)
  show "keeps_log E (fill_slugs M)" unfolding fill_slugs_def by (intro k)
  show "keeps_log E (fill_health M)" unfolding fill_health_def by (intro k) (simp add: k)
  show "keeps_log E (fill_types M)" unfolding fill_types_def by (intro k) (auto intro: k)
  show "keeps_log E (fill_tag_index M)" unfolding fill_tag_index_def by (rule w)
  show "keeps_log E (stamp_enabled_change M)"
    using w(5) unfolding stamp_enabled_change_def keeps_log_def by blast
  show "keeps_log E (build_routes M pf)"
    unfolding build_routes_def Let_def by (intro k) (auto intro!: k)
qed

lemma AddMigrations_keep:
  assumes "orm_documented_log E M"
  shows "\<forall>m\<in>set (AddMigrations M pf). keeps_log E (ExecOnSuccess m)"
proof -
  have plain: "ExecOnSuccess (AddMigration i st) = retQ ()" for i st :: "_" by (simp add: ExecOnSuccess_def AddMigration_def)
  have hook: "ExecOnSuccess (on_success f m) = f" for f m by (simp add: ExecOnSuccess_def on_success_def)
  show ?thesis
    by (simp add: AddMigrations_def migration_lists addTableIndicesMigrations_def addDropAllIndicesMigrations_def
        addTableRenameMigration_def ball_Un plain hook hooks_keep[OF assms] keeps_basic Let_def case_prod_beta)
qed

section \<open>What has been done when requests are served\<close>

lemma first_probe_reads: "first_probe org sel env w = (r, w') \<Longrightarrow> w_db w' = w_db w"
  by (auto simp: first_probe_def bindS_def query_def stmt_def failS_def liftS_def Let_def split: if_splits prod.splits sum.splits)

lemma find_defaults_found:
  "find_defaults names env w = (Inr ids, w') \<Longrightarrow> w_db w' = w_db w \<and>
     (\<forall>i\<in>set ids. \<exists>q\<in>set (t_probe (w_db w)). p_Id q = i \<and> p_OrgId q = 1 \<and> p_Name q \<in> set names)"
proof (induction names arbitrary: ids w)
  case (Cons name names)
  obtain r w1 where g: "GetProbeByName name 1 env w = (r, w1)" by fastforce
  then have f: "first_probe 1 (\<lambda>p. p_Name p = name \<and> p_OrgId p = 1) env w = (r, w1)"
    by (simp add: GetProbeByName_def getProbeByName_def)
  note d = first_probe_reads[OF f]
  show ?case
  proof (cases r)
    case (Inl e)
    with Cons.prems g have "find_defaults names env w1 = (Inr ids, w')"
      by (auto simp: bindS_def tryS_def failS_def split: fault.splits if_splits)
    from Cons.IH[OF this] d show ?thesis by auto
  next
    case (Inr p)
    with Cons.prems g obtain more_ids where rest: "find_defaults names env w1 = (Inr more_ids, w')" "ids = pd_Id p # more_ids"
      by (auto simp: bindS_def tryS_def returnS_def split: prod.splits sum.splits)
    from postD[OF post_first_probe[where P = "\<lambda>d. d = w_db w"] refl f[unfolded Inr]]
    have "\<exists>q\<in>set (t_probe (w_db w)). p_Id q = pd_Id p \<and> p_OrgId q = 1 \<and> p_Name q = name"
      using shows_probe_fields by fastforce
    with Cons.IH[OF rest(1)] rest(2) d show ?thesis by auto
  qed
qed (simp add: returnS_def)

lemma fatal_Inr [simp]: "fatal r = Inr x \<longleftrightarrow> r = Inr x"
  by (auto simp: fatal_def log_Fatal_def split: sum.splits fault.splits)

lemma fatalC_Inr: "fatalC m net env k = (Inr x, k') \<longleftrightarrow> m net env k = (Inr x, k')"
  by (auto simp: fatalC_def bindC_def tryC_def liftC_def log_Fatal_def returnC_def split: prod.splits sum.splits fault.splits)

text \<open>The steps of the services that have gone well.\<close>

lemma run_services_Inr:
  assumes "run_services mc cf net env k = (Inr st, k')"
  obtains k1 where "InitCollectorController (0::nat) [] net env k = (Inr (sd_listeners st), k1)"
    "start_alerting mc cf = Inr (sd_alerting st)"
    "notifications_Init (mc_env mc) (mc_glob mc) (mc_email mc) cf = Inr ()"
    "storeC InitEndpointDiscovery net env k1 = (Inr (sd_probes st), k')"
    "StartServer mc cf = Inr (sd_addr st, sd_tls st)" "sd_Config st = cf"
proof -
  from assms obtain h k1 where h: "fatalC (InitCollectorController (0::nat) []) net env k = (Inr h, k1)"
    by (auto simp: run_services_def bindC_def split: prod.splits sum.splits)
  with assms obtain jobs where j: "start_alerting mc cf = Inr jobs"
    by (auto simp: run_services_def bindC_def liftC_def split: prod.splits sum.splits)
  with assms h have n: "notifications_Init (mc_env mc) (mc_glob mc) (mc_email mc) cf = Inr ()"
    by (cases "fatal (notifications_Init (mc_env mc) (mc_glob mc) (mc_email mc) cf)")
      (auto simp: run_services_def bindC_def liftC_def dest: sym)
  with assms h j obtain ids k2 where i: "fatalC (storeC InitEndpointDiscovery) net env k1 = (Inr ids, k2)"
    by (auto simp: run_services_def bindC_def liftC_def fatal_def split: prod.splits sum.splits)
  obtain addr tls where s: "StartServer mc cf = Inr (addr, tls)"
    using assms h j n i by (cases "StartServer mc cf") (auto simp: run_services_def bindC_def liftC_def fatal_def)
  with assms h j n i have "st = \<lparr>sd_Config = cf, sd_listeners = h, sd_alerting = jobs, sd_probes = ids,
      sd_addr = addr, sd_tls = tls\<rparr>" "k' = k2"
    by (simp_all add: run_services_def bindC_def liftC_def fatal_def returnC_def)
  with that h j n i s show ?thesis by (simp add: fatalC_Inr)
qed

lemma NewEngine_Inr:
  assumes "NewEngine mc ld cf s = (Inr u, s')"
  obtains dia where "Migrator_Start (mc_engine mc) dia (AddMigrations (mc_orm mc) (mc_float mc)) (mc_refuse mc) s = (Inr (), s')"
  using assms
  by (auto simp: NewEngine_def SetEngine_def log_Fatal_def split: sum.splits prod.splits if_splits)

text \<open>Once everything is done, a start does not change the database, whatever fails.\<close>

lemma Start_again:
  assumes "\<forall>m\<in>set ms. mig_Id m \<in> done_ids E d" and "Migrator_Start E dia ms rf (n, d) = (r, (n', d'))"
  shows "d' = d"
proof -
  obtain x n0 d0 where g: "GetMigrationLog E rf (n, d) = (x, (n0, d0))" by (metis surj_pair)
  then have "d0 = d" by (rule GetMigrationLog_reads)
  with g assms(2) Start_skips_done[OF assms(1), of dia "[]" rf n] show ?thesis
    by (cases x) (simp_all add: Migrator_Start_def bindQ_def retQ_def)
qed

lemma NewEngine_done:
  assumes "\<forall>m\<in>set (AddMigrations (mc_orm mc) (mc_float mc)). mig_Id m \<in> done_ids (mc_engine mc) d"
    and "NewEngine mc ld cf (n, d) = (r, (n', d'))"
  shows "d' = d"
  using assms(2) Start_again[OF assms(1)]
  by (auto simp: NewEngine_def SetEngine_def split: sum.splits prod.splits if_splits)

lemma run_main_done:
  assumes "\<forall>m\<in>set (AddMigrations (mc_orm mc) (mc_float mc)). mig_Id m \<in> done_ids (mc_engine mc) d"
    and "run_main mc args g (n, d) = (r, (d', k))"
  shows "d' = d"
  using assms(2) NewEngine_done[OF assms(1)]
  by (auto simp: run_main_def split: sum.splits prod.splits)

lemma Construct_roles:
  "Construct lru as = Inr (q, rs) \<Longrightarrow>
     (DispatchJobs \<in> set rs \<or> ChanExecutor \<in> set rs) \<and> ResultHandler \<in> set rs \<and>
     (\<not> as_Distributed as \<longrightarrow> {DispatchJobs, ChanExecutor} \<subseteq> set rs \<and> (\<exists>c. q = Queues.Local c \<and> ch_items c = []))"
  by (auto simp: Construct_def NewJobQueue_def make_chan_def split: option.splits if_splits)

lemma controller_subscribed:
  "\<forall>t\<in>set controller_events. GetListeners (fold (\<lambda>t. Handlers_Add t (0::nat)) controller_events []) t = [0]"
  by code_simp

lemma services_config: "run_services mc cf net env k = (Inr st, k') \<Longrightarrow> sd_Config st = cf"
  by (erule run_services_Inr) simp

text \<open>The services alone.\<close>

definition alerting_ready :: "Config \<Rightarrow> started \<Rightarrow> bool" where
  "alerting_ready cf st \<longleftrightarrow> (case sd_alerting st of None \<Rightarrow> \<not> ac_Enabled (cf_Alerting cf)
     | Some (q, rs) \<Rightarrow> (DispatchJobs \<in> set rs \<or> ChanExecutor \<in> set rs) \<and> ResultHandler \<in> set rs \<and>
         (\<not> ac_Distributed (cf_Alerting cf) \<longrightarrow> {DispatchJobs, ChanExecutor} \<subseteq> set rs \<and>
            (\<exists>c. q = Queues.Local c \<and> ch_items c = [])))"

lemma services_ready:
  assumes run: "run_services mc cf net env k = (Inr st, k')" and env: "\<forall>n. \<not> faults env n"
    and tables: "online_inv (w_db (k_world k))" "\<forall>s\<in>set (t_probe_session (w_db (k_world k))). s_ProbeId s \<noteq> 0"
  shows "online_inv (w_db (k_world k'))"
    "t_probe_session (w_db (k_world k')) = filter (\<lambda>s. n_instance net \<noteq> [] \<and> s_InstanceId s \<noteq> n_instance net)
       (t_probe_session (w_db (k_world k)))"
    "\<forall>t\<in>set controller_events. GetListeners (sd_listeners st) t = [0]"
    "\<forall>i\<in>set (sd_probes st). \<exists>q\<in>set (t_probe (w_db (k_world k'))). p_Id q = i \<and> p_OrgId q = 1 \<and> p_Name q \<in> set default_names"
    "alerting_ready cf st" "mc_email mc (sm_FromAddress (cf_Smtp cf))" "sd_Config st = cf"
proof -
  from run_services_Inr[OF run] obtain k1 where
    i: "InitCollectorController (0::nat) [] net env k = (Inr (sd_listeners st), k1)"
    and a: "start_alerting mc cf = Inr (sd_alerting st)"
    and m: "notifications_Init (mc_env mc) (mc_glob mc) (mc_email mc) cf = Inr ()"
    and p: "storeC InitEndpointDiscovery net env k1 = (Inr (sd_probes st), k')" and cf: "sd_Config st = cf"
    by blast
  from i obtain u w where cl: "ClearProbeSessions (n_instance net) env (k_world k) = (Inr u, w)"
    and k1: "k_world k1 = w" and h: "sd_listeners st = fold (\<lambda>t. Handlers_Add t 0) controller_events []"
    by (auto simp: InitCollectorController_def bindC_def thenC_def askC_def storeC_def returnC_def split: prod.splits sum.splits)
  have "commits (clearProbeSessions (n_instance net)) env (k_world k)" using env by (simp add: commits_def)
  from ClearProbeSessions_clears[OF tables cl this] have w: "online_inv (w_db w)" "t_probe_session (w_db w) =
      filter (\<lambda>r. \<not> (n_instance net = [] \<or> s_InstanceId r = n_instance net)) (t_probe_session (w_db (k_world k)))"
    by simp_all
  from p k1 obtain w' where "find_defaults default_names env w = (Inr (sd_probes st), w')" "k_world k' = w'"
    by (auto simp: storeC_def InitEndpointDiscovery_def split: prod.splits)
  with find_defaults_found have f: "w_db (k_world k') = w_db w" "\<forall>i\<in>set (sd_probes st). \<exists>q\<in>set (t_probe (w_db w)).
      p_Id q = i \<and> p_OrgId q = 1 \<and> p_Name q \<in> set default_names" by blast+
  from w f show "online_inv (w_db (k_world k'))"
    "t_probe_session (w_db (k_world k')) = filter (\<lambda>s. n_instance net \<noteq> [] \<and> s_InstanceId s \<noteq> n_instance net)
       (t_probe_session (w_db (k_world k)))"
    "\<forall>i\<in>set (sd_probes st). \<exists>q\<in>set (t_probe (w_db (k_world k'))). p_Id q = i \<and> p_OrgId q = 1 \<and> p_Name q \<in> set default_names"
    by simp_all
  show "\<forall>t\<in>set controller_events. GetListeners (sd_listeners st) t = [0]" using controller_subscribed h by simp
  show "alerting_ready cf st"
  proof (cases "ac_Enabled (cf_Alerting cf)")
    case True
    with a obtain q rs where q: "Construct (mc_lru mc) (construct_settings (cf_Alerting cf)) = Inr (q, rs)"
      "sd_alerting st = Some (q, rs)"
      by (auto simp: start_alerting_def log_Fatal_def bind_res_Inr_iff Let_def split: if_splits)
    from Construct_roles[OF q(1)] q(2) show ?thesis by (simp add: alerting_ready_def construct_settings_def)
  next
    case False
    with a have "sd_alerting st = None" by (simp add: start_alerting_def)
    with False show ?thesis by (simp add: alerting_ready_def)
  qed
  show "mc_email mc (sm_FromAddress (cf_Smtp cf))"
    using m by (auto simp: notifications_Init_def split: option.splits if_splits)
  show "sd_Config st = cf" by (rule cf)
qed


section \<open>A start\<close>

text \<open>
  A database that has been migrated, with the session of a probe of this instance, and a configuration of
  four keys.
\<close>

definition start_defaults :: ini_file where
  "start_defaults = [(''DEFAULT'', [(''instance_id'', ''i'')]), (''database'', [(''type'', ''sqlite3'')]), (''log.console'', [])]"

definition start_ini :: ini_lib where
  "start_ini = small_ini\<lparr>il_load := (\<lambda>p. if p = ''conf/defaults.ini'' then Some start_defaults else None)\<rparr>"

definition idle_orm :: "(string list \<times> MigrationLog list option) orm" where
  "idle_orm =
     \<lparr>om_endpoints = (\<lambda>d. []), om_update_endpoint = (\<lambda>e d. Inr d), om_monitors = (\<lambda>d. []),
      om_update_monitor = (\<lambda>m d. Inr d), om_collectors = (\<lambda>d. []), om_tags = (\<lambda>d. []), om_checks = (\<lambda>d. []),
      om_update_route = (\<lambda>i r d. Inr d), om_update_settings = (\<lambda>i x d. Inr d), om_exec = (\<lambda>q a d. Inr d),
      om_now = int\<rparr>"

definition migrated_db :: "string list \<times> MigrationLog list option" where
  "migrated_db = ([], Some (map (\<lambda>m. log_record (mig_Id m) [] 0 None) (AddMigrations idle_orm (\<lambda>s. 0))))"

definition start_tables :: db where
  "start_tables = live_db\<lparr>t_probe := [probe7\<lparr>p_OrgId := 1, p_Name := ''London'', p_Online := True\<rparr>]\<rparr>"

definition start_machine :: "(string list \<times> MigrationLog list option) machine" where
  "start_machine =
     \<lparr>mc_ini = start_ini, mc_env = small_process, mc_engine = recorder, mc_orm = idle_orm, mc_float = (\<lambda>s. 0),
      mc_refuse = (\<lambda>n. None), mc_open = (\<lambda>d c. True), mc_create = (\<lambda>p. True), mc_tables = (\<lambda>d. start_tables),
      mc_store = plain_env, mc_net = quiet_net, mc_kafka = True, mc_lru = (\<lambda>n. None), mc_tracing = True, mc_glob = (\<lambda>p. None),
      mc_email = (\<lambda>a. True), mc_listen = (\<lambda>a. True), mc_cert = (\<lambda>c k. True)\<rparr>"

definition start_args :: CommandLineArgs where
  "start_args = \<lparr>cl_Config = [], cl_HomePath = [], cl_Args = []\<rparr>"

lemma start_loads:
  "\<exists>ld. loadConfiguration start_ini small_process ''/'' start_args no_logging = Inr ld \<and> ld_Cfg ld = start_defaults"
proof -
  have il: "plain_ini start_ini" using plain_small by (simp add: plain_ini_def start_ini_def)
  have l: "\<exists>g'. initLogging start_ini small_process start_defaults home g = Inr g'" for home g
    by (rule small_logging[OF il]) (simp_all add: has_section_def start_defaults_def plain_text_def raw_def)
  obtain g1 g2 where g: "initLogging start_ini small_process start_defaults ''/'' no_logging = Inr g1"
    "initLogging start_ini small_process start_defaults ''/'' g1 = Inr g2" using l by blast
  have df: "il_load start_ini (sv_join small_process ''/'' ''conf/defaults.ini'') = Some start_defaults"
    by (simp add: start_ini_def small_process_def)
  have "getCommandLineProperties [] = Inr []" "applyCommandLineDefaultProperties [] start_defaults = (start_defaults, [])"
    "loadSpecifedConfigFile start_ini small_process ''/'' [] start_defaults = Inr (start_defaults, [])"
    "applyEnvVariableOverrides small_process start_defaults = (start_defaults, [])"
    "applyCommandLineProperties [] (start_defaults, []) = (start_defaults, [])"
    "evalConfigValues small_process start_defaults = start_defaults"
    by code_simp+
  with g df show ?thesis by (simp add: loadConfiguration_def start_args_def Let_def)
qed

definition start_cf :: Config where
  "start_cf = projr (read_settings start_ini small_process start_defaults ''/'')"

definition start_run :: "started result \<times> controller" where
  "start_run = run_services start_machine start_cf (quiet_net\<lparr>n_instance := ''i''\<rparr>) plain_env (fresh_controller start_tables)"

lemma start_cf_facts:
  "is_ok (read_settings start_ini small_process start_defaults ''/'')" "cf_InstanceId start_cf = ''i''" "is_ok (fst start_run)"
  "sd_probes (projr (fst start_run)) = [7]"
  by code_simp+

lemma start_tables_ok:
  "online_inv start_tables" "\<forall>s\<in>set (t_probe_session start_tables). s_ProbeId s \<noteq> 0"
  "map s_InstanceId (t_probe_session start_tables) = [''i'']"
  by (simp_all add: online_inv_def unique_on_def start_tables_def live_db_def live_session_def probe7_def)

lemma start_done: "\<forall>m\<in>set (AddMigrations idle_orm (\<lambda>s. 0)). mig_Id m \<in> done_ids recorder migrated_db"
  by (force simp: done_ids_def recorder_def migrated_db_def log_record_def)

lemma start_engine:
  assumes "ld_Cfg ld = start_defaults"
  shows "\<exists>n. NewEngine start_machine ld start_cf (0, migrated_db) = (Inr (), (n, migrated_db))"
proof -
  have "db_Type (LoadConfig start_ini start_defaults []) = ''sqlite3''"
    by (simp add: LoadConfig_def start_ini_def small_ini_def plain_text_def raw_def start_defaults_def)
  then obtain c where "getEngine small_process (ld_DataPath ld) (LoadConfig start_ini (ld_Cfg ld) []) = Inr (''sqlite3'', c)"
    using assms by (simp add: getEngine_def)
  moreover have "NewDialect ''sqlite3'' = Inr Sqlite3" by (simp add: NewDialect_def MYSQL_def SQLITE_def)
  moreover have "\<exists>n. Migrator_Start recorder Sqlite3 (AddMigrations idle_orm (\<lambda>s. 0)) (\<lambda>n. None) (0, migrated_db) = (Inr (), (n, migrated_db))"
    using Start_skips_done[OF start_done, of Sqlite3 "[]" "\<lambda>n. None" 0]
    by (simp add: Migrator_Start_def GetMigrationLog_def log_table_exists_def find_log_def bindQ_def retQ_def callQ_def
        recorder_def migrated_db_def)
  ultimately show ?thesis by (auto simp: NewEngine_def SetEngine_def start_machine_def fatal_def)
qed

lemma start_runs:
  "\<exists>st k. run_main start_machine start_args no_logging (0, migrated_db) = (Inr st, (migrated_db, k)) \<and> (Inr st, k) = start_run \<and>
     sd_Config st = start_cf"
proof -
  obtain ld where ld: "loadConfiguration start_ini small_process ''/'' start_args no_logging = Inr ld" "ld_Cfg ld = start_defaults"
    using start_loads by blast
  have "setHomePath small_process start_args = ''/''" by (simp add: setHomePath_def start_args_def small_process_def)
  moreover have "read_settings start_ini small_process start_defaults ''/'' = Inr start_cf"
    using start_cf_facts(1) by (cases "read_settings start_ini small_process start_defaults ''/''") (simp_all add: start_cf_def)
  ultimately have c: "NewConfigContext start_ini small_process start_args no_logging = Inr (ld, start_cf)"
    using ld by (simp add: NewConfigContext_def)
  obtain n where e: "NewEngine start_machine ld start_cf (0, migrated_db) = (Inr (), (n, migrated_db))"
    using start_engine[OF ld(2)] by blast
  obtain st k where r: "start_run = (Inr st, k)" using run_parts[OF start_cf_facts(3)] by blast
  have "run_main start_machine start_args no_logging (0, migrated_db) = (Inr st, (migrated_db, k))"
    using c e r start_cf_facts(2) by (simp add: run_main_def start_run_def) (simp add: start_machine_def)
  moreover have "sd_Config st = start_cf"
    using r unfolding start_run_def by (rule services_config)
  ultimately show ?thesis using r by auto
qed


end
