(* ===== verification/Spec2Isabelle.thy ===== *)
theory Spec2Isabelle
  imports CheckValidation EndpointProps CheckProps ResultProps ProbeProps QuotaProps AlertHandling
    EventBus ApiProps MigrationProps RouteMigration Proxies KafkaBus Startup
begin

text \<open>
  worldPing API: a Go service that stores endpoints and the checks to run on them, hands the checks
  to remote probes over web sockets, and raises alerts from the results the probes publish. This
  library models its core as HOL functions translated from the sources under \<open>src/pkg\<close> and proves
  what the operations guarantee.

  \<^bold>\<open>How the program fits together.\<close> The HTTP API validates a request (\<open>models\<close>) and calls the store
  (\<open>services/sqlstore\<close>), whose writers run in a transaction, keep a route index that says which
  probe runs which check, and publish an event (\<open>events\<close>) that the socket controller turns into
  messages to the probes. Every second the alert dispatcher (\<open>alerting/schedule.go\<close>) asks the store
  for the checks that are due, the executor (\<open>executor.go\<close>) decides their state from a graphite
  query, and the result handler (\<open>check_state.go\<close>) writes it back and mails a change.

  \<^bold>\<open>How the code is represented.\<close>
  \<^item> A function that returns \<open>(T, error)\<close> is a function into \<open>'a result\<close> (Prelude): a value, an
    \<open>Error\<close> or a \<open>Panic\<close>. Structs are records, pointers that may be nil are options, Go maps are
    association lists with distinct keys, \<open>int64\<close> arithmetic that may wrap is wrapped explicitly.
  \<^item> A store function is an \<open>'a op\<close> (Store): it takes the environment (which statements the driver
    refuses, the clock, the key generator, the ORM's merge of a bean into a row) and the world
    (tables, counters, published events) and returns a result and the next world. \<open>transact\<close> is
    \<open>newSession\<close>, \<open>Complete\<close> and \<open>Cleanup\<close>: a failed body is rolled back, a refused commit is
    rolled back silently. A theorem that holds for every environment holds for every pattern of
    driver failures; the ones that rely on the ORM's documentation say so (\<open>orm_documented\<close>).
  \<^item> Loops are recursive functions with a termination proof; the retry loop that may not end is a
    \<open>partial_function (option)\<close>. Concurrent loops (the dispatcher, a channel in use) are
    \<open>inductive\<close> step relations; their invariants are proved by rule induction on reachability.

  \<^bold>\<open>Theories.\<close>
  \<^item> Prelude, GoText, Models: results, Go integers and maps, the \<open>strings\<close> and \<open>strconv\<close> functions the
    code uses, and the structs of \<open>models/endpoint.go\<close>, \<open>probe.go\<close>, \<open>quotas.go\<close>, \<open>errors.go\<close>,
    \<open>alerting.go\<close> with slugs and the decoding of routes.
  \<^item> CheckValidation: \<open>Check.Validate\<close> and the four settings validators; acceptance is equivalent to
    an independent specification and does not depend on the order Go walks its maps in.
  \<^item> Codec, Events: the JSON of endpoints, routes and probes; the event types and raw events.
  \<^item> Store, EndpointRead, EndpointStore, CheckQueries: \<open>shared.go\<close> and \<open>endpoint.go\<close>. EndpointInv and
    EndpointUpdate prove the store invariant (the route index agrees with the route of every check)
    through each piece of the writers; EndpointProps, CheckProps and ResultProps state what the
    writers, the routing queries and the state updates guarantee.
  \<^item> ProbeStore, ProbeInv, ProbeProps: \<open>probe.go\<close>, ownership, tags per organisation, sessions and the
    online flag.
  \<^item> QuotaStore, QuotaProps: \<open>quota.go\<close>, \<open>usage.go\<close>, \<open>alert_scheduler_value.go\<close> and the quota
    middleware, whose decision is proved inside the locale \<open>quota_source\<close> and instantiated to the
    store's queries.
  \<^item> AlertEval, Queues, Alerting, AlertProps, AlertHandling: the executor's decision against a
    reference on runs of bad points, bounded queues (locale \<open>bounded_queue\<close>), the dispatcher, the
    execution of jobs, the result handler and the mails.
  \<^item> Monitors: \<open>models/monitor.go\<close>, \<open>v1Api.go\<close>: the version 1 view of a check, its conversion back and
    the table of monitor types, which is proved to name the settings the validators accept.
  \<^item> EventBus, KafkaBus: \<open>events.go\<close> and \<open>pubsub.go\<close> as step relations, without and with Kafka. Under every
    interleaving a published event reaches each listener of its type exactly once; with Kafka this holds
    for what the topic holds since the start, and a published event is in it unless the producer has
    reported it lost. The receiving side of KafkaBus is the bus of EventBus on another channel.
  \<^item> Sockets, SocketProps: \<open>api/sockets\<close> and \<open>socketio.go\<close>. A controller has its store, its socket
    objects, its cache and what it has sent; \<open>'a cop\<close> runs store operations inside it. The locale
    \<open>read_query\<close> is what the controller needs of a query and is instantiated to the store's. What a
    probe ends up with after an update event is what the new endpoint asks for, and it is what a
    refresh would give it.
  \<^item> Api, ApiProps: authentication and roles (\<open>middleware.go\<close>), the answers (\<open>rbody.go\<close>), every
    handler of versions 1 and 2, and the routing table of \<open>api.go\<close> as the function \<open>handlers\<close> from a
    request to its chain; \<open>serve\<close> is a request from its headers to its answer. \<open>reads_only\<close> and
    \<open>confined\<close> are calculi over store operations by which the two theorems on all requests are
    proved handler by handler.

  \<^item> Dialects, Migrator, Migrations, with MigratorProps, MigrationProps and RouteMigration:
    \<open>sqlstore/migrator\<close> and \<open>sqlstore/migrations\<close>. Rendering SQL writes into the columns and indexes
    it is given, so the functions return them; a session counts the calls of the driver, any of which
    may be refused. The lemmas show that a start is repeatable and stops cleanly, that the unique
    indexes of the final schema are the keys of the store's model, and what the code that moves the
    old monitors to checks leaves.
  \<^item> RemoteIp: \<open>util/remoteIp.go\<close>, on the bytes of \<open>net.IP\<close>. What the scan of the forwarding headers
    takes is characterised, with the table of private networks shown to play no part in it.
  \<^item> Decode, Search, Proxies: the decoding of JSON into a struct, the rewriting of a search request of
    \<open>elasticsearch/elasticsearch.go\<close> and the three proxies of \<open>api\<close>. Proxies also states that whatever
    is sent, every query that reaches elasticsearch is confined to the organisation and the public
    documents.
  \<^item> Discovery: \<open>services/endpointdiscovery\<close>. The resolver, the HTTP client and the DNS client are
    functions in \<open>disco_lib\<close>; the lemmas say which zone the suggested name servers are of and that
    the suggestions pass the validation of checks, up to the HTTP ones without a path.
  \<^item> LogFile, Logging: \<open>log/*.go\<close>. The operating system is the record \<open>os\<close> (files by name, the open
    handles, the refused calls, the clock); the log file writer is a function on it and rotation, line
    counts and deletion are proved against the contents of the files. The queue of a logger is a step
    relation that instantiates the locale of channels of Queues.
  \<^item> Settings, SettingsProps: \<open>setting/*.go\<close> with the configuration of the store. \<open>ini_lib\<close> is the ini
    library by its documented operations; what a key holds after the files, the command line and the
    environment is stated as one order of precedence.
  \<^item> Mailer: \<open>services/notifications\<close>. An SMTP session is the list of calls the code makes on the
    client, each of which the server may refuse.
  \<^item> Startup: \<open>main.go\<close>, \<open>cmd/web.go\<close>, \<open>NewEngine\<close> and \<open>Construct\<close>. It composes settings, migrator, store,
    sockets, alerting and notifications in the order of \<open>main\<close>, and states what holds once requests are
    served.

  \<^bold>\<open>Bounds.\<close> The retry loop of a result has the three attempts of the code. The freshness property
  assumes a frequency of at most 3000000000 seconds, so that no duration overflows. Nothing else is
  bounded: tables, queues and responses have any size.

  \<^bold>\<open>Not modelled.\<close> Counters, traces and request statistics, which nothing reads back; signals and the HTTP
  server; the Kafka, macaron and socket.io libraries with the binding of request bodies; the texts of the
  mail templates (a parameter); the defaults that the ini library stores when a key is read; the mock
  engine and the table cleaner of the store's tests.
\<close>

end
